(* ===== verification/Go_Prelude.thy ===== *)
theory Go_Prelude
  imports Main "HOL-Library.Sublist" "HOL-Library.Multiset"
begin

text \<open>
  Shared vocabulary of the development: results with errors, the pieces of Go's
  standard library that the agent uses on strings and numbers (\<open>strings\<close>,
  \<open>strconv\<close>, \<open>path/filepath\<close>), slices that may be nil, and the list lemmas the
  components share.  Strings are byte strings; white space is ASCII white space.
\<close>

named_theorems go_string \<open>evaluation and characterisation of string functions\<close>

type_synonym ('e, 'a) result = "'e + 'a"

definition is_ok :: "('e, 'a) result \<Rightarrow> bool" where
  "is_ok r = (case r of Inl _ \<Rightarrow> False | Inr _ \<Rightarrow> True)"

lemma is_ok_simps [simp]: "is_ok (Inr a)" "\<not> is_ok (Inl e)"
  by (simp_all add: is_ok_def)

lemma is_ok_iff: "is_ok r \<longleftrightarrow> (\<exists>a. r = Inr a)"
  by (cases r) auto

section \<open>Slices that may be nil\<close>

text \<open>A Go slice is nil or a sequence; appending to a nil slice allocates it.\<close>

type_synonym 'a slice = "'a list option"

definition elems :: "'a slice \<Rightarrow> 'a list" where
  "elems s = (case s of None \<Rightarrow> [] | Some xs \<Rightarrow> xs)"

definition appended :: "'a list \<Rightarrow> 'a slice" where
  "appended xs = (if xs = [] then None else Some xs)"

lemma elems_simps [simp]: "elems None = []" "elems (Some xs) = xs"
  by (simp_all add: elems_def)

lemma elems_appended [simp]: "elems (appended xs) = xs"
  by (simp add: appended_def)

lemma appended_None [simp]: "appended xs = None \<longleftrightarrow> xs = []"
  by (simp add: appended_def)

section \<open>Strings\<close>

fun go_contains :: "string \<Rightarrow> string \<Rightarrow> bool" where
  "go_contains [] p = (p = [])"
| "go_contains (c # cs) p = (prefix p (c # cs) \<or> go_contains cs p)"

lemma go_contains_iff [go_string]: "go_contains s p \<longleftrightarrow> (\<exists>a b. s = a @ p @ b)"
proof (induction s)
  case Nil
  then show ?case by auto
next
  case (Cons c cs)
  show ?case
  proof
    assume "go_contains (c # cs) p"
    then consider "prefix p (c # cs)" | "\<exists>a b. cs = a @ p @ b"
      using Cons.IH by auto
    then show "\<exists>a b. c # cs = a @ p @ b"
    proof cases
      case 1
      then obtain b where "c # cs = [] @ p @ b" by (auto simp: prefix_def)
      then show ?thesis by blast
    next
      case 2
      then obtain a b where "c # cs = (c # a) @ p @ b" by auto
      then show ?thesis by blast
    qed
  next
    assume "\<exists>a b. c # cs = a @ p @ b"
    then obtain a b where ab: "c # cs = a @ p @ b" by blast
    show "go_contains (c # cs) p"
    proof (cases a)
      case Nil
      with ab have "prefix p (c # cs)" by (auto simp: prefix_def)
      then show ?thesis by simp
    next
      case (Cons d ds)
      with ab have "cs = ds @ p @ b" by simp
      then show ?thesis using Cons.IH by auto
    qed
  qed
qed

lemma go_contains_refl [simp]: "go_contains s s"
  by (auto simp: go_contains_iff intro: exI [of _ "[]"])

definition go_space :: "char \<Rightarrow> bool" where
  "go_space c = (c \<in> {CHR '' '', CHR 0x09, CHR 0x0A, CHR 0x0B, CHR 0x0C, CHR 0x0D})"

definition trim_space :: "string \<Rightarrow> string" where
  "trim_space s = rev (dropWhile go_space (rev (dropWhile go_space s)))"

fun split_char :: "char \<Rightarrow> string \<Rightarrow> string list" where
  "split_char c [] = [[]]"
| "split_char c (x # xs) =
     (if x = c then [] # split_char c xs
      else (case split_char c xs of [] \<Rightarrow> [[x]] | y # ys \<Rightarrow> (x # y) # ys))"

lemma split_char_nonempty [simp]: "split_char c s \<noteq> []"
  by (induction s) (auto split: list.splits)

lemma split_char_no_sep [go_string]: "c \<notin> set s \<Longrightarrow> split_char c s = [s]"
  by (induction s) auto

lemma split_char_append_sep [go_string]:
  "c \<notin> set a \<Longrightarrow> split_char c (a @ c # b) = a # split_char c b"
  by (induction a) auto

text \<open>The part of a string before the first occurrence of a byte, the whole string if there is none.\<close>

definition before_char :: "char \<Rightarrow> string \<Rightarrow> string" where
  "before_char c s = takeWhile (\<lambda>x. x \<noteq> c) s"

lemma before_char_append [go_string]:
  "c \<notin> set a \<Longrightarrow> before_char c (a @ c # b) = a"
  by (induction a) (auto simp: before_char_def)

lemma before_char_no_sep [go_string]: "c \<notin> set s \<Longrightarrow> before_char c s = s"
  by (induction s) (auto simp: before_char_def)

lemma before_char_free [simp]: "c \<notin> set (before_char c s)"
  by (auto simp: before_char_def dest: set_takeWhileD)

text \<open>\<open>filepath.Base\<close>: the last element of a path, trailing slashes removed.\<close>

definition path_base :: "string \<Rightarrow> string" where
  "path_base s =
     (if s = [] then ''.''
      else (let t = rev (dropWhile (\<lambda>c. c = CHR ''/'') (rev s))
            in if t = [] then ''/'' else rev (takeWhile (\<lambda>c. c \<noteq> CHR ''/'') (rev t))))"

text \<open>\<open>filepath.Join\<close> of a clean directory and a plain file name.\<close>

definition path_join :: "string \<Rightarrow> string \<Rightarrow> string" where
  "path_join d n = d @ ''/'' @ n"

lemma path_base_join [go_string]:
  assumes "n \<noteq> []" and "CHR ''/'' \<notin> set n"
  shows "path_base (path_join d n) = n"
proof -
  have ne: "rev n \<noteq> []" "\<forall>c \<in> set (rev n). c \<noteq> CHR ''/''"
    using assms by auto
  then have hd: "hd (rev n) \<noteq> CHR ''/''" by (metis hd_in_set)
  have "dropWhile (\<lambda>c. c = CHR ''/'') (rev n @ CHR ''/'' # rev d) = rev n @ CHR ''/'' # rev d"
    using ne(1) hd by (cases "rev n") auto
  moreover have "takeWhile (\<lambda>c. c \<noteq> CHR ''/'') (rev n @ CHR ''/'' # rev d) = rev n"
    using ne(2) by (subst takeWhile_append2) auto
  ultimately show ?thesis
    using assms(1) by (simp add: path_base_def path_join_def Let_def)
qed

section \<open>Decimal numbers\<close>

definition digit_char :: "nat \<Rightarrow> char" where
  "digit_char n = char_of (48 + n)"

fun dec_nat :: "nat \<Rightarrow> string" where
  "dec_nat n = (if n < 10 then [digit_char n] else dec_nat (n div 10) @ [digit_char (n mod 10)])"

declare dec_nat.simps [simp del]

definition int_str :: "int \<Rightarrow> string" where
  "int_str i = (if i < 0 then CHR ''-'' # dec_nat (nat (- i)) else dec_nat (nat i))"

fun read_digits :: "nat \<Rightarrow> string \<Rightarrow> nat option" where
  "read_digits acc [] = Some acc"
| "read_digits acc (c # cs) =
     (if 48 \<le> (of_char c :: nat) \<and> (of_char c :: nat) \<le> 57
      then read_digits (10 * acc + (of_char c - 48)) cs else None)"

definition parse_nat :: "string \<Rightarrow> nat option" where
  "parse_nat s = (if s = [] then None else read_digits 0 s)"

text \<open>\<open>strconv.ParseInt(s, 10, 64)\<close>.\<close>

definition parse_int64 :: "string \<Rightarrow> int option" where
  "parse_int64 s =
     (let neg = (s \<noteq> [] \<and> hd s = CHR ''-'');
          body = (if s \<noteq> [] \<and> (hd s = CHR ''-'' \<or> hd s = CHR ''+'') then tl s else s)
      in case parse_nat body of
           None \<Rightarrow> None
         | Some n \<Rightarrow>
             (let i = (if neg then - int n else int n)
              in if - (2 ^ 63) \<le> i \<and> i < 2 ^ 63 then Some i else None))"

lemma of_char_digit [simp]: "n < 10 \<Longrightarrow> (of_char (digit_char n) :: nat) = 48 + n"
  by (simp add: digit_char_def)

lemma read_digits_append:
  "read_digits acc (a @ b) = (case read_digits acc a of None \<Rightarrow> None | Some v \<Rightarrow> read_digits v b)"
  by (induction a arbitrary: acc) auto

lemma dec_nat_nonempty [simp]: "dec_nat n \<noteq> []"
  by (subst dec_nat.simps) auto

lemma dec_nat_digits: "c \<in> set (dec_nat n) \<Longrightarrow> \<exists>d < 10. c = digit_char d"
proof (induction n rule: dec_nat.induct)
  case (1 n)
  show ?case
  proof (cases "n < 10")
    case True
    with "1.prems" show ?thesis by (subst (asm) dec_nat.simps) auto
  next
    case False
    with "1.prems" have "c \<in> set (dec_nat (n div 10)) \<or> c = digit_char (n mod 10)"
      by (subst (asm) dec_nat.simps) auto
    then show ?thesis
    proof
      assume "c \<in> set (dec_nat (n div 10))"
      with "1.IH" False show ?thesis by blast
    next
      assume "c = digit_char (n mod 10)"
      then show ?thesis by (intro exI [of _ "n mod 10"]) simp
    qed
  qed
qed

lemma digit_char_code: "c \<in> set (dec_nat n) \<Longrightarrow> 48 \<le> (of_char c :: nat) \<and> (of_char c :: nat) \<le> 57"
  using dec_nat_digits by fastforce

lemma dec_nat_no_char [go_string]:
  assumes "(of_char c :: nat) < 48 \<or> 57 < (of_char c :: nat)"
  shows "c \<notin> set (dec_nat n)"
  using assms digit_char_code [of c n] by linarith

lemma read_digits_dec_nat [simp]: "read_digits 0 (dec_nat n) = Some n"
proof (induction n rule: dec_nat.induct)
  case (1 n)
  show ?case
  proof (cases "n < 10")
    case True
    then show ?thesis by (subst dec_nat.simps) simp
  next
    case False
    with "1.IH" have "read_digits 0 (dec_nat (n div 10)) = Some (n div 10)" by simp
    with False show ?thesis by (subst dec_nat.simps) (simp add: read_digits_append)
  qed
qed

lemma parse_nat_dec_nat [simp]: "parse_nat (dec_nat n) = Some n"
  by (simp add: parse_nat_def)

lemma hd_dec_nat: "hd (dec_nat n) \<noteq> CHR ''-''" "hd (dec_nat n) \<noteq> CHR ''+''"
proof -
  have "48 \<le> (of_char (hd (dec_nat n)) :: nat)"
    using digit_char_code [OF hd_in_set [OF dec_nat_nonempty]] by blast
  then show "hd (dec_nat n) \<noteq> CHR ''-''" "hd (dec_nat n) \<noteq> CHR ''+''"
    by auto
qed

lemma parse_int64_int_str:
  assumes "- (2 ^ 63) \<le> i" and "i < 2 ^ 63"
  shows "parse_int64 (int_str i) = Some i"
  using assms hd_dec_nat [of "nat i"]
  by (cases "i < 0") (simp_all add: parse_int64_def int_str_def Let_def)

lemma int_str_inj: "int_str i = int_str j \<Longrightarrow> i = j"
proof -
  have dec_inj: "dec_nat a = dec_nat b \<Longrightarrow> a = b" for a b
    by (metis option.inject parse_nat_dec_nat)
  assume eq: "int_str i = int_str j"
  show ?thesis
  proof (cases "i < 0"; cases "j < 0")
    assume "i < 0" "j < 0"
    with eq dec_inj [of "nat (- i)" "nat (- j)"] show ?thesis by (simp add: int_str_def)
  next
    assume "i < 0" "\<not> j < 0"
    with eq hd_dec_nat(1) [of "nat j"] show ?thesis
      by (auto simp: int_str_def dest: arg_cong [of _ _ hd])
  next
    assume "\<not> i < 0" "j < 0"
    with eq hd_dec_nat(1) [of "nat i"] show ?thesis
      by (auto simp: int_str_def dest: arg_cong [of _ _ hd])
  next
    assume "\<not> i < 0" "\<not> j < 0"
    with eq dec_inj [of "nat i" "nat j"] show ?thesis by (simp add: int_str_def)
  qed
qed

text \<open>Left padding with zeroes, as fixed-width time layouts print.\<close>

definition zero_pad :: "nat \<Rightarrow> string \<Rightarrow> string" where
  "zero_pad w s = replicate (w - length s) (CHR ''0'') @ s"

section \<open>Lists\<close>

lemma mset_filter_split: "mset (filter P xs) + mset (filter (\<lambda>x. \<not> P x) xs) = mset xs"
  by (induction xs) auto

lemma sum_list_filter_le: "sum_list (map f (filter P xs)) \<le> (sum_list (map f xs) :: nat)"
  by (induction xs) auto

end
