(* ===== verification/Metric_Model.thy ===== *)
theory Metric_Model
  imports Go_Prelude "HOL-Library.Finite_Map" "HOL-Library.Char_ord" "HOL-Library.List_Lexorder"
begin

text \<open>
  The metric record of \<open>app/types/metric.go\<close>, its two serialised forms (the Parquet row and
  the JSON object) and the hoisting of the \<open>__name__\<close> and \<open>node\<close> labels.

  Label maps are finite maps, with \<open>None\<close> for Go's nil map.  An instant is its number of
  nanoseconds since the epoch, in UTC.  \<open>encoding/json\<close> is used at the level of the JSON tree:
  marshalling a map gives an object with its keys in ascending order, and reading an object
  takes the last of several fields with one name.
\<close>

type_synonym str_map = "(string, string) fmap"
type_synonym labels = "str_map option"

definition label_map :: "labels \<Rightarrow> str_map" where
  "label_map ls = (case ls of None \<Rightarrow> fmempty | Some f \<Rightarrow> f)"

lemma label_map_simps [simp]: "label_map None = fmempty" "label_map (Some f) = f"
  by (simp_all add: label_map_def)

text \<open>Indexing a Go map: the zero value where the key is missing.\<close>

definition label_at :: "labels \<Rightarrow> string \<Rightarrow> string" where
  "label_at ls k = (case fmlookup (label_map ls) k of None \<Rightarrow> [] | Some v \<Rightarrow> v)"

section \<open>JSON trees\<close>

datatype json =
    JNull
  | JBool bool
  | JNum string
  | JStr string
  | JArr "json list"
  | JObj "(string \<times> json) list"

definition json_of_map :: "str_map \<Rightarrow> json" where
  "json_of_map m = JObj (map (\<lambda>(k, v). (k, JStr v)) (sorted_list_of_fmap m))"

fun json_str :: "json \<Rightarrow> string option" where
  "json_str (JStr s) = Some s"
| "json_str JNull = Some []"
| "json_str _ = None"

fun json_str_entries :: "(string \<times> json) list \<Rightarrow> (string \<times> string) list option" where
  "json_str_entries [] = Some []"
| "json_str_entries ((k, j) # es) =
     (case (json_str j, json_str_entries es) of
        (Some v, Some kvs) \<Rightarrow> Some ((k, v) # kvs)
      | _ \<Rightarrow> None)"

fun json_to_map :: "json \<Rightarrow> labels option" where
  "json_to_map JNull = Some None"
| "json_to_map (JObj es) = map_option (\<lambda>kvs. Some (fmap_of_list (rev kvs))) (json_str_entries es)"
| "json_to_map _ = None"

definition json_field :: "(string \<times> json) list \<Rightarrow> string \<Rightarrow> json" where
  "json_field es k = (case map_of (rev es) k of None \<Rightarrow> JNull | Some j \<Rightarrow> j)"

lemma json_str_entries_of_map:
  "json_str_entries (map (\<lambda>(k, v). (k, JStr v)) kvs) = Some kvs"
  by (induction kvs) auto

lemma map_of_rev_distinct: "distinct (map fst xs) \<Longrightarrow> map_of (rev xs) = map_of xs"
proof (induction xs)
  case Nil
  then show ?case by simp
next
  case (Cons x xs)
  then have "map_of (rev xs) = map_of xs" "fst x \<notin> dom (map_of xs)"
    by (auto simp: dom_map_of_conv_image_fst)
  then show ?case by (cases x) (auto simp: map_add_def fun_eq_iff split: option.splits)
qed

lemma distinct_sorted_list_of_fmap: "distinct (map fst (sorted_list_of_fmap m))"
  by (simp add: sorted_list_of_fmap_def comp_def sorted_list_of_fset.rep_eq)

lemma json_to_map_json_of_map [simp]: "json_to_map (json_of_map m) = Some (Some m)"
proof -
  have "fmap_of_list (rev (sorted_list_of_fmap m)) = m"
    by (rule fmap_ext)
      (simp add: fmlookup_of_list map_of_rev_distinct [OF distinct_sorted_list_of_fmap])
  then show ?thesis by (simp add: json_of_map_def json_str_entries_of_map)
qed

section \<open>The metric\<close>

record metric =
  m_id :: nat
  cluster_name :: string
  cloud_account_id :: string
  metric_name :: string
  node_name :: string
  created_at :: int
  time_stamp :: int
  m_labels :: labels
  m_value :: string

abbreviation name_label :: string where "name_label \<equiv> ''__name__''"
abbreviation node_label :: string where "node_label \<equiv> ''node''"

definition or_else :: "string option \<Rightarrow> string \<Rightarrow> string" where
  "or_else v d = (case v of None \<Rightarrow> d | Some s \<Rightarrow> s)"

lemma or_else_simps [simp]: "or_else None d = d" "or_else (Some s) d = s"
  by (simp_all add: or_else_def)

definition import_labels :: "metric \<Rightarrow> labels \<Rightarrow> metric" where
  "import_labels m ls =
     (let new = label_map ls in
      m\<lparr>metric_name := or_else (fmlookup new name_label) (metric_name m),
        node_name := or_else (fmlookup new node_label) (node_name m),
        m_labels := Some (fmadd (label_map (m_labels m))
                            (fmfilter (\<lambda>k. k \<noteq> name_label \<and> k \<noteq> node_label) new))\<rparr>)"

definition full_labels :: "metric \<Rightarrow> str_map" where
  "full_labels m =
     (let base = label_map (m_labels m);
          named = (if metric_name m \<noteq> [] then fmupd name_label (metric_name m) base else base)
      in if node_name m \<noteq> [] then fmupd node_label (node_name m) named else named)"

text \<open>
  The labels of a metric are \<open>hoisted\<close> when none of them shadows a field; it is what
  importing labels into a fresh metric establishes and every later step relies on.
\<close>

definition hoisted :: "metric \<Rightarrow> bool" where
  "hoisted m \<longleftrightarrow>
     fmlookup (label_map (m_labels m)) name_label = None \<and>
     fmlookup (label_map (m_labels m)) node_label = None"

lemma hoisted_import_labels: "hoisted m \<Longrightarrow> hoisted (import_labels m ls)"
  by (simp add: hoisted_def import_labels_def Let_def)

lemma import_full_labels:
  assumes "hoisted m" and "hoisted m'" and "m_labels m' = None"
    and "metric_name m' = metric_name m" and "node_name m' = node_name m"
  shows "import_labels m' (Some (full_labels m)) =
         m'\<lparr>m_labels := Some (label_map (m_labels m))\<rparr>"
proof -
  have "fmfilter (\<lambda>k. k \<noteq> name_label \<and> k \<noteq> node_label) (full_labels m) = label_map (m_labels m)"
    using assms(1) by (intro fmap_ext) (auto simp: full_labels_def hoisted_def Let_def)
  moreover have "or_else (fmlookup (full_labels m) name_label) (metric_name m) = metric_name m"
    and "or_else (fmlookup (full_labels m) node_label) (node_name m) = node_name m"
    using assms(1) by (auto simp: full_labels_def hoisted_def Let_def)
  ultimately show ?thesis
    using assms by (simp add: import_labels_def Let_def)
qed

section \<open>Time\<close>

definition unix_milli :: "int \<Rightarrow> int" where
  "unix_milli t = t div 1000000"

definition from_milli :: "int \<Rightarrow> int" where
  "from_milli ms = ms * 1000000"

lemma unix_milli_from_milli [simp]: "unix_milli (from_milli ms) = ms"
  by (simp add: unix_milli_def from_milli_def)

lemma from_milli_unix_milli: "from_milli (unix_milli t) \<le> t" "t < from_milli (unix_milli t) + 1000000"
  by (simp_all add: unix_milli_def from_milli_def)

text \<open>The civil date of a day counted from the epoch (proleptic Gregorian calendar).\<close>

definition civil_of_days :: "int \<Rightarrow> int \<times> int \<times> int" where
  "civil_of_days days =
     (let z = days + 719468;
          era = z div 146097;
          doe = z mod 146097;
          yoe = (doe - doe div 1460 + doe div 36524 - doe div 146096) div 365;
          doy = doe - (365 * yoe + yoe div 4 - yoe div 100);
          mp = (5 * doy + 2) div 153;
          d = doy - (153 * mp + 2) div 5 + 1;
          m = (if mp < 10 then mp + 3 else mp - 9);
          y = yoe + era * 400
      in (if m \<le> 2 then y + 1 else y, m, d))"

definition ns_per_day :: int where "ns_per_day = 86400000000000"

definition year_of :: "int \<Rightarrow> string" where
  "year_of t = zero_pad 4 (int_str (fst (civil_of_days (t div ns_per_day))))"

definition month_of :: "int \<Rightarrow> string" where
  "month_of t = zero_pad 2 (int_str (fst (snd (civil_of_days (t div ns_per_day)))))"

definition day_of :: "int \<Rightarrow> string" where
  "day_of t = zero_pad 2 (int_str (snd (snd (civil_of_days (t div ns_per_day)))))"

definition hour_of :: "int \<Rightarrow> string" where
  "hour_of t = zero_pad 2 (int_str ((t mod ns_per_day) div 3600000000000))"

section \<open>The Parquet row\<close>

record parquet_metric =
  p_cluster_name :: string
  p_cloud_account_id :: string
  p_year :: string
  p_month :: string
  p_day :: string
  p_hour :: string
  p_metric_name :: string
  p_node_name :: string
  p_created_at :: int
  p_time_stamp :: int
  p_labels :: json
  p_value :: string

datatype metric_error = BadJSON | BadID | BadCreatedAt | BadTimestamp | FatalLabels

definition to_parquet :: "metric \<Rightarrow> parquet_metric" where
  "to_parquet m =
     \<lparr>p_cluster_name = cluster_name m,
      p_cloud_account_id = cloud_account_id m,
      p_year = year_of (time_stamp m),
      p_month = month_of (time_stamp m),
      p_day = day_of (time_stamp m),
      p_hour = hour_of (time_stamp m),
      p_metric_name = metric_name m,
      p_node_name = node_name m,
      p_created_at = unix_milli (created_at m),
      p_time_stamp = unix_milli (time_stamp m),
      p_labels = json_of_map (full_labels m),
      p_value = m_value m\<rparr>"

definition of_parquet :: "parquet_metric \<Rightarrow> (metric_error, metric) result" where
  "of_parquet p =
     (let m = \<lparr>m_id = 0, cluster_name = p_cluster_name p, cloud_account_id = p_cloud_account_id p,
               metric_name = p_metric_name p, node_name = p_node_name p,
               created_at = from_milli (p_created_at p), time_stamp = from_milli (p_time_stamp p),
               m_labels = None, m_value = p_value p\<rparr>
      in case json_to_map (p_labels p) of
           None \<Rightarrow> Inl FatalLabels
         | Some ls \<Rightarrow> Inr (import_labels m ls))"

text \<open>What serialising does to a metric: instants lose what is below a millisecond and a nil label map becomes empty.\<close>

definition normalised :: "metric \<Rightarrow> metric" where
  "normalised m =
     m\<lparr>created_at := from_milli (unix_milli (created_at m)),
       time_stamp := from_milli (unix_milli (time_stamp m)),
       m_labels := Some (label_map (m_labels m))\<rparr>"

lemma of_parquet_to_parquet:
  assumes "hoisted m"
  shows "of_parquet (to_parquet m) = Inr ((normalised m)\<lparr>m_id := 0\<rparr>)"
proof -
  let ?m = "\<lparr>m_id = 0, cluster_name = cluster_name m, cloud_account_id = cloud_account_id m,
             metric_name = metric_name m, node_name = node_name m,
             created_at = from_milli (unix_milli (created_at m)),
             time_stamp = from_milli (unix_milli (time_stamp m)),
             m_labels = None, m_value = m_value m\<rparr>"
  have "import_labels ?m (Some (full_labels m)) = ?m\<lparr>m_labels := Some (label_map (m_labels m))\<rparr>"
    using assms by (intro import_full_labels) (simp_all add: hoisted_def)
  then show ?thesis
    by (cases m) (simp add: of_parquet_def to_parquet_def normalised_def Let_def)
qed

section \<open>The JSON object\<close>

text \<open>\<open>uuid_str\<close> and \<open>uuid_parse\<close> stand for the UUID package's \<open>String\<close> and \<open>Parse\<close>.\<close>

definition metric_json :: "(nat \<Rightarrow> string) \<Rightarrow> metric \<Rightarrow> (string \<times> json) list" where
  "metric_json uuid_str m =
     [(''cloud_account_id'', JStr (cloud_account_id m)),
      (''cluster_name'', JStr (cluster_name m)),
      (''created_at'', JStr (int_str (unix_milli (created_at m)))),
      (''id'', JStr (uuid_str (m_id m))),
      (''labels'', (case m_labels m of None \<Rightarrow> JNull | Some f \<Rightarrow> json_of_map f)),
      (''metric_name'', JStr (metric_name m)),
      (''node_name'', JStr (node_name m)),
      (''timestamp'', JStr (int_str (unix_milli (time_stamp m)))),
      (''value'', JStr (m_value m))]"

definition marshal_metric :: "(nat \<Rightarrow> string) \<Rightarrow> metric \<Rightarrow> json" where
  "marshal_metric uuid_str m = JObj (metric_json uuid_str m)"

record json_metric =
  j_id :: string
  j_cluster_name :: string
  j_cloud_account_id :: string
  j_metric_name :: string
  j_node_name :: string
  j_created_at :: string
  j_time_stamp :: string
  j_labels :: labels
  j_value :: string

fun decode_json_metric :: "json \<Rightarrow> json_metric option" where
  "decode_json_metric (JObj es) =
     (case (map (\<lambda>k. json_str (json_field es k))
              [''id'', ''cluster_name'', ''cloud_account_id'', ''metric_name'', ''node_name'',
               ''created_at'', ''timestamp'', ''value''],
            json_to_map (json_field es ''labels'')) of
        ([Some i, Some cn, Some ca, Some mn, Some nn, Some cr, Some ts, Some v], Some ls) \<Rightarrow>
          Some \<lparr>j_id = i, j_cluster_name = cn, j_cloud_account_id = ca, j_metric_name = mn,
                j_node_name = nn, j_created_at = cr, j_time_stamp = ts, j_labels = ls, j_value = v\<rparr>
      | _ \<Rightarrow> None)"
| "decode_json_metric JNull =
     Some \<lparr>j_id = [], j_cluster_name = [], j_cloud_account_id = [], j_metric_name = [],
           j_node_name = [], j_created_at = [], j_time_stamp = [], j_labels = None, j_value = []\<rparr>"
| "decode_json_metric _ = None"

definition unmarshal_metric ::
  "(string \<Rightarrow> nat option) \<Rightarrow> metric \<Rightarrow> json \<Rightarrow> (metric_error, metric) result" where
  "unmarshal_metric uuid_parse m0 j =
     (case decode_json_metric j of
        None \<Rightarrow> Inl BadJSON
      | Some aux \<Rightarrow>
          (case uuid_parse (j_id aux) of
             None \<Rightarrow> Inl BadID
           | Some i \<Rightarrow>
               (case parse_int64 (j_created_at aux) of
                  None \<Rightarrow> Inl BadCreatedAt
                | Some cr \<Rightarrow>
                    (case parse_int64 (j_time_stamp aux) of
                       None \<Rightarrow> Inl BadTimestamp
                     | Some ts \<Rightarrow>
                         Inr (import_labels
                           (m0\<lparr>m_id := i, cluster_name := j_cluster_name aux,
                               cloud_account_id := j_cloud_account_id aux,
                               metric_name := j_metric_name aux, node_name := j_node_name aux,
                               m_value := j_value aux, created_at := from_milli cr,
                               time_stamp := from_milli ts\<rparr>)
                           (j_labels aux))))))"

definition empty_metric :: metric where
  "empty_metric = \<lparr>m_id = 0, cluster_name = [], cloud_account_id = [], metric_name = [],
     node_name = [], created_at = 0, time_stamp = 0, m_labels = None, m_value = []\<rparr>"

definition int64_range :: "int \<Rightarrow> bool" where
  "int64_range i \<longleftrightarrow> - (2 ^ 63) \<le> i \<and> i < 2 ^ 63"

lemma decode_marshal:
  "decode_json_metric (marshal_metric us m) =
     Some \<lparr>j_id = us (m_id m), j_cluster_name = cluster_name m,
           j_cloud_account_id = cloud_account_id m, j_metric_name = metric_name m,
           j_node_name = node_name m, j_created_at = int_str (unix_milli (created_at m)),
           j_time_stamp = int_str (unix_milli (time_stamp m)), j_labels = m_labels m,
           j_value = m_value m\<rparr>"
  by (cases "m_labels m") (simp_all add: marshal_metric_def metric_json_def json_field_def)

lemma import_hoisted_labels:
  assumes "hoisted m" and "m_labels m' = None"
  shows "import_labels m' (m_labels m) = m'\<lparr>m_labels := Some (label_map (m_labels m))\<rparr>"
proof -
  have "fmfilter (\<lambda>k. k \<noteq> name_label \<and> k \<noteq> node_label) (label_map (m_labels m)) = label_map (m_labels m)"
    using assms(1) by (intro fmap_ext) (auto simp: hoisted_def)
  with assms show ?thesis by (simp add: import_labels_def Let_def hoisted_def)
qed

lemma unmarshal_marshal:
  assumes uuid: "up (us (m_id m)) = Some (m_id m)"
    and h: "hoisted m"
    and r: "int64_range (unix_milli (created_at m))" "int64_range (unix_milli (time_stamp m))"
  shows "unmarshal_metric up empty_metric (marshal_metric us m) = Inr (normalised m)"
proof -
  have c: "parse_int64 (int_str (unix_milli (created_at m))) = Some (unix_milli (created_at m))"
    using r(1) by (intro parse_int64_int_str) (simp_all add: int64_range_def)
  have t: "parse_int64 (int_str (unix_milli (time_stamp m))) = Some (unix_milli (time_stamp m))"
    using r(2) by (intro parse_int64_int_str) (simp_all add: int64_range_def)
  show ?thesis
    using uuid c t h
    by (simp add: unmarshal_metric_def decode_marshal empty_metric_def import_hoisted_labels
        normalised_def)
qed

section \<open>Properties\<close>

definition sample_metric :: metric where
  "sample_metric =
     \<lparr>m_id = 7, cluster_name = ''c'', cloud_account_id = ''a'', metric_name = ''up'', node_name = ''n1'',
      created_at = 1700000000123456789, time_stamp = 1700000000999000000,
      m_labels = Some (fmupd ''pod'' ''p'' fmempty), m_value = ''1''\<rparr>"

lemma sample_metric_hoisted: "hoisted sample_metric"
  by (simp add: sample_metric_def hoisted_def)

text \<open>Reading back the Parquet row of a metric whose labels hide no field returns the
  metric with its id erased and its instants cut to milliseconds: name, node, value and every
  label survive, although they are stored as one JSON document.\<close>

theorem parquet_roundtrip:
  assumes "hoisted m"
  shows "of_parquet (to_parquet m) = Inr ((normalised m)\<lparr>m_id := 0\<rparr>)"
  by (rule of_parquet_to_parquet [OF assms])

theorem parquet_roundtrip_witness:
  "of_parquet (to_parquet sample_metric) =
     Inr (sample_metric\<lparr>m_id := 0, created_at := 1700000000123000000\<rparr>)"
  using parquet_roundtrip [OF sample_metric_hoisted]
  by (simp add: normalised_def sample_metric_def unix_milli_def from_milli_def)

text \<open>Marshalling a metric to JSON and unmarshalling it into a fresh metric returns it,
  its instants cut to milliseconds, whenever the UUID package parses what it prints and the
  two millisecond counts fit the 64 bits that \<open>ParseInt\<close> reads.\<close>

theorem json_roundtrip:
  assumes "uuid_parse (uuid_str (m_id m)) = Some (m_id m)" and "hoisted m"
    and "int64_range (unix_milli (created_at m))" and "int64_range (unix_milli (time_stamp m))"
  shows "unmarshal_metric uuid_parse empty_metric (marshal_metric uuid_str m) = Inr (normalised m)"
  using assms by (rule unmarshal_marshal)

theorem json_roundtrip_witness:
  "unmarshal_metric parse_nat empty_metric (marshal_metric dec_nat sample_metric) =
     Inr (sample_metric\<lparr>created_at := 1700000000123000000\<rparr>)"
proof -
  have "unmarshal_metric parse_nat empty_metric (marshal_metric dec_nat sample_metric) =
      Inr (normalised sample_metric)"
    by (rule json_roundtrip)
      (simp_all add: sample_metric_hoisted, simp_all add: sample_metric_def int64_range_def unix_milli_def)
  then show ?thesis
    by (simp add: normalised_def sample_metric_def unix_milli_def from_milli_def)
qed

text \<open>\<open>FullLabels\<close> and \<open>ImportLabels\<close> are inverse: importing the full labels of a metric
  whose labels hide no field into a metric with no labels restores name, node and label map,
  and importing keeps every label map free of hidden fields.\<close>

theorem import_full_labels_inverse:
  assumes "hoisted m" and "m_labels m' = None" and "metric_name m' = []" and "node_name m' = []"
  shows "metric_name (import_labels m' (Some (full_labels m))) = metric_name m \<and>
         node_name (import_labels m' (Some (full_labels m))) = node_name m \<and>
         label_map (m_labels (import_labels m' (Some (full_labels m)))) = label_map (m_labels m) \<and>
         hoisted (import_labels m' ls)"
proof -
  have "fmfilter (\<lambda>k. k \<noteq> name_label \<and> k \<noteq> node_label) (full_labels m) = label_map (m_labels m)"
    using assms(1) by (intro fmap_ext) (auto simp: full_labels_def hoisted_def Let_def)
  moreover have "hoisted (import_labels m' ls)"
    using assms(2) by (intro hoisted_import_labels) (simp add: hoisted_def)
  moreover have "fmlookup (full_labels m) name_label = (if metric_name m = [] then None else Some (metric_name m))"
    and "fmlookup (full_labels m) node_label = (if node_name m = [] then None else Some (node_name m))"
    using assms(1) by (simp_all add: full_labels_def hoisted_def Let_def)
  ultimately show ?thesis
    using assms by (simp add: import_labels_def Let_def)
qed

theorem import_full_labels_inverse_witness:
  "label_map (m_labels (import_labels empty_metric (Some (full_labels sample_metric)))) =
     fmupd ''pod'' ''p'' fmempty"
  using import_full_labels_inverse [OF sample_metric_hoisted, of empty_metric None]
  by (simp add: empty_metric_def sample_metric_def)

end
