(* ===== verification/Store_Interface.thy ===== *)
theory Store_Interface
  imports Metric_Model
begin

text \<open>
  The contract of \<open>types.WritableStore\<close> (\<open>app/types/store.go\<close>), stated over the world \<open>'w\<close> the
  store lives in.  Every call takes an environment \<open>'v\<close>, the outcomes of the operating system
  calls it makes.  \<open>durable\<close> and \<open>buffered\<close> are the rows that reached finished files and those
  still in the open one; \<open>admissible\<close> says that the call does not finish a file under a name
  that is already taken.
\<close>

datatype ('v, 'm) store_op = Store_put 'v "'m list" | Store_flush 'v

type_synonym ('v, 'w, 'e) put_op = "'v \<Rightarrow> metric list \<Rightarrow> 'w \<Rightarrow> ('e, unit) result \<times> 'w"
type_synonym ('v, 'w, 'e) flush_op = "'v \<Rightarrow> 'w \<Rightarrow> ('e, unit) result \<times> 'w"

fun store_step ::
  "('v, 'w, 'e) put_op \<Rightarrow> ('v, 'w, 'e) flush_op \<Rightarrow> ('v, metric) store_op \<Rightarrow> 'w \<Rightarrow> ('e, unit) result \<times> 'w"
where
  "store_step put flush (Store_put v ms) w = put v ms w"
| "store_step put flush (Store_flush v) w = flush v w"

fun env_of :: "('v, metric) store_op \<Rightarrow> 'v" where
  "env_of (Store_put v ms) = v"
| "env_of (Store_flush v) = v"

fun offered :: "('v, metric) store_op \<Rightarrow> metric list" where
  "offered (Store_put v ms) = ms"
| "offered (Store_flush v) = []"

text \<open>Running a sequence of calls: the world it leads to, whether every call was admissible
  where it was made, and whether every call returned without an error.\<close>

fun run_ops :: "('c \<Rightarrow> 'w \<Rightarrow> ('e, unit) result \<times> 'w) \<Rightarrow> 'c list \<Rightarrow> 'w \<Rightarrow> 'w" where
  "run_ops step [] w = w"
| "run_ops step (c # cs) w = run_ops step cs (snd (step c w))"

fun admissible_ops ::
  "('c \<Rightarrow> 'w \<Rightarrow> bool) \<Rightarrow> ('c \<Rightarrow> 'w \<Rightarrow> ('e, unit) result \<times> 'w) \<Rightarrow> 'c list \<Rightarrow> 'w \<Rightarrow> bool"
where
  "admissible_ops adm step [] w = True"
| "admissible_ops adm step (c # cs) w = (adm c w \<and> admissible_ops adm step cs (snd (step c w)))"

fun all_ok_ops :: "('c \<Rightarrow> 'w \<Rightarrow> ('e, unit) result \<times> 'w) \<Rightarrow> 'c list \<Rightarrow> 'w \<Rightarrow> bool" where
  "all_ok_ops step [] w = True"
| "all_ok_ops step (c # cs) w = (is_ok (fst (step c w)) \<and> all_ok_ops step cs (snd (step c w)))"

locale writable_store =
  fixes put :: "('v, 'w, 'e) put_op"
    and flush :: "('v, 'w, 'e) flush_op"
    and durable :: "'w \<Rightarrow> json multiset"
    and buffered :: "'w \<Rightarrow> json multiset"
    and row :: "metric \<Rightarrow> json"
    and I :: "'w \<Rightarrow> bool"
    and admissible :: "'v \<Rightarrow> 'w \<Rightarrow> bool"
  assumes put_I: "I w \<Longrightarrow> I (snd (put v ms w))"
    and flush_I: "I w \<Longrightarrow> I (snd (flush v w))"
    and put_ok: "I w \<Longrightarrow> admissible v w \<Longrightarrow> put v ms w = (Inr u, w') \<Longrightarrow>
      durable w' + buffered w' = durable w + buffered w + mset (map row ms)"
    and flush_ok: "I w \<Longrightarrow> admissible v w \<Longrightarrow> flush v w = (Inr u, w') \<Longrightarrow>
      durable w' = durable w + buffered w \<and> buffered w' = {#}"
    and put_durable: "I w \<Longrightarrow> admissible v w \<Longrightarrow> durable w \<subseteq># durable (snd (put v ms w))"
    and flush_durable: "I w \<Longrightarrow> admissible v w \<Longrightarrow> durable w \<subseteq># durable (snd (flush v w))"
begin

lemma step_I: "I w \<Longrightarrow> I (snd (store_step put flush c w))"
  by (cases c) (simp_all add: put_I flush_I)

lemma step_ok:
  assumes "I w" and "admissible (env_of c) w" and "is_ok (fst (store_step put flush c w))"
  shows "durable (snd (store_step put flush c w)) + buffered (snd (store_step put flush c w)) =
         durable w + buffered w + mset (map row (offered c))"
proof (cases c)
  case (Store_put v ms)
  then obtain u w' where "put v ms w = (Inr u, w')"
    using assms(3) by (cases "put v ms w") (auto simp: is_ok_iff)
  with Store_put assms put_ok [of w v ms u w'] show ?thesis by simp
next
  case (Store_flush v)
  then obtain u w' where "flush v w = (Inr u, w')"
    using assms(3) by (cases "flush v w") (auto simp: is_ok_iff)
  with Store_flush assms flush_ok [of w v u w'] show ?thesis by simp
qed

lemma step_durable:
  "I w \<Longrightarrow> admissible (env_of c) w \<Longrightarrow> durable w \<subseteq># durable (snd (store_step put flush c w))"
  by (cases c) (simp_all add: put_durable flush_durable)

text \<open>A sequence of calls that all succeed loses and invents no row.\<close>

lemma run_conserves:
  "I w \<Longrightarrow> admissible_ops (\<lambda>c. admissible (env_of c)) (store_step put flush) cs w \<Longrightarrow> all_ok_ops (store_step put flush) cs w \<Longrightarrow>
   durable (run_ops (store_step put flush) cs w) + buffered (run_ops (store_step put flush) cs w) =
   durable w + buffered w + mset (map row (concat (map offered cs)))"
proof (induction cs arbitrary: w)
  case Nil
  then show ?case by simp
next
  case (Cons c cs)
  then show ?case
    using step_ok [of w c] Cons.IH [of "snd (store_step put flush c w)"] step_I [of w c]
    by (simp add: union_assoc)
qed

text \<open>Whatever fails, a row that reached a finished file stays there.\<close>

lemma run_durable: "I w \<Longrightarrow> admissible_ops (\<lambda>c. admissible (env_of c)) (store_step put flush) cs w \<Longrightarrow> durable w \<subseteq># durable (run_ops (store_step put flush) cs w)"
proof (induction cs arbitrary: w)
  case Nil
  then show ?case by simp
next
  case (Cons c cs)
  then have "durable w \<subseteq># durable (snd (store_step put flush c w))"
    and "durable (snd (store_step put flush c w)) \<subseteq># durable (run_ops (store_step put flush) cs (snd (store_step put flush c w)))"
    using step_durable [of w c] Cons.IH [of "snd (store_step put flush c w)"] step_I [of w c] by simp_all
  then show ?case by (simp add: subset_mset.order_trans)
qed

end

text \<open>
  Two stores in one world, such as the cost and the observability store that share a
  directory: neither touches the rows of the other.
\<close>

locale store_pair =
  cost: writable_store put1 flush1 durable1 buffered1 row I admissible1 +
  obs: writable_store put2 flush2 durable2 buffered2 row I admissible2
  for put1 :: "('v, 'w, 'e) put_op"
    and flush1 durable1 buffered1 admissible1
    and put2 :: "('v, 'w, 'e) put_op"
    and flush2 durable2 buffered2 admissible2
    and row I +
  assumes frame1: "I w \<Longrightarrow> durable2 (snd (put1 v ms w)) = durable2 w \<and>
                           buffered2 (snd (put1 v ms w)) = buffered2 w"
    and frame1_flush: "I w \<Longrightarrow> durable2 (snd (flush1 v w)) = durable2 w \<and>
                           buffered2 (snd (flush1 v w)) = buffered2 w"
    and frame2: "I w \<Longrightarrow> durable1 (snd (put2 v ms w)) = durable1 w \<and>
                           buffered1 (snd (put2 v ms w)) = buffered1 w"
    and frame2_flush: "I w \<Longrightarrow> durable1 (snd (flush2 v w)) = durable1 w \<and>
                           buffered1 (snd (flush2 v w)) = buffered1 w"

end
