(* ===== verification/Resource_Repo.thy ===== *)
theory Resource_Repo
  imports Store_Interface
begin

text \<open>
  The resource store of the webhook (\<open>app/storage/repo/resource_store_impl.go\<close>, over
  \<open>app/storage/core/baseimpl.go\<close> and \<open>errors.go\<close>): the table of resource tags, its operations,
  the translation of database errors, and \<open>genericWriteDataToStorage\<close>
  (\<open>app/domain/webhook/handler/generic.go\<close>), which the webhook writes a resource with.

  The table is the list of its rows.  What the code asks of SQLite through gorm is written as what
  the statement says: an insert that does nothing on a conflict of (type, name, namespace), in which
  SQL takes two missing namespaces as different; an update or delete of the rows that its condition
  matches.  Whether a statement fails, and with which error, the order in which a query returns
  rows, the clock and the new identifier come from the environment of the call.
\<close>

section \<open>Errors\<close>

datatype gorm_error =
    GormRecordNotFound | GormDuplicatedKey | GormForeignKeyViolated | GormInvalidTransaction
  | GormNotImplemented | GormMissingWhereClause | GormUnsupportedRelation
  | GormPrimaryKeyRequired | GormModelValueRequired | GormModelAccessibleFieldsRequired
  | GormSubQueryRequired | GormInvalidData | GormUnsupportedDriver | GormRegistered
  | GormInvalidField | GormEmptySlice | GormDryRunModeUnsupported | GormInvalidDB
  | GormInvalidValue | GormInvalidValueOfLength | GormPreloadNotAllowed
  | GormCheckConstraintViolated | SqliteError int string | OtherError string

datatype store_error =
    ErrNotFound | ErrDuplicateKey | ErrForeignKeyViolation | ErrMalformedKey
  | ErrMultipleItemsFound | ErrMissingIndices | ErrMissingItem | ErrMissingIndex | ErrMissingKey
  | ErrMissingQuery | ErrMissingValue | ErrPrimaryKeyRequired | ErrModelValueRequired
  | ErrModelAccessibleFieldsRequired | ErrSubQueryRequired | ErrInvalidData | ErrInvalidField
  | ErrInvalidValue | ErrInvalidValueLength | ErrEmptySlice | ErrNotReady
  | ErrInvalidTransaction | ErrNotImplemented | ErrMissingWhereClause | ErrUnsupportedRelation
  | ErrUnsupportedDriver | ErrAlreadyRegistered | ErrDryRunModeUnsupported | ErrInvalidDB
  | ErrPreloadNotAllowed | ErrCheckConstraintViolated | ErrTableMissing
  | Untranslated gorm_error

text \<open>\<open>sqlite3.ErrError\<close>, the generic error code.\<close>

definition sqlite_generic :: int where "sqlite_generic = 1"

fun TranslateError :: "gorm_error \<Rightarrow> store_error" where
  "TranslateError GormRecordNotFound = ErrNotFound"
| "TranslateError GormDuplicatedKey = ErrDuplicateKey"
| "TranslateError GormForeignKeyViolated = ErrForeignKeyViolation"
| "TranslateError GormInvalidTransaction = ErrInvalidTransaction"
| "TranslateError GormNotImplemented = ErrNotImplemented"
| "TranslateError GormMissingWhereClause = ErrMissingWhereClause"
| "TranslateError GormUnsupportedRelation = ErrUnsupportedRelation"
| "TranslateError GormPrimaryKeyRequired = ErrPrimaryKeyRequired"
| "TranslateError GormModelValueRequired = ErrModelValueRequired"
| "TranslateError GormModelAccessibleFieldsRequired = ErrModelAccessibleFieldsRequired"
| "TranslateError GormSubQueryRequired = ErrSubQueryRequired"
| "TranslateError GormInvalidData = ErrInvalidData"
| "TranslateError GormUnsupportedDriver = ErrUnsupportedDriver"
| "TranslateError GormRegistered = ErrAlreadyRegistered"
| "TranslateError GormInvalidField = ErrInvalidField"
| "TranslateError GormEmptySlice = ErrEmptySlice"
| "TranslateError GormDryRunModeUnsupported = ErrDryRunModeUnsupported"
| "TranslateError GormInvalidDB = ErrInvalidDB"
| "TranslateError GormInvalidValue = ErrInvalidValue"
| "TranslateError GormInvalidValueOfLength = ErrInvalidValueLength"
| "TranslateError GormPreloadNotAllowed = ErrPreloadNotAllowed"
| "TranslateError GormCheckConstraintViolated = ErrCheckConstraintViolated"
| "TranslateError (SqliteError code msg) =
     (if code = sqlite_generic \<and> prefix ''no such table: '' msg then ErrTableMissing
      else Untranslated (SqliteError code msg))"
| "TranslateError (OtherError msg) = Untranslated (OtherError msg)"

section \<open>Rows\<close>

datatype resource_type =
    Unknown | Deployment | StatefulSet | Pod | Node | Namespace | Job | CronJob | DaemonSet
  | IngressClass | Ingress | Service | CustomResourceDefinition | ReplicaSet | StorageClass
  | PersistentVolume | PersistentVolumeClaim | GatewayClass | Gateway

fun ResourceTypeToMetricName :: "resource_type \<Rightarrow> string" where
  "ResourceTypeToMetricName Unknown = ''unknown''"
| "ResourceTypeToMetricName Deployment = ''deployment''"
| "ResourceTypeToMetricName StatefulSet = ''statefulset''"
| "ResourceTypeToMetricName Pod = ''pod''"
| "ResourceTypeToMetricName Node = ''node''"
| "ResourceTypeToMetricName Namespace = ''namespace''"
| "ResourceTypeToMetricName Job = ''job''"
| "ResourceTypeToMetricName CronJob = ''cronjob''"
| "ResourceTypeToMetricName DaemonSet = ''daemonset''"
| "ResourceTypeToMetricName IngressClass = ''ingressclass''"
| "ResourceTypeToMetricName Ingress = ''ingress''"
| "ResourceTypeToMetricName Service = ''service''"
| "ResourceTypeToMetricName CustomResourceDefinition = ''crd''"
| "ResourceTypeToMetricName ReplicaSet = ''replicaset''"
| "ResourceTypeToMetricName StorageClass = ''storageclass''"
| "ResourceTypeToMetricName PersistentVolume = ''pv''"
| "ResourceTypeToMetricName PersistentVolumeClaim = ''pcv''"
| "ResourceTypeToMetricName GatewayClass = ''gatewayclass''"
| "ResourceTypeToMetricName Gateway = ''gateway''"

record resource_tags =
  rt_id :: string
  rt_type :: resource_type
  rt_name :: string
  rt_namespace :: "string option"
  rt_metric_labels :: "str_map option"
  rt_labels :: "str_map option"
  rt_annotations :: "str_map option"
  rt_created :: int
  rt_updated :: int
  rt_sent :: "int option"

type_synonym table = "resource_tags list"

text \<open>The generated column \<open>Size\<close>; \<open>js\<close> is the length of the JSON text of a map.  A nil map is
  stored as the empty text.\<close>

definition column_size :: "(str_map \<Rightarrow> nat) \<Rightarrow> str_map option \<Rightarrow> nat" where
  "column_size js m = (case m of None \<Rightarrow> 0 | Some x \<Rightarrow> js x)"

definition row_size :: "(str_map \<Rightarrow> nat) \<Rightarrow> resource_tags \<Rightarrow> nat" where
  "row_size js r = length (rt_name r) + (case rt_namespace r of None \<Rightarrow> 0 | Some n \<Rightarrow> length n) +
     column_size js (rt_labels r) + column_size js (rt_annotations r)"

section \<open>Operations\<close>

text \<open>How a call ends.  A failed statement on a row without a namespace dereferences the missing
  namespace for the failure counter and panics; a missing table ends the process.\<close>

datatype 'a outcome = Done 'a | Failed store_error | Panicked | Exited

fun is_done :: "'a outcome \<Rightarrow> bool" where
  "is_done (Done a) = True"
| "is_done _ = False"

lemma is_done_iff: "is_done r \<longleftrightarrow> (\<exists>a. r = Done a)"
  by (cases r) simp_all

record db_env =
  de_now :: int
  de_id :: string
  de_error :: "gorm_error option"
  de_order :: "table \<Rightarrow> table"

definition write_failure :: "gorm_error \<Rightarrow> resource_tags \<Rightarrow> 'a outcome" where
  "write_failure g it =
     (if TranslateError g = ErrTableMissing then Exited
      else if rt_namespace it = None then Panicked
      else Failed (TranslateError g))"

definition conflicts :: "resource_tags \<Rightarrow> resource_tags \<Rightarrow> bool" where
  "conflicts q r \<longleftrightarrow> rt_type q = rt_type r \<and> rt_name q = rt_name r \<and>
     rt_namespace q = rt_namespace r \<and> rt_namespace r \<noteq> None"

definition insert_row :: "resource_tags \<Rightarrow> table \<Rightarrow> table" where
  "insert_row r t = (if \<exists>q \<in> set t. conflicts q r then t else t @ [r])"

definition repo_Create :: "db_env \<Rightarrow> resource_tags \<Rightarrow> table \<Rightarrow> resource_tags outcome \<times> table" where
  "repo_Create v it t =
     (let it' = it\<lparr>rt_id := de_id v, rt_created := de_now v, rt_updated := de_now v\<rparr>
      in (case de_error v of
            Some g \<Rightarrow> (write_failure g it', t)
          | None \<Rightarrow> (Done it', insert_row it' t)))"

definition repo_Delete :: "db_env \<Rightarrow> string \<Rightarrow> table \<Rightarrow> unit outcome \<times> table" where
  "repo_Delete v i t =
     (case de_error v of
        Some g \<Rightarrow> (Failed (TranslateError g), t)
      | None \<Rightarrow> (Done (), filter (\<lambda>r. rt_id r \<noteq> i) t))"

text \<open>\<open>First\<close> reports an empty answer as \<open>ErrRecordNotFound\<close>.\<close>

definition repo_FindFirstBy :: "db_env \<Rightarrow> (resource_tags \<Rightarrow> bool) \<Rightarrow> table \<Rightarrow> resource_tags outcome" where
  "repo_FindFirstBy v conds t =
     (case de_error v of
        Some g \<Rightarrow> Failed (TranslateError g)
      | None \<Rightarrow> (case de_order v (filter conds t) of
                   [] \<Rightarrow> Failed (TranslateError GormRecordNotFound)
                 | r # rs \<Rightarrow> Done r))"

definition repo_Get :: "db_env \<Rightarrow> string \<Rightarrow> table \<Rightarrow> resource_tags outcome" where
  "repo_Get v i t = repo_FindFirstBy v (\<lambda>r. rt_id r = i) t"

definition repo_FindAllBy :: "db_env \<Rightarrow> (resource_tags \<Rightarrow> bool) \<Rightarrow> table \<Rightarrow> table outcome" where
  "repo_FindAllBy v conds t =
     (case de_error v of
        Some g \<Rightarrow> Failed (TranslateError g)
      | None \<Rightarrow> Done (de_order v (filter conds t)))"

text \<open>The rows an update is about: those with the identifier and, as gorm adds the parts of the
  model's primary key that are set, with the same type, name and namespace.\<close>

definition update_matches :: "resource_tags \<Rightarrow> resource_tags \<Rightarrow> bool" where
  "update_matches it q \<longleftrightarrow> rt_id q = rt_id it \<and>
     (rt_type it = Unknown \<or> rt_type q = rt_type it) \<and>
     (rt_name it = [] \<or> rt_name q = rt_name it) \<and>
     (rt_namespace it = None \<or> rt_namespace q = rt_namespace it)"

definition write_columns :: "resource_tags \<Rightarrow> resource_tags \<Rightarrow> resource_tags" where
  "write_columns it q =
     q\<lparr>rt_metric_labels := rt_metric_labels it, rt_labels := rt_labels it,
       rt_annotations := rt_annotations it, rt_sent := rt_sent it, rt_updated := rt_updated it\<rparr>"

definition repo_Update :: "db_env \<Rightarrow> resource_tags \<Rightarrow> table \<Rightarrow> resource_tags outcome \<times> table" where
  "repo_Update v it t =
     (if rt_id it = [] then (Failed ErrMissingKey, t)
      else (let it' = it\<lparr>rt_updated := de_now v\<rparr>
            in (case de_error v of
                  Some g \<Rightarrow> (write_failure g it', t)
                | None \<Rightarrow> (Done it', map (\<lambda>q. if update_matches it' q then write_columns it' q else q) t))))"

text \<open>A transaction: what the block did is undone when it fails, panics or cannot be committed.
  The error of the commit is not translated.\<close>

definition repo_Tx ::
  "gorm_error option \<Rightarrow> (table \<Rightarrow> 'a outcome \<times> table) \<Rightarrow> table \<Rightarrow> 'a outcome \<times> table"
where
  "repo_Tx commit block t =
     (case block t of
        (Done a, t') \<Rightarrow> (case commit of None \<Rightarrow> (Done a, t') | Some g \<Rightarrow> (Failed (Untranslated g), t))
      | (r, t') \<Rightarrow> (r, t))"

section \<open>Writing a resource\<close>

record write_env =
  we_find :: db_env
  we_write :: db_env
  we_commit :: "gorm_error option"

definition same_resource :: "resource_tags \<Rightarrow> resource_tags \<Rightarrow> bool" where
  "same_resource record q \<longleftrightarrow> rt_type q = rt_type record \<and> rt_name q = rt_name record \<and>
     (case rt_namespace record of None \<Rightarrow> True | Some n \<Rightarrow> rt_namespace q = Some n)"

text \<open>The operations of \<open>types.ResourceStore\<close> that a write uses, over the state \<open>'s\<close> of the store, and
  the clock of the handler.\<close>

record 's store_ops =
  so_now :: int
  so_find :: "(resource_tags \<Rightarrow> bool) \<Rightarrow> 's \<Rightarrow> resource_tags outcome"
  so_create :: "resource_tags \<Rightarrow> 's \<Rightarrow> resource_tags outcome \<times> 's"
  so_update :: "resource_tags \<Rightarrow> 's \<Rightarrow> resource_tags outcome \<times> 's"
  so_tx :: "('s \<Rightarrow> resource_tags outcome \<times> 's) \<Rightarrow> 's \<Rightarrow> resource_tags outcome \<times> 's"

text \<open>Any error of the search leaves nothing found, which is the case of a missing record.  An error
  of the write is only logged; the result keeps it for the statements below.\<close>

definition genericWriteDataToStorage ::
  "'s store_ops \<Rightarrow> resource_tags \<Rightarrow> 's \<Rightarrow> resource_tags outcome \<times> 's"
where
  "genericWriteDataToStorage ops record s =
     (case so_find ops (same_resource record) s of
        Done found \<Rightarrow>
          so_tx ops
            (so_update ops
               (record\<lparr>rt_id := rt_id found, rt_created := rt_created found,
                       rt_updated := so_now ops, rt_sent := None\<rparr>)) s
      | Exited \<Rightarrow> (Exited, s)
      | Panicked \<Rightarrow> (Panicked, s)
      | Failed e \<Rightarrow> so_tx ops (so_create ops record) s)"

text \<open>The repository as such a store, for one write.\<close>

definition repo_ops :: "write_env \<Rightarrow> table store_ops" where
  "repo_ops v = \<lparr>so_now = de_now (we_write v), so_find = repo_FindFirstBy (we_find v),
     so_create = repo_Create (we_write v), so_update = repo_Update (we_write v), so_tx = repo_Tx (we_commit v)\<rparr>"

abbreviation repo_write :: "write_env \<Rightarrow> resource_tags \<Rightarrow> table \<Rightarrow> resource_tags outcome \<times> table" where
  "repo_write v \<equiv> genericWriteDataToStorage (repo_ops v)"

section \<open>The contract\<close>

text \<open>
  What the callers of \<open>types.ResourceStore\<close> rely on: no operation gives two rows one identifier or
  one key, where the identifiers it hands out are new.  \<open>key\<close> is None for a row that is not
  subject to the key's uniqueness.
\<close>

locale resource_store =
  fixes step :: "'c \<Rightarrow> 't \<Rightarrow> 't"
    and rows :: "'t \<Rightarrow> 'r list"
    and ident :: "'r \<Rightarrow> 'i"
    and key :: "'r \<Rightarrow> 'k option"
    and fresh :: "'c \<Rightarrow> 't \<Rightarrow> bool"
  assumes step_idents: "distinct (map ident (rows t)) \<Longrightarrow> fresh c t \<Longrightarrow> distinct (map ident (rows (step c t)))"
    and step_keys: "distinct (List.map_filter key (rows t)) \<Longrightarrow> distinct (List.map_filter key (rows (step c t)))"
begin

definition unique :: "'t \<Rightarrow> bool" where
  "unique t \<longleftrightarrow> distinct (map ident (rows t)) \<and> distinct (List.map_filter key (rows t))"

primrec fresh_run :: "'c list \<Rightarrow> 't \<Rightarrow> bool" where
  "fresh_run [] t = True"
| "fresh_run (c # cs) t = (fresh c t \<and> fresh_run cs (step c t))"

lemma run_unique: "unique t \<Longrightarrow> fresh_run cs t \<Longrightarrow> unique (fold step cs t)"
  by (induction cs arbitrary: t) (simp_all add: unique_def step_idents step_keys)

lemma fresh_run_append: "fresh_run (xs @ ys) t \<longleftrightarrow> fresh_run xs t \<and> fresh_run ys (fold step xs t)"
  by (induction xs arbitrary: t) simp_all

lemma unique_ident: "unique t \<Longrightarrow> r \<in> set (rows t) \<Longrightarrow> q \<in> set (rows t) \<Longrightarrow> ident r = ident q \<Longrightarrow> r = q"
  by (auto simp: unique_def distinct_map dest: inj_onD)

end

section \<open>The repository provides it\<close>

datatype repo_op =
    Op_create db_env resource_tags
  | Op_update db_env resource_tags
  | Op_delete db_env string

fun repo_step :: "repo_op \<Rightarrow> table \<Rightarrow> table" where
  "repo_step (Op_create v r) t = snd (repo_Create v r t)"
| "repo_step (Op_update v r) t = snd (repo_Update v r t)"
| "repo_step (Op_delete v i) t = snd (repo_Delete v i t)"

fun fresh_id :: "repo_op \<Rightarrow> table \<Rightarrow> bool" where
  "fresh_id (Op_create v r) t = (de_id v \<notin> rt_id ` set t \<and> de_id v \<noteq> [])"
| "fresh_id _ t = True"

definition row_key :: "resource_tags \<Rightarrow> (resource_type \<times> string \<times> string) option" where
  "row_key r = map_option (\<lambda>n. (rt_type r, rt_name r, n)) (rt_namespace r)"

lemma conflicts_iff: "conflicts q r \<longleftrightarrow> row_key q = row_key r \<and> row_key r \<noteq> None"
  by (auto simp: conflicts_def row_key_def)

lemma row_key_simps [simp]:
  "row_key (write_columns it q) = row_key q" "rt_id (write_columns it q) = rt_id q"
  "row_key (r\<lparr>rt_id := i, rt_created := c, rt_updated := u\<rparr>) = row_key r"
  by (simp_all add: row_key_def write_columns_def)

lemma map_filter_keys_in: "k \<in> set (List.map_filter row_key t) \<longleftrightarrow> (\<exists>r \<in> set t. row_key r = Some k)"
  by (induction t) (auto simp: List.map_filter_simps split: option.splits)

lemma map_filter_append: "List.map_filter f (xs @ ys) = List.map_filter f xs @ List.map_filter f ys"
  by (simp add: List.map_filter_def)

lemma distinct_map_filter_sub: "distinct (List.map_filter f t) \<Longrightarrow> distinct (List.map_filter f (filter P t))"
proof (induction t)
  case (Cons a t)
  have "set (List.map_filter f (filter P t)) \<subseteq> set (List.map_filter f t)"
    by (auto simp: List.map_filter_def)
  then show ?case using Cons by (auto simp: List.map_filter_def split: if_splits)
qed simp

lemma insert_row_keys:
  "distinct (List.map_filter row_key t) \<Longrightarrow> distinct (List.map_filter row_key (insert_row r t))"
  by (cases "row_key r")
     (auto simp: insert_row_def conflicts_iff map_filter_append map_filter_keys_in List.map_filter_simps)

lemma repo_update_rows:
  "snd (repo_Update v it t) = t \<or>
   snd (repo_Update v it t) = map (\<lambda>q. if update_matches (it\<lparr>rt_updated := de_now v\<rparr>) q
                                    then write_columns (it\<lparr>rt_updated := de_now v\<rparr>) q else q) t"
  by (simp add: repo_Update_def Let_def split: option.splits)

lemma map_filter_map_same:
  assumes "\<And>q. f (g q) = f q"
  shows "List.map_filter f (map g t) = List.map_filter f t"
  by (induction t) (simp_all add: List.map_filter_simps assms split: option.splits)

interpretation repo: resource_store repo_step "\<lambda>t. t" rt_id row_key fresh_id
proof unfold_locales
  fix t c assume d: "distinct (map rt_id t)" and f: "fresh_id c t"
  show "distinct (map rt_id (repo_step c t))"
  proof (cases c)
    case (Op_create v r)
    then show ?thesis using d f
      by (auto simp: repo_Create_def insert_row_def Let_def split: option.splits)
  next
    case (Op_update v r)
    have "map rt_id (map (\<lambda>q. if update_matches i q then write_columns i q else q) t) = map rt_id t" for i
      by (simp add: comp_def if_distrib cong: if_cong)
    with Op_update d repo_update_rows [of v r t] show ?thesis by (metis repo_step.simps(2))
  next
    case (Op_delete v i)
    then show ?thesis using d by (auto simp: repo_Delete_def distinct_map_filter split: option.splits)
  qed
next
  fix t c assume d: "distinct (List.map_filter row_key t)"
  show "distinct (List.map_filter row_key (repo_step c t))"
  proof (cases c)
    case (Op_create v r)
    then show ?thesis using d
      by (auto simp: repo_Create_def Let_def insert_row_keys split: option.splits)
  next
    case (Op_update v r)
    have "List.map_filter row_key (map (\<lambda>q. if update_matches i q then write_columns i q else q) t) =
      List.map_filter row_key t" for i
      by (rule map_filter_map_same) simp
    with Op_update d repo_update_rows [of v r t] show ?thesis by (metis repo_step.simps(2))
  next
    case (Op_delete v i)
    then show ?thesis using d by (auto simp: repo_Delete_def distinct_map_filter_sub split: option.splits)
  qed
qed

section \<open>What writing a resource does\<close>

lemmas write_data_defs = genericWriteDataToStorage_def repo_ops_def repo_Tx_def repo_Create_def repo_Update_def
  repo_FindFirstBy_def Let_def

definition plain_env :: "int \<Rightarrow> string \<Rightarrow> db_env" where
  "plain_env now i = \<lparr>de_now = now, de_id = i, de_error = None, de_order = (\<lambda>xs. xs)\<rparr>"

text \<open>No statement of the write fails, and a query returns each row once.\<close>

definition quiet :: "db_env \<Rightarrow> bool" where
  "quiet v \<longleftrightarrow> de_error v = None \<and> (\<forall>xs. mset (de_order v xs) = mset xs)"

definition quiet_write :: "write_env \<Rightarrow> bool" where
  "quiet_write v \<longleftrightarrow> quiet (we_find v) \<and> quiet (we_write v) \<and> we_commit v = None"

lemma quiet_plain [simp]: "quiet (plain_env now i)"
  by (simp add: quiet_def plain_env_def)

lemma quiet_order_in: "quiet v \<Longrightarrow> de_order v xs = r # rs \<Longrightarrow> r \<in> set xs"
  by (metis quiet_def list.set_intros(1) mset_eq_setD)

lemma quiet_order_Nil: "quiet v \<Longrightarrow> de_order v xs = [] \<longleftrightarrow> xs = []"
  by (metis quiet_def mset_zero_iff)

lemma update_one_row:
  assumes "distinct (map rt_id t)" and "q \<in> set t" and "update_matches it q"
  shows "\<exists>pre post. t = pre @ q # post \<and>
    map (\<lambda>r. if update_matches it r then write_columns it r else r) t = pre @ write_columns it q # post"
proof -
  obtain pre post where t: "t = pre @ q # post" using split_list [OF assms(2)] by blast
  have "\<not> update_matches it r" if "r \<in> set pre \<union> set post" for r
  proof
    assume "update_matches it r"
    then have "rt_id r = rt_id q" using assms(3) by (simp add: update_matches_def)
    moreover have "rt_id r \<in> rt_id ` set pre \<union> rt_id ` set post" using that by blast
    ultimately show False using assms(1) unfolding t by simp
  qed
  then have "map (\<lambda>r. if update_matches it r then write_columns it r else r) pre = pre"
    "map (\<lambda>r. if update_matches it r then write_columns it r else r) post = post"
    by (intro map_idI; simp)+
  with assms(3) show ?thesis unfolding t by (intro exI [of _ pre] exI [of _ post]) simp
qed

lemma write_found:
  assumes "repo_FindFirstBy (we_find v) (same_resource record) t = Done q"
    and "de_error (we_write v) = None" and "we_commit v = None" and "rt_id q \<noteq> []"
    and "it = record\<lparr>rt_id := rt_id q, rt_created := rt_created q, rt_sent := None, rt_updated := de_now (we_write v)\<rparr>"
  shows "repo_write v record t =
    (Done it, map (\<lambda>r. if update_matches it r then write_columns it r else r) t)"
  unfolding assms(5) using assms(1-4)
  by (simp add: genericWriteDataToStorage_def repo_ops_def repo_Tx_def repo_Update_def Let_def)

lemma write_data_existing:
  assumes v: "quiet_write v" and d: "distinct (map rt_id t)" and i: "[] \<notin> rt_id ` set t"
    and ex: "\<exists>q \<in> set t. same_resource record q"
  shows "\<exists>pre q post. t = pre @ q # post \<and> same_resource record q \<and>
    repo_write v record t =
      (Done (record\<lparr>rt_id := rt_id q, rt_created := rt_created q, rt_sent := None, rt_updated := de_now (we_write v)\<rparr>),
       pre @ write_columns (record\<lparr>rt_updated := de_now (we_write v), rt_sent := None\<rparr>) q # post)"
proof -
  have ne: "de_order (we_find v) (filter (same_resource record) t) \<noteq> []"
    using v ex quiet_order_Nil [of "we_find v"] by (auto simp: quiet_write_def filter_empty_conv)
  then obtain q rs where o: "de_order (we_find v) (filter (same_resource record) t) = q # rs"
    by (cases "de_order (we_find v) (filter (same_resource record) t)") auto
  have q: "q \<in> set t" "same_resource record q"
    using quiet_order_in [OF _ o] v by (auto simp: quiet_write_def)
  let ?it = "record\<lparr>rt_id := rt_id q, rt_created := rt_created q, rt_sent := None, rt_updated := de_now (we_write v)\<rparr>"
  have m: "update_matches ?it q"
    using q(2) by (auto simp: update_matches_def same_resource_def split: option.splits)
  obtain pre post where p: "t = pre @ q # post"
    "map (\<lambda>r. if update_matches ?it r then write_columns ?it r else r) t = pre @ write_columns ?it q # post"
    using update_one_row [OF d q(1) m] by blast
  have w: "write_columns ?it q = write_columns (record\<lparr>rt_updated := de_now (we_write v), rt_sent := None\<rparr>) q"
    by (simp add: write_columns_def)
  have n: "rt_id q \<noteq> []" using q(1) i by force
  have g: "repo_write v record t =
    (Done ?it, map (\<lambda>r. if update_matches ?it r then write_columns ?it r else r) t)"
  proof (rule write_found [where q = q])
    show "repo_FindFirstBy (we_find v) (same_resource record) t = Done q"
      using v o by (simp add: repo_FindFirstBy_def quiet_write_def quiet_def)
    show "de_error (we_write v) = None" "we_commit v = None" "rt_id q \<noteq> []"
      using v n by (simp_all add: quiet_write_def quiet_def)
  qed (rule refl)
  show ?thesis using p(1) q(2) g unfolding p(2) w by blast
qed

lemma write_data_new:
  assumes v: "quiet_write v" and no: "\<not> (\<exists>q \<in> set t. same_resource record q)"
  shows "repo_write v record t =
    (Done (record\<lparr>rt_id := de_id (we_write v), rt_created := de_now (we_write v), rt_updated := de_now (we_write v)\<rparr>),
     t @ [record\<lparr>rt_id := de_id (we_write v), rt_created := de_now (we_write v), rt_updated := de_now (we_write v)\<rparr>])"
proof -
  have f: "filter (same_resource record) t = []" using no by (auto simp: filter_empty_conv)
  then have "de_order (we_find v) [] = []" using v quiet_order_Nil [of "we_find v" "[]"] by (simp add: quiet_write_def)
  moreover have "\<not> (\<exists>q \<in> set t. conflicts q (record\<lparr>rt_id := de_id (we_write v),
      rt_created := de_now (we_write v), rt_updated := de_now (we_write v)\<rparr>))"
    using no by (auto simp: conflicts_def same_resource_def split: option.splits)
  ultimately show ?thesis
    using v f by (auto simp: write_data_defs quiet_write_def quiet_def insert_row_def)
qed

section \<open>Properties\<close>

text \<open>C10: Writing a resource keeps exactly its latest state: when no statement fails, a new resource
  gets one new row, and a known one has its labels, annotations and metric labels replaced in its
  row, which is marked as not sent and keeps its identifier and creation time; no other row
  changes.\<close>

theorem write_data_upserts:
  assumes "quiet_write v" and "distinct (map rt_id t)" and "[] \<notin> rt_id ` set t" and "rt_sent record = None"
  shows "\<exists>pre r post. snd (repo_write v record t) = pre @ r # post \<and>
    same_resource record r \<and> rt_sent r = None \<and> rt_updated r = de_now (we_write v) \<and>
    rt_labels r = rt_labels record \<and> rt_annotations r = rt_annotations record \<and>
    rt_metric_labels r = rt_metric_labels record \<and>
    (if \<exists>q \<in> set t. same_resource record q
     then \<exists>q. t = pre @ q # post \<and> same_resource record q \<and> rt_id r = rt_id q \<and> rt_created r = rt_created q
     else t = pre \<and> post = [] \<and> rt_id r = de_id (we_write v) \<and> rt_created r = de_now (we_write v))"
proof (cases "\<exists>q \<in> set t. same_resource record q")
  case True
  obtain pre q post where q: "t = pre @ q # post" "same_resource record q"
    "snd (repo_write v record t) =
       pre @ write_columns (record\<lparr>rt_updated := de_now (we_write v), rt_sent := None\<rparr>) q # post"
    using write_data_existing [OF assms(1-3) True] by auto
  then show ?thesis using True
    by (intro exI [of _ pre] exI [of _ "write_columns (record\<lparr>rt_updated := de_now (we_write v), rt_sent := None\<rparr>) q"]
          exI [of _ post]) (auto simp: write_columns_def same_resource_def split: option.splits)
next
  case False
  let ?r = "record\<lparr>rt_id := de_id (we_write v), rt_created := de_now (we_write v), rt_updated := de_now (we_write v)\<rparr>"
  show ?thesis using write_data_new [OF assms(1) False] False assms(4)
    by (intro exI [of _ t] exI [of _ ?r] exI [of _ "[]"]) (auto simp: same_resource_def split: option.splits)
qed

definition sample_tags :: "string \<Rightarrow> string option \<Rightarrow> string \<Rightarrow> resource_tags" where
  "sample_tags n ns team = \<lparr>rt_id = [], rt_type = Deployment, rt_name = n, rt_namespace = ns,
     rt_metric_labels = Some fmempty, rt_labels = Some (fmupd ''team'' team fmempty), rt_annotations = None,
     rt_created = 0, rt_updated = 0, rt_sent = None\<rparr>"

definition plain_write :: "int \<Rightarrow> string \<Rightarrow> write_env" where
  "plain_write now i = \<lparr>we_find = plain_env now i, we_write = plain_env now i, we_commit = None\<rparr>"

definition sent_row :: resource_tags where
  "sent_row = (sample_tags ''web'' (Some ''prod'') ''a'')\<lparr>rt_id := ''1'', rt_created := 5, rt_updated := 5, rt_sent := Some 6\<rparr>"

theorem write_data_upserts_witness:
  "\<exists>r. snd (repo_write (plain_write 9 ''2'') (sample_tags ''web'' (Some ''prod'') ''b'') [sent_row]) = [r] \<and>
     rt_sent r = None \<and> rt_id r = ''1'' \<and> rt_labels r = Some (fmupd ''team'' ''b'' fmempty)"
proof -
  have "quiet_write (plain_write 9 ''2'')" by (simp add: quiet_write_def plain_write_def)
  from write_data_upserts [OF this, of "[sent_row]" "sample_tags ''web'' (Some ''prod'') ''b''"]
  show ?thesis by (auto simp: sent_row_def sample_tags_def same_resource_def Cons_eq_append_conv)
qed

text \<open>A search that fails is taken for a missing record, and the insert that follows finds the
  key taken and does nothing: the write reports success and the new labels of a namespaced
  resource are lost, and it stays marked as sent.\<close>

theorem failed_search_loses_write:
  assumes "de_error (we_find v) = Some g" and "de_error (we_write v) = None" and "we_commit v = None"
    and "q \<in> set t" and "row_key q = row_key record" and "rt_namespace record \<noteq> None"
  shows "is_done (fst (repo_write v record t)) \<and> snd (repo_write v record t) = t"
proof -
  have "conflicts q (record\<lparr>rt_id := i, rt_created := c, rt_updated := u\<rparr>)" for i c u
    using assms(5,6) by (auto simp: conflicts_def row_key_def)
  then show ?thesis using assms by (auto simp: write_data_defs insert_row_def)
qed

theorem failed_search_loses_write_witness:
  "snd (repo_write ((plain_write 9 ''2'')\<lparr>we_find := (plain_env 9 ''2'')\<lparr>de_error := Some (OtherError ''busy'')\<rparr>\<rparr>)
     (sample_tags ''web'' (Some ''prod'') ''b'') [sent_row]) = [sent_row]"
  using failed_search_loses_write [of "(plain_write 9 ''2'')\<lparr>we_find := (plain_env 9 ''2'')\<lparr>de_error := Some (OtherError ''busy'')\<rparr>\<rparr>"
      "OtherError ''busy''" sent_row "[sent_row]" "sample_tags ''web'' (Some ''prod'') ''b''"]
  by (simp add: plain_write_def plain_env_def row_key_def sent_row_def sample_tags_def)

section \<open>What a write puts into a store\<close>

text \<open>
  A second contract, for the callers that care about what is stored: a write adds nothing but the
  labels and annotations of the resource it writes.  Two stores provide it, the repository here and
  the streaming store of the backfill job.
\<close>

definition tags_of :: "resource_tags \<Rightarrow> str_map option \<times> str_map option \<times> str_map option" where
  "tags_of r = (rt_metric_labels r, rt_labels r, rt_annotations r)"

lemma tags_of_simps [simp]:
  "tags_of (r\<lparr>rt_id := i\<rparr>) = tags_of r" "tags_of (r\<lparr>rt_created := c\<rparr>) = tags_of r"
  "tags_of (r\<lparr>rt_updated := u\<rparr>) = tags_of r" "tags_of (r\<lparr>rt_sent := s\<rparr>) = tags_of r"
  "tags_of (write_columns it q) = tags_of it"
  by (simp_all add: tags_of_def write_columns_def)

locale content_store =
  fixes ops :: "'v \<Rightarrow> 's store_ops"
    and held :: "'s \<Rightarrow> resource_tags set"
  assumes write_held: "q \<in> held (snd (genericWriteDataToStorage (ops v) r s)) \<Longrightarrow> q \<in> held s \<or> tags_of q = tags_of r"
begin

lemma write_keeps:
  assumes "\<forall>q \<in> held s. Q (tags_of q)" and "Q (tags_of r)"
  shows "\<forall>q \<in> held (snd (genericWriteDataToStorage (ops v) r s)). Q (tags_of q)"
  using assms write_held by metis

end

lemma repo_Update_tags:
  "q \<in> set (snd (repo_Update v it t)) \<Longrightarrow> q \<in> set t \<or> tags_of q = tags_of it"
  by (auto simp: repo_Update_def Let_def split: option.splits if_splits)

interpretation repo_content: content_store repo_ops set
proof unfold_locales
  fix q v r t assume q: "q \<in> set (snd (repo_write v r t))"
  show "q \<in> set t \<or> tags_of q = tags_of r"
  proof (cases "repo_FindFirstBy (we_find v) (same_resource r) t")
    case (Done found)
    let ?it = "r\<lparr>rt_id := rt_id found, rt_created := rt_created found, rt_updated := de_now (we_write v), rt_sent := None\<rparr>"
    have "q \<in> set t \<or> q \<in> set (snd (repo_Update (we_write v) ?it t))"
      using q Done by (auto simp: genericWriteDataToStorage_def repo_ops_def repo_Tx_def split: outcome.splits prod.splits option.splits)
    then show ?thesis using repo_Update_tags by fastforce
  next
    case (Failed e)
    have "q \<in> set t \<or> q \<in> set (snd (repo_Create (we_write v) r t))"
      using q Failed by (auto simp: genericWriteDataToStorage_def repo_ops_def repo_Tx_def split: outcome.splits prod.splits option.splits)
    then show ?thesis by (auto simp: repo_Create_def insert_row_def Let_def split: option.splits if_splits)
  qed (use q in \<open>auto simp: genericWriteDataToStorage_def repo_ops_def\<close>)
qed

end
