(* ===== verification/Metrics_Pusher.thy ===== *)
theory Metrics_Pusher
  imports Resource_Repo
begin

text \<open>
  What takes resources out of the store: the pusher (\<open>app/domain/pusher/pusher.go\<close> and
  \<open>sender.go\<close>), which sends the rows that were not sent and marks them, and the housekeeper
  (\<open>app/domain/housekeeper/housekeeper.go\<close>), which deletes the old ones.

  Both read the store and write it later, with other goroutines in between;
  \<open>between\<close> in the environment of a call is what those do to the table meanwhile.  The labels of a
  time series are in the order of their keys, where Go's iteration order is not specified.  The
  encoding of a request, the client and the waits between attempts are not modelled: the environment
  says how each attempt is answered.
\<close>

section \<open>Time series\<close>

record timeseries =
  ts_labels :: "(string \<times> string) list"
  ts_value :: int
  ts_timestamp :: int

definition nanos_per_milli :: int where "nanos_per_milli = 1000000"

text \<open>Go's integer division truncates toward zero.\<close>

definition go_div :: "int \<Rightarrow> int \<Rightarrow> int" where
  "go_div a b = sgn a * sgn b * (\<bar>a\<bar> div \<bar>b\<bar>)"

definition maxTime :: "int \<Rightarrow> int \<Rightarrow> int" where
  "maxTime t1 t2 = (if t2 < t1 then t1 else t2)"

definition createTimeseries :: "string \<Rightarrow> str_map \<Rightarrow> str_map \<Rightarrow> int \<Rightarrow> timeseries" where
  "createTimeseries metricName metricTags additional recordTime =
     \<lparr>ts_labels = (''__name__'', metricName) # sorted_list_of_fmap additional @
        map (\<lambda>(k, v). (''label_'' @ k, v)) (sorted_list_of_fmap metricTags),
      ts_value = 1, ts_timestamp = go_div recordTime nanos_per_milli\<rparr>"

text \<open>A row without labels or metric labels makes the code panic.\<close>

fun FormatMetrics :: "resource_tags list \<Rightarrow> timeseries list option" where
  "FormatMetrics [] = Some []"
| "FormatMetrics (record # records) =
     (case (rt_labels record, rt_metric_labels record, FormatMetrics records) of
        (Some labels, Some metricLabels, Some rest) \<Rightarrow>
          (let res = ResourceTypeToMetricName (rt_type record);
               recordTime = maxTime (rt_updated record) (rt_created record)
           in Some (createTimeseries (''cloudzero_'' @ res @ ''_labels'') labels metricLabels recordTime #
                (case rt_annotations record of
                   None \<Rightarrow> []
                 | Some annotations \<Rightarrow>
                     [createTimeseries (''cloudzero_'' @ res @ ''_annotations'') annotations metricLabels recordTime])
                @ rest))
      | _ \<Rightarrow> None)"

section \<open>Pushing\<close>

text \<open>The attempts of a push from number \<open>i\<close> on; an answer is a status code, or none where the
  request failed.\<close>

fun push_attempts :: "(nat \<Rightarrow> nat option) \<Rightarrow> nat \<Rightarrow> nat \<Rightarrow> bool" where
  "push_attempts answer i 0 = False"
| "push_attempts answer i (Suc n) =
     (case answer i of
        Some code \<Rightarrow> (200 \<le> code \<and> code < 300) \<or> push_attempts answer (Suc i) n
      | None \<Rightarrow> push_attempts answer (Suc i) n)"

record pusher =
  sentMaxBytes :: int
  maxRetries :: int

record push_env =
  pe_now :: int
  pe_json :: "str_map \<Rightarrow> nat"
  pe_find :: db_env
  pe_encode_ok :: "timeseries list \<Rightarrow> bool"
  pe_request_ok :: bool
  pe_answer :: "nat \<Rightarrow> nat \<Rightarrow> nat option"
  pe_between :: "table \<Rightarrow> table"
  pe_update :: "nat \<Rightarrow> db_env"
  pe_commit :: "gorm_error option"

definition PushMetrics :: "pusher \<Rightarrow> push_env \<Rightarrow> nat \<Rightarrow> timeseries list \<Rightarrow> bool" where
  "PushMetrics P v k ts =
     (pe_encode_ok v ts \<and> pe_request_ok v \<and> push_attempts (pe_answer v k) 0 (nat (maxRetries P)))"

datatype flush_result = Flush_ok | Flush_error string | Flush_panic | Flush_exit

text \<open>The batch number \<open>k\<close> of a flush.\<close>

definition sendBatch :: "pusher \<Rightarrow> push_env \<Rightarrow> nat \<Rightarrow> resource_tags list \<Rightarrow> flush_result" where
  "sendBatch P v k batch =
     (if batch = [] then Flush_ok
      else (case FormatMetrics batch of
              None \<Rightarrow> Flush_panic
            | Some ts \<Rightarrow> if PushMetrics P v k ts then Flush_ok
                         else Flush_error ''failed to push metrics to remote write''))"

text \<open>The loop of \<open>Flush\<close> and the partial batch after it; the second part of the result is the
  batches that were accepted.\<close>

fun flush_loop ::
  "pusher \<Rightarrow> push_env \<Rightarrow> nat \<Rightarrow> resource_tags list \<Rightarrow> int \<Rightarrow> resource_tags list \<Rightarrow>
   flush_result \<times> resource_tags list list"
where
  "flush_loop P v k batch totalSize [] =
     (if batch = [] then (Flush_ok, [])
      else (case sendBatch P v k batch of Flush_ok \<Rightarrow> (Flush_ok, [batch]) | e \<Rightarrow> (e, [])))"
| "flush_loop P v k batch totalSize (r # found) =
     (let size = int (row_size (pe_json v) r)
      in if sentMaxBytes P < size + totalSize \<and> batch \<noteq> [] then
           (case sendBatch P v k batch of
              Flush_ok \<Rightarrow> (case flush_loop P v (Suc k) [r] size found of (e, sent) \<Rightarrow> (e, batch # sent))
            | e \<Rightarrow> (e, []))
         else flush_loop P v k (batch @ [r]) (totalSize + size) found)"

fun mark_sent :: "push_env \<Rightarrow> nat \<Rightarrow> resource_tags list \<Rightarrow> table \<Rightarrow> unit outcome \<times> table" where
  "mark_sent v i [] t = (Done (), t)"
| "mark_sent v i (r # rs) t =
     (case repo_Update (pe_update v i) (r\<lparr>rt_sent := Some (pe_now v)\<rparr>) t of
        (Done _, t') \<Rightarrow> mark_sent v (Suc i) rs t'
      | (Failed e, t') \<Rightarrow> (Failed e, t')
      | (Panicked, t') \<Rightarrow> (Panicked, t')
      | (Exited, t') \<Rightarrow> (Exited, t'))"

definition Flush :: "pusher \<Rightarrow> push_env \<Rightarrow> table \<Rightarrow> flush_result \<times> resource_tags list list \<times> table" where
  "Flush P v t =
     (case repo_FindAllBy (pe_find v) (\<lambda>r. rt_sent r = None) t of
        Done found \<Rightarrow>
          (case flush_loop P v 0 [] 0 found of
             (Flush_ok, sent) \<Rightarrow>
               if found = [] then (Flush_ok, sent, pe_between v t)
               else (case repo_Tx (pe_commit v) (mark_sent v 0 found) (pe_between v t) of
                       (Done _, t') \<Rightarrow> (Flush_ok, sent, t')
                     | (Failed e, t') \<Rightarrow> (Flush_error ''failed to update sent_at for records'', sent, t')
                     | (Panicked, t') \<Rightarrow> (Flush_panic, sent, t')
                     | (Exited, t') \<Rightarrow> (Flush_exit, sent, t'))
           | (e, sent) \<Rightarrow> (e, sent, pe_between v t))
      | _ \<Rightarrow> (Flush_error ''failed to find records to send'', [], pe_between v t))"

section \<open>Housekeeping\<close>

text \<open>\<open>older\<close> is the comparison of a stored time with the formatted cutoff, which SQLite makes on
  the texts.\<close>

record keeper_env =
  ke_now :: int
  ke_retention :: int
  ke_older :: "int \<Rightarrow> int \<Rightarrow> bool"
  ke_find :: db_env
  ke_between :: "table \<Rightarrow> table"
  ke_delete :: "nat \<Rightarrow> db_env"
  ke_commit :: "gorm_error option"

definition expired_row :: "keeper_env \<Rightarrow> resource_tags \<Rightarrow> bool" where
  "expired_row v r =
     (let cutoff = ke_now v - ke_retention v
      in (case rt_sent r of None \<Rightarrow> False | Some s \<Rightarrow> ke_older v s cutoff) \<and>
         ke_older v (rt_created r) cutoff \<and> ke_older v (rt_updated r) cutoff)"

fun delete_each :: "keeper_env \<Rightarrow> nat \<Rightarrow> resource_tags list \<Rightarrow> table \<Rightarrow> unit outcome \<times> table" where
  "delete_each v i [] t = (Done (), t)"
| "delete_each v i (r # rs) t =
     (case repo_Delete (ke_delete v i) (rt_id r) t of
        (Done _, t') \<Rightarrow> delete_each v (Suc i) rs t'
      | (e, t') \<Rightarrow> (e, t'))"

text \<open>One tick; errors are logged.\<close>

definition cleanup :: "keeper_env \<Rightarrow> table \<Rightarrow> table" where
  "cleanup v t =
     (case repo_FindAllBy (ke_find v) (expired_row v) t of
        Done expired \<Rightarrow>
          if expired = [] then ke_between v t
          else snd (repo_Tx (ke_commit v) (delete_each v 0 expired) (ke_between v t))
      | _ \<Rightarrow> ke_between v t)"

section \<open>The batches\<close>

definition fits :: "pusher \<Rightarrow> push_env \<Rightarrow> resource_tags list \<Rightarrow> bool" where
  "fits P v b \<longleftrightarrow> b \<noteq> [] \<and>
     (length b = 1 \<or> (\<Sum>r\<leftarrow>b. int (row_size (pe_json v) r)) \<le> sentMaxBytes P)"

lemma sendBatch_cases: "sendBatch P v k b = Flush_ok \<or> sendBatch P v k b = Flush_panic \<or>
    (\<exists>e. sendBatch P v k b = Flush_error e)"
  by (simp add: sendBatch_def split: option.splits)

lemma flush_loop_batches:
  assumes "flush_loop P v k batch n found = (Flush_ok, sent)"
    and "n = (\<Sum>r\<leftarrow>batch. int (row_size (pe_json v) r))" and "batch = [] \<or> fits P v batch"
  shows "concat sent = batch @ found \<and> (\<forall>b \<in> set sent. fits P v b)"
  using assms
proof (induction P v k batch n found arbitrary: sent rule: flush_loop.induct)
  case (1 P v k batch n)
  then show ?case by (auto split: if_splits flush_result.splits)
next
  case (2 P v k batch n r found)
  let ?size = "int (row_size (pe_json v) r)"
  show ?case
  proof (cases "sentMaxBytes P < ?size + n \<and> batch \<noteq> []")
    case True
    with "2.prems"(1) obtain sent' where s: "sendBatch P v k batch = Flush_ok"
      "flush_loop P v (Suc k) [r] ?size found = (Flush_ok, sent')" "sent = batch # sent'"
      by (auto simp: Let_def split: flush_result.splits prod.splits)
    have "concat sent' = [r] @ found \<and> (\<forall>b \<in> set sent'. fits P v b)"
      by (rule "2.IH"(1) [OF refl True s(1) s(2)]) (simp_all add: fits_def)
    with s(3) "2.prems"(3) True show ?thesis by auto
  next
    case False
    with "2.prems"(1) have l: "flush_loop P v k (batch @ [r]) (n + ?size) found = (Flush_ok, sent)"
      by (simp add: Let_def)
    have "fits P v (batch @ [r])" using False "2.prems"(2) by (auto simp: fits_def)
    with "2.IH"(2) [OF refl False l] "2.prems"(2) show ?thesis by simp
  qed
qed

lemma flush_loop_no_exit: "fst (flush_loop P v k batch n found) \<noteq> Flush_exit"
proof (induction P v k batch n found rule: flush_loop.induct)
  case (1 P v k batch n)
  then show ?case using sendBatch_cases [of P v k batch] by (auto split: flush_result.splits)
next
  case (2 P v k batch n r found)
  then show ?case using sendBatch_cases [of P v k batch]
    by (auto simp: Let_def case_prod_beta split: flush_result.splits)
qed

section \<open>Marking\<close>

definition marked :: "int \<Rightarrow> (string \<Rightarrow> int) \<Rightarrow> resource_tags list \<Rightarrow> resource_tags \<Rightarrow> resource_tags" where
  "marked now u rs q =
     (case find (\<lambda>r. update_matches r q) rs of
        None \<Rightarrow> q
      | Some r \<Rightarrow> write_columns (r\<lparr>rt_sent := Some now, rt_updated := u (rt_id r)\<rparr>) q)"

lemma update_matches_simps [simp]:
  "update_matches (r\<lparr>rt_sent := s\<rparr>) q = update_matches r q"
  "update_matches (r\<lparr>rt_updated := u\<rparr>) q = update_matches r q"
  "update_matches it (write_columns x q) = update_matches it q"
  by (simp_all add: update_matches_def write_columns_def)

lemma write_columns_self: "write_columns (r\<lparr>rt_sent := s, rt_updated := u\<rparr>) r = r\<lparr>rt_sent := s, rt_updated := u\<rparr>"
  by (cases r) (simp add: write_columns_def)

lemma update_matches_self: "update_matches r r"
  by (simp add: update_matches_def)

lemma marked_Cons:
  assumes "rt_id r \<notin> rt_id ` set rs" and "u' = u(rt_id r := n)"
  shows "marked now u rs (if update_matches r q then write_columns (r\<lparr>rt_sent := Some now, rt_updated := n\<rparr>) q else q) =
         marked now u' (r # rs) q"
proof (cases "update_matches r q")
  case True
  have "find (\<lambda>x. update_matches x q) rs = None"
    using True assms(1) by (auto simp: find_None_iff update_matches_def)
  then show ?thesis using True assms(2) by (simp add: marked_def)
next
  case False
  have "rt_id x \<noteq> rt_id r" if "find (\<lambda>x. update_matches x q) rs = Some x" for x
    using that assms(1) by (auto simp: find_Some_iff) (metis image_eqI nth_mem)
  then show ?thesis using False assms(2) by (auto simp: marked_def split: option.splits)
qed

lemma mark_sent_rows:
  assumes "distinct (map rt_id rs)" and "mark_sent v i rs t = (Done a, t')"
  shows "\<exists>u. t' = map (marked (pe_now v) u rs) t"
  using assms
proof (induction rs arbitrary: i t)
  case Nil
  then show ?case by (simp add: marked_def)
next
  case (Cons r rs)
  let ?n = "de_now (pe_update v i)"
  let ?f = "\<lambda>q. if update_matches r q then write_columns (r\<lparr>rt_sent := Some (pe_now v), rt_updated := ?n\<rparr>) q else q"
  have up: "repo_Update (pe_update v i) (r\<lparr>rt_sent := Some (pe_now v)\<rparr>) t =
      (Done (r\<lparr>rt_sent := Some (pe_now v), rt_updated := ?n\<rparr>), map ?f t)"
    using Cons.prems(2) by (auto simp: repo_Update_def Let_def write_failure_def split: if_splits option.splits)
  then have "mark_sent v (Suc i) rs (map ?f t) = (Done a, t')" using Cons.prems(2) by simp
  then obtain u where u: "t' = map (marked (pe_now v) u rs) (map ?f t)"
    using Cons.IH [of "Suc i" "map ?f t"] Cons.prems(1) by auto
  have "marked (pe_now v) u rs (?f q) = marked (pe_now v) (u(rt_id r := ?n)) (r # rs) q" for q
    using Cons.prems(1) by (intro marked_Cons) auto
  then have "map (marked (pe_now v) u rs) (map ?f t) = map (marked (pe_now v) (u(rt_id r := ?n)) (r # rs)) t"
    by simp
  with up u show ?case by auto
qed

lemma find_all_unsent:
  assumes "repo_FindAllBy v P t = Done found" and "quiet v"
  shows "mset found = mset (filter P t)"
  using assms by (auto simp: repo_FindAllBy_def quiet_def)

lemma Flush_ok_cases:
  assumes "Flush P v t = (Flush_ok, sent, t')"
  obtains found where "repo_FindAllBy (pe_find v) (\<lambda>r. rt_sent r = None) t = Done found"
    "flush_loop P v 0 [] 0 found = (Flush_ok, sent)"
    "found = [] \<and> t' = pe_between v t \<or> mark_sent v 0 found (pe_between v t) = (Done (), t')"
proof -
  obtain found where f: "repo_FindAllBy (pe_find v) (\<lambda>r. rt_sent r = None) t = Done found"
    using assms by (auto simp: Flush_def split: outcome.splits)
  moreover have l: "flush_loop P v 0 [] 0 found = (Flush_ok, sent)"
    using assms f by (auto simp: Flush_def split: prod.splits flush_result.splits if_splits outcome.splits)
  moreover have "found = [] \<and> t' = pe_between v t \<or> mark_sent v 0 found (pe_between v t) = (Done (), t')"
    using assms by (simp add: Flush_def f l repo_Tx_def split: if_splits outcome.splits prod.splits option.splits)
  ultimately show thesis by (rule that)
qed

lemma Flush_fails_cases: "fst (Flush P v t) \<noteq> Flush_ok \<Longrightarrow> snd (snd (Flush P v t)) = pe_between v t"
  by (auto simp: Flush_def repo_Tx_def split: outcome.splits prod.splits flush_result.splits option.splits if_splits)

lemma marked_found:
  assumes "distinct (map rt_id rs)" and "r \<in> set rs" and "update_matches r q"
  shows "marked now u rs q = write_columns (r\<lparr>rt_sent := Some now, rt_updated := u (rt_id r)\<rparr>) q"
proof -
  have "x = r" if "x \<in> set rs" "update_matches x q" for x
    using that assms by (auto simp: update_matches_def distinct_map dest: inj_onD)
  then have "find (\<lambda>x. update_matches x q) rs = Some r"
    using assms(2,3) by (metis (no_types, lifting) find_None_iff find_Some_iff nth_mem option.exhaust)
  then show ?thesis by (simp add: marked_def)
qed

lemma marked_other: "(\<And>r. r \<in> set rs \<Longrightarrow> rt_id r \<noteq> rt_id q) \<Longrightarrow> marked now u rs q = q"
proof -
  assume "\<And>r. r \<in> set rs \<Longrightarrow> rt_id r \<noteq> rt_id q"
  then have "find (\<lambda>x. update_matches x q) rs = None"
    unfolding find_None_iff update_matches_def by metis
  then show ?thesis by (simp add: marked_def)
qed

section \<open>Housekeeping facts\<close>

lemma delete_each_rows:
  "delete_each v i rs t = (Done a, t') \<Longrightarrow> t' = filter (\<lambda>r. rt_id r \<notin> rt_id ` set rs) t"
proof (induction rs arbitrary: i t)
  case (Cons r rs)
  from Cons.prems have e: "repo_Delete (ke_delete v i) (rt_id r) t = (Done (), filter (\<lambda>q. rt_id q \<noteq> rt_id r) t)"
    by (auto simp: repo_Delete_def split: option.splits)
  with Cons.prems have "delete_each v (Suc i) rs (filter (\<lambda>q. rt_id q \<noteq> rt_id r) t) = (Done a, t')" by simp
  from Cons.IH [OF this] show ?case by (auto intro: filter_cong)
qed simp

lemma cleanup_rows:
  "cleanup v t = ke_between v t \<or>
   (\<exists>expired. repo_FindAllBy (ke_find v) (expired_row v) t = Done expired \<and>
      cleanup v t = filter (\<lambda>r. rt_id r \<notin> rt_id ` set expired) (ke_between v t))"
proof -
  have "snd (repo_Tx c (delete_each v 0 rs) s) = s \<or>
        snd (repo_Tx c (delete_each v 0 rs) s) = filter (\<lambda>r. rt_id r \<notin> rt_id ` set rs) s" for c rs s
    using delete_each_rows [of v 0 rs s]
    by (cases "delete_each v 0 rs s"; cases "fst (delete_each v 0 rs s)") (auto simp: repo_Tx_def split: option.splits)
  then show ?thesis by (auto simp: cleanup_def split: outcome.splits)
qed

section \<open>Reachable tables\<close>

text \<open>The tables reached from the empty one by the writes of the webhook, the flushes of the pusher
  and the ticks of the housekeeper.  What happens between the two halves of a flush or tick is
  again any number of these.\<close>

inductive store_reach :: "table \<Rightarrow> bool" where
  reach_empty: "store_reach []"
| reach_write: "store_reach t \<Longrightarrow> de_id (we_write v) \<notin> rt_id ` set t \<Longrightarrow> de_id (we_write v) \<noteq> [] \<Longrightarrow>
    store_reach (snd (repo_write v record t))"
| reach_flush: "store_reach t \<Longrightarrow> store_reach (pe_between v t) \<Longrightarrow> store_reach (snd (snd (Flush P v t)))"
| reach_cleanup: "store_reach t \<Longrightarrow> store_reach (ke_between v t) \<Longrightarrow> store_reach (cleanup v t)"

lemma write_is_run:
  assumes "de_id (we_write v) \<notin> rt_id ` set t" and "de_id (we_write v) \<noteq> []"
  shows "\<exists>ops. snd (repo_write v record t) = fold repo_step ops t \<and> repo.fresh_run ops t"
proof (cases "repo_FindFirstBy (we_find v) (same_resource record) t")
  case (Done q)
  let ?it = "record\<lparr>rt_id := rt_id q, rt_created := rt_created q, rt_updated := de_now (we_write v), rt_sent := None\<rparr>"
  have "snd (repo_write v record t) \<in> {t, repo_step (Op_update (we_write v) ?it) t}"
    using Done by (auto simp: genericWriteDataToStorage_def repo_ops_def repo_Tx_def split: outcome.splits prod.splits option.splits)
  then show ?thesis
    by (auto intro: exI [of _ "[]"] exI [of _ "[Op_update (we_write v) ?it]"])
next
  case (Failed e)
  have "snd (repo_write v record t) \<in> {t, repo_step (Op_create (we_write v) record) t}"
    using Failed by (auto simp: genericWriteDataToStorage_def repo_ops_def repo_Tx_def split: outcome.splits prod.splits option.splits)
  then show ?thesis using assms
    by (auto intro: exI [of _ "[]"] exI [of _ "[Op_create (we_write v) record]"])
qed (auto simp: genericWriteDataToStorage_def repo_ops_def intro: exI [of _ "[]"])

lemma mark_sent_is_run: "\<exists>ops. snd (mark_sent v i rs t) = fold repo_step ops t \<and> repo.fresh_run ops t"
proof (induction rs arbitrary: i t)
  case Nil
  then show ?case by (auto intro: exI [of _ "[]"])
next
  case (Cons r rs)
  let ?op = "Op_update (pe_update v i) (r\<lparr>rt_sent := Some (pe_now v)\<rparr>)"
  obtain o' t1 where u: "repo_Update (pe_update v i) (r\<lparr>rt_sent := Some (pe_now v)\<rparr>) t = (o', t1)"
    by (cases "repo_Update (pe_update v i) (r\<lparr>rt_sent := Some (pe_now v)\<rparr>) t")
  obtain ops where "snd (mark_sent v (Suc i) rs t1) = fold repo_step ops t1" "repo.fresh_run ops t1"
    using Cons.IH by blast
  then show ?case using u
    by (cases o') (auto intro: exI [of _ "[?op]"] exI [of _ "?op # ops"])
qed

lemma delete_each_is_run: "\<exists>ops. snd (delete_each v i rs t) = fold repo_step ops t \<and> repo.fresh_run ops t"
proof (induction rs arbitrary: i t)
  case Nil
  then show ?case by (auto intro: exI [of _ "[]"])
next
  case (Cons r rs)
  let ?op = "Op_delete (ke_delete v i) (rt_id r)"
  obtain o' t1 where u: "repo_Delete (ke_delete v i) (rt_id r) t = (o', t1)"
    by (cases "repo_Delete (ke_delete v i) (rt_id r) t")
  obtain ops where "snd (delete_each v (Suc i) rs t1) = fold repo_step ops t1" "repo.fresh_run ops t1"
    using Cons.IH by blast
  then show ?case using u
    by (cases o') (auto intro: exI [of _ "[?op]"] exI [of _ "?op # ops"])
qed

lemma repo_Tx_table: "snd (repo_Tx c block t) = t \<or> snd (repo_Tx c block t) = snd (block t)"
  by (simp add: repo_Tx_def split: outcome.splits prod.splits option.splits)

lemma Flush_table:
  "snd (snd (Flush P v t)) = pe_between v t \<or>
   (\<exists>found. snd (snd (Flush P v t)) = snd (mark_sent v 0 found (pe_between v t)))"
proof (cases "fst (Flush P v t) = Flush_ok")
  case True
  then obtain sent t' where f: "Flush P v t = (Flush_ok, sent, t')" by (cases "Flush P v t") auto
  from Flush_ok_cases [OF f] show ?thesis using f by (metis snd_conv)
qed (simp add: Flush_fails_cases)

lemma cleanup_table:
  "cleanup v t = ke_between v t \<or> (\<exists>rs. cleanup v t = snd (delete_each v 0 rs (ke_between v t)))"
proof -
  have "snd (repo_Tx c (delete_each v 0 rs) s) = s \<or> snd (repo_Tx c (delete_each v 0 rs) s) = snd (delete_each v 0 rs s)"
    for c rs s by (rule repo_Tx_table)
  then show ?thesis by (auto simp: cleanup_def split: outcome.splits)
qed

lemma store_reach_unique: "store_reach t \<Longrightarrow> repo.unique t"
proof (induction rule: store_reach.induct)
  case reach_empty
  then show ?case by (simp add: repo.unique_def List.map_filter_simps)
next
  case (reach_write t v it)
  then show ?case using write_is_run [of v t it] repo.run_unique by metis
next
  case (reach_flush t v P)
  then show ?case using Flush_table [of P v t] mark_sent_is_run repo.run_unique by metis
next
  case (reach_cleanup t v)
  then show ?case using cleanup_table [of v t] delete_each_is_run repo.run_unique by metis
qed

lemma unique_keys_eq:
  assumes "distinct (List.map_filter f t)" and "i < length t" and "j < length t"
    and "f (t ! i) = Some k" and "f (t ! j) = Some k"
  shows "i = j"
  using assms
proof (induction t arbitrary: i j)
  case (Cons a t)
  have in_t: "k \<in> set (List.map_filter f t)" if "n < length t" "f (t ! n) = Some k" for n
    using that by (auto simp: List.map_filter_def image_iff intro!: exI [of _ "t ! n"])
  consider (zero) "i = 0" "j = 0" | (left) n where "i = 0" "j = Suc n" | (right) n where "i = Suc n" "j = 0"
    | (both) n m where "i = Suc n" "j = Suc m"
    by (cases i; cases j) auto
  then show ?case
  proof cases
    case (left n)
    then show ?thesis using Cons.prems in_t [of n] by (simp add: List.map_filter_simps)
  next
    case (right n)
    then show ?thesis using Cons.prems in_t [of n] by (simp add: List.map_filter_simps)
  next
    case (both n m)
    then show ?thesis using Cons.prems Cons.IH [of n m]
      by (auto simp: List.map_filter_simps split: option.splits)
  qed simp
qed simp

lemma marked_pointwise:
  assumes "distinct (map rt_id t)" and "mset found = mset (filter P t)" and "r \<in> set t"
  shows "marked now u found r = (if P r then r\<lparr>rt_sent := Some now, rt_updated := u (rt_id r)\<rparr> else r)"
proof -
  have f: "set found = {r \<in> set t. P r}" using mset_eq_setD [OF assms(2)] by auto
  have "distinct (map rt_id (filter P t))" using assms(1) by (simp add: distinct_map_filter)
  then have d: "distinct (map rt_id found)"
    using assms(2) by (metis mset_eq_imp_distinct_iff mset_map)
  show ?thesis
  proof (cases "P r")
    case True
    then show ?thesis
      using marked_found [OF d, of r r] f assms(3) update_matches_self by (simp add: write_columns_self)
  next
    case False
    have "rt_id x \<noteq> rt_id r" if "x \<in> set found" for x
      using that f False assms(1,3) by (auto simp: distinct_map dest: inj_onD)
    then show ?thesis using False marked_other by auto
  qed
qed

section \<open>Properties\<close>

text \<open>C9: Where no other goroutine writes between the search and the marking, and rows have different
  identifiers, a flush that succeeds sends every row that was not sent, each in exactly one batch, no batch of
  more than one row going over the size limit, and then marks exactly those rows with the time of the flush;
  apart from the times no row changes.  What happens to a write that comes between is another property.\<close>

theorem flush_sends_and_marks:
  assumes "Flush P v t = (Flush_ok, sent, t')" and "quiet (pe_find v)"
    and "pe_between v t = t" and "distinct (map rt_id t)"
  shows "mset (concat sent) = mset (filter (\<lambda>r. rt_sent r = None) t) \<and> (\<forall>b \<in> set sent. fits P v b) \<and>
    list_all2 (\<lambda>r r'. if rt_sent r = None then \<exists>u. r' = r\<lparr>rt_sent := Some (pe_now v), rt_updated := u\<rparr>
                      else r' = r) t t'"
proof -
  obtain found where f: "repo_FindAllBy (pe_find v) (\<lambda>r. rt_sent r = None) t = Done found"
    "flush_loop P v 0 [] 0 found = (Flush_ok, sent)"
    "found = [] \<and> t' = pe_between v t \<or> mark_sent v 0 found (pe_between v t) = (Done (), t')"
    by (rule Flush_ok_cases [OF assms(1)])
  have m: "mset found = mset (filter (\<lambda>r. rt_sent r = None) t)"
    by (rule find_all_unsent [OF f(1) assms(2)])
  have b: "concat sent = found \<and> (\<forall>b \<in> set sent. fits P v b)"
    using flush_loop_batches [OF f(2)] by simp
  have d: "distinct (map rt_id found)"
    using assms(4) m by (metis distinct_map_filter mset_eq_imp_distinct_iff mset_map)
  have "mark_sent v 0 found t = (Done (), t')"
    using f(3) assms(3) by auto
  from mark_sent_rows [OF d this] obtain u where t': "t' = map (marked (pe_now v) u found) t" ..
  have "list_all2 (\<lambda>r r'. if rt_sent r = None then \<exists>u. r' = r\<lparr>rt_sent := Some (pe_now v), rt_updated := u\<rparr>
                      else r' = r) t t'"
    unfolding t' list_all2_map2 by (rule list.rel_refl_strong) (auto simp: marked_pointwise [OF assms(4) m])
  with b m show ?thesis by auto
qed

definition sample_pusher :: pusher where
  "sample_pusher = \<lparr>sentMaxBytes = 20, maxRetries = 3\<rparr>"

definition good_push :: push_env where
  "good_push = \<lparr>pe_now = 8, pe_json = (\<lambda>_. 10), pe_find = plain_env 8 ''x'', pe_encode_ok = (\<lambda>_. True),
     pe_request_ok = True, pe_answer = (\<lambda>k i. if i = 0 then Some 503 else Some 204), pe_between = (\<lambda>t. t),
     pe_update = (\<lambda>_. plain_env 9 ''x''), pe_commit = None\<rparr>"

definition fresh_row :: "string \<Rightarrow> string \<Rightarrow> resource_tags" where
  "fresh_row n i = (sample_tags n (Some ''prod'') ''a'')\<lparr>rt_id := i, rt_created := 5, rt_updated := 5\<rparr>"

lemmas sample_defs = sample_pusher_def good_push_def fresh_row_def sample_tags_def plain_env_def

lemma good_push_flush:
  "Flush sample_pusher good_push [fresh_row ''web'' ''1'', fresh_row ''db'' ''2''] =
     (Flush_ok, [[fresh_row ''web'' ''1''], [fresh_row ''db'' ''2'']],
      map (\<lambda>r. r\<lparr>rt_sent := Some 8, rt_updated := 9\<rparr>) [fresh_row ''web'' ''1'', fresh_row ''db'' ''2''])"
  by (simp add: Flush_def repo_FindAllBy_def sendBatch_def PushMetrics_def numeral_eq_Suc repo_Tx_def
      repo_Update_def update_matches_def write_columns_def row_size_def column_size_def Let_def sample_defs)

theorem flush_sends_and_marks_witness:
  "mset (concat (fst (snd (Flush sample_pusher good_push [fresh_row ''web'' ''1'', fresh_row ''db'' ''2''])))) =
   {#fresh_row ''web'' ''1'', fresh_row ''db'' ''2''#}"
  using flush_sends_and_marks [OF good_push_flush]
  by (simp add: good_push_flush)

text \<open>A flush that does not succeed marks nothing, whatever batches were accepted before: what
  was sent will be sent again, and nothing is taken for sent that was not.\<close>

theorem failed_flush_marks_nothing:
  assumes "fst (Flush P v t) \<noteq> Flush_ok"
  shows "snd (snd (Flush P v t)) = pe_between v t"
  by (rule Flush_fails_cases [OF assms])

theorem failed_flush_marks_nothing_witness:
  "snd (snd (Flush sample_pusher (good_push\<lparr>pe_answer := \<lambda>k i. None\<rparr>) [fresh_row ''web'' ''1''])) = [fresh_row ''web'' ''1'']"
proof -
  have "fst (Flush sample_pusher (good_push\<lparr>pe_answer := \<lambda>k i. None\<rparr>) [fresh_row ''web'' ''1'']) \<noteq> Flush_ok"
    by (simp add: Flush_def repo_FindAllBy_def sendBatch_def PushMetrics_def numeral_eq_Suc
        row_size_def column_size_def Let_def sample_defs)
  from failed_flush_marks_nothing [OF this] show ?thesis by (simp add: good_push_def)
qed

text \<open>C36: A write of the webhook that comes between the search and the marking of a flush is lost: if a
  row was not sent when the flush searched, and the table still has a row of its identity when it marks, then
  after a flush that succeeds that row has the labels and annotations that the flush had read, whatever was
  written meanwhile, and it is marked as sent, so the new ones are never exported.\<close>

theorem flush_overwrites_concurrent_write:
  assumes "Flush P v t = (Flush_ok, sent, t')" and "quiet (pe_find v)" and "distinct (map rt_id t)"
    and "r \<in> set t" and "rt_sent r = None" and "q \<in> set (pe_between v t)" and "update_matches r q"
  shows "\<exists>q' \<in> set t'. rt_id q' = rt_id r \<and> rt_labels q' = rt_labels r \<and>
    rt_annotations q' = rt_annotations r \<and> rt_sent q' = Some (pe_now v)"
proof -
  obtain found where f: "repo_FindAllBy (pe_find v) (\<lambda>r. rt_sent r = None) t = Done found"
    "found = [] \<and> t' = pe_between v t \<or> mark_sent v 0 found (pe_between v t) = (Done (), t')"
    by (rule Flush_ok_cases [OF assms(1)])
  have m: "mset found = mset (filter (\<lambda>r. rt_sent r = None) t)"
    by (rule find_all_unsent [OF f(1) assms(2)])
  then have r: "r \<in> set found" using mset_eq_setD [OF m] assms(4,5) by auto
  have d: "distinct (map rt_id found)"
    using assms(3) m by (metis distinct_map_filter mset_eq_imp_distinct_iff mset_map)
  have "mark_sent v 0 found (pe_between v t) = (Done (), t')" using f(2) r by auto
  from mark_sent_rows [OF d this] obtain u where "t' = map (marked (pe_now v) u found) (pe_between v t)" ..
  then have "marked (pe_now v) u found q \<in> set t'" using assms(6) by simp
  moreover have "marked (pe_now v) u found q = write_columns (r\<lparr>rt_sent := Some (pe_now v), rt_updated := u (rt_id r)\<rparr>) q"
    by (rule marked_found [OF d r assms(7)])
  ultimately have "write_columns (r\<lparr>rt_sent := Some (pe_now v), rt_updated := u (rt_id r)\<rparr>) q \<in> set t'" by simp
  moreover have "rt_id q = rt_id r" using assms(7) by (simp add: update_matches_def)
  ultimately show ?thesis by (rule_tac bexI) (simp_all add: write_columns_def)
qed

theorem flush_overwrites_concurrent_write_witness:
  "\<exists>q' \<in> set (snd (snd (Flush sample_pusher
       (good_push\<lparr>pe_between := \<lambda>t. snd (repo_write (plain_write 7 ''9'') (sample_tags ''web'' (Some ''prod'') ''new'') t)\<rparr>)
       [fresh_row ''web'' ''1'']))). rt_labels q' = rt_labels (fresh_row ''web'' ''1'') \<and> rt_sent q' = Some 8"
proof -
  let ?v = "good_push\<lparr>pe_between := \<lambda>t. snd (repo_write (plain_write 7 ''9'') (sample_tags ''web'' (Some ''prod'') ''new'') t)\<rparr>"
  let ?t = "[fresh_row ''web'' ''1'']"
  have w: "pe_between ?v ?t = [write_columns ((sample_tags ''web'' (Some ''prod'') ''new'')\<lparr>rt_updated := 7\<rparr>) (fresh_row ''web'' ''1'')]"
    by (simp add: write_data_defs plain_write_def sample_defs same_resource_def update_matches_def write_columns_def)
  have "fst (Flush sample_pusher ?v ?t) = Flush_ok"
    unfolding Flush_def w
    by (simp add: repo_FindAllBy_def sendBatch_def PushMetrics_def numeral_eq_Suc repo_Tx_def
        repo_Update_def row_size_def column_size_def Let_def sample_defs)
  then obtain sent t' where f: "Flush sample_pusher ?v ?t = (Flush_ok, sent, t')"
    by (cases "Flush sample_pusher ?v ?t") auto
  have "\<exists>q' \<in> set t'. rt_id q' = rt_id (fresh_row ''web'' ''1'') \<and> rt_labels q' = rt_labels (fresh_row ''web'' ''1'') \<and>
      rt_annotations q' = rt_annotations (fresh_row ''web'' ''1'') \<and> rt_sent q' = Some (pe_now ?v)"
    by (rule flush_overwrites_concurrent_write [OF f, where q = "hd (pe_between ?v ?t)"])
       (unfold w, simp_all add: sample_defs quiet_def update_matches_def write_columns_def)
  then show ?thesis using f by (auto simp: good_push_def)
qed

text \<open>C26: Where no other goroutine comes between, the housekeeper deletes only rows that were sent,
  created and last changed before the cutoff, and deletes nothing that is still to be sent.\<close>

theorem housekeeper_deletes_only_old_sent:
  assumes "\<And>a b. ke_older v a b \<Longrightarrow> a < b" and "quiet (ke_find v)" and "ke_between v t = t"
    and "distinct (map rt_id t)"
  shows "set (cleanup v t) \<subseteq> set t \<and>
    (\<forall>r \<in> set t - set (cleanup v t). \<exists>s. rt_sent r = Some s \<and> s < ke_now v - ke_retention v \<and>
       rt_created r < ke_now v - ke_retention v \<and> rt_updated r < ke_now v - ke_retention v)"
proof (cases "cleanup v t = t")
  case False
  then obtain expired where e: "repo_FindAllBy (ke_find v) (expired_row v) t = Done expired"
    "cleanup v t = filter (\<lambda>r. rt_id r \<notin> rt_id ` set expired) t"
    using cleanup_rows [of v t] assms(3) by auto
  have s: "set expired = {r \<in> set t. expired_row v r}"
    using mset_eq_setD [OF find_all_unsent [OF e(1) assms(2)]] by auto
  have "expired_row v r" if "r \<in> set t" "rt_id r \<in> rt_id ` set expired" for r
    using that s assms(4) by (auto simp: distinct_map dest: inj_onD)
  then have "expired_row v r" if "r \<in> set t - set (cleanup v t)" for r using that e(2) by auto
  moreover have "\<exists>s. rt_sent r = Some s \<and> s < ke_now v - ke_retention v \<and>
      rt_created r < ke_now v - ke_retention v \<and> rt_updated r < ke_now v - ke_retention v" if "expired_row v r" for r
    using that assms(1) by (auto simp: expired_row_def Let_def split: option.splits)
  ultimately show ?thesis using e(2) by auto
qed simp

definition daily_keeper :: keeper_env where
  "daily_keeper = \<lparr>ke_now = 100, ke_retention = 50, ke_older = (<), ke_find = plain_env 100 ''x'',
     ke_between = (\<lambda>t. t), ke_delete = (\<lambda>_. plain_env 100 ''x''), ke_commit = None\<rparr>"

theorem housekeeper_deletes_only_old_sent_witness:
  "set (cleanup daily_keeper [sent_row, fresh_row ''web'' ''2'']) \<subseteq> {sent_row, fresh_row ''web'' ''2''} \<and>
   fresh_row ''web'' ''2'' \<in> set (cleanup daily_keeper [sent_row, fresh_row ''web'' ''2''])"
proof -
  let ?t = "[sent_row, fresh_row ''web'' ''2'']"
  have "set (cleanup daily_keeper ?t) \<subseteq> set ?t \<and>
    (\<forall>r \<in> set ?t - set (cleanup daily_keeper ?t). \<exists>s. rt_sent r = Some s \<and> s < ke_now daily_keeper - ke_retention daily_keeper \<and>
       rt_created r < ke_now daily_keeper - ke_retention daily_keeper \<and> rt_updated r < ke_now daily_keeper - ke_retention daily_keeper)"
    by (rule housekeeper_deletes_only_old_sent) (simp_all add: daily_keeper_def sent_row_def sample_defs quiet_def)
  then have "set (cleanup daily_keeper ?t) \<subseteq> {sent_row, fresh_row ''web'' ''2''}"
    "fresh_row ''web'' ''2'' \<in> set ?t - set (cleanup daily_keeper ?t) \<Longrightarrow> rt_sent (fresh_row ''web'' ''2'') \<noteq> None"
    by auto
  moreover have "rt_sent (fresh_row ''web'' ''2'') = None" by (simp add: sample_defs)
  ultimately show ?thesis by auto
qed

text \<open>C16: Whatever order the webhook's writes, the pusher's flushes and the housekeeper's ticks come in,
  with failures anywhere and with other calls between the halves of a flush or tick, the store never
  holds two rows with one identifier, nor two rows for one namespaced resource.\<close>

theorem store_rows_unique:
  assumes "store_reach t" and "i < length t" and "j < length t"
    and "rt_id (t ! i) = rt_id (t ! j) \<or> row_key (t ! i) = row_key (t ! j) \<and> rt_namespace (t ! i) \<noteq> None"
  shows "i = j"
proof -
  have u: "distinct (map rt_id t)" "distinct (List.map_filter row_key t)"
    using store_reach_unique [OF assms(1)] by (simp_all add: repo.unique_def)
  show ?thesis
  proof (cases "rt_id (t ! i) = rt_id (t ! j)")
    case True
    then show ?thesis using u(1) assms(2,3) by (metis length_map nth_eq_iff_index_eq nth_map)
  next
    case False
    have "rt_namespace (t ! i) = None \<longleftrightarrow> row_key (t ! i) = None" by (simp add: row_key_def)
    with False assms(4) obtain k where "row_key (t ! i) = Some k" "row_key (t ! j) = Some k"
      by (cases "row_key (t ! i)") auto
    then show ?thesis using unique_keys_eq [OF u(2) assms(2,3)] by blast
  qed
qed

definition sample_table :: table where
  "sample_table = snd (repo_write (plain_write 7 ''2'') (sample_tags ''db'' (Some ''prod'') ''a'')
     (snd (repo_write (plain_write 7 ''1'') (sample_tags ''web'' (Some ''prod'') ''a'') [])))"

lemma sample_table_ids: "map rt_id sample_table = [''1'', ''2'']"
  by (simp add: sample_table_def write_data_defs plain_write_def insert_row_def conflicts_def sample_defs same_resource_def)

lemma sample_table_reach: "store_reach sample_table"
  unfolding sample_table_def
  by (intro reach_write reach_empty)
     (simp_all add: write_data_defs plain_write_def insert_row_def sample_defs same_resource_def)

theorem store_rows_unique_witness: "\<not> (rt_id (sample_table ! 0) = rt_id (sample_table ! 1))"
proof
  assume "rt_id (sample_table ! 0) = rt_id (sample_table ! 1)"
  moreover have "length sample_table = 2" using arg_cong [OF sample_table_ids, of length] by simp
  ultimately show False using store_rows_unique [OF sample_table_reach, of 0 1] by simp
qed

end
