(* ===== verification/Streaming_Store.thy ===== *)
theory Streaming_Store
  imports Metrics_Pusher
begin

text \<open>
  The store of the backfill job (\<open>app/storage/streaming/store.go\<close>): it buffers the records that are
  written, sends a full buffer to the remote write endpoint and forgets it, whether the push
  succeeded or not.  Its queries find nothing.

  The state is the buffer, with a record of what became of the full ones: the requests the endpoint
  accepted and the records whose push failed.  An operation holds the store's lock, so the
  operations of concurrent reviews follow each other.
\<close>

section \<open>The store\<close>

definition defaultBatchRecords :: nat where "defaultBatchRecords = 500"

record streaming =
  ss_batch :: "resource_tags list"
  ss_accepted :: "timeseries list list"
  ss_lost :: "resource_tags list"

definition new_streaming :: streaming where
  "new_streaming = \<lparr>ss_batch = [], ss_accepted = [], ss_lost = []\<rparr>"

text \<open>A push that fails reports the error of the push, here the untranslated one.\<close>

definition push_error :: store_error where
  "push_error = Untranslated (OtherError ''streaming store flush'')"

definition flushLocked :: "pusher \<Rightarrow> push_env \<Rightarrow> streaming \<Rightarrow> unit outcome \<times> streaming" where
  "flushLocked P v s =
     (if ss_batch s = [] then (Done (), s)
      else (case FormatMetrics (ss_batch s) of
              None \<Rightarrow> (Panicked, s)
            | Some ts \<Rightarrow>
                if PushMetrics P v 0 ts
                then (Done (), s\<lparr>ss_batch := [], ss_accepted := ss_accepted s @ [ts]\<rparr>)
                else (Failed push_error, s\<lparr>ss_batch := [], ss_lost := ss_lost s @ ss_batch s\<rparr>)))"

definition stream_Create :: "pusher \<Rightarrow> push_env \<Rightarrow> resource_tags \<Rightarrow> streaming \<Rightarrow> resource_tags outcome \<times> streaming" where
  "stream_Create P v rec s =
     (let rec' = rec\<lparr>rt_created := pe_now v, rt_updated := pe_now v\<rparr>;
          s' = s\<lparr>ss_batch := ss_batch s @ [rec']\<rparr>
      in if defaultBatchRecords \<le> length (ss_batch s')
         then (case flushLocked P v s' of
                 (Done _, s'') \<Rightarrow> (Done rec', s'')
               | (Failed e, s'') \<Rightarrow> (Failed e, s'')
               | (Panicked, s'') \<Rightarrow> (Panicked, s'')
               | (Exited, s'') \<Rightarrow> (Exited, s''))
         else (Done rec', s'))"

definition stream_Update :: "pusher \<Rightarrow> push_env \<Rightarrow> resource_tags \<Rightarrow> streaming \<Rightarrow> resource_tags outcome \<times> streaming" where
  "stream_Update P v rec s = stream_Create P v rec s"

definition stream_Flush :: "pusher \<Rightarrow> push_env \<Rightarrow> streaming \<Rightarrow> unit outcome \<times> streaming" where
  "stream_Flush P v s = flushLocked P v s"

text \<open>The other operations of the interface.\<close>

definition stream_Get :: "string \<Rightarrow> streaming \<Rightarrow> resource_tags outcome" where
  "stream_Get i s = Failed ErrNotFound"

definition stream_Delete :: "string \<Rightarrow> streaming \<Rightarrow> unit outcome \<times> streaming" where
  "stream_Delete i s = (Done (), s)"

definition stream_Count :: "streaming \<Rightarrow> nat outcome" where
  "stream_Count s = Done 0"

definition stream_DeleteAll :: "streaming \<Rightarrow> unit outcome \<times> streaming" where
  "stream_DeleteAll s = (Done (), s)"

definition stream_FindFirstBy :: "(resource_tags \<Rightarrow> bool) \<Rightarrow> streaming \<Rightarrow> resource_tags outcome" where
  "stream_FindFirstBy conds s = Failed ErrNotFound"

definition stream_FindAllBy :: "(resource_tags \<Rightarrow> bool) \<Rightarrow> streaming \<Rightarrow> resource_tags list outcome" where
  "stream_FindAllBy conds s = Done []"

definition stream_Tx :: "(streaming \<Rightarrow> 'a outcome \<times> streaming) \<Rightarrow> streaming \<Rightarrow> 'a outcome \<times> streaming" where
  "stream_Tx block s = block s"

text \<open>The store the handlers of the webhook write to.\<close>

definition streaming_ops :: "pusher \<Rightarrow> push_env \<Rightarrow> streaming store_ops" where
  "streaming_ops P v = \<lparr>so_now = pe_now v, so_find = stream_FindFirstBy,
     so_create = stream_Create P v, so_update = stream_Update P v, so_tx = stream_Tx\<rparr>"

text \<open>A write is always a creation.\<close>

lemma stream_write: "genericWriteDataToStorage (streaming_ops P v) rec s = stream_Create P v rec s"
  by (simp add: genericWriteDataToStorage_def streaming_ops_def stream_FindFirstBy_def stream_Tx_def)

lemma flushLocked_batch: "ss_batch (snd (flushLocked P v s)) \<in> {[], ss_batch s}"
  by (simp add: flushLocked_def split: option.splits)

lemma stream_Create_batch:
  "ss_batch (snd (stream_Create P v rec s)) \<in> {[], ss_batch s @ [rec\<lparr>rt_created := pe_now v, rt_updated := pe_now v\<rparr>]}"
  using flushLocked_batch [of P v "s\<lparr>ss_batch := ss_batch s @ [rec\<lparr>rt_created := pe_now v, rt_updated := pe_now v\<rparr>]\<rparr>"]
  by (auto simp: stream_Create_def Let_def split: prod.splits outcome.splits)

interpretation stream_content: content_store "\<lambda>(P, v). streaming_ops P v" "\<lambda>s. set (ss_batch s)"
proof unfold_locales
  fix q pv r s assume "q \<in> set (ss_batch (snd (genericWriteDataToStorage ((\<lambda>(P, v). streaming_ops P v) pv) r s)))"
  then show "q \<in> set (ss_batch s) \<or> tags_of q = tags_of r"
    using stream_Create_batch [of "fst pv" "snd pv" r s] by (cases pv) (auto simp: stream_write)
qed

section \<open>The series of a record\<close>

definition formattable :: "resource_tags \<Rightarrow> bool" where
  "formattable r \<longleftrightarrow> rt_labels r \<noteq> None \<and> rt_metric_labels r \<noteq> None"

definition series :: "resource_tags \<Rightarrow> timeseries list" where
  "series r = (case FormatMetrics [r] of None \<Rightarrow> [] | Some ts \<Rightarrow> ts)"

lemma FormatMetrics_Cons:
  "FormatMetrics (r # rs) =
     (case FormatMetrics rs of None \<Rightarrow> None | Some ts \<Rightarrow> if formattable r then Some (series r @ ts) else None)"
  by (cases "rt_labels r"; cases "rt_metric_labels r"; cases "FormatMetrics rs")
     (simp_all add: series_def formattable_def Let_def)

lemma FormatMetrics_series:
  "FormatMetrics rs = (if \<forall>r \<in> set rs. formattable r then Some (concat (map series rs)) else None)"
  by (induction rs) (auto simp: FormatMetrics_Cons simp del: FormatMetrics.simps(2))

text \<open>What is exported of a resource apart from the time.\<close>

definition untimed :: "timeseries \<Rightarrow> (string \<times> string) list \<times> int" where
  "untimed x = (ts_labels x, ts_value x)"

definition exported :: "resource_tags \<Rightarrow> ((string \<times> string) list \<times> int) list" where
  "exported r = map untimed (series r)"

lemma exported_stamp: "exported (r\<lparr>rt_created := c, rt_updated := u\<rparr>) = exported r"
  by (simp add: exported_def untimed_def series_def Let_def createTimeseries_def split: option.splits)

text \<open>A series of a record that was just written has the time of the write.\<close>

lemma series_stamp:
  "x \<in> set (series (r\<lparr>rt_created := c, rt_updated := c\<rparr>)) \<Longrightarrow> ts_timestamp x = go_div c nanos_per_milli"
  by (auto simp: series_def Let_def createTimeseries_def maxTime_def split: option.splits)

lemma formattable_stamp [simp]: "formattable (r\<lparr>rt_created := c, rt_updated := u\<rparr>) = formattable r"
  by (simp add: formattable_def)

section \<open>Sequences of operations\<close>

datatype stream_call = Stream_write push_env resource_tags | Stream_flush push_env

fun stream_step :: "pusher \<Rightarrow> stream_call \<Rightarrow> streaming \<Rightarrow> streaming" where
  "stream_step P (Stream_write v r) s = snd (stream_Create P v r s)"
| "stream_step P (Stream_flush v) s = snd (stream_Flush P v s)"

text \<open>The records handed in, as they are stamped.\<close>

fun written :: "stream_call \<Rightarrow> resource_tags list" where
  "written (Stream_write v r) = [r\<lparr>rt_created := pe_now v, rt_updated := pe_now v\<rparr>]"
| "written (Stream_flush v) = []"

definition stream_inv :: "streaming \<Rightarrow> bool" where
  "stream_inv s \<longleftrightarrow> length (ss_batch s) < defaultBatchRecords \<and> (\<forall>r \<in> set (ss_batch s). formattable r)"

definition accounted :: "streaming \<Rightarrow> timeseries multiset" where
  "accounted s = mset (concat (ss_accepted s)) + mset (concat (map series (ss_lost s))) + mset (concat (map series (ss_batch s)))"

lemma flushLocked_accounts:
  assumes "\<forall>r \<in> set (ss_batch s). formattable r"
  shows "accounted (snd (flushLocked P v s)) = accounted s"
    and "ss_batch (snd (flushLocked P v s)) = []"
    and "fst (flushLocked P v s) \<in> {Done (), Failed push_error}"
  using assms by (auto simp: FormatMetrics_series flushLocked_def accounted_def)

lemma stream_step_accounts:
  assumes "stream_inv s" and "\<forall>r \<in> set (written c). formattable r"
  shows "stream_inv (stream_step P c s)"
    and "accounted (stream_step P c s) = accounted s + mset (concat (map series (written c)))"
proof -
  have "stream_inv (stream_step P c s) \<and>
      accounted (stream_step P c s) = accounted s + mset (concat (map series (written c)))"
  proof (cases c)
    case (Stream_write v r)
    let ?r = "r\<lparr>rt_created := pe_now v, rt_updated := pe_now v\<rparr>"
    let ?s = "s\<lparr>ss_batch := ss_batch s @ [?r]\<rparr>"
    have g: "\<forall>r \<in> set (ss_batch ?s). formattable r" using assms Stream_write by (auto simp: stream_inv_def)
    have a: "accounted ?s = accounted s + mset (series ?r)" by (simp add: accounted_def)
    have f: "snd (stream_Create P v r s) =
        (if defaultBatchRecords \<le> length (ss_batch ?s) then snd (flushLocked P v ?s) else ?s)"
      by (simp add: stream_Create_def Let_def split: prod.splits outcome.splits)
    show ?thesis
      using Stream_write f flushLocked_accounts [OF g] a g assms(1)
      by (auto simp: stream_inv_def defaultBatchRecords_def)
  next
    case (Stream_flush v)
    then show ?thesis using flushLocked_accounts [of s P v] assms(1)
      by (auto simp: stream_inv_def stream_Flush_def defaultBatchRecords_def)
  qed
  then show "stream_inv (stream_step P c s)"
    and "accounted (stream_step P c s) = accounted s + mset (concat (map series (written c)))" by auto
qed

lemma stream_run_accounts:
  assumes "stream_inv s" and "\<forall>c \<in> set cs. \<forall>r \<in> set (written c). formattable r"
  shows "stream_inv (fold (stream_step P) cs s) \<and>
    accounted (fold (stream_step P) cs s) = accounted s + mset (concat (map series (concat (map written cs))))"
  using assms
proof (induction cs arbitrary: s)
  case (Cons c cs)
  have c: "stream_inv (stream_step P c s)"
      "accounted (stream_step P c s) = accounted s + mset (concat (map series (written c)))"
    using stream_step_accounts [OF Cons.prems(1)] Cons.prems(2) by auto
  show ?case using Cons.IH [OF c(1)] Cons.prems(2) c(2) by simp
qed simp

lemma stream_inv_new [simp]: "stream_inv new_streaming" "accounted new_streaming = {#}"
  by (simp_all add: stream_inv_def accounted_def new_streaming_def defaultBatchRecords_def)

section \<open>Properties\<close>

text \<open>C19: The streaming store accounts for every record: after any operations that write records with
  labels, the series the endpoint accepted, those of the batches whose push failed and those still
  buffered are together exactly the series of all records written; the buffer holds fewer records
  than a batch, and a final flush leaves it empty.\<close>

theorem streaming_store_accounts:
  assumes "\<forall>c \<in> set cs. \<forall>r \<in> set (written c). formattable r"
    and "s = fold (stream_step P) cs new_streaming"
  shows "mset (concat (ss_accepted s)) + mset (concat (map series (ss_lost s))) + mset (concat (map series (ss_batch s))) =
      mset (concat (map series (concat (map written cs)))) \<and>
    length (ss_batch s) < defaultBatchRecords \<and> ss_batch (snd (stream_Flush P v s)) = []"
  using stream_run_accounts [OF stream_inv_new(1) assms(1), of P] flushLocked_accounts(2) [of s P v]
  unfolding assms(2) [symmetric] by (simp add: accounted_def stream_inv_def stream_Flush_def new_streaming_def)

definition refused_push :: push_env where
  "refused_push = good_push\<lparr>pe_answer := (\<lambda>_ _. Some 503)\<rparr>"

theorem streaming_store_accounts_witness:
  "let cs = [Stream_write good_push (fresh_row ''a'' ''1''), Stream_flush refused_push,
             Stream_write good_push (fresh_row ''b'' ''2''), Stream_flush good_push];
       s = fold (stream_step sample_pusher) cs new_streaming
   in map rt_name (ss_lost s) = [''a''] \<and> length (ss_accepted s) = 1 \<and>
      mset (concat (ss_accepted s)) + mset (concat (map series (ss_lost s))) =
      mset (concat (map series (concat (map written cs))))"
proof -
  let ?cs = "[Stream_write good_push (fresh_row ''a'' ''1''), Stream_flush refused_push,
             Stream_write good_push (fresh_row ''b'' ''2''), Stream_flush good_push]"
  let ?s = "fold (stream_step sample_pusher) ?cs new_streaming"
  have f: "\<forall>c \<in> set ?cs. \<forall>r \<in> set (written c). formattable r"
    by (simp add: formattable_def sample_defs)
  have s: "ss_batch ?s = []" "map rt_name (ss_lost ?s) = [''a'']" "length (ss_accepted ?s) = 1"
    by (simp_all add: stream_Create_def stream_Flush_def flushLocked_def defaultBatchRecords_def new_streaming_def
        PushMetrics_def refused_push_def sample_defs Let_def numeral_3_eq_3)
  from streaming_store_accounts [OF f refl, of sample_pusher] s show ?thesis by (simp add: Let_def)
qed

end
