(* ===== verification/Webhook_Handlers.thy ===== *)
theory Webhook_Handlers
  imports Resource_Repo
begin

text \<open>
  The handlers of the admission webhook: its filter settings (\<open>app/config/webhook\<close>), one configuration
  accessor and constructor per kind of resource (\<open>app/domain/webhook/handler/*.go\<close>), the formatters
  and the generic admit function (\<open>generic_handler.go\<close>), and the execution of a handler on a review
  (\<open>app/domain/webhook/hook/hook.go\<close>).

  A Kubernetes object is its Go type and the part of its content that the handlers read.  The
  deserialisers of Kubernetes are a parameter: from the Go type an object is decoded into (none for
  the dynamic creator) and the raw text to the content.  The strict policy and the compiled patterns
  stand in the settings as functions.
\<close>

section \<open>Settings and filters\<close>

record tag_resources =
  tr_pods :: bool
  tr_namespaces :: bool
  tr_deployments :: bool
  tr_jobs :: bool
  tr_cronjobs :: bool
  tr_statefulsets :: bool
  tr_daemonsets :: bool
  tr_nodes :: bool

record tag_filter =
  tf_enabled :: bool
  tf_resources :: tag_resources
  tf_patterns :: "string list"

record settings =
  st_labels :: tag_filter
  st_annotations :: tag_filter
  st_label_matches :: "(string \<Rightarrow> bool) list"
  st_annotation_matches :: "(string \<Rightarrow> bool) list"
  st_sanitize :: "string \<Rightarrow> string"
  st_reconnect_frequency :: int

text \<open>A pattern that does not compile ends the process.\<close>

definition compilePatterns :: "(string \<Rightarrow> (string \<Rightarrow> bool) option) \<Rightarrow> string list \<Rightarrow> (string \<Rightarrow> bool) list option" where
  "compilePatterns compile patterns =
     (if \<exists>p \<in> set patterns. compile p = None then None else Some (List.map_filter compile patterns))"

definition setCompiledFilters :: "(string \<Rightarrow> (string \<Rightarrow> bool) option) \<Rightarrow> settings \<Rightarrow> settings option" where
  "setCompiledFilters compile S =
     (case compilePatterns compile (tf_patterns (st_labels S)) of
        None \<Rightarrow> None
      | Some ls \<Rightarrow>
          (case compilePatterns compile (tf_patterns (st_annotations S)) of
             None \<Rightarrow> None
           | Some ans \<Rightarrow> Some (S\<lparr>st_label_matches := ls, st_annotation_matches := ans\<rparr>)))"

definition evalTag :: "string \<Rightarrow> string \<Rightarrow> (string \<Rightarrow> bool) list \<Rightarrow> settings \<Rightarrow> bool" where
  "evalTag key val patterns S =
     (if st_sanitize S key \<noteq> key then False
      else if st_sanitize S val \<noteq> val then False
      else list_ex (\<lambda>pattern. pattern key) patterns)"

definition Filter_tags :: "str_map \<Rightarrow> (string \<Rightarrow> bool) list \<Rightarrow> bool \<Rightarrow> settings \<Rightarrow> str_map" where
  "Filter_tags tags patterns enabled S =
     (if \<not> enabled then fmempty
      else fmfilter (\<lambda>key. case fmlookup tags key of None \<Rightarrow> False | Some val \<Rightarrow> evalTag key val patterns S) tags)"

text \<open>\<open>cleanString\<close> cuts what is not alphanumeric from both ends of an account identifier.\<close>

definition alphanumeric :: "char \<Rightarrow> bool" where
  "alphanumeric c = (let n = of_char c :: nat in 97 \<le> n \<and> n \<le> 122 \<or> 65 \<le> n \<and> n \<le> 90 \<or> 48 \<le> n \<and> n \<le> 57)"

definition cleanString :: "string \<Rightarrow> string" where
  "cleanString s = rev (dropWhile (\<lambda>c. \<not> alphanumeric c) (rev (dropWhile (\<lambda>c. \<not> alphanumeric c) s)))"

section \<open>Accessors\<close>

record accessor =
  LabelsEnabled :: bool
  AnnotationsEnabled :: bool
  LabelsEnabledForType :: bool
  AnnotationsEnabledForType :: bool
  ResourceType :: resource_type

definition DeploymentConfigAccessor :: "settings \<Rightarrow> accessor" where
  "DeploymentConfigAccessor S = \<lparr>LabelsEnabled = tf_enabled (st_labels S),
     AnnotationsEnabled = tf_enabled (st_annotations S),
     LabelsEnabledForType = tr_deployments (tf_resources (st_labels S)),
     AnnotationsEnabledForType = tr_deployments (tf_resources (st_annotations S)),
     ResourceType = Deployment\<rparr>"

definition StatefulSetConfigAccessor :: "settings \<Rightarrow> accessor" where
  "StatefulSetConfigAccessor S = \<lparr>LabelsEnabled = tf_enabled (st_labels S),
     AnnotationsEnabled = tf_enabled (st_annotations S),
     LabelsEnabledForType = tr_statefulsets (tf_resources (st_labels S)),
     AnnotationsEnabledForType = tr_statefulsets (tf_resources (st_annotations S)),
     ResourceType = StatefulSet\<rparr>"

definition DaemonSetConfigAccessor :: "settings \<Rightarrow> accessor" where
  "DaemonSetConfigAccessor S = \<lparr>LabelsEnabled = tf_enabled (st_labels S),
     AnnotationsEnabled = tf_enabled (st_annotations S),
     LabelsEnabledForType = tr_daemonsets (tf_resources (st_labels S)),
     AnnotationsEnabledForType = tr_daemonsets (tf_resources (st_annotations S)),
     ResourceType = DaemonSet\<rparr>"

definition ReplicaSetConfigAccessor :: "settings \<Rightarrow> accessor" where
  "ReplicaSetConfigAccessor S = \<lparr>LabelsEnabled = False,
     AnnotationsEnabled = False,
     LabelsEnabledForType = False,
     AnnotationsEnabledForType = False,
     ResourceType = ReplicaSet\<rparr>"

definition PodConfigAccessor :: "settings \<Rightarrow> accessor" where
  "PodConfigAccessor S = \<lparr>LabelsEnabled = tf_enabled (st_labels S),
     AnnotationsEnabled = tf_enabled (st_annotations S),
     LabelsEnabledForType = tr_pods (tf_resources (st_labels S)),
     AnnotationsEnabledForType = tr_pods (tf_resources (st_annotations S)),
     ResourceType = Pod\<rparr>"

definition NamespaceConfigAccessor :: "settings \<Rightarrow> accessor" where
  "NamespaceConfigAccessor S = \<lparr>LabelsEnabled = tf_enabled (st_labels S),
     AnnotationsEnabled = tf_enabled (st_annotations S),
     LabelsEnabledForType = tr_namespaces (tf_resources (st_labels S)),
     AnnotationsEnabledForType = tr_namespaces (tf_resources (st_annotations S)),
     ResourceType = Namespace\<rparr>"

definition NodeConfigAccessor :: "settings \<Rightarrow> accessor" where
  "NodeConfigAccessor S = \<lparr>LabelsEnabled = tf_enabled (st_labels S),
     AnnotationsEnabled = tf_enabled (st_annotations S),
     LabelsEnabledForType = tr_nodes (tf_resources (st_labels S)),
     AnnotationsEnabledForType = tr_nodes (tf_resources (st_annotations S)),
     ResourceType = Node\<rparr>"

definition ServiceConfigAccessor :: "settings \<Rightarrow> accessor" where
  "ServiceConfigAccessor S = \<lparr>LabelsEnabled = False,
     AnnotationsEnabled = False,
     LabelsEnabledForType = False,
     AnnotationsEnabledForType = False,
     ResourceType = Service\<rparr>"

definition PersistentVolumeConfigAccessor :: "settings \<Rightarrow> accessor" where
  "PersistentVolumeConfigAccessor S = \<lparr>LabelsEnabled = False,
     AnnotationsEnabled = False,
     LabelsEnabledForType = False,
     AnnotationsEnabledForType = False,
     ResourceType = PersistentVolume\<rparr>"

definition PersistentVolumeClaimConfigAccessor :: "settings \<Rightarrow> accessor" where
  "PersistentVolumeClaimConfigAccessor S = \<lparr>LabelsEnabled = False,
     AnnotationsEnabled = False,
     LabelsEnabledForType = False,
     AnnotationsEnabledForType = False,
     ResourceType = PersistentVolumeClaim\<rparr>"

definition JobConfigAccessor :: "settings \<Rightarrow> accessor" where
  "JobConfigAccessor S = \<lparr>LabelsEnabled = tf_enabled (st_labels S),
     AnnotationsEnabled = tf_enabled (st_annotations S),
     LabelsEnabledForType = tr_jobs (tf_resources (st_labels S)),
     AnnotationsEnabledForType = tr_jobs (tf_resources (st_annotations S)),
     ResourceType = Job\<rparr>"

definition CronJobConfigAccessor :: "settings \<Rightarrow> accessor" where
  "CronJobConfigAccessor S = \<lparr>LabelsEnabled = tf_enabled (st_labels S),
     AnnotationsEnabled = tf_enabled (st_annotations S),
     LabelsEnabledForType = tr_cronjobs (tf_resources (st_labels S)),
     AnnotationsEnabledForType = tr_cronjobs (tf_resources (st_annotations S)),
     ResourceType = CronJob\<rparr>"

definition CustomResourceDefinitionConfigAccessor :: "settings \<Rightarrow> accessor" where
  "CustomResourceDefinitionConfigAccessor S = \<lparr>LabelsEnabled = False,
     AnnotationsEnabled = False,
     LabelsEnabledForType = False,
     AnnotationsEnabledForType = False,
     ResourceType = CustomResourceDefinition\<rparr>"

definition IngressConfigAccessor :: "settings \<Rightarrow> accessor" where
  "IngressConfigAccessor S = \<lparr>LabelsEnabled = False,
     AnnotationsEnabled = False,
     LabelsEnabledForType = False,
     AnnotationsEnabledForType = False,
     ResourceType = Ingress\<rparr>"

definition GatewayConfigAccessor :: "settings \<Rightarrow> accessor" where
  "GatewayConfigAccessor S = \<lparr>LabelsEnabled = False,
     AnnotationsEnabled = False,
     LabelsEnabledForType = False,
     AnnotationsEnabledForType = False,
     ResourceType = Gateway\<rparr>"

definition StorageClassConfigAccessor :: "settings \<Rightarrow> accessor" where
  "StorageClassConfigAccessor S = \<lparr>LabelsEnabled = tf_enabled (st_labels S),
     AnnotationsEnabled = tf_enabled (st_annotations S),
     LabelsEnabledForType = True,
     AnnotationsEnabledForType = True,
     ResourceType = StorageClass\<rparr>"

definition IngressClassConfigAccessor :: "settings \<Rightarrow> accessor" where
  "IngressClassConfigAccessor S = \<lparr>LabelsEnabled = tf_enabled (st_labels S),
     AnnotationsEnabled = tf_enabled (st_annotations S),
     LabelsEnabledForType = True,
     AnnotationsEnabledForType = True,
     ResourceType = IngressClass\<rparr>"

definition GatewayClassConfigAccessor :: "settings \<Rightarrow> accessor" where
  "GatewayClassConfigAccessor S = \<lparr>LabelsEnabled = tf_enabled (st_labels S),
     AnnotationsEnabled = tf_enabled (st_annotations S),
     LabelsEnabledForType = True,
     AnnotationsEnabledForType = True,
     ResourceType = GatewayClass\<rparr>"

section \<open>Objects and formatters\<close>

record object_content =
  oc_name :: string
  oc_namespace :: string
  oc_labels :: str_map
  oc_annotations :: str_map
  oc_controller :: string

type_synonym k8s_object = "string \<times> object_content"

definition FieldNamespace :: string where "FieldNamespace = ''namespace''"
definition FieldNode :: string where "FieldNode = ''node''"
definition FieldPod :: string where "FieldPod = ''pod''"
definition FieldResourceType :: string where "FieldResourceType = ''resource_type''"
definition FieldWorkload :: string where "FieldWorkload = ''workload''"

text \<open>What every formatter does first with the labels and the annotations.\<close>

definition filtered_labels :: "settings \<Rightarrow> accessor \<Rightarrow> object_content \<Rightarrow> str_map" where
  "filtered_labels S a obj =
     (if LabelsEnabled a then Filter_tags (oc_labels obj) (st_label_matches S) (LabelsEnabledForType a) S
      else fmempty)"

definition filtered_annotations :: "settings \<Rightarrow> accessor \<Rightarrow> object_content \<Rightarrow> str_map" where
  "filtered_annotations S a obj =
     (if AnnotationsEnabled a
      then Filter_tags (oc_annotations obj) (st_annotation_matches S) (AnnotationsEnabledForType a) S
      else fmempty)"

definition new_tags :: "resource_type \<Rightarrow> string \<Rightarrow> string option \<Rightarrow> str_map \<Rightarrow> str_map \<Rightarrow> str_map \<Rightarrow> resource_tags" where
  "new_tags typ name ns metricLabels labels annotations =
     \<lparr>rt_id = [], rt_type = typ, rt_name = name, rt_namespace = ns, rt_metric_labels = Some metricLabels,
      rt_labels = Some labels, rt_annotations = Some annotations, rt_created = 0, rt_updated = 0, rt_sent = None\<rparr>"

type_synonym data_formatter = "settings \<Rightarrow> accessor \<Rightarrow> object_content \<Rightarrow> resource_tags"

definition PodDataFormatter :: data_formatter where
  "PodDataFormatter S a obj =
     new_tags Pod (oc_name obj) (Some (oc_namespace obj))
       (fmap_of_list [(FieldPod, oc_name obj), (FieldNamespace, oc_namespace obj),
                      (FieldResourceType, ResourceTypeToMetricName (ResourceType a))])
       (filtered_labels S a obj) (filtered_annotations S a obj)"

definition NamespaceDataFormatter :: data_formatter where
  "NamespaceDataFormatter S a obj =
     new_tags (ResourceType a) (oc_name obj) None
       (fmap_of_list [(FieldNamespace, oc_name obj),
                      (FieldResourceType, ResourceTypeToMetricName (ResourceType a))])
       (filtered_labels S a obj) (filtered_annotations S a obj)"

definition NodeDataFormatter :: data_formatter where
  "NodeDataFormatter S a obj =
     new_tags (ResourceType a) (oc_name obj) None
       (fmap_of_list [(FieldNode, oc_name obj),
                      (FieldResourceType, ResourceTypeToMetricName (ResourceType a))])
       (filtered_labels S a obj) (filtered_annotations S a obj)"

definition WorkloadDataFormatter :: data_formatter where
  "WorkloadDataFormatter S a obj =
     new_tags (ResourceType a) (oc_name obj) (Some (oc_namespace obj))
       (fmap_of_list [(FieldWorkload, oc_name obj), (FieldNamespace, oc_namespace obj),
                      (FieldResourceType, ResourceTypeToMetricName (ResourceType a))])
       (filtered_labels S a obj) (filtered_annotations S a obj)"

text \<open>The formatter that \<open>cron.go\<close> has of its own.\<close>

definition FormatCronJobData :: "settings \<Rightarrow> object_content \<Rightarrow> resource_tags" where
  "FormatCronJobData S obj =
     new_tags CronJob (oc_name obj) (Some (oc_namespace obj))
       (fmap_of_list [(''workload'', oc_name obj), (''namespace'', oc_namespace obj),
                      (''resource_type'', ResourceTypeToMetricName CronJob)])
       (if tf_enabled (st_labels S)
        then Filter_tags (oc_labels obj) (st_label_matches S)
               (tf_enabled (st_labels S) \<and> tr_cronjobs (tf_resources (st_labels S))) S
        else fmempty)
       (if tf_enabled (st_annotations S)
        then Filter_tags (oc_annotations obj) (st_annotation_matches S)
               (tf_enabled (st_annotations S) \<and> tr_cronjobs (tf_resources (st_annotations S))) S
        else fmempty)"

section \<open>Reviews and handlers\<close>

datatype review_operation = OperationUnknown | OperationCreate | OperationUpdate | OperationDelete | OperationConnect

fun operation_str :: "review_operation \<Rightarrow> string" where
  "operation_str OperationUnknown = ''unknown''"
| "operation_str OperationCreate = ''create''"
| "operation_str OperationUpdate = ''update''"
| "operation_str OperationDelete = ''delete''"
| "operation_str OperationConnect = ''connect''"

datatype review_version = AdmissionReviewVersionV1beta1 | AdmissionReviewVersionV1

record gvk =
  gk_group :: string
  gk_version :: string
  gk_kind :: string

record admission_review =
  ar_original :: "review_version option"
  ar_id :: string
  ar_name :: string
  ar_namespace :: string
  ar_operation :: review_operation
  ar_version :: review_version
  ar_gvr :: "gvk option"
  ar_gvk :: gvk
  ar_old :: string
  ar_new :: string
  ar_dry_run :: bool

record admission_response =
  rs_allowed :: bool
  rs_message :: string
  rs_warnings :: "string list"

definition allowed :: "string \<Rightarrow> admission_response" where
  "allowed msg = \<lparr>rs_allowed = True, rs_message = msg, rs_warnings = []\<rparr>"

text \<open>The store with the counters of the webhook: the class counters and the count of reviews, as
  the lists of their increments, newest first.\<close>

record 's webhook_state =
  wt_store :: 's
  wt_classes :: "(string \<times> string \<times> string) list"
  wt_reviews :: "(string \<times> string \<times> string \<times> string) list"

datatype review_result = Answer admission_response | Review_error string | Review_panic | Review_exit

type_synonym 's admit_func =
  "'s store_ops \<Rightarrow> admission_review \<Rightarrow> k8s_object \<Rightarrow> 's webhook_state \<Rightarrow> review_result \<times> 's webhook_state"

definition AllowAlways :: "'s admit_func" where
  "AllowAlways ops r obj s = (Answer (allowed []), s)"

datatype object_creator = Static string | Dynamic

record 's hook_handler =
  hh_accessor :: "accessor option"
  hh_creator :: "object_creator option"
  hh_type :: string
  hh_create :: "'s admit_func option"
  hh_update :: "'s admit_func option"
  hh_delete :: "'s admit_func option"
  hh_connect :: "'s admit_func option"

text \<open>\<open>T\<close> is the type the object is cast to.\<close>

definition admitFunc :: "settings \<Rightarrow> string \<Rightarrow> accessor \<Rightarrow> data_formatter \<Rightarrow> 's admit_func" where
  "admitFunc S T a formatData ops r obj s =
     (if fst obj \<noteq> T then (Answer (allowed []), s)
      else if LabelsEnabledForType a \<or> AnnotationsEnabledForType a then
        (case genericWriteDataToStorage ops (formatData S a (snd obj)) (wt_store s) of
           (Panicked, st) \<Rightarrow> (Review_panic, s\<lparr>wt_store := st\<rparr>)
         | (Exited, st) \<Rightarrow> (Review_exit, s\<lparr>wt_store := st\<rparr>)
         | (_, st) \<Rightarrow> (Answer (allowed []), s\<lparr>wt_store := st\<rparr>))
      else (Answer (allowed []), s))"

definition NewGenericHandler ::
  "settings \<Rightarrow> string \<Rightarrow> string \<Rightarrow> accessor \<Rightarrow> data_formatter \<Rightarrow> 's hook_handler"
where
  "NewGenericHandler S T objTemplate a formatData =
     \<lparr>hh_accessor = Some a, hh_creator = Some (Static objTemplate), hh_type = objTemplate,
      hh_create = Some (admitFunc S T a formatData), hh_update = Some (admitFunc S T a formatData),
      hh_delete = Some (admitFunc S T a formatData), hh_connect = Some AllowAlways\<rparr>"

text \<open>The handlers of the class resources only count creations.\<close>

definition class_create :: "string \<Rightarrow> string list \<Rightarrow> 's admit_func" where
  "class_create counter types ops r obj s =
     (if fst obj \<in> set types
      then (Answer (allowed []),
            s\<lparr>wt_classes := (counter, oc_name (snd obj), oc_controller (snd obj)) # wt_classes s\<rparr>)
      else (Answer (allowed []), s))"

definition NewClassHandler :: "string \<Rightarrow> string list \<Rightarrow> accessor \<Rightarrow> string \<Rightarrow> 's hook_handler" where
  "NewClassHandler counter types a objTemplate =
     \<lparr>hh_accessor = Some a, hh_creator = Some (Static objTemplate), hh_type = objTemplate,
      hh_create = Some (class_create counter types), hh_update = Some AllowAlways,
      hh_delete = Some AllowAlways, hh_connect = Some AllowAlways\<rparr>"

section \<open>Constructors\<close>

definition NewDeploymentHandler :: "settings \<Rightarrow> string \<Rightarrow> 's hook_handler" where
  "NewDeploymentHandler S resource = NewGenericHandler S resource resource (DeploymentConfigAccessor S) WorkloadDataFormatter"

definition NewStatefulSetHandler :: "settings \<Rightarrow> string \<Rightarrow> 's hook_handler" where
  "NewStatefulSetHandler S resource = NewGenericHandler S resource resource (StatefulSetConfigAccessor S) WorkloadDataFormatter"

definition NewDaemonSetHandler :: "settings \<Rightarrow> string \<Rightarrow> 's hook_handler" where
  "NewDaemonSetHandler S resource = NewGenericHandler S resource resource (DaemonSetConfigAccessor S) WorkloadDataFormatter"

definition NewReplicaSetHandler :: "settings \<Rightarrow> string \<Rightarrow> 's hook_handler" where
  "NewReplicaSetHandler S resource = NewGenericHandler S resource resource (ReplicaSetConfigAccessor S) WorkloadDataFormatter"

definition NewPodHandler :: "settings \<Rightarrow> string \<Rightarrow> 's hook_handler" where
  "NewPodHandler S resource = NewGenericHandler S resource resource (PodConfigAccessor S) PodDataFormatter"

definition NewNamespaceHandler :: "settings \<Rightarrow> string \<Rightarrow> 's hook_handler" where
  "NewNamespaceHandler S resource = NewGenericHandler S resource resource (NamespaceConfigAccessor S) NamespaceDataFormatter"

definition NewNodeHandler :: "settings \<Rightarrow> string \<Rightarrow> 's hook_handler" where
  "NewNodeHandler S resource = NewGenericHandler S resource resource (NodeConfigAccessor S) NodeDataFormatter"

definition NewServiceHandler :: "settings \<Rightarrow> string \<Rightarrow> 's hook_handler" where
  "NewServiceHandler S resource = NewGenericHandler S resource resource (ServiceConfigAccessor S) WorkloadDataFormatter"

definition NewPersistentVolumeHandler :: "settings \<Rightarrow> string \<Rightarrow> 's hook_handler" where
  "NewPersistentVolumeHandler S resource = NewGenericHandler S resource resource (PersistentVolumeConfigAccessor S) WorkloadDataFormatter"

definition NewPersistentVolumeClaimHandler :: "settings \<Rightarrow> string \<Rightarrow> 's hook_handler" where
  "NewPersistentVolumeClaimHandler S resource = NewGenericHandler S resource resource (PersistentVolumeClaimConfigAccessor S) WorkloadDataFormatter"

definition NewJobHandler :: "settings \<Rightarrow> string \<Rightarrow> 's hook_handler" where
  "NewJobHandler S resource = NewGenericHandler S resource resource (JobConfigAccessor S) WorkloadDataFormatter"

definition NewCronJobHandler :: "settings \<Rightarrow> string \<Rightarrow> 's hook_handler" where
  "NewCronJobHandler S resource = NewGenericHandler S resource resource (CronJobConfigAccessor S) WorkloadDataFormatter"

definition NewCustomResourceDefinitionHandler :: "settings \<Rightarrow> string \<Rightarrow> 's hook_handler" where
  "NewCustomResourceDefinitionHandler S resource = NewGenericHandler S resource resource (CustomResourceDefinitionConfigAccessor S) WorkloadDataFormatter"

definition NewIngressHandler :: "settings \<Rightarrow> string \<Rightarrow> 's hook_handler" where
  "NewIngressHandler S resource = NewGenericHandler S ''networkingv1.Ingress'' resource (IngressConfigAccessor S) WorkloadDataFormatter"

definition NewGatewayHandler :: "settings \<Rightarrow> string \<Rightarrow> 's hook_handler" where
  "NewGatewayHandler S resource = NewGenericHandler S ''gatewayv1.Gateway'' resource (GatewayConfigAccessor S) WorkloadDataFormatter"

definition NewStorageClassHandler :: "settings \<Rightarrow> string \<Rightarrow> 's hook_handler" where
  "NewStorageClassHandler S objTemplate =
     NewClassHandler ''czo_storage_types_total'' [''storagev1.StorageClass'', ''storagev1beta1.StorageClass''] (StorageClassConfigAccessor S) objTemplate"

definition NewIngressClassHandler :: "settings \<Rightarrow> string \<Rightarrow> 's hook_handler" where
  "NewIngressClassHandler S objTemplate =
     NewClassHandler ''czo_ingress_types_total'' [''networkingv1.IngressClass'', ''networkingv1beta1.IngressClass''] (IngressClassConfigAccessor S) objTemplate"

definition NewGatewayClassHandler :: "settings \<Rightarrow> string \<Rightarrow> 's hook_handler" where
  "NewGatewayClassHandler S objTemplate =
     NewClassHandler ''czo_gateway_types_total'' [''gatewayv1.GatewayClass'', ''gatewayv1beta1.GatewayClass''] (GatewayClassConfigAccessor S) objTemplate"

section \<open>Executing a handler\<close>

text \<open>A static creator decodes into a new object of its type.\<close>

definition NewObject :: "(string option \<Rightarrow> string \<Rightarrow> k8s_object option) \<Rightarrow> object_creator \<Rightarrow> string \<Rightarrow> k8s_object option" where
  "NewObject decode c raw =
     (case c of
        Static t \<Rightarrow> map_option (\<lambda>obj. (t, snd obj)) (decode (Some t) raw)
      | Dynamic \<Rightarrow> decode None raw)"

definition hook_middleware :: "'s admit_func option \<Rightarrow> 's admit_func" where
  "hook_middleware fn ops r obj s =
     (case fn of
        None \<Rightarrow> (Review_error (''operation '' @ operation_str (ar_operation r) @ '' is not registered''), s)
      | Some f \<Rightarrow> f ops r obj s)"

definition Execute ::
  "(string option \<Rightarrow> string \<Rightarrow> k8s_object option) \<Rightarrow> 's hook_handler \<Rightarrow> 's store_ops \<Rightarrow> admission_review \<Rightarrow>
   's webhook_state \<Rightarrow> review_result \<times> 's webhook_state"
where
  "Execute decode h ops r s =
     (case hh_creator h of
        None \<Rightarrow> (Answer (allowed (''no object creator: '' @ operation_str (ar_operation r))), s)
      | Some c \<Rightarrow>
          (let raw = (if ar_operation r = OperationDelete then ar_old r else ar_new r)
           in (case NewObject decode c raw of
                 None \<Rightarrow> (Answer (allowed (''Unable to create object from raw: '' @ operation_str (ar_operation r))), s)
               | Some obj \<Rightarrow>
                   (case ar_operation r of
                      OperationCreate \<Rightarrow> hook_middleware (hh_create h) ops r obj s
                    | OperationUpdate \<Rightarrow> hook_middleware (hh_update h) ops r obj s
                    | OperationDelete \<Rightarrow> hook_middleware (hh_delete h) ops r obj s
                    | OperationConnect \<Rightarrow> hook_middleware (hh_connect h) ops r obj s
                    | OperationUnknown \<Rightarrow>
                        (Answer (allowed (''Invalid operation: '' @ operation_str (ar_operation r))), s)))))"

end
