(* ===== verification/Go_Text.thy ===== *)
theory Go_Text
  imports Go_Prelude
begin

text \<open>
  More of Go's \<open>strings\<close> package, for the components that take text apart: cutting and splitting at
  a separator of several bytes, joining, and the lines of a text.
\<close>

section \<open>Cutting and splitting\<close>

text \<open>The text before and after the first occurrence of a separator.\<close>

fun cut :: "string \<Rightarrow> string \<Rightarrow> (string \<times> string) option" where
  "cut sep [] = (if sep = [] then Some ([], []) else None)"
| "cut sep (c # cs) =
     (if prefix sep (c # cs) then Some ([], drop (length sep) (c # cs))
      else map_option (\<lambda>(a, b). (c # a, b)) (cut sep cs))"

lemma cut_Some: "cut sep s = Some (a, b) \<Longrightarrow> s = a @ sep @ b"
proof (induction s arbitrary: a)
  case Nil
  then show ?case by (auto split: if_splits)
next
  case (Cons c cs)
  show ?case
  proof (cases "prefix sep (c # cs)")
    case True
    then show ?thesis using Cons.prems by (auto simp: prefix_def)
  next
    case False
    then show ?thesis using Cons.prems Cons.IH by auto
  qed
qed

lemma cut_None [go_string]: "cut sep s = None \<longleftrightarrow> \<not> go_contains s sep"
  by (induction s) auto

lemma cut_append:
  assumes "\<And>i. i < length a \<Longrightarrow> \<not> prefix sep (drop i (a @ sep @ b))" and "sep \<noteq> []"
  shows "cut sep (a @ sep @ b) = Some (a, b)"
  using assms(1)
proof (induction a)
  case Nil
  then show ?case using assms(2) by (cases sep) auto
next
  case (Cons c cs)
  have "\<not> prefix sep (c # cs @ sep @ b)" using Cons.prems [of 0] by simp
  moreover have "cut sep (cs @ sep @ b) = Some (cs, b)"
    using Cons.prems [of "Suc i" for i] by (intro Cons.IH) auto
  ultimately show ?case by simp
qed

text \<open>\<open>strings.Split\<close>; an empty separator splits into single characters.\<close>

function go_split :: "string \<Rightarrow> string \<Rightarrow> string list" where
  "go_split sep s =
     (if sep = [] then map (\<lambda>c. [c]) s
      else (case cut sep s of None \<Rightarrow> [s] | Some (a, b) \<Rightarrow> a # go_split sep b))"
  by pat_completeness auto
termination
  by (relation "measure (\<lambda>(sep, s). length s)") (auto dest!: cut_Some)

declare go_split.simps [simp del]

fun go_join :: "string \<Rightarrow> string list \<Rightarrow> string" where
  "go_join sep [] = []"
| "go_join sep [x] = x"
| "go_join sep (x # y # ys) = x @ sep @ go_join sep (y # ys)"

lemma go_split_nonempty: "sep \<noteq> [] \<Longrightarrow> go_split sep s \<noteq> []"
  by (subst go_split.simps) (auto split: option.splits)

lemma go_join_Cons: "xs \<noteq> [] \<Longrightarrow> go_join sep (x # xs) = x @ sep @ go_join sep xs"
  by (cases xs) auto

lemma go_join_split: "sep \<noteq> [] \<Longrightarrow> go_join sep (go_split sep s) = s"
proof (induction sep s rule: go_split.induct)
  case (1 sep s)
  show ?case
  proof (cases "cut sep s")
    case None
    then show ?thesis using 1 by (subst go_split.simps) simp
  next
    case (Some p)
    obtain a b where p: "p = (a, b)" by (cases p)
    have "go_split sep s = a # go_split sep b" using 1(2) Some p by (subst go_split.simps) simp
    moreover have "go_join sep (go_split sep b) = b" using 1(1) [OF 1(2) Some p [symmetric]] 1(2) by blast
    ultimately show ?thesis
      using cut_Some [of sep s a b] Some p go_split_nonempty [OF 1(2)] by (simp add: go_join_Cons)
  qed
qed

lemma go_split_absent: "sep \<noteq> [] \<Longrightarrow> \<not> go_contains s sep \<Longrightarrow> go_split sep s = [s]"
  by (subst go_split.simps) (simp add: cut_None [symmetric])

lemma go_split_cut: "sep \<noteq> [] \<Longrightarrow> cut sep s = Some (a, b) \<Longrightarrow> go_split sep s = a # go_split sep b"
  by (subst go_split.simps) simp

section \<open>Splitting at one byte\<close>

lemma split_char_snoc [go_string]:
  "c \<notin> set b \<Longrightarrow> split_char c (a @ c # b) = split_char c a @ [b]"
proof (induction a)
  case Nil
  then show ?case by (simp add: split_char_no_sep)
next
  case (Cons x xs)
  then show ?case by (cases "split_char c xs") auto
qed

lemma join_split_char: "go_join [c] (split_char c s) = s"
proof (induction s)
  case Nil
  then show ?case by simp
next
  case (Cons x xs)
  show ?case
  proof (cases "split_char c xs")
    case Nil
    then show ?thesis by simp
  next
    case (Cons y ys)
    with Cons.IH show ?thesis by (cases "x = c"; cases ys) auto
  qed
qed

section \<open>White space and lines\<close>

lemma trim_space_Nil [simp]: "trim_space [] = []"
  by (simp add: trim_space_def)

lemma trim_space_idem [simp]: "trim_space (trim_space s) = trim_space s"
proof -
  have d: "dropWhile P (dropWhile P xs) = dropWhile P xs" for P :: "char \<Rightarrow> bool" and xs
    by (induction xs) auto
  have rev_last: "dropWhile P (xs @ [x]) = dropWhile P xs @ [x]" if "\<not> P x" for P :: "char \<Rightarrow> bool" and xs x
    using that by (induction xs) auto
  have "trim_space s = [] \<or> \<not> go_space (hd (trim_space s))"
  proof (cases "dropWhile go_space s")
    case Nil
    then show ?thesis by (simp only: trim_space_def) simp
  next
    case (Cons x xs)
    then have "\<not> go_space x" by (metis hd_dropWhile list.distinct(1) list.sel(1))
    then show ?thesis by (simp only: trim_space_def Cons) (simp add: rev_last)
  qed
  then have "dropWhile go_space (trim_space s) = trim_space s"
    by (cases "trim_space s") auto
  then show ?thesis by (simp add: trim_space_def d)
qed

text \<open>Lower case of an ASCII text.\<close>

definition lower_char :: "char \<Rightarrow> char" where
  "lower_char c = (let n = of_char c :: nat in if 65 \<le> n \<and> n \<le> 90 then char_of (n + 32) else c)"

definition to_lower :: "string \<Rightarrow> string" where
  "to_lower = map lower_char"

lemma lower_char_idem [simp]: "lower_char (lower_char c) = lower_char c"
  by (simp add: lower_char_def Let_def)

lemma to_lower_idem [simp]: "to_lower (to_lower s) = to_lower s"
  by (simp add: to_lower_def)

lemma to_lower_Nil [simp]: "to_lower s = [] \<longleftrightarrow> s = []"
  by (simp add: to_lower_def)

lemma go_space_code: "go_space c \<longleftrightarrow> (of_char c :: nat) \<in> {32, 9, 10, 11, 12, 13}"
proof -
  have e: "c = d \<longleftrightarrow> (of_char c :: nat) = of_char d" for d by simp
  show ?thesis by (simp add: go_space_def e [of "CHR '' ''"] e [of "CHR 0x09"] e [of "CHR 0x0A"]
    e [of "CHR 0x0B"] e [of "CHR 0x0C"] e [of "CHR 0x0D"] del: of_char_eq_iff)
qed

lemma go_space_lower [simp]: "go_space (lower_char c) = go_space c"
  by (auto simp: go_space_code lower_char_def Let_def)

lemma trim_space_lower: "trim_space (to_lower s) = to_lower (trim_space s)"
  by (simp add: trim_space_def to_lower_def dropWhile_map comp_def rev_map)

lemma lower_trimmed [simp]: "trim_space (to_lower (trim_space s)) = to_lower (trim_space s)"
  by (simp add: trim_space_lower)

text \<open>The lines a scanner yields: a final line feed ends the last line, and a carriage return
  before a line feed is dropped.\<close>

definition drop_cr :: "string \<Rightarrow> string" where
  "drop_cr l = (if l \<noteq> [] \<and> last l = CHR 0x0D then butlast l else l)"

definition scan_lines :: "string \<Rightarrow> string list" where
  "scan_lines s =
     (let ls = split_char (CHR 0x0A) s
      in map drop_cr (if last ls = [] then butlast ls else ls))"

section \<open>File paths\<close>

text \<open>\<open>filepath.Clean\<close>, \<open>filepath.Dir\<close> and \<open>filepath.Join\<close> for paths with forward slashes.  The
  accumulator of the components is reversed.\<close>

fun clean_parts :: "bool \<Rightarrow> string list \<Rightarrow> string list \<Rightarrow> string list" where
  "clean_parts rooted acc [] = rev acc"
| "clean_parts rooted acc (p # ps) =
     (if p = [] \<or> p = ''.'' then clean_parts rooted acc ps
      else if p = ''..'' then
        (if acc \<noteq> [] \<and> hd acc \<noteq> ''..'' then clean_parts rooted (tl acc) ps
         else if rooted then clean_parts rooted acc ps
         else clean_parts rooted (p # acc) ps)
      else clean_parts rooted (p # acc) ps)"

definition go_clean :: "string \<Rightarrow> string" where
  "go_clean s =
     (let rooted = prefix ''/'' s;
          out = (if rooted then ''/'' else []) @ go_join ''/'' (clean_parts rooted [] (split_char (CHR ''/'') s))
      in if out = [] then ''.'' else out)"

definition go_dir :: "string \<Rightarrow> string" where
  "go_dir s = go_clean (rev (dropWhile (\<lambda>c. c \<noteq> CHR ''/'') (rev s)))"

definition go_path_join :: "string list \<Rightarrow> string" where
  "go_path_join ps =
     (let ne = filter (\<lambda>p. p \<noteq> []) ps in if ne = [] then [] else go_clean (go_join ''/'' ne))"

section \<open>Query strings\<close>

text \<open>\<open>url.QueryEscape\<close> and \<open>url.Values.Encode\<close>; the values are given in the order of their keys.\<close>

definition unreserved :: "char \<Rightarrow> bool" where
  "unreserved c =
     (let n = of_char c :: nat
      in 97 \<le> n \<and> n \<le> 122 \<or> 65 \<le> n \<and> n \<le> 90 \<or> 48 \<le> n \<and> n \<le> 57 \<or> c \<in> {CHR ''-'', CHR ''_'', CHR ''.'', CHR ''~''})"

definition hex_digit :: "nat \<Rightarrow> char" where
  "hex_digit n = (if n < 10 then char_of (48 + n) else char_of (55 + n))"

definition hex_value :: "char \<Rightarrow> nat option" where
  "hex_value c =
     (let n = of_char c :: nat
      in if 48 \<le> n \<and> n \<le> 57 then Some (n - 48)
         else if 65 \<le> n \<and> n \<le> 70 then Some (n - 55)
         else if 97 \<le> n \<and> n \<le> 102 then Some (n - 87) else None)"

definition escape_char :: "char \<Rightarrow> string" where
  "escape_char c =
     (if unreserved c then [c]
      else if c = CHR '' '' then ''+''
      else [CHR ''%'', hex_digit (of_char c div 16), hex_digit (of_char c mod 16)])"

definition query_escape :: "string \<Rightarrow> string" where
  "query_escape s = concat (map escape_char s)"

fun query_unescape :: "string \<Rightarrow> string option" where
  "query_unescape [] = Some []"
| "query_unescape (c # cs) =
     (if c = CHR ''%'' then
        (case cs of
           h # l # rest \<Rightarrow>
             (case (hex_value h, hex_value l) of
                (Some a, Some b) \<Rightarrow> map_option (\<lambda>t. char_of (16 * a + b) # t) (query_unescape rest)
              | _ \<Rightarrow> None)
         | _ \<Rightarrow> None)
      else map_option (\<lambda>t. (if c = CHR ''+'' then CHR '' '' else c) # t) (query_unescape cs))"

definition values_encode :: "(string \<times> string) list \<Rightarrow> string" where
  "values_encode kvs = go_join ''&'' (map (\<lambda>(k, v). query_escape k @ ''='' @ query_escape v) kvs)"

text \<open>The pairs that a server reads from a query string; none where it is malformed.\<close>

fun parse_pairs :: "string list \<Rightarrow> (string \<times> string) list option" where
  "parse_pairs [] = Some []"
| "parse_pairs (p # ps) =
     (case cut ''='' p of
        None \<Rightarrow> None
      | Some (k, v) \<Rightarrow>
          (case (query_unescape k, query_unescape v, parse_pairs ps) of
             (Some k', Some v', Some rest) \<Rightarrow> Some ((k', v') # rest)
           | _ \<Rightarrow> None))"

definition parse_query :: "string \<Rightarrow> (string \<times> string) list option" where
  "parse_query s = parse_pairs (split_char (CHR ''&'') s)"

lemma hex_value_digit [simp]: "n < 16 \<Longrightarrow> hex_value (hex_digit n) = Some n"
  by (auto simp: hex_value_def hex_digit_def Let_def of_char_of take_bit_eq_mod)

lemma of_char_div: "(of_char c div 16 :: nat) < 16"
  using nat_of_char_less_256 [of c] by (simp add: div_less_iff_less_mult)

lemma unescape_escape [simp]: "query_unescape (escape_char c @ s) = map_option (Cons c) (query_unescape s)"
proof (cases "unreserved c")
  case True
  moreover from True have "c \<noteq> CHR ''%'' \<and> c \<noteq> CHR ''+''" by (auto simp: unreserved_def Let_def)
  ultimately show ?thesis by (simp add: escape_char_def)
next
  case False
  have "16 * (of_char c div 16) + of_char c mod 16 = (of_char c :: nat)" by simp
  then show ?thesis using False by (simp add: escape_char_def of_char_div)
qed

lemma query_unescape_escape [simp]: "query_unescape (query_escape s) = Some s"
  by (induction s) (simp_all add: query_escape_def)

lemma hex_digit_unreserved: "n < 16 \<Longrightarrow> unreserved (hex_digit n)"
  by (auto simp: unreserved_def hex_digit_def Let_def of_char_of take_bit_eq_mod)

lemma escape_safe: "x \<in> set (query_escape s) \<Longrightarrow> unreserved x \<or> x = CHR ''+'' \<or> x = CHR ''%''"
  by (auto simp: query_escape_def escape_char_def hex_digit_unreserved of_char_div split: if_splits)

lemma query_escape_free [simp]: "CHR ''='' \<notin> set (query_escape s)" "CHR ''&'' \<notin> set (query_escape s)"
  using escape_safe [of _ s] by (fastforce simp: unreserved_def Let_def)+

lemma cut_char: "c \<notin> set a \<Longrightarrow> cut [c] (a @ c # b) = Some (a, b)"
  by (induction a) auto

lemma parse_values_encode:
  assumes "kvs \<noteq> []"
  shows "parse_query (values_encode kvs) = Some kvs"
  using assms
proof (induction kvs rule: list_nonempty_induct)
  case (single kv)
  then show ?case
    by (cases kv) (simp add: parse_query_def values_encode_def split_char_no_sep cut_char)
next
  case (cons kv kvs)
  obtain k v where kv: "kv = (k, v)" by (cases kv)
  obtain y ys where "map (\<lambda>(k, v). query_escape k @ ''='' @ query_escape v) kvs = y # ys"
    using cons.hyps by (cases kvs) auto
  then have "values_encode (kv # kvs) = (query_escape k @ ''='' @ query_escape v) @ CHR ''&'' # values_encode kvs"
    by (simp add: values_encode_def kv)
  then have "split_char (CHR ''&'') (values_encode (kv # kvs)) =
      (query_escape k @ ''='' @ query_escape v) # split_char (CHR ''&'') (values_encode kvs)"
    by (simp only:) (rule split_char_append_sep, simp)
  then show ?case
    using cons.IH by (simp add: parse_query_def kv cut_char)
qed

end
