(* ===== verification/Webhook_Review.thy ===== *)
theory Webhook_Review
  imports Webhook_Handlers Go_Text
begin

text \<open>
  The webhook from the HTTP request to the store: the dispatch table and the controller
  (\<open>app/domain/webhook/webhook.go\<close>), the reading of an admission review (\<open>app/types/review.go\<close>) and
  the HTTP handler (\<open>app/handlers/webhook.go\<close>).

  The decoder of Kubernetes is a parameter: from a body to an admission review of one of the two
  versions, whose request may be missing, or something else.  The deadline that the handler puts on
  the request's context reaches the model as the errors of the store's statements.
\<close>

section \<open>Groups, versions and kinds\<close>

definition GroupApps :: string where "GroupApps = ''apps''"
definition GroupBatch :: string where "GroupBatch = ''batch''"
definition GroupCore :: string where "GroupCore = ''''"
definition GroupExt :: string where "GroupExt = ''apiextensions.k8s.io''"
definition GroupNet :: string where "GroupNet = ''networking.k8s.io''"
definition GroupGateway :: string where "GroupGateway = ''gateway.networking.k8s.io''"
definition GroupStorage :: string where "GroupStorage = ''storage.k8s.io''"
definition V1 :: string where "V1 = ''v1''"
definition V1Beta2 :: string where "V1Beta2 = ''v1beta2''"
definition V1Beta1 :: string where "V1Beta1 = ''v1beta1''"
definition KindDeployment :: string where "KindDeployment = ''deployment''"
definition KindStatefulSet :: string where "KindStatefulSet = ''statefulset''"
definition KindDaemonSet :: string where "KindDaemonSet = ''daemonset''"
definition KindReplicaSet :: string where "KindReplicaSet = ''replicaset''"
definition KindPod :: string where "KindPod = ''pod''"
definition KindNamespace :: string where "KindNamespace = ''namespace''"
definition KindNode :: string where "KindNode = ''node''"
definition KindService :: string where "KindService = ''service''"
definition KindStorageClass :: string where "KindStorageClass = ''storageclass''"
definition KindPersistentVolume :: string where "KindPersistentVolume = ''persistentvolume''"
definition KindPersistentVolumeClaim :: string where "KindPersistentVolumeClaim = ''persistentvolumeclaim''"
definition KindJob :: string where "KindJob = ''job''"
definition KindCronJob :: string where "KindCronJob = ''cronjob''"
definition KindCRD :: string where "KindCRD = ''customresourcedefinition''"
definition KindIngress :: string where "KindIngress = ''ingress''"
definition KindIngressClass :: string where "KindIngressClass = ''ingressclass''"
definition KindGateway :: string where "KindGateway = ''gateway''"
definition KindGatewayClass :: string where "KindGatewayClass = ''gatewayclass''"

lemmas kind_names = GroupApps_def GroupBatch_def GroupCore_def GroupExt_def GroupNet_def GroupGateway_def GroupStorage_def V1_def V1Beta2_def V1Beta1_def KindDeployment_def KindStatefulSet_def KindDaemonSet_def KindReplicaSet_def KindPod_def KindNamespace_def KindNode_def KindService_def KindStorageClass_def KindPersistentVolume_def KindPersistentVolumeClaim_def KindJob_def KindCronJob_def KindCRD_def KindIngress_def KindIngressClass_def KindGateway_def KindGatewayClass_def

section \<open>The controller\<close>

type_synonym 's registration = "string \<times> string \<times> string \<times> 's hook_handler"
type_synonym 's dispatch = "string \<times> string \<times> string \<Rightarrow> 's hook_handler option"

text \<open>What \<open>NewWebhookFactory\<close> registers, in its order.\<close>

definition registrations :: "settings \<Rightarrow> 's registration list" where
  "registrations S =
   [(GroupApps, V1, KindDeployment, NewDeploymentHandler S ''appsv1.Deployment''),
    (GroupApps, V1Beta2, KindDeployment, NewDeploymentHandler S ''appsv1beta2.Deployment''),
    (GroupApps, V1Beta1, KindDeployment, NewDeploymentHandler S ''appsv1beta1.Deployment''),
    (GroupApps, V1, KindStatefulSet, NewStatefulSetHandler S ''appsv1.StatefulSet''),
    (GroupApps, V1Beta2, KindStatefulSet, NewStatefulSetHandler S ''appsv1beta2.StatefulSet''),
    (GroupApps, V1Beta1, KindStatefulSet, NewStatefulSetHandler S ''appsv1beta1.StatefulSet''),
    (GroupApps, V1, KindDaemonSet, NewDaemonSetHandler S ''appsv1.DaemonSet''),
    (GroupApps, V1Beta2, KindDaemonSet, NewDaemonSetHandler S ''appsv1beta2.DaemonSet''),
    (GroupApps, V1, KindReplicaSet, NewReplicaSetHandler S ''appsv1.ReplicaSet''),
    (GroupApps, V1Beta2, KindReplicaSet, NewReplicaSetHandler S ''appsv1beta2.ReplicaSet''),
    (GroupCore, V1, KindPod, NewPodHandler S ''corev1.Pod''),
    (GroupCore, V1, KindNamespace, NewNamespaceHandler S ''corev1.Namespace''),
    (GroupCore, V1, KindNode, NewNodeHandler S ''corev1.Node''),
    (GroupCore, V1, KindService, NewServiceHandler S ''corev1.Service''),
    (GroupCore, V1, KindPersistentVolume, NewPersistentVolumeClaimHandler S ''corev1.PersistentVolume''),
    (GroupCore, V1, KindPersistentVolumeClaim, NewPersistentVolumeClaimHandler S ''corev1.PersistentVolumeClaim''),
    (GroupBatch, V1, KindJob, NewJobHandler S ''batchv1.Job''),
    (GroupBatch, V1, KindCronJob, NewCronJobHandler S ''batchv1.CronJob''),
    (GroupBatch, V1Beta1, KindCronJob, NewCronJobHandler S ''batchv1beta1.CronJob''),
    (GroupExt, V1, KindCRD, NewCustomResourceDefinitionHandler S ''metav1.PartialObjectMetadata''),
    (GroupExt, V1Beta1, KindCRD, NewCustomResourceDefinitionHandler S ''metav1beta1.PartialObjectMetadata''),
    (GroupNet, V1, KindIngress, NewIngressHandler S ''networkingv1.Ingress''),
    (GroupNet, V1Beta1, KindIngress, NewIngressHandler S ''networkingv1beta1.Ingress''),
    (GroupGateway, V1, KindGateway, NewGatewayHandler S ''gatewayv1.Gateway''),
    (GroupGateway, V1Beta1, KindGateway, NewGatewayHandler S ''gatewayv1beta1.Gateway''),
    (GroupStorage, V1, KindStorageClass, NewStorageClassHandler S ''storagev1.StorageClass''),
    (GroupStorage, V1Beta1, KindStorageClass, NewStorageClassHandler S ''storagev1beta1.StorageClass''),
    (GroupNet, V1, KindIngressClass, NewIngressClassHandler S ''networkingv1.IngressClass''),
    (GroupNet, V1Beta1, KindIngressClass, NewIngressClassHandler S ''networkingv1beta1.IngressClass''),
    (GroupNet, V1, KindGatewayClass, NewGatewayClassHandler S ''gatewayv1.GatewayClass''),
    (GroupNet, V1Beta1, KindGatewayClass, NewGatewayClassHandler S ''gatewayv1beta1.GatewayClass'')]"

text \<open>The nested maps are one map from group, version and kind.\<close>

fun register :: "'s registration \<Rightarrow> 's dispatch \<Rightarrow> 's dispatch" where
  "register (g, v, k, h) d = d((g, v, k) \<mapsto> h)"

definition defaultHandler :: "'s hook_handler" where
  "defaultHandler =
     \<lparr>hh_accessor = None, hh_creator = Some Dynamic, hh_type = [], hh_create = Some AllowAlways,
      hh_update = Some AllowAlways, hh_delete = Some AllowAlways, hh_connect = Some AllowAlways\<rparr>"

definition NewWebhookFactory :: "settings \<Rightarrow> 's dispatch" where
  "NewWebhookFactory S = fold register (registrations S) Map.empty"

definition registered :: "'s dispatch \<Rightarrow> string \<Rightarrow> string \<Rightarrow> string \<Rightarrow> bool" where
  "registered d g v k = (d (g, v, k) \<noteq> None)"

definition IsSupported :: "'s dispatch \<Rightarrow> string \<Rightarrow> string \<Rightarrow> string \<Rightarrow> bool" where
  "IsSupported d g v k = registered d g v k"

definition GetSupported :: "'s dispatch \<Rightarrow> string \<times> string \<times> string \<Rightarrow> string option" where
  "GetSupported d gvk = map_option hh_type (d gvk)"

definition GetConfigurationAccessor :: "'s dispatch \<Rightarrow> string \<Rightarrow> string \<Rightarrow> string \<Rightarrow> accessor option" where
  "GetConfigurationAccessor d g v k = (case d (g, v, k) of None \<Rightarrow> None | Some h \<Rightarrow> hh_accessor h)"

definition Review ::
  "(string option \<Rightarrow> string \<Rightarrow> k8s_object option) \<Rightarrow> 's dispatch \<Rightarrow> 's store_ops \<Rightarrow> admission_review \<Rightarrow>
   's webhook_state \<Rightarrow> review_result \<times> 's webhook_state"
where
  "Review decode d ops ar s =
     (let g = gk_group (ar_gvk ar); v = gk_version (ar_gvk ar); k = to_lower (gk_kind (ar_gvk ar));
          s1 = s\<lparr>wt_reviews := (g, v, k, operation_str (ar_operation ar)) # wt_reviews s\<rparr>
      in if \<not> registered d g v k then Execute decode defaultHandler ops ar s1
         else Execute decode (the (d (g, v, k))) ops ar s1)"

section \<open>Reading an admission review\<close>

record admission_request =
  aq_uid :: string
  aq_name :: string
  aq_namespace :: string
  aq_operation :: string
  aq_old :: string
  aq_object :: string
  aq_kind :: gvk
  aq_resource :: gvk
  aq_request_kind :: "gvk option"
  aq_request_resource :: "gvk option"
  aq_dry_run :: "bool option"

fun operationToModel :: "string \<Rightarrow> review_operation" where
  "operationToModel op =
     (if op = ''CREATE'' then OperationCreate
      else if op = ''UPDATE'' then OperationUpdate
      else if op = ''DELETE'' then OperationDelete
      else if op = ''CONNECT'' then OperationConnect
      else OperationUnknown)"

definition kindToModel :: "admission_request \<Rightarrow> gvk" where
  "kindToModel q = (case aq_request_kind q of Some k \<Rightarrow> k | None \<Rightarrow> aq_kind q)"

definition resourceToModel :: "admission_request \<Rightarrow> gvk" where
  "resourceToModel q = (case aq_request_resource q of Some k \<Rightarrow> k | None \<Rightarrow> aq_resource q)"

definition review_of_request :: "review_version \<Rightarrow> admission_request \<Rightarrow> admission_review" where
  "review_of_request ver q =
     \<lparr>ar_original = Some ver, ar_id = aq_uid q, ar_name = aq_name q, ar_namespace = aq_namespace q,
      ar_operation = operationToModel (aq_operation q), ar_version = ver,
      ar_gvr = Some (resourceToModel q), ar_gvk = kindToModel q, ar_old = aq_old q, ar_new = aq_object q,
      ar_dry_run = (case aq_dry_run q of None \<Rightarrow> False | Some b \<Rightarrow> b)\<rparr>"

text \<open>A review whose request is missing is dereferenced and panics, in both versions.\<close>

definition NewAdmissionReviewV1Beta1 :: "admission_request option \<Rightarrow> admission_review option" where
  "NewAdmissionReviewV1Beta1 q = map_option (review_of_request AdmissionReviewVersionV1beta1) q"

definition NewAdmissionReviewV1 :: "admission_request option \<Rightarrow> admission_review option" where
  "NewAdmissionReviewV1 q = map_option (review_of_request AdmissionReviewVersionV1) q"

datatype decoded =
    Decode_error
  | Decoded_v1beta1 "admission_request option"
  | Decoded_v1 "admission_request option"
  | Decoded_other

datatype body_review = Body_error string | Body_panic | Body_review admission_review

definition requestBodyToModelReview :: "(string \<Rightarrow> decoded) \<Rightarrow> string \<Rightarrow> body_review" where
  "requestBodyToModelReview decoder body =
     (case decoder body of
        Decode_error \<Rightarrow> Body_error ''could not decode the admission review from the request''
      | Decoded_v1beta1 q \<Rightarrow> (case NewAdmissionReviewV1Beta1 q of None \<Rightarrow> Body_panic | Some r \<Rightarrow> Body_review r)
      | Decoded_v1 q \<Rightarrow> (case NewAdmissionReviewV1 q of None \<Rightarrow> Body_panic | Some r \<Rightarrow> Body_review r)
      | Decoded_other \<Rightarrow> Body_error ''invalid admission review type'')"

section \<open>The HTTP handler\<close>

definition MaxRequestBodyBytes :: nat where "MaxRequestBodyBytes = 6 * 1024 * 1024"
definition DefaultTimeout :: int where "DefaultTimeout = 15 * 1000000000"
definition MinTimeout :: int where "MinTimeout = 5 * 1000000000"

text \<open>\<open>body\<close> is what the connection delivers, none where reading fails.\<close>

definition configReader :: "string option \<Rightarrow> string option" where
  "configReader body =
     (case body of
        None \<Rightarrow> None
      | Some b \<Rightarrow> if MaxRequestBodyBytes < length b then None else Some b)"

text \<open>The query parameter: absent or empty, or what \<open>time.ParseDuration\<close> makes of it.\<close>

definition request_timeout :: "int option option \<Rightarrow> int" where
  "request_timeout param =
     (case param of
        None \<Rightarrow> DefaultTimeout
      | Some d \<Rightarrow>
          (let t0 = (case d of Some t \<Rightarrow> t | None \<Rightarrow> DefaultTimeout);
               t1 = (if t0 < MinTimeout then MinTimeout else t0)
           in if DefaultTimeout < t1 then DefaultTimeout else t1))"

record http_request =
  hq_content_type :: string
  hq_body :: "string option"
  hq_timeout :: "int option option"
  hq_proto_major :: nat

text \<open>The review that is answered: its version, the identifier, whether it allows, the warnings and
  the status of a refusal.\<close>

record review_answer =
  ra_version :: review_version
  ra_uid :: string
  ra_allowed :: bool
  ra_warnings :: "string list"
  ra_status :: "(string \<times> nat) option"

definition marshallResponseToJSON :: "admission_review \<Rightarrow> admission_response \<Rightarrow> review_answer option" where
  "marshallResponseToJSON review resp =
     (let status = (if rs_allowed resp then None else Some (rs_message resp, 400))
      in (case ar_original review of
            Some AdmissionReviewVersionV1beta1 \<Rightarrow>
              Some \<lparr>ra_version = AdmissionReviewVersionV1beta1, ra_uid = ar_id review,
                    ra_allowed = rs_allowed resp, ra_warnings = [], ra_status = status\<rparr>
          | Some AdmissionReviewVersionV1 \<Rightarrow>
              Some \<lparr>ra_version = AdmissionReviewVersionV1, ra_uid = ar_id review,
                    ra_allowed = rs_allowed resp, ra_warnings = rs_warnings resp, ra_status = status\<rparr>
          | None \<Rightarrow> None))"

datatype http_answer =
    Http_error nat string
  | Http_review review_answer bool
  | Http_minimal bool
  | Http_panic
  | Http_exit

text \<open>The answer to a request; the last part of \<open>Http_review\<close> is whether the connection is closed.
  \<open>encodes\<close> says whether the JSON encoder accepts the answer, \<open>draw\<close> is the random number below
  the frequency.\<close>

definition sendAllowResponse :: "(review_answer \<Rightarrow> bool) \<Rightarrow> admission_review \<Rightarrow> bool \<Rightarrow> http_answer" where
  "sendAllowResponse encodes review closes =
     (case marshallResponseToJSON review (allowed []) of
        None \<Rightarrow> Http_minimal closes
      | Some a \<Rightarrow> if encodes a then Http_review a closes else Http_minimal closes)"

record webhook_env =
  we_decoder :: "string \<Rightarrow> decoded"
  we_objects :: "string option \<Rightarrow> string \<Rightarrow> k8s_object option"
  we_encodes :: "review_answer \<Rightarrow> bool"
  we_draw :: "int \<Rightarrow> int"

definition PostAdmissionRequest ::
  "webhook_env \<Rightarrow> settings \<Rightarrow> 's dispatch \<Rightarrow> 's store_ops \<Rightarrow> http_request \<Rightarrow> 's webhook_state \<Rightarrow>
   http_answer \<times> 's webhook_state"
where
  "PostAdmissionRequest v S d ops q s =
     (if hq_content_type q \<noteq> ''application/json'' then (Http_error 400 ''failed to read request body'', s)
      else (case configReader (hq_body q) of
              None \<Rightarrow> (Http_error 400 ''failed to read request body'', s)
            | Some body \<Rightarrow>
                if body = [] then (Http_error 400 ''no body in request'', s)
                else (case requestBodyToModelReview (we_decoder v) body of
                        Body_panic \<Rightarrow> (Http_panic, s)
                      | Body_error e \<Rightarrow> (Http_error 400 (''could not read request body: '' @ e), s)
                      | Body_review review \<Rightarrow>
                          (case Review (we_objects v) d ops review s of
                             (Review_panic, s') \<Rightarrow> (Http_panic, s')
                           | (Review_exit, s') \<Rightarrow> (Http_exit, s')
                           | (Review_error e, s') \<Rightarrow> (sendAllowResponse (we_encodes v) review False, s')
                           | (Answer a, s') \<Rightarrow>
                               (let rf = st_reconnect_frequency S;
                                    closes = (hq_proto_major q = 1 \<and> 0 < rf \<and> we_draw v rf = 0)
                                in (sendAllowResponse (we_encodes v) review closes, s'))))))"

section \<open>The dispatch table\<close>

definition reg_key :: "'s registration \<Rightarrow> string \<times> string \<times> string" where
  "reg_key x = (case x of (g, v, k, h) \<Rightarrow> (g, v, k))"

definition reg_handler :: "'s registration \<Rightarrow> 's hook_handler" where
  "reg_handler x = (case x of (g, v, k, h) \<Rightarrow> h)"

lemma register_eq: "register x d = d(reg_key x \<mapsto> reg_handler x)"
  by (cases x) (simp add: reg_key_def reg_handler_def)

lemma fold_register_absent: "key \<notin> reg_key ` set rs \<Longrightarrow> fold register rs d key = d key"
  by (induction rs arbitrary: d) (auto simp: register_eq)

lemma fold_register_present:
  "distinct (map reg_key rs) \<Longrightarrow> x \<in> set rs \<Longrightarrow> fold register rs d (reg_key x) = Some (reg_handler x)"
  by (induction rs arbitrary: d) (auto simp: register_eq fold_register_absent)

lemma fold_register_in:
  "fold register rs d key = Some h \<Longrightarrow> d key = Some h \<or> (\<exists>x \<in> set rs. reg_key x = key \<and> reg_handler x = h)"
  by (induction rs arbitrary: d) (fastforce simp: register_eq split: if_splits)+

lemma registrations_distinct: "distinct (map reg_key (registrations S))"
  by (simp add: registrations_def reg_key_def kind_names)

lemmas handler_constructors = NewDeploymentHandler_def NewStatefulSetHandler_def NewDaemonSetHandler_def
  NewReplicaSetHandler_def NewPodHandler_def NewNamespaceHandler_def NewNodeHandler_def NewServiceHandler_def
  NewPersistentVolumeHandler_def NewPersistentVolumeClaimHandler_def NewJobHandler_def NewCronJobHandler_def
  NewCustomResourceDefinitionHandler_def NewIngressHandler_def NewGatewayHandler_def
  NewStorageClassHandler_def NewIngressClassHandler_def NewGatewayClassHandler_def

lemmas accessor_defs = DeploymentConfigAccessor_def StatefulSetConfigAccessor_def DaemonSetConfigAccessor_def
  ReplicaSetConfigAccessor_def PodConfigAccessor_def NamespaceConfigAccessor_def NodeConfigAccessor_def
  ServiceConfigAccessor_def PersistentVolumeConfigAccessor_def PersistentVolumeClaimConfigAccessor_def
  JobConfigAccessor_def CronJobConfigAccessor_def CustomResourceDefinitionConfigAccessor_def
  IngressConfigAccessor_def GatewayConfigAccessor_def StorageClassConfigAccessor_def
  IngressClassConfigAccessor_def GatewayClassConfigAccessor_def

text \<open>What an accessor may enable.\<close>

definition allowed_accessor :: "settings \<Rightarrow> accessor \<Rightarrow> bool" where
  "allowed_accessor S a \<longleftrightarrow> (LabelsEnabled a \<longrightarrow> tf_enabled (st_labels S)) \<and>
     (AnnotationsEnabled a \<longrightarrow> tf_enabled (st_annotations S))"

inductive plain_handler :: "settings \<Rightarrow> 's hook_handler \<Rightarrow> bool" for S where
  plain_generic: "formatData \<in> {PodDataFormatter, NamespaceDataFormatter, NodeDataFormatter, WorkloadDataFormatter} \<Longrightarrow>
    allowed_accessor S a \<Longrightarrow> plain_handler S (NewGenericHandler S T t a formatData)"
| plain_class: "plain_handler S (NewClassHandler c ts a t)"
| plain_default: "plain_handler S defaultHandler"

lemma registrations_plain: "x \<in> set (registrations S) \<Longrightarrow> plain_handler S (reg_handler x)"
  by (auto simp: registrations_def reg_handler_def handler_constructors allowed_accessor_def accessor_defs
      intro!: plain_handler.intros)

lemma dispatched_plain:
  assumes "d = NewWebhookFactory S"
  shows "plain_handler S (if \<not> registered d g v k then defaultHandler else the (d (g, v, k)))"
proof (cases "d (g, v, k)")
  case (Some h)
  then obtain x where "x \<in> set (registrations S)" "reg_handler x = h"
    using fold_register_in [of "registrations S" Map.empty "(g, v, k)" h] assms by (auto simp: NewWebhookFactory_def)
  then show ?thesis using Some registrations_plain [of x S] by (simp add: registered_def)
qed (simp add: registered_def plain_default)

section \<open>What a review can do\<close>

text \<open>A review leaves the store as it is or makes one write of a formatted object, and panics only
  where the write does.\<close>

definition safe_store :: "'s store_ops \<Rightarrow> bool" where
  "safe_store ops \<longleftrightarrow> (\<forall>r s. fst (genericWriteDataToStorage ops r s) \<noteq> Panicked \<and>
     fst (genericWriteDataToStorage ops r s) \<noteq> Exited)"

definition formatted_by :: "settings \<Rightarrow> resource_tags \<Rightarrow> bool" where
  "formatted_by S r \<longleftrightarrow> (\<exists>a obj. allowed_accessor S a \<and> (r = PodDataFormatter S a obj \<or> r = NamespaceDataFormatter S a obj \<or>
     r = NodeDataFormatter S a obj \<or> r = WorkloadDataFormatter S a obj))"

lemma admitFunc_effect:
  "wt_store (snd (admitFunc S T a f ops r obj s)) = wt_store s \<or>
   wt_store (snd (admitFunc S T a f ops r obj s)) = snd (genericWriteDataToStorage ops (f S a (snd obj)) (wt_store s))"
  by (auto simp: admitFunc_def split: outcome.splits prod.splits)

lemma admitFunc_answer:
  "safe_store ops \<Longrightarrow> fst (admitFunc S T a f ops r obj s) = Answer (allowed [])"
  by (cases "genericWriteDataToStorage ops (f S a (snd obj)) (wt_store s)";
      cases "fst (genericWriteDataToStorage ops (f S a (snd obj)) (wt_store s))")
     (auto simp: admitFunc_def safe_store_def dest: spec2 [of _ "f S a (snd obj)" "wt_store s"])

lemma Execute_plain:
  assumes "plain_handler S h"
  shows "(safe_store ops \<longrightarrow> (\<exists>msg. fst (Execute decode h ops r s) = Answer (allowed msg))) \<and>
    (wt_store (snd (Execute decode h ops r s)) = wt_store s \<or>
     (\<exists>rec. formatted_by S rec \<and>
        wt_store (snd (Execute decode h ops r s)) = snd (genericWriteDataToStorage ops rec (wt_store s))))"
  using assms
proof cases
  case (plain_generic f a T t)
  have "formatted_by S (f S a obj)" for obj using plain_generic(2,3) by (auto simp: formatted_by_def)
  then show ?thesis unfolding plain_generic(1)
    using admitFunc_effect [of S T a f ops r _ s] admitFunc_answer [of ops S T a f r _ s]
    by (auto simp: Execute_def NewGenericHandler_def hook_middleware_def AllowAlways_def Let_def
        split: option.splits review_operation.splits; blast)
next
  case (plain_class c ts a t)
  then show ?thesis
    by (auto simp: Execute_def NewClassHandler_def hook_middleware_def AllowAlways_def class_create_def Let_def
        split: option.splits review_operation.splits)
next
  case plain_default
  then show ?thesis
    by (auto simp: Execute_def defaultHandler_def hook_middleware_def AllowAlways_def Let_def
        split: option.splits review_operation.splits)
qed

lemma Review_effect:
  assumes "d = NewWebhookFactory S"
  shows "(safe_store ops \<longrightarrow> (\<exists>msg. fst (Review decode d ops r s) = Answer (allowed msg))) \<and>
    (wt_store (snd (Review decode d ops r s)) = wt_store s \<or>
     (\<exists>rec. formatted_by S rec \<and>
        wt_store (snd (Review decode d ops r s)) = snd (genericWriteDataToStorage ops rec (wt_store s))))"
proof -
  let ?g = "gk_group (ar_gvk r)" and ?v = "gk_version (ar_gvk r)" and ?k = "to_lower (gk_kind (ar_gvk r))"
  let ?s = "s\<lparr>wt_reviews := (?g, ?v, ?k, operation_str (ar_operation r)) # wt_reviews s\<rparr>"
  have "Review decode d ops r s =
      Execute decode (if \<not> registered d ?g ?v ?k then defaultHandler else the (d (?g, ?v, ?k))) ops r ?s"
    by (simp add: Review_def Let_def)
  then show ?thesis using Execute_plain [OF dispatched_plain [OF assms], of ops decode ?g ?v ?k r ?s] by simp
qed

lemma repo_write_safe: "de_error (we_write v) = None \<Longrightarrow> safe_store (repo_ops v)"
  unfolding safe_store_def genericWriteDataToStorage_def repo_ops_def
  by (auto simp: repo_FindFirstBy_def repo_Tx_def repo_Create_def repo_Update_def Let_def
      split: outcome.splits prod.splits option.splits list.splits if_splits)

section \<open>Properties\<close>

text \<open>C7: The webhook never refuses: whatever object and operation a readable review is about, and
  whatever the store answers to the search, a request whose review can be read is answered with
  status 200 and a review of the same version and identifier that allows it, where the write
  statement itself does not fail.\<close>

theorem webhook_always_allows:
  assumes "hq_content_type q = ''application/json''" and "hq_body q = Some body" and "body \<noteq> []"
    and "length body \<le> MaxRequestBodyBytes"
    and "requestBodyToModelReview (we_decoder v) body = Body_review review"
    and "\<And>a. we_encodes v a" and "de_error (we_write w) = None"
  shows "\<exists>a closes s'. PostAdmissionRequest v S (NewWebhookFactory S) (repo_ops w) q s = (Http_review a closes, s') \<and>
    ra_allowed a \<and> ra_uid a = ar_id review \<and> ra_version a = ar_version review \<and> ra_status a = None"
proof -
  let ?d = "NewWebhookFactory S :: table dispatch"
  have o': "ar_original review = Some (ar_version review)"
    using assms(5) by (auto simp: requestBodyToModelReview_def NewAdmissionReviewV1_def NewAdmissionReviewV1Beta1_def
        review_of_request_def split: decoded.splits option.splits)
  obtain msg s' where r: "Review (we_objects v) ?d (repo_ops w) review s = (Answer (allowed msg), s')"
    using Review_effect [OF refl, of "repo_ops w" "we_objects v" S review s] repo_write_safe [OF assms(7)]
    by (cases "Review (we_objects v) ?d (repo_ops w) review s") auto
  show ?thesis
    using assms(1-6) o' r
    by (cases "ar_version review")
       (simp_all add: PostAdmissionRequest_def configReader_def sendAllowResponse_def marshallResponseToJSON_def
          allowed_def Let_def)
qed

definition all_resources :: tag_resources where
  "all_resources = \<lparr>tr_pods = True, tr_namespaces = True, tr_deployments = True, tr_jobs = True, tr_cronjobs = True,
     tr_statefulsets = True, tr_daemonsets = True, tr_nodes = True\<rparr>"

definition sample_settings :: settings where
  "sample_settings = \<lparr>st_labels = \<lparr>tf_enabled = True, tf_resources = all_resources, tf_patterns = [''team'']\<rparr>,
     st_annotations = \<lparr>tf_enabled = False, tf_resources = all_resources, tf_patterns = []\<rparr>,
     st_label_matches = [\<lambda>k. k = ''team''], st_annotation_matches = [], st_sanitize = (\<lambda>x. x),
     st_reconnect_frequency = 0\<rparr>"

definition node_request :: admission_request where
  "node_request = \<lparr>aq_uid = ''u1'', aq_name = ''n1'', aq_namespace = [], aq_operation = ''CREATE'', aq_old = [],
     aq_object = ''raw'', aq_kind = \<lparr>gk_group = [], gk_version = ''v1'', gk_kind = ''Node''\<rparr>,
     aq_resource = \<lparr>gk_group = [], gk_version = ''v1'', gk_kind = ''nodes''\<rparr>, aq_request_kind = None,
     aq_request_resource = None, aq_dry_run = None\<rparr>"

definition sample_webhook :: webhook_env where
  "sample_webhook = \<lparr>we_decoder = (\<lambda>b. if b = ''empty'' then Decoded_v1 None else Decoded_v1 (Some node_request)),
     we_objects = (\<lambda>t raw. Some ([], \<lparr>oc_name = ''n1'', oc_namespace = [], oc_labels = fmupd ''team'' ''a'' fmempty,
       oc_annotations = fmempty, oc_controller = []\<rparr>)),
     we_encodes = (\<lambda>_. True), we_draw = (\<lambda>_. 0)\<rparr>"

definition sample_post :: "string \<Rightarrow> http_request" where
  "sample_post body = \<lparr>hq_content_type = ''application/json'', hq_body = Some body, hq_timeout = None, hq_proto_major = 2\<rparr>"

definition empty_webhook :: "table webhook_state" where
  "empty_webhook = \<lparr>wt_store = [], wt_classes = [], wt_reviews = []\<rparr>"

theorem webhook_always_allows_witness:
  "\<exists>a closes s'. PostAdmissionRequest sample_webhook sample_settings (NewWebhookFactory sample_settings)
     (repo_ops (plain_write 5 ''1'')) (sample_post ''b'') empty_webhook = (Http_review a closes, s') \<and>
     ra_allowed a \<and> ra_uid a = ''u1''"
proof -
  let ?r = "review_of_request AdmissionReviewVersionV1 node_request"
  have "\<exists>a closes s'. PostAdmissionRequest sample_webhook sample_settings (NewWebhookFactory sample_settings)
     (repo_ops (plain_write 5 ''1'')) (sample_post ''b'') empty_webhook = (Http_review a closes, s') \<and>
     ra_allowed a \<and> ra_uid a = ar_id ?r \<and> ra_version a = ar_version ?r \<and> ra_status a = None"
    by (rule webhook_always_allows [where body = "''b''"])
       (simp_all add: sample_post_def sample_webhook_def MaxRequestBodyBytes_def requestBodyToModelReview_def
          NewAdmissionReviewV1_def plain_write_def plain_env_def)
  then show ?thesis by (auto simp: review_of_request_def node_request_def)
qed

text \<open>Not failing open: a review without a request, which the decoder of Kubernetes lets through,
  makes the handler panic instead of answering, whatever the rest of the state.\<close>

theorem missing_request_panics:
  assumes "hq_content_type q = ''application/json''" and "hq_body q = Some body" and "body \<noteq> []"
    and "length body \<le> MaxRequestBodyBytes"
    and "we_decoder v body = Decoded_v1 None \<or> we_decoder v body = Decoded_v1beta1 None"
  shows "PostAdmissionRequest v S d ops q s = (Http_panic, s)"
  using assms
  by (auto simp: PostAdmissionRequest_def configReader_def requestBodyToModelReview_def
      NewAdmissionReviewV1_def NewAdmissionReviewV1Beta1_def)

theorem missing_request_panics_witness:
  "PostAdmissionRequest sample_webhook sample_settings (NewWebhookFactory sample_settings)
     (repo_ops (plain_write 5 ''1'')) (sample_post ''empty'') empty_webhook = (Http_panic, empty_webhook)"
  by (rule missing_request_panics [where body = "''empty''"])
     (simp_all add: sample_post_def sample_webhook_def MaxRequestBodyBytes_def)

lemma lower_kinds: "to_lower ''Node'' = ''node''" "to_lower ''GatewayClass'' = ''gatewayclass''"
  by code_simp+

text \<open>A database error while a node is recorded makes the handler panic: the failure counter
  dereferences the namespace that a node does not have, so the request is not answered, where a
  failing write of a namespaced object would only be logged.\<close>

theorem node_write_error_panics:
  assumes "de_error (we_write w) = Some g" and "TranslateError g \<noteq> ErrTableMissing"
    and "de_error (we_find w) = None" and "\<And>xs. de_order (we_find w) xs = [] \<longleftrightarrow> xs = []"
    and "[] \<notin> rt_id ` set (wt_store s)" and "\<And>xs. set (de_order (we_find w) xs) \<subseteq> set xs"
    and "LabelsEnabledForType (NodeConfigAccessor S)"
    and "ar_gvk r = \<lparr>gk_group = [], gk_version = ''v1'', gk_kind = ''Node''\<rparr>" and "ar_operation r = OperationCreate"
    and "decode (Some ''corev1.Node'') (ar_new r) = Some obj"
  shows "fst (Review decode (NewWebhookFactory S) (repo_ops w) r s) = Review_panic"
proof -
  have key: "('''', ''v1'', ''node'', NewNodeHandler S ''corev1.Node'') \<in> set (registrations S :: table registration list)"
    by (simp add: registrations_def kind_names)
  have d: "(NewWebhookFactory S :: table dispatch) ('''', ''v1'', ''node'') = Some (NewNodeHandler S ''corev1.Node'')"
    using fold_register_present [OF registrations_distinct key] by (simp add: NewWebhookFactory_def reg_key_def reg_handler_def)
  let ?it = "NodeDataFormatter S (NodeConfigAccessor S) (snd obj)"
  have n: "rt_namespace ?it = None" by (simp add: NodeDataFormatter_def new_tags_def)
  have "fst (genericWriteDataToStorage (repo_ops w) ?it t) = Panicked" if "[] \<notin> rt_id ` set t" for t
  proof (cases "de_order (we_find w) (filter (same_resource ?it) t)")
    case Nil
    then show ?thesis using assms(1-3) n by (simp add: genericWriteDataToStorage_def repo_ops_def
          repo_FindFirstBy_def repo_Tx_def repo_Create_def write_failure_def Let_def)
  next
    case (Cons q qs)
    then have "q \<in> set t" using assms(6) [of "filter (same_resource ?it) t"] by auto
    then have "rt_id q \<noteq> []" using that by force
    then show ?thesis using Cons assms(1-3) n by (simp add: genericWriteDataToStorage_def repo_ops_def
          repo_FindFirstBy_def repo_Tx_def repo_Update_def write_failure_def Let_def)
  qed
  then have "fst (genericWriteDataToStorage (repo_ops w) ?it (wt_store s)) = Panicked" using assms(5) .
  then show ?thesis using d assms(7-10)
    by (cases "genericWriteDataToStorage (repo_ops w) ?it (wt_store s)")
       (simp add: Review_def lower_kinds registered_def Execute_def NewNodeHandler_def NewGenericHandler_def
          NewObject_def hook_middleware_def admitFunc_def Let_def)
qed

theorem node_write_error_panics_witness:
  "fst (Review (we_objects sample_webhook) (NewWebhookFactory sample_settings)
     (repo_ops ((plain_write 5 ''1'')\<lparr>we_write := (plain_env 5 ''1'')\<lparr>de_error := Some (OtherError ''disk full'')\<rparr>\<rparr>))
     (review_of_request AdmissionReviewVersionV1 node_request) empty_webhook) = Review_panic"
  by (rule node_write_error_panics [where g = "OtherError ''disk full''"])
     (simp_all add: plain_write_def plain_env_def empty_webhook_def NodeConfigAccessor_def sample_settings_def
        all_resources_def review_of_request_def node_request_def kindToModel_def sample_webhook_def)

text \<open>The kind that the objects of a resource type have.\<close>

fun kind_of_type :: "resource_type \<Rightarrow> string" where
  "kind_of_type CustomResourceDefinition = KindCRD"
| "kind_of_type PersistentVolume = KindPersistentVolume"
| "kind_of_type PersistentVolumeClaim = KindPersistentVolumeClaim"
| "kind_of_type t = ResourceTypeToMetricName t"

text \<open>C32: The dispatch table is well typed: every registration is reached under its group, version and
  kind, its handler decodes into its own object type, handles all four operations, and has the
  accessor of its kind - but for the persistent volume, which has that of the claim.\<close>

theorem dispatch_well_typed:
  assumes "(g, v, k, h) \<in> set (registrations S)"
  shows "NewWebhookFactory S (g, v, k) = Some h \<and> hh_creator h = Some (Static (hh_type h)) \<and>
    hh_create h \<noteq> None \<and> hh_update h \<noteq> None \<and> hh_delete h \<noteq> None \<and> hh_connect h \<noteq> None \<and>
    (\<exists>a. hh_accessor h = Some a \<and>
       (if k = KindPersistentVolume then ResourceType a = PersistentVolumeClaim else kind_of_type (ResourceType a) = k))"
proof -
  have "NewWebhookFactory S (g, v, k) = Some h"
    using fold_register_present [OF registrations_distinct assms] by (simp add: NewWebhookFactory_def reg_key_def reg_handler_def)
  moreover have "hh_creator h = Some (Static (hh_type h)) \<and>
    hh_create h \<noteq> None \<and> hh_update h \<noteq> None \<and> hh_delete h \<noteq> None \<and> hh_connect h \<noteq> None"
    using assms by (auto simp: registrations_def handler_constructors NewGenericHandler_def NewClassHandler_def)
  moreover have "\<exists>a. hh_accessor h = Some a \<and>
       (if k = KindPersistentVolume then ResourceType a = PersistentVolumeClaim else kind_of_type (ResourceType a) = k)"
    using assms by (auto simp: registrations_def handler_constructors NewGenericHandler_def NewClassHandler_def
        accessor_defs kind_names)
  ultimately show ?thesis by simp
qed

theorem dispatch_well_typed_witness:
  "(NewWebhookFactory sample_settings :: table dispatch) (GroupCore, V1, KindPod) =
     Some (NewPodHandler sample_settings ''corev1.Pod'')"
proof -
  have "(GroupCore, V1, KindPod, NewPodHandler sample_settings ''corev1.Pod'') \<in>
      set (registrations sample_settings :: table registration list)"
    by (simp add: registrations_def)
  from dispatch_well_typed [OF this] show ?thesis by simp
qed

text \<open>The handlers of gateway classes are registered under the group of the networking API, so the
  gateway classes of a cluster, whose group is that of the gateway API, are not supported, and
  no review of one is ever counted.\<close>

theorem gateway_classes_not_counted:
  fixes d :: "'s dispatch"
  assumes "gk_group (ar_gvk r) = GroupGateway" and "to_lower (gk_kind (ar_gvk r)) = KindGatewayClass"
    and "d = NewWebhookFactory S"
  shows "\<not> IsSupported d (gk_group (ar_gvk r)) (gk_version (ar_gvk r)) KindGatewayClass \<and>
    wt_classes (snd (Review decode d ops r s)) = wt_classes s"
proof -
  have "(GroupGateway, gk_version (ar_gvk r), KindGatewayClass) \<notin>
      set (map reg_key (registrations S :: 's registration list))"
    by (simp add: registrations_def reg_key_def kind_names)
  then have "d (GroupGateway, gk_version (ar_gvk r), KindGatewayClass) = None"
    using assms(3) by (simp add: NewWebhookFactory_def fold_register_absent)
  then show ?thesis using assms(1,2)
    by (simp add: IsSupported_def registered_def Review_def Execute_def defaultHandler_def hook_middleware_def
        AllowAlways_def Let_def split: option.splits review_operation.splits)
qed

theorem gateway_classes_not_counted_witness:
  "wt_classes (snd (Review (we_objects sample_webhook) (NewWebhookFactory sample_settings) (repo_ops (plain_write 5 ''1''))
     ((review_of_request AdmissionReviewVersionV1 node_request)\<lparr>ar_gvk := \<lparr>gk_group = GroupGateway, gk_version = ''v1'', gk_kind = ''GatewayClass''\<rparr>\<rparr>)
     empty_webhook)) = []"
proof -
  let ?r = "(review_of_request AdmissionReviewVersionV1 node_request)\<lparr>ar_gvk := \<lparr>gk_group = GroupGateway, gk_version = ''v1'', gk_kind = ''GatewayClass''\<rparr>\<rparr>"
  have "to_lower (gk_kind (ar_gvk ?r)) = KindGatewayClass" by (simp add: lower_kinds KindGatewayClass_def)
  from gateway_classes_not_counted [OF _ this refl, of sample_settings "we_objects sample_webhook"
      "repo_ops (plain_write 5 ''1'')" empty_webhook]
  show ?thesis by (simp add: empty_webhook_def)
qed

text \<open>The deadline of a request lies between five and fifteen seconds, whatever it asks for.\<close>

lemma request_timeout_bounds: "MinTimeout \<le> request_timeout param \<and> request_timeout param \<le> DefaultTimeout"
  by (auto simp: request_timeout_def MinTimeout_def DefaultTimeout_def Let_def split: option.splits)

section \<open>What reviews put into a store\<close>

definition resource_fields :: "string list" where
  "resource_fields = [FieldNamespace, FieldNode, FieldPod, FieldResourceType, FieldWorkload]"

text \<open>The labels and annotations that may be stored: those that pass the filters, where their export
  is enabled, beside the labels that name the resource.\<close>

definition exportable :: "settings \<Rightarrow> str_map option \<times> str_map option \<times> str_map option \<Rightarrow> bool" where
  "exportable S x =
     (case x of
        (Some names, Some labels, Some annotations) \<Rightarrow>
          fmpred (\<lambda>k _. k \<in> set resource_fields) names \<and>
          fmpred (\<lambda>k v. tf_enabled (st_labels S) \<and> evalTag k v (st_label_matches S) S) labels \<and>
          fmpred (\<lambda>k v. tf_enabled (st_annotations S) \<and> evalTag k v (st_annotation_matches S) S) annotations
      | _ \<Rightarrow> False)"

lemma Filter_tags_pass: "fmlookup (Filter_tags tags ps en S) k = Some v \<Longrightarrow> evalTag k v ps S"
  by (auto simp: Filter_tags_def split: if_splits option.splits)

lemma formatted_exportable:
  assumes "formatted_by S r"
  shows "exportable S (tags_of r)"
proof -
  have l: "fmpred (\<lambda>k v. tf_enabled (st_labels S) \<and> evalTag k v (st_label_matches S) S) (filtered_labels S a obj)"
    and n: "fmpred (\<lambda>k v. tf_enabled (st_annotations S) \<and> evalTag k v (st_annotation_matches S) S)
      (filtered_annotations S a obj)" if "allowed_accessor S a" for a obj
    using that by (auto simp: allowed_accessor_def filtered_labels_def filtered_annotations_def dest: Filter_tags_pass
        intro!: fmpredI)
  from assms obtain a obj where a: "allowed_accessor S a" and
    "r \<in> {PodDataFormatter S a obj, NamespaceDataFormatter S a obj, NodeDataFormatter S a obj, WorkloadDataFormatter S a obj}"
    by (auto simp: formatted_by_def)
  then show ?thesis using l [OF a] n [OF a]
    by (auto simp: exportable_def tags_of_def PodDataFormatter_def NamespaceDataFormatter_def NodeDataFormatter_def
        WorkloadDataFormatter_def new_tags_def resource_fields_def intro!: fmpred_upd)
qed

context content_store
begin

text \<open>Whatever is reviewed, what a store holds stays exportable.\<close>

lemma Review_exportable:
  assumes "\<forall>q \<in> held (wt_store s). exportable S (tags_of q)"
  shows "\<forall>q \<in> held (wt_store (snd (Review decode (NewWebhookFactory S) (ops v) r s))). exportable S (tags_of q)"
proof -
  from Review_effect [OF refl, of "ops v" decode S r s]
  consider "wt_store (snd (Review decode (NewWebhookFactory S) (ops v) r s)) = wt_store s"
    | rec where "formatted_by S rec" "wt_store (snd (Review decode (NewWebhookFactory S) (ops v) r s)) =
         snd (genericWriteDataToStorage (ops v) rec (wt_store s))"
    by blast
  then show ?thesis
    by cases (use assms write_keeps [of _ "exportable S", OF _ formatted_exportable] in auto)
qed

end

end
