(* ===== verification/Backfiller.thy ===== *)
theory Backfiller
  imports Streaming_Store Webhook_Review
begin

text \<open>
  The backfill job (\<open>app/domain/webhook/backfiller/backfiller.go\<close> and the backfill mode of
  \<open>app/functions/webhook/main.go\<close>): it lists the nodes, the namespaces and the resources of a
  cluster and reviews each as if it had just been created, writing to the streaming store.

  The API server is a parameter: what each list call answers, by the number of the call and the
  cursor it is made with.  A listing that may go on for ever is a partial function, whose value is
  None where it never ends.  The enumeration gives the tasks handed to the worker pool, each the
  list of the reviews it makes; the workers run them in any order, so the statements below are
  about every order of the reviews.
\<close>

section \<open>Waiting for the services\<close>

definition MaxConnectionAttempts :: nat where "MaxConnectionAttempts = 10"

text \<open>Whether the validation of the webhook succeeds, from attempt \<open>i\<close> on.\<close>

fun await_attempts :: "(nat \<Rightarrow> bool) \<Rightarrow> nat \<Rightarrow> nat \<Rightarrow> bool" where
  "await_attempts ok i 0 = False"
| "await_attempts ok i (Suc n) = (ok i \<or> await_attempts ok (Suc i) n)"

definition AwaitWebhookService :: "(nat \<Rightarrow> bool) \<Rightarrow> nat \<Rightarrow> bool" where
  "AwaitWebhookService ok retries = await_attempts ok 0 retries"

definition AwaitCollectorService :: "bool \<Rightarrow> bool \<Rightarrow> (nat \<Rightarrow> nat option) \<Rightarrow> nat \<Rightarrow> bool" where
  "AwaitCollectorService encodes request_ok answer retries =
     (encodes \<and> request_ok \<and> push_attempts answer 0 retries)"

section \<open>The cluster\<close>

type_synonym page = "k8s_object list \<times> string"

record cluster =
  cl_webhook_ok :: "nat \<Rightarrow> bool"
  cl_encode_ok :: bool
  cl_request_ok :: bool
  cl_collector :: "nat \<Rightarrow> nat option"
  cl_nodes :: "nat \<Rightarrow> string \<Rightarrow> page option"
  cl_namespaces :: "nat \<Rightarrow> string \<Rightarrow> page option"
  cl_list :: "string \<times> string \<times> string \<Rightarrow> string \<Rightarrow> nat \<Rightarrow> string \<Rightarrow> page option"
  cl_encode :: "k8s_object \<Rightarrow> string option"
  cl_uuid :: "k8s_object \<Rightarrow> string"

definition buildAdmissionReview :: "cluster \<Rightarrow> string \<times> string \<times> string \<Rightarrow> k8s_object \<Rightarrow> admission_review option" where
  "buildAdmissionReview c gvk obj =
     (case gvk of (g, v, k) \<Rightarrow>
        map_option (\<lambda>raw.
          \<lparr>ar_original = None, ar_id = cl_uuid c obj, ar_name = oc_name (snd obj), ar_namespace = oc_namespace (snd obj),
           ar_operation = OperationCreate, ar_version = AdmissionReviewVersionV1, ar_gvr = None,
           ar_gvk = \<lparr>gk_group = g, gk_version = v, gk_kind = k\<rparr>, ar_old = [], ar_new = raw, ar_dry_run = False\<rparr>)
          (cl_encode c obj))"

section \<open>The catalog\<close>

text \<open>Group, version, kind, the type of the objects, and whether the listing is of one namespace.\<close>

type_synonym catalog_entry = "string \<times> string \<times> string \<times> string \<times> bool"

definition catalog :: "catalog_entry list" where
  "catalog =
   [(GroupApps, V1, KindDeployment, ''appsv1.Deployment'', True),
    (GroupApps, V1Beta2, KindDeployment, ''appsv1beta2.Deployment'', True),
    (GroupApps, V1Beta1, KindDeployment, ''appsv1beta1.Deployment'', True),
    (GroupApps, V1, KindStatefulSet, ''appsv1.StatefulSet'', True),
    (GroupApps, V1Beta2, KindStatefulSet, ''appsv1beta2.StatefulSet'', True),
    (GroupApps, V1Beta1, KindStatefulSet, ''appsv1beta1.StatefulSet'', True),
    (GroupApps, V1, KindDaemonSet, ''appsv1.DaemonSet'', True),
    (GroupApps, V1Beta2, KindDaemonSet, ''appsv1beta2.DaemonSet'', True),
    (GroupApps, V1, KindReplicaSet, ''appsv1.ReplicaSet'', True),
    (GroupApps, V1Beta2, KindReplicaSet, ''appsv1beta2.ReplicaSet'', True),
    (GroupCore, V1, KindPod, ''corev1.Pod'', True),
    (GroupCore, V1, KindService, ''corev1.Service'', True),
    (GroupCore, V1, KindPersistentVolume, ''corev1.PersistentVolume'', False),
    (GroupCore, V1, KindPersistentVolumeClaim, ''corev1.PersistentVolumeClaim'', True),
    (GroupBatch, V1, KindJob, ''batchv1.Job'', True),
    (GroupBatch, V1, KindCronJob, ''batchv1.CronJob'', True),
    (GroupBatch, V1Beta1, KindCronJob, ''batchv1beta1.CronJob'', True),
    (GroupNet, V1, KindIngress, ''networkingv1.Ingress'', True),
    (GroupNet, V1Beta1, KindIngress, ''networkingv1beta1.Ingress'', True),
    (GroupStorage, V1, KindStorageClass, ''storagev1.StorageClass'', False),
    (GroupStorage, V1Beta1, KindStorageClass, ''storagev1beta1.StorageClass'', False),
    (GroupNet, V1, KindIngressClass, ''networkingv1.IngressClass'', False),
    (GroupNet, V1Beta1, KindIngressClass, ''networkingv1beta1.IngressClass'', False)]"

definition scan_enabled :: "accessor \<Rightarrow> bool" where
  "scan_enabled cfg =
     (LabelsEnabled cfg \<and> LabelsEnabledForType cfg \<or> AnnotationsEnabled cfg \<and> AnnotationsEnabledForType cfg)"

definition entry_accessor :: "'s dispatch \<Rightarrow> catalog_entry \<Rightarrow> accessor option" where
  "entry_accessor d e = (case e of (g, v, k, T, ns) \<Rightarrow> GetConfigurationAccessor d g v k)"

section \<open>Listing\<close>

text \<open>The three loops over the pages of a listing.  An error ends the listing of a resource as if
  there were none of it left, ends the listing of the namespaces with an error, and is retried at
  once for the nodes.\<close>

partial_function (option) list_pages :: "(nat \<Rightarrow> string \<Rightarrow> page option) \<Rightarrow> nat \<Rightarrow> string \<Rightarrow> k8s_object list option" where
  "list_pages answer i cursor =
     (case answer i cursor of
        None \<Rightarrow> Some []
      | Some (items, next_cursor) \<Rightarrow>
          if next_cursor = [] then Some items
          else Option.bind (list_pages answer (Suc i) next_cursor) (\<lambda>rest. Some (items @ rest)))"

partial_function (option) namespace_pages ::
  "(nat \<Rightarrow> string \<Rightarrow> page option) \<Rightarrow> nat \<Rightarrow> string \<Rightarrow> (bool \<times> k8s_object list) option"
where
  "namespace_pages answer i cursor =
     (case answer i cursor of
        None \<Rightarrow> Some (False, [])
      | Some (items, next_cursor) \<Rightarrow>
          if next_cursor = [] then Some (True, items)
          else Option.bind (namespace_pages answer (Suc i) next_cursor) (\<lambda>(ok, rest). Some (ok, items @ rest)))"

partial_function (option) node_pages :: "(nat \<Rightarrow> string \<Rightarrow> page option) \<Rightarrow> nat \<Rightarrow> string \<Rightarrow> k8s_object list option" where
  "node_pages answer i cursor =
     (case answer i cursor of
        None \<Rightarrow> node_pages answer (Suc i) cursor
      | Some (items, next_cursor) \<Rightarrow>
          if next_cursor = [] then Some items
          else Option.bind (node_pages answer (Suc i) next_cursor) (\<lambda>rest. Some (items @ rest)))"

section \<open>The tasks\<close>

type_synonym task = "admission_review list"

definition node_task :: "cluster \<Rightarrow> k8s_object \<Rightarrow> task" where
  "node_task c obj = (case buildAdmissionReview c ([], ''v1'', ''node'') obj of None \<Rightarrow> [] | Some ar \<Rightarrow> [ar])"

definition namespace_task :: "cluster \<Rightarrow> k8s_object \<Rightarrow> task" where
  "namespace_task c obj = (case buildAdmissionReview c ([], ''v1'', ''namespace'') obj of None \<Rightarrow> [] | Some ar \<Rightarrow> [ar])"

text \<open>An object of another type is not converted and skipped, and so is one that cannot be encoded.\<close>

definition resource_task :: "cluster \<Rightarrow> catalog_entry \<Rightarrow> k8s_object list \<Rightarrow> task" where
  "resource_task c e items =
     (case e of (g, v, k, T, ns) \<Rightarrow>
        List.map_filter (\<lambda>obj. if fst obj = T then buildAdmissionReview c (g, v, k) obj else None) items)"

definition entry_list :: "cluster \<Rightarrow> catalog_entry \<Rightarrow> string \<Rightarrow> nat \<Rightarrow> string \<Rightarrow> page option" where
  "entry_list c e namespace =
     (case e of (g, v, k, T, ns) \<Rightarrow> cl_list c (g, v, k) (if ns then namespace else []))"

fun catalog_tasks :: "cluster \<Rightarrow> 's dispatch \<Rightarrow> string \<Rightarrow> catalog_entry list \<Rightarrow> task list option" where
  "catalog_tasks c d namespace [] = Some []"
| "catalog_tasks c d namespace (e # es) =
     (if scan_enabled (the (entry_accessor d e)) then
        (case list_pages (entry_list c e namespace) 0 [] of
           None \<Rightarrow> None
         | Some items \<Rightarrow> map_option (\<lambda>ts. resource_task c e items # ts) (catalog_tasks c d namespace es))
      else catalog_tasks c d namespace es)"

fun namespace_tasks :: "cluster \<Rightarrow> 's dispatch \<Rightarrow> k8s_object list \<Rightarrow> task list option" where
  "namespace_tasks c d [] = Some []"
| "namespace_tasks c d (ns # nss) =
     (case catalog_tasks c d (oc_name (snd ns)) catalog of
        None \<Rightarrow> None
      | Some ts \<Rightarrow> map_option (\<lambda>rest. namespace_task c ns # ts @ rest) (namespace_tasks c d nss))"

definition enumerateNodes :: "cluster \<Rightarrow> settings \<Rightarrow> task list option" where
  "enumerateNodes c S =
     (let a = NodeConfigAccessor S
      in if \<not> LabelsEnabledForType a \<and> \<not> AnnotationsEnabledForType a then Some []
         else map_option (map (node_task c)) (node_pages (cl_nodes c) 0 []))"

text \<open>How \<open>Start\<close> ends: the tasks of the nodes, all done before those of the namespaces are handed
  out.  Where the listing of the namespaces fails, the tasks that were handed out may or may not run
  before the process exits.\<close>

datatype start_result =
    Start_ok "task list" "task list"
  | Start_error string "task list"
  | Start_panic "task list"

definition Start :: "cluster \<Rightarrow> settings \<Rightarrow> 's dispatch \<Rightarrow> bool \<Rightarrow> start_result option" where
  "Start c S d disableWait =
     (if \<not> disableWait \<and> \<not> AwaitWebhookService (cl_webhook_ok c) MaxConnectionAttempts
      then Some (Start_error ''failed to await webhook service'' [])
      else if \<not> disableWait \<and>
        \<not> AwaitCollectorService (cl_encode_ok c) (cl_request_ok c) (cl_collector c) MaxConnectionAttempts
      then Some (Start_error ''failed to await collector service'' [])
      else (case enumerateNodes c S of
              None \<Rightarrow> None
            | Some nodes \<Rightarrow>
                if \<exists>e \<in> set catalog. entry_accessor d e = None then Some (Start_panic nodes)
                else (case namespace_pages (cl_namespaces c) 0 [] of
                        None \<Rightarrow> None
                      | Some (False, nss) \<Rightarrow> Some (Start_error ''failed to list namespaces'' nodes)
                      | Some (True, nss) \<Rightarrow> map_option (Start_ok nodes) (namespace_tasks c d nss))))"

text \<open>Both services answer within the attempts.\<close>

definition services_ready :: "cluster \<Rightarrow> bool" where
  "services_ready c \<longleftrightarrow> AwaitWebhookService (cl_webhook_ok c) MaxConnectionAttempts \<and>
     AwaitCollectorService (cl_encode_ok c) (cl_request_ok c) (cl_collector c) MaxConnectionAttempts"

text \<open>The reviews of a run, each with what its writes meet.\<close>

definition run_reviews ::
  "(string option \<Rightarrow> string \<Rightarrow> k8s_object option) \<Rightarrow> 's dispatch \<Rightarrow> ('v \<Rightarrow> 's store_ops) \<Rightarrow>
   ('v \<times> admission_review) list \<Rightarrow> 's webhook_state \<Rightarrow> 's webhook_state"
where
  "run_reviews decode d ops order = fold (\<lambda>(v, ar) s. snd (Review decode d (ops v) ar s)) order"

section \<open>The dispatch of the catalog\<close>

lemma dispatch_all: "\<forall>x \<in> set (registrations S). NewWebhookFactory S (reg_key x) = Some (reg_handler x)"
  using fold_register_present [OF registrations_distinct] by (auto simp: NewWebhookFactory_def)

lemmas dispatch_simps = dispatch_all [unfolded registrations_def, simplified reg_key_def reg_handler_def, simplified]

text \<open>The accessor, the formatter and the resource of a review of the catalog, of a node or of a
  namespace: what the handlers of the kinds do, put in one place.\<close>

definition admitted :: "settings \<Rightarrow> accessor \<Rightarrow> data_formatter \<Rightarrow> object_content \<Rightarrow> resource_tags list" where
  "admitted S a f obj = (if LabelsEnabledForType a \<or> AnnotationsEnabledForType a then [f S a obj] else [])"

definition rows_of_kind :: "settings \<Rightarrow> string \<Rightarrow> object_content \<Rightarrow> resource_tags list" where
  "rows_of_kind S k obj =
     (if k = KindDeployment then admitted S (DeploymentConfigAccessor S) WorkloadDataFormatter obj
      else if k = KindStatefulSet then admitted S (StatefulSetConfigAccessor S) WorkloadDataFormatter obj
      else if k = KindDaemonSet then admitted S (DaemonSetConfigAccessor S) WorkloadDataFormatter obj
      else if k = KindPod then admitted S (PodConfigAccessor S) PodDataFormatter obj
      else if k = KindNamespace then admitted S (NamespaceConfigAccessor S) NamespaceDataFormatter obj
      else if k = KindNode then admitted S (NodeConfigAccessor S) NodeDataFormatter obj
      else if k = KindJob then admitted S (JobConfigAccessor S) WorkloadDataFormatter obj
      else if k = KindCronJob then admitted S (CronJobConfigAccessor S) WorkloadDataFormatter obj
      else [])"

definition write_rows :: "'s store_ops \<Rightarrow> resource_tags list \<Rightarrow> 's \<Rightarrow> 's" where
  "write_rows ops rows s = fold (\<lambda>r s. snd (genericWriteDataToStorage ops r s)) rows s"

lemma admitFunc_rows:
  "fst obj = T \<Longrightarrow> wt_store (snd (admitFunc S T a f ops r obj s)) = write_rows ops (admitted S a f (snd obj)) (wt_store s)"
  by (auto simp: admitFunc_def admitted_def write_rows_def split: prod.splits outcome.splits)

definition reviewed :: "(string \<times> string \<times> string \<times> string) list" where
  "reviewed = ([], ''v1'', ''node'', ''corev1.Node'') # ([], ''v1'', ''namespace'', ''corev1.Namespace'') #
     map (\<lambda>(g, v, k, T, ns). (g, v, k, T)) catalog"

text \<open>Every entry of the catalog is dispatched to a handler of the entry's type, and a creation is
  written as the kind says.\<close>

definition handled :: "settings \<Rightarrow> 's dispatch \<Rightarrow> string \<times> string \<times> string \<times> string \<Rightarrow> bool" where
  "handled S d e \<longleftrightarrow> (case e of (g, v, k, T) \<Rightarrow>
     \<exists>h f. d (g, v, k) = Some h \<and> hh_creator h = Some (Static T) \<and> hh_accessor h \<noteq> None \<and> hh_create h = Some f \<and>
       (\<forall>ops r obj s. fst obj = T \<longrightarrow>
          wt_store (snd (f ops r obj s)) = write_rows ops (rows_of_kind S k (snd obj)) (wt_store s)))"

lemma handled_generic:
  "d (g, v, k) = Some (NewGenericHandler S T T a f) \<Longrightarrow> rows_of_kind S k = admitted S a f \<Longrightarrow>
   handled S d (g, v, k, T)"
  by (simp add: handled_def NewGenericHandler_def admitFunc_rows)

lemma handled_off:
  "d (g, v, k) = Some (NewGenericHandler S U T a f) \<Longrightarrow> rows_of_kind S k = (\<lambda>_. []) \<Longrightarrow>
   \<not> LabelsEnabledForType a \<and> \<not> AnnotationsEnabledForType a \<Longrightarrow> handled S d (g, v, k, T)"
  by (simp add: handled_def NewGenericHandler_def admitFunc_def write_rows_def)

lemma handled_class:
  "d (g, v, k) = Some (NewClassHandler c ts a T) \<Longrightarrow> rows_of_kind S k = (\<lambda>_. []) \<Longrightarrow> handled S d (g, v, k, T)"
  by (simp add: handled_def NewClassHandler_def class_create_def write_rows_def)

lemmas dispatch_handlers = dispatch_simps [unfolded handler_constructors]

lemma rows_of_kind_simps:
  "rows_of_kind S KindDeployment = admitted S (DeploymentConfigAccessor S) WorkloadDataFormatter"
  "rows_of_kind S KindStatefulSet = admitted S (StatefulSetConfigAccessor S) WorkloadDataFormatter"
  "rows_of_kind S KindDaemonSet = admitted S (DaemonSetConfigAccessor S) WorkloadDataFormatter"
  "rows_of_kind S KindPod = admitted S (PodConfigAccessor S) PodDataFormatter"
  "rows_of_kind S KindNamespace = admitted S (NamespaceConfigAccessor S) NamespaceDataFormatter"
  "rows_of_kind S KindNode = admitted S (NodeConfigAccessor S) NodeDataFormatter"
  "rows_of_kind S KindJob = admitted S (JobConfigAccessor S) WorkloadDataFormatter"
  "rows_of_kind S KindCronJob = admitted S (CronJobConfigAccessor S) WorkloadDataFormatter"
  "k \<in> {KindReplicaSet, KindService, KindPersistentVolume, KindPersistentVolumeClaim, KindIngress, KindStorageClass,
     KindIngressClass} \<Longrightarrow> rows_of_kind S k = (\<lambda>_. [])"
  by (auto simp: rows_of_kind_def kind_names)

lemma core_names: "([], ''v1'', ''node'', T) = (GroupCore, V1, KindNode, T)"
  "([], ''v1'', ''namespace'', T) = (GroupCore, V1, KindNamespace, T)"
  by (simp_all add: kind_names)

lemma reviewed_handled:
  assumes "e \<in> set reviewed"
  shows "handled S (NewWebhookFactory S) e"
proof -
  have "\<forall>e \<in> set reviewed. handled S (NewWebhookFactory S) e"
    unfolding reviewed_def catalog_def core_names list.map prod.case list.set
    by (intro ballI; elim insertE emptyE; hypsubst;
        ((rule handled_generic, (simp only: dispatch_handlers; fail), simp only: rows_of_kind_simps)
         | (rule handled_off, (simp only: dispatch_handlers; fail), simp add: rows_of_kind_simps, simp add: accessor_defs)
         | (rule handled_class, (simp only: dispatch_handlers; fail), simp add: rows_of_kind_simps)))
  then show ?thesis using assms by blast
qed

lemma reviewed_lower: "(g, v, k, T) \<in> set reviewed \<Longrightarrow> to_lower k = k"
proof -
  have "\<forall>e \<in> set reviewed. to_lower (fst (snd (snd e))) = fst (snd (snd e))"
    by (simp add: reviewed_def catalog_def kind_names to_lower_def lower_char_def)
  then show "(g, v, k, T) \<in> set reviewed \<Longrightarrow> to_lower k = k" by fastforce
qed

section \<open>What a review of an object writes\<close>

text \<open>An object that can be encoded and is decoded again.\<close>

definition survives :: "cluster \<Rightarrow> (string option \<Rightarrow> string \<Rightarrow> k8s_object option) \<Rightarrow> k8s_object \<Rightarrow> bool" where
  "survives c decode obj =
     (case cl_encode c obj of None \<Rightarrow> False | Some raw \<Rightarrow> decode (Some (fst obj)) raw = Some obj)"

definition review_rows ::
  "(string option \<Rightarrow> string \<Rightarrow> k8s_object option) \<Rightarrow> settings \<Rightarrow> admission_review \<Rightarrow> resource_tags list"
where
  "review_rows decode S ar =
     (case NewWebhookFactory S (gk_group (ar_gvk ar), gk_version (ar_gvk ar), gk_kind (ar_gvk ar)) :: unit hook_handler option of
        None \<Rightarrow> []
      | Some h \<Rightarrow> (case Option.bind (hh_creator h) (\<lambda>cr. NewObject decode cr (ar_new ar)) of
                     None \<Rightarrow> []
                   | Some obj \<Rightarrow> rows_of_kind S (gk_kind (ar_gvk ar)) (snd obj)))"

definition review_of ::
  "cluster \<Rightarrow> (string option \<Rightarrow> string \<Rightarrow> k8s_object option) \<Rightarrow> admission_review \<Rightarrow>
   string \<times> string \<times> string \<times> string \<Rightarrow> k8s_object \<Rightarrow> bool"
where
  "review_of c decode ar e obj \<longleftrightarrow> e \<in> set reviewed \<and> survives c decode obj \<and>
     (case e of (g, v, k, T) \<Rightarrow> fst obj = T \<and> buildAdmissionReview c (g, v, k) obj = Some ar)"

definition reviewable :: "cluster \<Rightarrow> (string option \<Rightarrow> string \<Rightarrow> k8s_object option) \<Rightarrow> admission_review \<Rightarrow> bool" where
  "reviewable c decode ar \<longleftrightarrow> (\<exists>e obj. review_of c decode ar e obj)"

lemma review_of_E:
  assumes "review_of c decode ar (g, v, k, T) obj"
  obtains raw where "(g, v, k, T) \<in> set reviewed" "fst obj = T" "cl_encode c obj = Some raw"
    "decode (Some T) raw = Some obj" "ar_gvk ar = \<lparr>gk_group = g, gk_version = v, gk_kind = k\<rparr>"
    "ar_new ar = raw" "ar_operation ar = OperationCreate"
  using assms by (auto simp: review_of_def survives_def buildAdmissionReview_def split: option.splits)

lemma review_of_rows:
  assumes "review_of c decode ar (g, v, k, T) obj"
  shows "review_rows decode S ar = rows_of_kind S k (snd obj)"
  using assms
proof (rule review_of_E)
  fix raw assume a: "(g, v, k, T) \<in> set reviewed" "fst obj = T" "decode (Some T) raw = Some obj"
    "ar_gvk ar = \<lparr>gk_group = g, gk_version = v, gk_kind = k\<rparr>" "ar_new ar = raw"
  then show ?thesis
    using reviewed_handled [OF a(1), where 'a = unit, of S]
    by (auto simp: review_rows_def handled_def NewObject_def)
qed

lemma Review_writes:
  assumes "review_of c decode ar (g, v, k, T) obj"
  shows "wt_store (snd (Review decode (NewWebhookFactory S) ops ar s)) =
    write_rows ops (review_rows decode S ar) (wt_store s)"
  using assms
proof (rule review_of_E)
  fix raw assume a: "(g, v, k, T) \<in> set reviewed" "fst obj = T" "decode (Some T) raw = Some obj"
    "ar_gvk ar = \<lparr>gk_group = g, gk_version = v, gk_kind = k\<rparr>" "ar_new ar = raw" "ar_operation ar = OperationCreate"
  have "handled S (NewWebhookFactory S :: 'a dispatch) (g, v, k, T)" by (rule reviewed_handled [OF a(1)])
  then show ?thesis
    using a reviewed_lower [OF a(1)]
    by (cases obj) (auto simp: review_of_rows [OF assms] handled_def Review_def Let_def registered_def
        Execute_def NewObject_def hook_middleware_def)
qed

lemma run_reviews_writes:
  assumes "\<forall>(v, ar) \<in> set order. reviewable c decode ar"
  shows "wt_store (run_reviews decode (NewWebhookFactory S) (streaming_ops P) order s) =
    fold (stream_step P) (concat (map (\<lambda>(v, ar). map (Stream_write v) (review_rows decode S ar)) order)) (wt_store s)"
  using assms
proof (induction order arbitrary: s)
  case (Cons x order)
  obtain v ar where x: "x = (v, ar)" by (cases x)
  then obtain g w k T obj where r: "review_of c decode ar (g, w, k, T) obj"
    using Cons.prems by (auto simp: reviewable_def)
  have w: "write_rows (streaming_ops P v) rows q = fold (stream_step P) (map (Stream_write v) rows) q" for rows q
    unfolding write_rows_def stream_write by (induction rows arbitrary: q) simp_all
  show ?case
    using Cons.IH Cons.prems Review_writes [OF r, where ops = "streaming_ops P v"]
    by (simp add: run_reviews_def x w)
qed (simp add: run_reviews_def)

section \<open>Everything is exported\<close>

lemma mset_concat_map_cong: "mset xs = mset ys \<Longrightarrow> mset (concat (map f xs)) = mset (concat (map f ys))"
proof -
  have "mset (concat (map f zs)) = sum_mset (image_mset (\<lambda>x. mset (f x)) (mset zs))" for zs
    by (induction zs) simp_all
  then show "mset xs = mset ys \<Longrightarrow> mset (concat (map f xs)) = mset (concat (map f ys))" by simp
qed

lemma rows_formattable: "r \<in> set (rows_of_kind S k obj) \<Longrightarrow> formattable r"
  by (auto simp: rows_of_kind_def admitted_def formattable_def PodDataFormatter_def NamespaceDataFormatter_def
      NodeDataFormatter_def WorkloadDataFormatter_def new_tags_def split: if_splits)

lemma stream_step_nothing_lost:
  assumes "\<forall>ts. PushMetrics P v 0 ts"
  shows "ss_lost (snd (flushLocked P v s)) = ss_lost s" "ss_lost (snd (stream_Create P v r s)) = ss_lost s"
  using assms by (auto simp: flushLocked_def stream_Create_def Let_def split: option.splits prod.splits outcome.splits)

lemma stream_run_nothing_lost:
  "\<forall>(v, ar) \<in> set order. \<forall>ts. PushMetrics P v 0 ts \<Longrightarrow>
   ss_lost (fold (stream_step P) (concat (map (\<lambda>(v, ar). map (Stream_write v) (f ar)) order)) s) = ss_lost s"
proof (induction order arbitrary: s)
  case (Cons x order)
  obtain v ar where x: "x = (v, ar)" by (cases x)
  have "ss_lost (fold (stream_step P) (map (Stream_write v) rows) q) = ss_lost q" for rows q
    using Cons.prems x by (induction rows arbitrary: q) (simp_all add: stream_step_nothing_lost)
  then show ?case using Cons x by simp
qed simp

lemma image_series: "image_mset untimed (mset (concat (map series rs))) = mset (concat (map exported rs))"
  by (induction rs) (simp_all add: exported_def)

text \<open>Running reviews of discovered objects and flushing.\<close>

lemma run_and_flush:
  assumes good: "\<forall>(v, ar) \<in> set order. reviewable c decode ar"
    and pushes: "\<forall>(v, ar) \<in> set order. \<forall>ts. PushMetrics P v 0 ts" "\<forall>ts. PushMetrics P w 0 ts"
    and s: "s = wt_store (run_reviews decode (NewWebhookFactory S) (streaming_ops P) order s0)"
    and s0: "wt_store s0 = new_streaming"
  shows "fst (stream_Flush P w s) = Done () \<and>
    mset (map untimed (concat (ss_accepted (snd (stream_Flush P w s))))) =
    mset (concat (map exported (concat (map (review_rows decode S) (map snd order))))) \<and>
    (\<forall>x \<in> set (concat (ss_accepted (snd (stream_Flush P w s)))).
       \<exists>(v, ar) \<in> set order. ts_timestamp x = go_div (pe_now v) nanos_per_milli)"
proof -
  let ?calls = "concat (map (\<lambda>(v, ar). map (Stream_write v) (review_rows decode S ar)) order)"
  have s': "s = fold (stream_step P) ?calls new_streaming"
    unfolding s using run_reviews_writes [OF good] s0 by simp
  have "\<forall>r \<in> set (review_rows decode S ar). formattable r" for ar
    by (auto simp: review_rows_def rows_formattable split: option.splits)
  then have f: "\<forall>x \<in> set ?calls. \<forall>r \<in> set (written x). formattable r" by auto
  from stream_run_accounts [OF stream_inv_new(1) f, of P, folded s']
  have inv: "stream_inv s" and acc: "accounted s = mset (concat (map series (concat (map written ?calls))))" by auto
  have lost: "ss_lost s = []"
    unfolding s' using stream_run_nothing_lost [OF pushes(1)] by (simp add: new_streaming_def)
  have g: "\<forall>r \<in> set (ss_batch s). formattable r" using inv by (simp add: stream_inv_def)
  let ?t = "snd (stream_Flush P w s)"
  have d: "fst (flushLocked P w s) = Done ()"
    using pushes(2) g by (simp add: flushLocked_def FormatMetrics_series)
  have t: "accounted ?t = accounted s" "ss_batch ?t = []" "ss_lost ?t = []" "fst (stream_Flush P w s) = Done ()"
    using flushLocked_accounts [OF g, of P w] stream_step_nothing_lost(1) [OF pushes(2), of s] lost d
    by (simp_all add: stream_Flush_def)
  have "mset (map untimed (concat (ss_accepted ?t))) = image_mset untimed (accounted s)"
    using t by (simp add: accounted_def)
  also have "\<dots> = mset (concat (map exported (concat (map written ?calls))))"
    unfolding acc by (rule image_series)
  also have "map exported (concat (map written ?calls)) =
      map exported (concat (map (review_rows decode S) (map snd order)))"
    by (induction order) (auto simp: exported_stamp map_concat comp_def)
  finally have same: "mset (map untimed (concat (ss_accepted ?t))) =
      mset (concat (map exported (concat (map (review_rows decode S) (map snd order)))))" .
  have "mset (concat (ss_accepted ?t)) = mset (concat (map series (concat (map written ?calls))))"
    using t acc by (simp add: accounted_def)
  then have "set (concat (ss_accepted ?t)) = set (concat (map series (concat (map written ?calls))))"
    by (rule mset_eq_setD)
  then have "\<exists>(v, ar) \<in> set order. ts_timestamp x = go_div (pe_now v) nanos_per_milli"
    if "x \<in> set (concat (ss_accepted ?t))" for x
    using that series_stamp by fastforce
  then show ?thesis using t(4) same by blast
qed

text \<open>The tasks as a function of what the listings found.\<close>

definition discovered ::
  "settings \<Rightarrow> (catalog_entry \<Rightarrow> string \<Rightarrow> k8s_object list) \<Rightarrow> k8s_object list \<Rightarrow> k8s_object list \<Rightarrow> resource_tags list"
where
  "discovered S listing nodes nss =
     concat (map (\<lambda>n. rows_of_kind S KindNode (snd n)) nodes) @
     concat (map (\<lambda>ns.
       rows_of_kind S KindNamespace (snd ns) @
       concat (map (\<lambda>e. concat (map (\<lambda>obj. rows_of_kind S (fst (snd (snd e))) (snd obj)) (listing e (oc_name (snd ns)))))
         (filter (\<lambda>e. scan_enabled (the (entry_accessor (NewWebhookFactory S :: streaming dispatch) e))) catalog))) nss)"

definition entry_type :: "catalog_entry \<Rightarrow> string" where
  "entry_type e = (case e of (g, v, k, T, ns) \<Rightarrow> T)"

lemma catalog_reviewed: "(g, v, k, T, ns) \<in> set catalog \<Longrightarrow> (g, v, k, T) \<in> set reviewed"
  by (force simp: reviewed_def)

lemma catalog_tasks_listed:
  "\<forall>e \<in> set es. list_pages (entry_list c e namespace) 0 [] = Some (listing e namespace) \<Longrightarrow>
   catalog_tasks c d namespace es =
     Some (map (\<lambda>e. resource_task c e (listing e namespace)) (filter (\<lambda>e. scan_enabled (the (entry_accessor d e))) es))"
  by (induction es) auto

lemma namespace_tasks_listed:
  assumes "\<forall>ns \<in> set nss. \<forall>e \<in> set catalog. list_pages (entry_list c e (oc_name (snd ns))) 0 [] = Some (listing e (oc_name (snd ns)))"
  shows "namespace_tasks c d nss =
     Some (concat (map (\<lambda>ns. namespace_task c ns #
       map (\<lambda>e. resource_task c e (listing e (oc_name (snd ns)))) (filter (\<lambda>e. scan_enabled (the (entry_accessor d e))) catalog)) nss))"
  using assms
proof (induction nss)
  case (Cons ns nss)
  then show ?case using catalog_tasks_listed [of catalog c "oc_name (snd ns)" listing d] by simp
qed simp

text \<open>A task whose objects survive the encoding reviews each of them.\<close>

lemma built:
  assumes "survives c decode obj" and "fst obj = T" and "(g, v, k, T) \<in> set reviewed"
  obtains ar where "buildAdmissionReview c (g, v, k) obj = Some ar" "reviewable c decode ar"
    "\<forall>S. review_rows decode S ar = rows_of_kind S k (snd obj)"
proof -
  obtain ar where ar: "buildAdmissionReview c (g, v, k) obj = Some ar" "review_of c decode ar (g, v, k, T) obj"
    using assms by (auto simp: survives_def review_of_def buildAdmissionReview_def split: option.splits)
  show thesis
    by (rule that [OF ar(1)]) (use ar(2) review_of_rows [OF ar(2)] in \<open>unfold reviewable_def, blast+\<close>)
qed

lemma resource_task_rows:
  assumes "(g, v, k, T, ns) \<in> set catalog" and "\<forall>obj \<in> set items. survives c decode obj \<and> fst obj = T"
  shows "concat (map (review_rows decode S) (resource_task c (g, v, k, T, ns) items)) =
      concat (map (\<lambda>obj. rows_of_kind S k (snd obj)) items) \<and>
    (\<forall>ar \<in> set (resource_task c (g, v, k, T, ns) items). reviewable c decode ar)"
  using assms(2)
proof (induction items)
  case (Cons obj items)
  then have o: "survives c decode obj" "fst obj = T" by auto
  obtain ar where "buildAdmissionReview c (g, v, k) obj = Some ar" "reviewable c decode ar"
    "\<forall>S. review_rows decode S ar = rows_of_kind S k (snd obj)"
    by (rule built [OF o catalog_reviewed [OF assms(1)]])
  then show ?case using Cons.IH Cons.prems
    by (simp add: resource_task_def List.map_filter_simps)
qed (simp add: resource_task_def List.map_filter_simps)

lemma single_task_rows:
  assumes "(g, v, k, T) \<in> set reviewed" and "survives c decode obj" and "fst obj = T"
    and "task = (case buildAdmissionReview c (g, v, k) obj of None \<Rightarrow> [] | Some ar \<Rightarrow> [ar])"
  shows "concat (map (review_rows decode S) task) = rows_of_kind S k (snd obj)"
    and "\<forall>ar \<in> set task. reviewable c decode ar"
proof -
  obtain ar where "buildAdmissionReview c (g, v, k) obj = Some ar" "reviewable c decode ar"
    "\<forall>S. review_rows decode S ar = rows_of_kind S k (snd obj)"
    by (rule built [OF assms(2,3,1)])
  then show "concat (map (review_rows decode S) task) = rows_of_kind S k (snd obj)"
    and "\<forall>ar \<in> set task. reviewable c decode ar"
    using assms(4) by simp_all
qed

lemma no_node_rows:
  "\<not> LabelsEnabledForType (NodeConfigAccessor S) \<and> \<not> AnnotationsEnabledForType (NodeConfigAccessor S) \<Longrightarrow>
   rows_of_kind S KindNode obj = []"
  by (simp add: rows_of_kind_simps admitted_def)

text \<open>A cluster whose listings end, of objects of the listed types.\<close>

definition complete_listing ::
  "cluster \<Rightarrow> (string option \<Rightarrow> string \<Rightarrow> k8s_object option) \<Rightarrow> (catalog_entry \<Rightarrow> string \<Rightarrow> k8s_object list) \<Rightarrow>
   k8s_object list \<Rightarrow> k8s_object list \<Rightarrow> bool"
where
  "complete_listing c decode listing nodes nss \<longleftrightarrow>
     node_pages (cl_nodes c) 0 [] = Some nodes \<and> namespace_pages (cl_namespaces c) 0 [] = Some (True, nss) \<and>
     (\<forall>n \<in> set nodes. fst n = ''corev1.Node'' \<and> survives c decode n) \<and>
     (\<forall>ns \<in> set nss. fst ns = ''corev1.Namespace'' \<and> survives c decode ns \<and>
        (\<forall>e \<in> set catalog.
           list_pages (entry_list c e (oc_name (snd ns))) 0 [] = Some (listing e (oc_name (snd ns))) \<and>
           (\<forall>obj \<in> set (listing e (oc_name (snd ns))). fst obj = entry_type e \<and> survives c decode obj)))"

lemma entry_task_rows:
  assumes "e \<in> set catalog" and "\<forall>obj \<in> set items. fst obj = entry_type e \<and> survives c decode obj"
  shows "concat (map (review_rows decode S) (resource_task c e items)) =
      concat (map (\<lambda>obj. rows_of_kind S (fst (snd (snd e))) (snd obj)) items)"
    and "\<forall>ar \<in> set (resource_task c e items). reviewable c decode ar"
proof -
  obtain g v k T ns where e: "e = (g, v, k, T, ns)" by (cases e)
  from resource_task_rows [OF assms(1) [unfolded e], of items c decode] assms(2)
  show "concat (map (review_rows decode S) (resource_task c e items)) =
      concat (map (\<lambda>obj. rows_of_kind S (fst (snd (snd e))) (snd obj)) items)"
    and "\<forall>ar \<in> set (resource_task c e items). reviewable c decode ar"
    by (auto simp: e entry_type_def)
qed

lemma core_reviewed:
  "([], ''v1'', ''node'', ''corev1.Node'') \<in> set reviewed" "([], ''v1'', ''namespace'', ''corev1.Namespace'') \<in> set reviewed"
  by (simp_all add: reviewed_def)

lemma node_tasks_rows:
  assumes "\<forall>n \<in> set nodes. fst n = ''corev1.Node'' \<and> survives c decode n"
  shows "concat (map (review_rows decode S) (concat (map (node_task c) nodes))) =
      concat (map (\<lambda>n. rows_of_kind S KindNode (snd n)) nodes)"
    and "\<forall>ar \<in> set (concat (map (node_task c) nodes)). reviewable c decode ar"
proof -
  have n: "concat (map (review_rows decode S) (node_task c n)) = rows_of_kind S KindNode (snd n)"
    "\<forall>ar \<in> set (node_task c n). reviewable c decode ar" if "n \<in> set nodes" for n
  proof -
    have o: "survives c decode n" "fst n = ''corev1.Node''" using assms that by auto
    show "concat (map (review_rows decode S) (node_task c n)) = rows_of_kind S KindNode (snd n)"
      using single_task_rows(1) [OF core_reviewed(1) o node_task_def] by (simp add: KindNode_def)
    show "\<forall>ar \<in> set (node_task c n). reviewable c decode ar"
      by (rule single_task_rows(2) [OF core_reviewed(1) o node_task_def])
  qed
  show "concat (map (review_rows decode S) (concat (map (node_task c) nodes))) =
      concat (map (\<lambda>n. rows_of_kind S KindNode (snd n)) nodes)"
    using n(1) by (induction nodes) simp_all
  show "\<forall>ar \<in> set (concat (map (node_task c) nodes)). reviewable c decode ar" using n(2) by auto
qed

lemma namespace_tasks_rows:
  assumes "complete_listing c decode listing nodes nss" and "ns \<in> set nss" and "set es \<subseteq> set catalog"
    and "tasks = namespace_task c ns # map (\<lambda>e. resource_task c e (listing e (oc_name (snd ns)))) es"
  shows "concat (map (review_rows decode S) (concat tasks)) =
      rows_of_kind S KindNamespace (snd ns) @
      concat (map (\<lambda>e. concat (map (\<lambda>obj. rows_of_kind S (fst (snd (snd e))) (snd obj)) (listing e (oc_name (snd ns))))) es)"
    and "\<forall>ar \<in> set (concat tasks). reviewable c decode ar"
proof -
  have ns: "concat (map (review_rows decode S) (namespace_task c ns)) = rows_of_kind S KindNamespace (snd ns)"
    "\<forall>ar \<in> set (namespace_task c ns). reviewable c decode ar"
  proof -
    have o: "survives c decode ns" "fst ns = ''corev1.Namespace''"
      using assms(1,2) by (auto simp: complete_listing_def)
    show "concat (map (review_rows decode S) (namespace_task c ns)) = rows_of_kind S KindNamespace (snd ns)"
      using single_task_rows(1) [OF core_reviewed(2) o namespace_task_def] by (simp add: KindNamespace_def)
    show "\<forall>ar \<in> set (namespace_task c ns). reviewable c decode ar"
      by (rule single_task_rows(2) [OF core_reviewed(2) o namespace_task_def])
  qed
  have e: "concat (map (review_rows decode S) (resource_task c e (listing e (oc_name (snd ns))))) =
      concat (map (\<lambda>obj. rows_of_kind S (fst (snd (snd e))) (snd obj)) (listing e (oc_name (snd ns))))"
    "\<forall>ar \<in> set (resource_task c e (listing e (oc_name (snd ns)))). reviewable c decode ar" if "e \<in> set es" for e
    using entry_task_rows [of e "listing e (oc_name (snd ns))" c decode] assms(1-3) that
    by (auto simp: complete_listing_def)
  show "concat (map (review_rows decode S) (concat tasks)) =
      rows_of_kind S KindNamespace (snd ns) @
      concat (map (\<lambda>e. concat (map (\<lambda>obj. rows_of_kind S (fst (snd (snd e))) (snd obj)) (listing e (oc_name (snd ns))))) es)"
    using ns(1) e(1) unfolding assms(4) by (induction es) simp_all
  show "\<forall>ar \<in> set (concat tasks). reviewable c decode ar" using ns(2) e(2) unfolding assms(4) by auto
qed

lemma catalog_accessors: "\<forall>e \<in> set catalog. entry_accessor (NewWebhookFactory S) e \<noteq> None"
proof
  fix e assume e: "e \<in> set catalog"
  obtain g v k T ns where x: "e = (g, v, k, T, ns)" by (cases e)
  have "handled S (NewWebhookFactory S :: 'a dispatch) (g, v, k, T)"
    using e x by (auto intro: reviewed_handled catalog_reviewed)
  then show "entry_accessor (NewWebhookFactory S :: 'a dispatch) e \<noteq> None"
    by (auto simp: x entry_accessor_def GetConfigurationAccessor_def handled_def)
qed

lemma set_concat_concat: "set (concat (concat (map f xs))) = (\<Union>x \<in> set xs. set (concat (f x)))"
  by auto

lemma Start_tasks:
  fixes d :: "streaming dispatch"
  assumes "complete_listing c decode listing nodes nss" and "d = NewWebhookFactory S" and "services_ready c \<or> disableWait"
  obtains nts ts where "Start c S d disableWait = Some (Start_ok nts ts)"
    "concat (map (review_rows decode S) (concat (nts @ ts))) = discovered S listing nodes nss"
    "\<forall>ar \<in> set (concat (nts @ ts)). reviewable c decode ar"
proof -
  let ?es = "filter (\<lambda>e. scan_enabled (the (entry_accessor d e))) catalog"
  let ?t = "\<lambda>ns. namespace_task c ns # map (\<lambda>e. resource_task c e (listing e (oc_name (snd ns)))) ?es"
  define nts where "nts = (if \<not> LabelsEnabledForType (NodeConfigAccessor S) \<and> \<not> AnnotationsEnabledForType (NodeConfigAccessor S)
    then [] else map (node_task c) nodes)"
  have pages: "node_pages (cl_nodes c) 0 [] = Some nodes" "namespace_pages (cl_namespaces c) 0 [] = Some (True, nss)"
    using assms(1) by (auto simp: complete_listing_def)
  have en: "enumerateNodes c S = Some nts"
    using pages(1) by (simp add: enumerateNodes_def nts_def Let_def)
  have acc: "\<forall>e \<in> set catalog. entry_accessor d e \<noteq> None"
    unfolding assms(2) by (rule catalog_accessors)
  have ts: "namespace_tasks c d nss = Some (concat (map ?t nss))"
    by (rule namespace_tasks_listed) (use assms(1) in \<open>auto simp: complete_listing_def\<close>)
  have start: "Start c S d disableWait = Some (Start_ok nts (concat (map ?t nss)))"
    using acc assms(3) by (auto simp: Start_def services_ready_def en pages ts)
  have node_rows: "concat (map (review_rows decode S) (concat nts)) = concat (map (\<lambda>n. rows_of_kind S KindNode (snd n)) nodes)"
    "\<forall>ar \<in> set (concat nts). reviewable c decode ar"
    using node_tasks_rows [of nodes c decode] assms(1) no_node_rows [of S]
    by (auto simp: nts_def complete_listing_def)
  have ns_rows: "concat (map (review_rows decode S) (concat (?t ns))) =
      rows_of_kind S KindNamespace (snd ns) @
      concat (map (\<lambda>e. concat (map (\<lambda>obj. rows_of_kind S (fst (snd (snd e))) (snd obj)) (listing e (oc_name (snd ns))))) ?es)"
    "\<forall>ar \<in> set (concat (?t ns)). reviewable c decode ar" if "ns \<in> set nss" for ns
    using namespace_tasks_rows [where es = ?es, OF assms(1) that _ refl] by auto
  have all_rows: "concat (map (review_rows decode S) (concat (concat (map ?t nss)))) =
      concat (map (\<lambda>ns. rows_of_kind S KindNamespace (snd ns) @
        concat (map (\<lambda>e. concat (map (\<lambda>obj. rows_of_kind S (fst (snd (snd e))) (snd obj)) (listing e (oc_name (snd ns))))) ?es)) nss)"
    using ns_rows(1) by (induction nss) simp_all
  show thesis
  proof (rule that [OF start])
    show "concat (map (review_rows decode S) (concat (nts @ concat (map ?t nss)))) = discovered S listing nodes nss"
      using node_rows(1) all_rows by (simp add: discovered_def assms(2))
    show "\<forall>ar \<in> set (concat (nts @ concat (map ?t nss))). reviewable c decode ar"
      unfolding concat_append set_append set_concat_concat using node_rows(2) ns_rows(2) by blast
  qed
qed

lemma flush_done_empty: "fst (stream_Flush P w s) = Done () \<Longrightarrow> ss_batch (snd (stream_Flush P w s)) = []"
  by (auto simp: stream_Flush_def flushLocked_def split: option.splits if_splits)

lemma concat_concat_map: "concat (map f (concat (map g xs))) = concat (map (\<lambda>x. concat (map f (g x))) xs)"
  by (induction xs) simp_all

section \<open>Properties\<close>

text \<open>The state a backfill starts from.\<close>

definition backfill_state :: "streaming webhook_state" where
  "backfill_state = \<lparr>wt_store = new_streaming, wt_classes = [], wt_reviews = []\<rparr>"

text \<open>Any run of the reviews of the tasks, followed by a flush, exports what the tasks hold.\<close>

lemma run_exports:
  assumes o: "mset (map snd order) = mset tasks" and good: "\<forall>ar \<in> set tasks. reviewable c decode ar"
    and p: "\<forall>v \<in> set (w # map fst order). \<forall>x. PushMetrics P v 0 x"
    and s: "s = run_reviews decode (NewWebhookFactory S) (streaming_ops P) order backfill_state"
    and t: "t = stream_Flush P w (wt_store s)"
  shows "fst t = Done ()" and "ss_batch (snd t) = []"
    and "mset (map untimed (concat (ss_accepted (snd t)))) =
      mset (concat (map exported (concat (map (review_rows decode S) tasks))))"
    and "\<forall>x \<in> set (concat (ss_accepted (snd t))). \<exists>(v, ar) \<in> set order. ts_timestamp x = go_div (pe_now v) nanos_per_milli"
proof -
  have g: "\<forall>(v, ar) \<in> set order. reviewable c decode ar"
  proof (clarify)
    fix v ar assume "(v, ar) \<in> set order"
    then have "ar \<in> set (map snd order)" unfolding set_map by (rule image_eqI [rotated]) simp
    then show "reviewable c decode ar" using good unfolding mset_eq_setD [OF o] by blast
  qed
  have pushes: "\<forall>(v, ar) \<in> set order. \<forall>x. PushMetrics P v 0 x" "\<forall>x. PushMetrics P w 0 x"
    using p by fastforce+
  have start0: "wt_store backfill_state = new_streaming" by (simp add: backfill_state_def)
  note r = run_and_flush [OF g pushes arg_cong [OF s, of wt_store] start0]
  show "fst t = Done ()" unfolding t using r by blast
  show "ss_batch (snd t) = []" unfolding t by (rule flush_done_empty) (use r in blast)
  show "\<forall>x \<in> set (concat (ss_accepted (snd t))). \<exists>(v, ar) \<in> set order. ts_timestamp x = go_div (pe_now v) nanos_per_milli"
    unfolding t using r by blast
  have "mset (map untimed (concat (ss_accepted (snd t)))) =
      mset (concat (map exported (concat (map (review_rows decode S) (map snd order)))))"
    unfolding t using r by blast
  also have "\<dots> = mset (concat (map (\<lambda>ar. concat (map exported (review_rows decode S ar))) tasks))"
    unfolding concat_concat_map by (rule mset_concat_map_cong [OF o])
  finally show "mset (map untimed (concat (ss_accepted (snd t)))) =
      mset (concat (map exported (concat (map (review_rows decode S) tasks))))"
    unfolding concat_concat_map .
qed

text \<open>C11: The backfill waits for the webhook and the collector, unless waiting is disabled; if one of
  the two does not answer within the attempts it returns an error and lists nothing.  Otherwise a backfill of a
  cluster whose listings end, where every push is accepted, returns, and whatever the order in which the
  workers run the reviews, with the nodes before the rest, the endpoint has in the end received exactly the
  series, by their labels and values, of the resources that were discovered and are enabled: of every node,
  every namespace and every object of an enabled kind of the catalog in it, each once for every listing it
  was found in; every series has the time of one of the reviews, and nothing remains in the buffer.\<close>

theorem backfill_exports_everything:
  assumes "complete_listing c decode listing nodes nss"
  shows "(\<not> services_ready c \<and> \<not> disableWait \<longrightarrow>
      (\<exists>e. Start c S (NewWebhookFactory S :: streaming dispatch) disableWait = Some (Start_error e []))) \<and>
    (services_ready c \<or> disableWait \<longrightarrow>
     (\<exists>nts ts. Start c S (NewWebhookFactory S :: streaming dispatch) disableWait = Some (Start_ok nts ts) \<and>
      (\<forall>o1 o2 w s t. mset (map snd o1) = mset (concat nts) \<longrightarrow> mset (map snd o2) = mset (concat ts) \<longrightarrow>
         (\<forall>v \<in> set (w # map fst (o1 @ o2)). \<forall>x. PushMetrics P v 0 x) \<longrightarrow>
         s = run_reviews decode (NewWebhookFactory S) (streaming_ops P) (o1 @ o2) backfill_state \<longrightarrow>
         t = stream_Flush P w (wt_store s) \<longrightarrow>
         fst t = Done () \<and> ss_batch (snd t) = [] \<and>
         mset (map untimed (concat (ss_accepted (snd t)))) =
           mset (concat (map exported (discovered S listing nodes nss))) \<and>
         (\<forall>x \<in> set (concat (ss_accepted (snd t))).
            \<exists>(v, ar) \<in> set (o1 @ o2). ts_timestamp x = go_div (pe_now v) nanos_per_milli))))"
proof (intro conjI impI)
  assume "\<not> services_ready c \<and> \<not> disableWait"
  then show "\<exists>e. Start c S (NewWebhookFactory S :: streaming dispatch) disableWait = Some (Start_error e [])"
    by (auto simp: Start_def services_ready_def)
next
  assume ready: "services_ready c \<or> disableWait"
  obtain nts ts where start: "Start c S (NewWebhookFactory S :: streaming dispatch) disableWait = Some (Start_ok nts ts)"
    and rows: "concat (map (review_rows decode S) (concat (nts @ ts))) = discovered S listing nodes nss"
    and good: "\<forall>ar \<in> set (concat (nts @ ts)). reviewable c decode ar"
    by (rule Start_tasks [OF assms refl ready, of S])
  show "\<exists>nts ts. Start c S (NewWebhookFactory S :: streaming dispatch) disableWait = Some (Start_ok nts ts) \<and>
      (\<forall>o1 o2 w s t. mset (map snd o1) = mset (concat nts) \<longrightarrow> mset (map snd o2) = mset (concat ts) \<longrightarrow>
         (\<forall>v \<in> set (w # map fst (o1 @ o2)). \<forall>x. PushMetrics P v 0 x) \<longrightarrow>
         s = run_reviews decode (NewWebhookFactory S) (streaming_ops P) (o1 @ o2) backfill_state \<longrightarrow>
         t = stream_Flush P w (wt_store s) \<longrightarrow>
         fst t = Done () \<and> ss_batch (snd t) = [] \<and>
         mset (map untimed (concat (ss_accepted (snd t)))) =
           mset (concat (map exported (discovered S listing nodes nss))) \<and>
         (\<forall>x \<in> set (concat (ss_accepted (snd t))).
            \<exists>(v, ar) \<in> set (o1 @ o2). ts_timestamp x = go_div (pe_now v) nanos_per_milli))"
  proof (intro exI conjI allI impI)
    show "Start c S (NewWebhookFactory S :: streaming dispatch) disableWait = Some (Start_ok nts ts)" by (rule start)
    fix o1 o2 w s t
    assume "mset (map snd o1) = mset (concat nts)" "mset (map snd o2) = mset (concat ts)"
      and run: "\<forall>v \<in> set (w # map fst (o1 @ o2)). \<forall>x. PushMetrics P v 0 x"
        "s = run_reviews decode (NewWebhookFactory S) (streaming_ops P) (o1 @ o2) backfill_state"
        "t = stream_Flush P w (wt_store s)"
    then have m: "mset (map snd (o1 @ o2)) = mset (concat (nts @ ts))" by simp
    note e = run_exports [OF m good run, unfolded rows]
    show "fst t = Done ()" "ss_batch (snd t) = []" "mset (map untimed (concat (ss_accepted (snd t)))) =
        mset (concat (map exported (discovered S listing nodes nss)))"
      "\<forall>x \<in> set (concat (ss_accepted (snd t))). \<exists>(v, ar) \<in> set (o1 @ o2). ts_timestamp x = go_div (pe_now v) nanos_per_milli"
      by (rule e)+
  qed
qed

definition sample_object :: "string \<Rightarrow> string \<Rightarrow> string \<Rightarrow> k8s_object" where
  "sample_object typ name ns =
     (typ, \<lparr>oc_name = name, oc_namespace = ns, oc_labels = fmap_of_list [(''team'', name)], oc_annotations = fmempty,
            oc_controller = []\<rparr>)"

definition sample_node :: k8s_object where "sample_node = sample_object ''corev1.Node'' ''n1'' []"
definition sample_namespace :: k8s_object where "sample_namespace = sample_object ''corev1.Namespace'' ''prod'' []"
definition sample_pod :: k8s_object where "sample_pod = sample_object ''corev1.Pod'' ''web'' ''prod''"

definition sample_cluster :: cluster where
  "sample_cluster =
     \<lparr>cl_webhook_ok = (\<lambda>_. True), cl_encode_ok = True, cl_request_ok = True, cl_collector = (\<lambda>_. Some 204),
      cl_nodes = (\<lambda>i cursor. if i = 0 then None else Some ([sample_node], [])),
      cl_namespaces = (\<lambda>i cursor. if cursor = [] then Some ([], ''p2'') else Some ([sample_namespace], [])),
      cl_list = (\<lambda>key ns i cursor. Some (if key = (GroupCore, V1, KindPod) then [sample_pod] else [], [])),
      cl_encode = (\<lambda>obj. Some (oc_name (snd obj))), cl_uuid = (\<lambda>_. ''id'')\<rparr>"

definition sample_decode :: "string option \<Rightarrow> string \<Rightarrow> k8s_object option" where
  "sample_decode T raw =
     (if raw = ''n1'' then Some sample_node else if raw = ''prod'' then Some sample_namespace
      else if raw = ''web'' then Some sample_pod else None)"

definition sample_listing :: "catalog_entry \<Rightarrow> string \<Rightarrow> k8s_object list" where
  "sample_listing e ns = (case e of (g, v, k, T, b) \<Rightarrow> if (g, v, k) = (GroupCore, V1, KindPod) then [sample_pod] else [])"

lemma catalog_pod: "(GroupCore, V1, KindPod, T, b) \<in> set catalog \<Longrightarrow> T = ''corev1.Pod''"
  by (simp add: catalog_def kind_names)

lemma sample_complete: "complete_listing sample_cluster sample_decode sample_listing [sample_node] [sample_namespace]"
proof -
  have n: "node_pages (cl_nodes sample_cluster) 0 [] = Some [sample_node]"
    by (simp add: node_pages.simps sample_cluster_def)
  have ns: "namespace_pages (cl_namespaces sample_cluster) 0 [] = Some (True, [sample_namespace])"
    by (simp add: namespace_pages.simps sample_cluster_def)
  have l: "list_pages (entry_list sample_cluster e ns) 0 [] = Some (sample_listing e ns)"
    "\<forall>obj \<in> set (sample_listing e ns). fst obj = entry_type e" if "e \<in> set catalog" for e ns
  proof -
    obtain g v k T b where e: "e = (g, v, k, T, b)" by (cases e)
    show "list_pages (entry_list sample_cluster e ns) 0 [] = Some (sample_listing e ns)"
      by (subst list_pages.simps) (simp add: e entry_list_def sample_cluster_def sample_listing_def)
    show "\<forall>obj \<in> set (sample_listing e ns). fst obj = entry_type e"
      using that [unfolded e] catalog_pod [of T b] by (auto simp: e sample_listing_def entry_type_def sample_pod_def sample_object_def)
  qed
  have s: "survives sample_cluster sample_decode obj" if "obj \<in> {sample_node, sample_namespace, sample_pod}" for obj
    using that by (auto simp: survives_def sample_cluster_def sample_decode_def sample_node_def sample_namespace_def
        sample_pod_def sample_object_def)
  have "survives sample_cluster sample_decode obj" if "obj \<in> set (sample_listing e ns)" for obj e ns
    using that s [of sample_pod] by (simp add: sample_listing_def split: if_splits)
  with n ns l s show ?thesis
    by (auto simp: complete_listing_def sample_node_def sample_namespace_def sample_object_def)
qed

lemma pod_scanned:
  "scan_enabled (the (entry_accessor (NewWebhookFactory sample_settings :: streaming dispatch) (GroupCore, V1, KindPod, T, b)))"
  by (simp add: entry_accessor_def GetConfigurationAccessor_def dispatch_handlers NewGenericHandler_def scan_enabled_def
      PodConfigAccessor_def sample_settings_def all_resources_def)

definition other_entries :: "catalog_entry list" where
  "other_entries = filter (\<lambda>(g, v, k, T, b). (g, v, k) \<noteq> (GroupCore, V1, KindPod)) catalog"

lemma catalog_split: "\<exists>A B. catalog = A @ (GroupCore, V1, KindPod, ''corev1.Pod'', True) # B \<and> set (A @ B) \<subseteq> set other_entries"
proof (intro exI conjI)
  show "catalog = take 10 catalog @ (GroupCore, V1, KindPod, ''corev1.Pod'', True) # drop 11 catalog"
    by (simp add: catalog_def)
  show "set (take 10 catalog @ drop 11 catalog) \<subseteq> set other_entries"
    unfolding other_entries_def catalog_def by (simp add: kind_names)
qed

lemma other_rows:
  assumes "e \<in> set other_entries"
  shows "sample_listing e ns = []"
  using assms by (auto simp: other_entries_def sample_listing_def split: prod.splits)

lemma sample_discovered:
  "discovered sample_settings sample_listing [sample_node] [sample_namespace] =
     [NodeDataFormatter sample_settings (NodeConfigAccessor sample_settings) (snd sample_node),
      NamespaceDataFormatter sample_settings (NamespaceConfigAccessor sample_settings) (snd sample_namespace),
      PodDataFormatter sample_settings (PodConfigAccessor sample_settings) (snd sample_pod)]"
proof -
  have a: "admitted sample_settings (a sample_settings) f obj = [f sample_settings (a sample_settings) obj]"
    if "a \<in> {NodeConfigAccessor, NamespaceConfigAccessor, PodConfigAccessor}" for a f obj
    using that by (auto simp: admitted_def sample_settings_def all_resources_def accessor_defs)
  obtain A B where c: "catalog = A @ (GroupCore, V1, KindPod, ''corev1.Pod'', True) # B" "set (A @ B) \<subseteq> set other_entries"
    using catalog_split by blast
  have none: "concat (map (\<lambda>e. concat (map (\<lambda>obj. rows_of_kind sample_settings (fst (snd (snd e))) (snd obj)) (sample_listing e ns)))
      (filter Q xs)) = []" if "set xs \<subseteq> set other_entries" for xs Q ns
    using that other_rows by (auto simp: subset_iff)
  have AB: "set A \<subseteq> set other_entries" "set B \<subseteq> set other_entries" using c(2) by auto
  have pod: "sample_listing (GroupCore, V1, KindPod, ''corev1.Pod'', True) ns = [sample_pod]" for ns
    by (simp add: sample_listing_def)
  show ?thesis
    unfolding discovered_def c(1)
    by (simp add: pod_scanned rows_of_kind_simps a pod none [OF AB(1)] none [OF AB(2)] del: concat_eq_Nil_conv)
qed

theorem backfill_exports_everything_witness:
  "\<exists>nts ts. Start sample_cluster sample_settings (NewWebhookFactory sample_settings :: streaming dispatch) False = Some (Start_ok nts ts) \<and>
     (let s = run_reviews sample_decode (NewWebhookFactory sample_settings) (streaming_ops sample_pusher)
                (map (Pair good_push) (concat nts @ concat ts)) backfill_state;
          t = stream_Flush sample_pusher good_push (wt_store s)
      in fst t = Done () \<and> length (concat (ss_accepted (snd t))) = 6)"
proof -
  have push: "PushMetrics sample_pusher good_push 0 x" for x
    by (simp add: PushMetrics_def good_push_def sample_pusher_def numeral_3_eq_3)
  have size: "length (concat (map exported (discovered sample_settings sample_listing [sample_node] [sample_namespace]))) = 6"
    by (simp add: sample_discovered exported_def series_def NodeDataFormatter_def NamespaceDataFormatter_def
        PodDataFormatter_def new_tags_def Let_def)
  have "services_ready sample_cluster"
    by (simp add: services_ready_def sample_cluster_def AwaitWebhookService_def AwaitCollectorService_def
        MaxConnectionAttempts_def numeral_eq_Suc)
  note start_export = mp [OF conjunct2 [OF backfill_exports_everything [OF sample_complete,
    of False sample_settings sample_pusher]] disjI1 [OF this]]
  obtain nts ts where start: "Start sample_cluster sample_settings (NewWebhookFactory sample_settings :: streaming dispatch) False =
      Some (Start_ok nts ts)"
    and exports: "\<forall>o1 o2 w s t. mset (map snd o1) = mset (concat nts) \<longrightarrow> mset (map snd o2) = mset (concat ts) \<longrightarrow>
       (\<forall>v \<in> set (w # map fst (o1 @ o2)). \<forall>x. PushMetrics sample_pusher v 0 x) \<longrightarrow>
       s = run_reviews sample_decode (NewWebhookFactory sample_settings) (streaming_ops sample_pusher) (o1 @ o2) backfill_state \<longrightarrow>
       t = stream_Flush sample_pusher w (wt_store s) \<longrightarrow>
       fst t = Done () \<and> ss_batch (snd t) = [] \<and>
       mset (map untimed (concat (ss_accepted (snd t)))) =
         mset (concat (map exported (discovered sample_settings sample_listing [sample_node] [sample_namespace]))) \<and>
       (\<forall>x \<in> set (concat (ss_accepted (snd t))).
          \<exists>(v, ar) \<in> set (o1 @ o2). ts_timestamp x = go_div (pe_now v) nanos_per_milli)"
    using start_export by (elim exE conjE) (rule that)
  let ?o1 = "map (Pair good_push) (concat nts)" and ?o2 = "map (Pair good_push) (concat ts)"
  let ?t = "stream_Flush sample_pusher good_push (wt_store (run_reviews sample_decode (NewWebhookFactory sample_settings)
      (streaming_ops sample_pusher) (?o1 @ ?o2) backfill_state))"
  have "fst ?t = Done () \<and> ss_batch (snd ?t) = [] \<and> mset (map untimed (concat (ss_accepted (snd ?t)))) =
         mset (concat (map exported (discovered sample_settings sample_listing [sample_node] [sample_namespace]))) \<and>
         (\<forall>x \<in> set (concat (ss_accepted (snd ?t))).
            \<exists>(v, ar) \<in> set (?o1 @ ?o2). ts_timestamp x = go_div (pe_now v) nanos_per_milli)"
  proof (rule exports [THEN spec, THEN spec, THEN spec, THEN spec, THEN spec, THEN mp, THEN mp, THEN mp, THEN mp, THEN mp,
      OF _ _ _ refl refl])
    have id: "map snd (map (Pair good_push) xs) = xs" for xs :: "admission_review list"
      by (simp add: comp_def)
    show "mset (map snd ?o1) = mset (concat nts)" "mset (map snd ?o2) = mset (concat ts)" by (simp_all only: id)
    have "set (map fst (map (Pair good_push) xs @ map (Pair good_push) ys)) \<subseteq> {good_push}" for xs ys :: "admission_review list"
      by auto
    note sub = this [of "concat nts" "concat ts"]
    show "\<forall>v \<in> set (good_push # map fst (?o1 @ ?o2)). \<forall>x. PushMetrics sample_pusher v 0 x"
    proof (intro ballI allI)
      fix v x assume "v \<in> set (good_push # map fst (?o1 @ ?o2))"
      then consider "v = good_push" | "v \<in> set (map fst (?o1 @ ?o2))" unfolding list.set insert_iff by blast
      then have "v = good_push" by cases (use subsetD [OF sub] singletonD in metis)+
      then show "PushMetrics sample_pusher v 0 x" using push by (simp only:)
    qed
  qed
  then have t: "fst ?t = Done ()" "size (mset (map untimed (concat (ss_accepted (snd ?t))))) =
      size (mset (concat (map exported (discovered sample_settings sample_listing [sample_node] [sample_namespace]))))"
    by (simp_all only:)
  have "length (concat (ss_accepted (snd ?t))) = 6"
    using t(2) unfolding size_mset length_map size .
  then show ?thesis
    unfolding Let_def map_append [symmetric] using start t(1) by (intro exI conjI) (simp_all only: map_append)
qed

text \<open>A server that answers a listing with the given pages, one per call, the cursor of each being the
  one the page before named.\<close>

fun serves :: "(nat \<Rightarrow> string \<Rightarrow> page option) \<Rightarrow> nat \<Rightarrow> string \<Rightarrow> k8s_object list list \<Rightarrow> bool" where
  "serves answer i cursor [] = False"
| "serves answer i cursor (p # ps) =
     (case answer i cursor of
        None \<Rightarrow> False
      | Some (items, next_cursor) \<Rightarrow>
          items = p \<and> (if ps = [] then next_cursor = [] else next_cursor \<noteq> [] \<and> serves answer (Suc i) next_cursor ps))"

text \<open>Every loop over the pages of a listing returns and visits every page exactly once, in order,
  however many there are, and the listing of the namespaces reports that it is complete.\<close>

theorem paging_visits_every_page:
  assumes "serves answer i cursor ps"
  shows "list_pages answer i cursor = Some (concat ps) \<and> namespace_pages answer i cursor = Some (True, concat ps) \<and>
    node_pages answer i cursor = Some (concat ps)"
  using assms
proof (induction ps arbitrary: i cursor)
  case (Cons p ps)
  then obtain next_cursor where a: "answer i cursor = Some (p, next_cursor)"
    "if ps = [] then next_cursor = [] else next_cursor \<noteq> [] \<and> serves answer (Suc i) next_cursor ps"
    by (auto split: option.splits)
  then show ?case using Cons.IH [of "Suc i" next_cursor]
    by (simp add: list_pages.simps [of answer i cursor] namespace_pages.simps [of answer i cursor]
        node_pages.simps [of answer i cursor] split: if_splits)
qed simp

theorem paging_visits_every_page_witness:
  "namespace_pages (cl_namespaces sample_cluster) 0 [] = Some (True, [sample_namespace])"
proof -
  have "serves (cl_namespaces sample_cluster) 0 [] [[], [sample_namespace]]" by (simp add: sample_cluster_def)
  from paging_visits_every_page [OF this] show ?thesis by simp
qed

lemma node_pages_answered: "node_pages answer i cursor = Some y \<Longrightarrow> \<exists>j x. answer j x \<noteq> None"
  by (erule node_pages.raw_induct [of "\<lambda>answer i cursor y. \<exists>j x. answer j x \<noteq> None", rotated])
     (fastforce split: option.splits)

text \<open>Where the nodes are enabled, a listing of the nodes that keeps failing keeps the backfill from
  ever returning, as the listing is retried at once and for ever, while the same failure of the
  namespaces ends it with an error.\<close>

theorem node_errors_block_backfill:
  assumes "\<And>i cursor. cl_nodes c i cursor = None"
    and "LabelsEnabledForType (NodeConfigAccessor S) \<or> AnnotationsEnabledForType (NodeConfigAccessor S)"
    and "cl_namespaces c 0 [] = None" and "node_pages (cl_nodes c') 0 [] = Some nodes" and "c' = c\<lparr>cl_nodes := answer\<rparr>"
  shows "Start c S (NewWebhookFactory S :: 's dispatch) True = None \<and>
    Start c' S (NewWebhookFactory S :: 's dispatch) True =
      Some (Start_error ''failed to list namespaces'' (map (node_task c') nodes))"
proof -
  have n: "node_pages (cl_nodes c) 0 [] = None"
    using node_pages_answered [of "cl_nodes c" 0 "[]"] assms(1) by (cases "node_pages (cl_nodes c) 0 []") auto
  note acc = catalog_accessors [where 'a = 's, of S]
  have ns: "namespace_pages (cl_namespaces c') 0 [] = Some (False, [])"
    using assms(3) by (simp add: namespace_pages.simps assms(5))
  show ?thesis
    using assms(2) n acc ns assms(4) by (auto simp: Start_def enumerateNodes_def Let_def)
qed

theorem node_errors_block_backfill_witness:
  "Start (sample_cluster\<lparr>cl_nodes := (\<lambda>_ _. None), cl_namespaces := (\<lambda>_ _. None)\<rparr>) sample_settings
     (NewWebhookFactory sample_settings :: streaming dispatch) True = None"
proof -
  let ?c = "sample_cluster\<lparr>cl_nodes := (\<lambda>_ _. None), cl_namespaces := (\<lambda>_ _. None)\<rparr>"
  have e: "LabelsEnabledForType (NodeConfigAccessor sample_settings) \<or> AnnotationsEnabledForType (NodeConfigAccessor sample_settings)"
    by (simp add: NodeConfigAccessor_def sample_settings_def all_resources_def)
  have n: "node_pages (cl_nodes (?c\<lparr>cl_nodes := (\<lambda>_ _. Some ([], []))\<rparr>)) 0 [] = Some []"
    by (simp add: node_pages.simps)
  show ?thesis
    by (rule node_errors_block_backfill [OF _ e _ n refl, THEN conjunct1]) simp_all
qed

end
