(* ===== verification/Webhook_Pipeline.thy ===== *)
theory Webhook_Pipeline
  imports Backfiller
begin

text \<open>
  The webhook server as a whole: requests of the API server put resources into the repository, the
  pusher sends and marks them and the housekeeper deletes them.  The tables all of this can reach
  are an inductive predicate; what the remote write endpoint is sent is proved to be what the
  configured filters let through.
\<close>

section \<open>The tables of the server\<close>

text \<open>Between the reading and the writing half of a flush or a tick any of these steps may happen.\<close>

inductive webhook_reach :: "settings \<Rightarrow> table \<Rightarrow> bool" for S where
  reach_start: "webhook_reach S []"
| reach_post: "webhook_reach S (wt_store s) \<Longrightarrow>
    webhook_reach S (wt_store (snd (PostAdmissionRequest v S (NewWebhookFactory S) (repo_ops w) q s)))"
| reach_flushed: "webhook_reach S t \<Longrightarrow> webhook_reach S (pe_between v t) \<Longrightarrow> quiet (pe_find v) \<Longrightarrow>
    webhook_reach S (snd (snd (Flush P v t)))"
| reach_cleaned: "webhook_reach S t \<Longrightarrow> webhook_reach S (ke_between v t) \<Longrightarrow> webhook_reach S (cleanup v t)"

lemma PostAdmissionRequest_store:
  "wt_store (snd (PostAdmissionRequest v S d ops q s)) = wt_store s \<or>
   (\<exists>r. wt_store (snd (PostAdmissionRequest v S d ops q s)) = wt_store (snd (Review (we_objects v) d ops r s)))"
proof -
  have "snd (PostAdmissionRequest v S d ops q s) = s \<or>
      (\<exists>r. snd (PostAdmissionRequest v S d ops q s) = snd (Review (we_objects v) d ops r s))"
    unfolding PostAdmissionRequest_def Let_def
    by (simp split: option.split body_review.split prod.split review_result.split)
       (intro allI conjI impI; metis snd_conv)
  then show ?thesis by metis
qed

lemma mark_sent_tags:
  "\<forall>q \<in> set t. Q (tags_of q) \<Longrightarrow> \<forall>q \<in> set rs. Q (tags_of q) \<Longrightarrow> \<forall>q \<in> set (snd (mark_sent v i rs t)). Q (tags_of q)"
proof (induction rs arbitrary: i t)
  case (Cons r rs)
  obtain o' t1 where u: "repo_Update (pe_update v i) (r\<lparr>rt_sent := Some (pe_now v)\<rparr>) t = (o', t1)"
    by (cases "repo_Update (pe_update v i) (r\<lparr>rt_sent := Some (pe_now v)\<rparr>) t")
  have "\<forall>q \<in> set t1. Q (tags_of q)"
    using repo_Update_tags [of _ "pe_update v i" "r\<lparr>rt_sent := Some (pe_now v)\<rparr>" t] Cons.prems u by fastforce
  then show ?case using Cons.IH [of t1 "Suc i"] Cons.prems(2) u by (cases o') auto
qed simp

lemma delete_each_subset: "set (snd (delete_each v i rs t)) \<subseteq> set t"
proof (induction rs arbitrary: i t)
  case (Cons r rs)
  have "set (snd (repo_Delete (ke_delete v i) (rt_id r) t)) \<subseteq> set t"
    by (auto simp: repo_Delete_def split: option.splits)
  then show ?case using Cons.IH
    by (cases "repo_Delete (ke_delete v i) (rt_id r) t"; cases "fst (repo_Delete (ke_delete v i) (rt_id r) t)") fastforce+
qed simp

lemma Flush_found:
  "snd (snd (Flush P v t)) = pe_between v t \<or>
   (\<exists>found. repo_FindAllBy (pe_find v) (\<lambda>r. rt_sent r = None) t = Done found \<and>
      snd (snd (Flush P v t)) = snd (mark_sent v 0 found (pe_between v t)))"
proof (cases "fst (Flush P v t) = Flush_ok")
  case True
  then obtain sent t' where f: "Flush P v t = (Flush_ok, sent, t')" by (cases "Flush P v t") auto
  from Flush_ok_cases [OF f] show ?thesis using f by (metis snd_conv)
qed (simp add: Flush_fails_cases)

lemma webhook_reach_exportable: "webhook_reach S t \<Longrightarrow> \<forall>q \<in> set t. exportable S (tags_of q)"
proof (induction rule: webhook_reach.induct)
  case (reach_post s v w q)
  from PostAdmissionRequest_store [of v S "NewWebhookFactory S" "repo_ops w" q s] show ?case
    using reach_post.IH repo_content.Review_exportable [OF reach_post.IH] by metis
next
  case (reach_flushed t v P)
  have "\<forall>q \<in> set found. exportable S (tags_of q)"
    if "repo_FindAllBy (pe_find v) (\<lambda>r. rt_sent r = None) t = Done found" for found
    using mset_eq_setD [OF find_all_unsent [OF that reach_flushed.hyps(3)]] reach_flushed.IH(1) by auto
  then show ?case
    using Flush_found [of P v t] mark_sent_tags [of "pe_between v t" "exportable S" _ v 0] reach_flushed.IH(2) by metis
next
  case (reach_cleaned t v)
  then show ?case using cleanup_table [of v t] delete_each_subset by (metis subsetD)
qed simp

section \<open>The exported series\<close>

text \<open>A series that may leave the cluster: it is named after a resource type, and its labels are the
  names of the resource and labels, or annotations, that pass their filter.\<close>

definition filtered_series :: "settings \<Rightarrow> timeseries \<Rightarrow> bool" where
  "filtered_series S x \<longleftrightarrow> (\<exists>typ kind rest. ts_labels x = (''__name__'', ''cloudzero_'' @ ResourceTypeToMetricName typ @ kind) # rest \<and>
     (\<forall>(n, v) \<in> set rest. n \<in> set resource_fields \<or>
        (\<exists>k. n = ''label_'' @ k \<and>
           (kind = ''_labels'' \<and> tf_enabled (st_labels S) \<and> evalTag k v (st_label_matches S) S \<or>
            kind = ''_annotations'' \<and> tf_enabled (st_annotations S) \<and> evalTag k v (st_annotation_matches S) S))))"

lemma fmpred_sorted: "fmpred Q m \<Longrightarrow> (k, v) \<in> set (sorted_list_of_fmap m) \<Longrightarrow> Q k v"
  using list_all_sorted_list [of "\<lambda>(k, v). Q k v" m] by (auto simp: list_all_iff curry_def)

lemma exportable_series:
  assumes "exportable S (tags_of r)"
  shows "formattable r \<and> (\<forall>x \<in> set (series r). filtered_series S x)"
proof -
  from assms obtain names labels annotations where
    r: "rt_metric_labels r = Some names" "rt_labels r = Some labels" "rt_annotations r = Some annotations"
    and ok: "fmpred (\<lambda>k _. k \<in> set resource_fields) names"
      "fmpred (\<lambda>k v. tf_enabled (st_labels S) \<and> evalTag k v (st_label_matches S) S) labels"
      "fmpred (\<lambda>k v. tf_enabled (st_annotations S) \<and> evalTag k v (st_annotation_matches S) S) annotations"
    by (auto simp: exportable_def tags_of_def split: option.splits prod.splits)
  let ?n = "sorted_list_of_fmap names" and ?ty = "ResourceTypeToMetricName (rt_type r)"
  have s: "series r =
      [createTimeseries (''cloudzero_'' @ ?ty @ ''_labels'') labels names (maxTime (rt_updated r) (rt_created r)),
       createTimeseries (''cloudzero_'' @ ?ty @ ''_annotations'') annotations names (maxTime (rt_updated r) (rt_created r))]"
    by (simp add: series_def r Let_def)
  have l: "filtered_series S (createTimeseries (''cloudzero_'' @ ?ty @ ''_labels'') labels names t)" for t
    unfolding filtered_series_def
    by (intro exI [of _ "rt_type r"] exI [of _ "''_labels''"] exI conjI, simp only: createTimeseries_def timeseries.simps append_Cons)
       (auto dest: fmpred_sorted [OF ok(1)] fmpred_sorted [OF ok(2)])
  have a: "filtered_series S (createTimeseries (''cloudzero_'' @ ?ty @ ''_annotations'') annotations names t)" for t
    unfolding filtered_series_def
    by (intro exI [of _ "rt_type r"] exI [of _ "''_annotations''"] exI conjI, simp only: createTimeseries_def timeseries.simps append_Cons)
       (auto dest: fmpred_sorted [OF ok(1)] fmpred_sorted [OF ok(3)])
  show ?thesis unfolding s using l a r by (simp add: formattable_def)
qed

section \<open>Properties\<close>

text \<open>C8: Whatever requests reach the webhook and however its writes, flushes and clean-ups interleave
  and fail, any rows of the store can be formatted without a panic, and every series made of them is
  named after a resource type and carries, beside the names of the resource, only labels that pass the
  label filter, where the export of labels is enabled, or only annotations that pass theirs.\<close>

theorem exported_series_pass_filters:
  assumes "webhook_reach S t" and "set batch \<subseteq> set t"
  shows "\<exists>ts. FormatMetrics batch = Some ts \<and> (\<forall>x \<in> set ts. filtered_series S x)"
proof -
  have "formattable r \<and> (\<forall>x \<in> set (series r). filtered_series S x)" if "r \<in> set batch" for r
    using exportable_series webhook_reach_exportable [OF assms(1)] assms(2) that by blast
  then show ?thesis by (auto simp: FormatMetrics_series)
qed

theorem exported_series_pass_filters_witness:
  "let t = wt_store (snd (PostAdmissionRequest sample_webhook sample_settings (NewWebhookFactory sample_settings)
             (repo_ops (plain_write 5 ''1'')) (sample_post ''node'') empty_webhook))
   in map rt_name t = [''n1''] \<and> (\<exists>ts. FormatMetrics t = Some ts \<and> (\<forall>x \<in> set ts. filtered_series sample_settings x))"
proof -
  let ?t = "wt_store (snd (PostAdmissionRequest sample_webhook sample_settings (NewWebhookFactory sample_settings)
             (repo_ops (plain_write 5 ''1'')) (sample_post ''node'') empty_webhook))"
  have r: "webhook_reach sample_settings ?t"
    by (rule reach_post) (simp add: empty_webhook_def reach_start)
  have "NewWebhookFactory sample_settings (GroupCore, V1, KindNode) =
      (Some (NewNodeHandler sample_settings ''corev1.Node'') :: table hook_handler option)"
    by (simp only: dispatch_simps)
  note k = this [unfolded GroupCore_def V1_def KindNode_def]
  have a: "LabelsEnabledForType (NodeConfigAccessor sample_settings)"
    by (simp add: NodeConfigAccessor_def sample_settings_def all_resources_def)
  have t: "map rt_name ?t = [''n1'']"
    by (simp add: PostAdmissionRequest_def sample_post_def configReader_def sample_webhook_def requestBodyToModelReview_def
        NewAdmissionReviewV1_def review_of_request_def node_request_def kindToModel_def Review_def registered_def k
        lower_kinds Execute_def NewNodeHandler_def NewGenericHandler_def NewObject_def hook_middleware_def admitFunc_def
        MaxRequestBodyBytes_def operationToModel.simps a
        write_data_defs plain_write_def plain_env_def empty_webhook_def insert_row_def NodeDataFormatter_def new_tags_def
        repo_ops_def)
  show ?thesis using t exported_series_pass_filters [OF r, of ?t] by (simp add: Let_def)
qed

end
