(* ===== verification/Cloud_Scout.thy ===== *)
theory Cloud_Scout
  imports Go_Text
begin

text \<open>
  Detection of the cloud environment (\<open>app/utils/scout\<close>): one scout for each provider
  (\<open>aws/aws.go\<close>, \<open>azure/azure.go\<close>, \<open>google/google.go\<close>, \<open>oracle/oracle.go\<close>), the scout that runs them all
  concurrently (\<open>auto/auto.go\<close>) and the filling in of a configuration
  (\<open>detect_configuration.go\<close>).

  The metadata services are an input: the answer to each request, none where the request fails.
  Requests are built from constants, so building them cannot fail.  The reading of a JSON body
  into the few fields a scout wants is a parameter.  The goroutines of the combined scout are a
  step relation.
\<close>

section \<open>Requests\<close>

record http_req =
  rq_method :: string
  rq_url :: string
  rq_headers :: "(string \<times> string) list"

text \<open>\<open>rs_body\<close> is none where reading the body fails.\<close>

record http_res =
  rs_status :: nat
  rs_body :: "string option"

type_synonym metadata = "http_req \<Rightarrow> http_res option"

datatype cloud_provider =
    CloudProviderAWS | CloudProviderGoogle | CloudProviderAzure | CloudProviderOCI
  | CloudProviderUnknown | CloudProviderMock

record environment_info =
  ei_provider :: cloud_provider
  ei_region :: string
  ei_account :: string
  ei_cluster :: string

datatype scout_error = ErrIMDSv2Unavailable | ErrNoCloudProviderDetected | Scout_error string

type_synonym 'a found = "scout_error + 'a"

section \<open>Amazon\<close>

definition aws_base :: string where "aws_base = ''http://169.254.169.254/latest/meta-data''"
definition tokenURL :: string where "tokenURL = ''http://169.254.169.254/latest/api/token''"
definition regionEndpoint :: string where "regionEndpoint = aws_base @ ''/placement/region''"
definition identityDocEndpoint :: string where
  "identityDocEndpoint = ''http://169.254.169.254/latest/dynamic/instance-identity/document''"
definition tokenTTLHeader :: string where "tokenTTLHeader = ''X-aws-ec2-metadata-token-ttl-seconds''"
definition tokenHeader :: string where "tokenHeader = ''X-aws-ec2-metadata-token''"
definition tokenTTL :: string where "tokenTTL = ''21600''"

record identity_document =
  id_account :: string
  id_region :: string

definition aws_Detect :: "metadata \<Rightarrow> cloud_provider" where
  "aws_Detect http =
     (case http \<lparr>rq_method = ''GET'', rq_url = aws_base @ ''/'', rq_headers = []\<rparr> of
        None \<Rightarrow> CloudProviderUnknown
      | Some resp \<Rightarrow>
          if rs_status resp = 401 then CloudProviderAWS
          else if rs_status resp = 200 then
            (case http \<lparr>rq_method = ''GET'', rq_url = aws_base @ ''/instance-id'', rq_headers = []\<rparr> of
               None \<Rightarrow> CloudProviderUnknown
             | Some inst \<Rightarrow>
                 if rs_status inst = 200 then
                   (case rs_body inst of
                      None \<Rightarrow> CloudProviderUnknown
                    | Some body \<Rightarrow> if trim_space body \<noteq> [] then CloudProviderAWS else CloudProviderUnknown)
                 else CloudProviderUnknown)
          else CloudProviderUnknown)"

definition getToken :: "metadata \<Rightarrow> string found" where
  "getToken http =
     (case http \<lparr>rq_method = ''PUT'', rq_url = tokenURL, rq_headers = [(tokenTTLHeader, tokenTTL)]\<rparr> of
        None \<Rightarrow> Inl (Scout_error ''request failed'')
      | Some resp \<Rightarrow>
          if rs_status resp \<noteq> 200 then
            Inl (if rs_status resp = 405 then ErrIMDSv2Unavailable
                 else if rs_status resp = 403 then Scout_error ''access denied to IMDSv2 token endpoint''
                 else if rs_status resp = 401 then Scout_error ''authentication required for IMDSv2 token endpoint''
                 else Scout_error ''failed to get IMDSv2 token, unexpected status'')
          else (case rs_body resp of
                  None \<Rightarrow> Inl (Scout_error ''read failed'')
                | Some body \<Rightarrow> Inr body))"

text \<open>The pattern all metadata reads follow: a request, its status, its body.\<close>

definition fetch :: "metadata \<Rightarrow> string \<Rightarrow> (string \<times> string) list \<Rightarrow> string \<Rightarrow> string found" where
  "fetch http url headers what =
     (case http \<lparr>rq_method = ''GET'', rq_url = url, rq_headers = headers\<rparr> of
        None \<Rightarrow> Inl (Scout_error ''request failed'')
      | Some resp \<Rightarrow>
          if rs_status resp \<noteq> 200 then Inl (Scout_error (''failed to get '' @ what @ '', status: '' @ int_str (int (rs_status resp))))
          else (case rs_body resp of
                  None \<Rightarrow> Inl (Scout_error ''read failed'')
                | Some body \<Rightarrow> Inr body))"

definition getMetadata :: "metadata \<Rightarrow> string \<Rightarrow> string \<Rightarrow> string found" where
  "getMetadata http endpoint token = fetch http endpoint [(tokenHeader, token)] ''metadata''"

definition getMetadataIMDSv1 :: "metadata \<Rightarrow> string \<Rightarrow> string found" where
  "getMetadataIMDSv1 http endpoint = fetch http endpoint [] ''metadata using IMDSv1''"

definition account_of :: "(string \<Rightarrow> identity_document option) \<Rightarrow> string \<Rightarrow> string found" where
  "account_of decode body =
     (case decode body of
        None \<Rightarrow> Inl (Scout_error ''failed to parse identity document JSON'')
      | Some doc \<Rightarrow> if id_account doc = [] then Inl (Scout_error ''accountId not found in identity document'')
                    else Inr (id_account doc))"

definition getAccountID :: "(string \<Rightarrow> identity_document option) \<Rightarrow> metadata \<Rightarrow> string \<Rightarrow> string found" where
  "getAccountID decode http token =
     (case fetch http identityDocEndpoint [(tokenHeader, token)] ''identity document'' of
        Inl e \<Rightarrow> Inl e
      | Inr body \<Rightarrow> account_of decode body)"

definition getAccountIDIMDSv1 :: "(string \<Rightarrow> identity_document option) \<Rightarrow> metadata \<Rightarrow> string found" where
  "getAccountIDIMDSv1 decode http =
     (case fetch http identityDocEndpoint [] ''identity document using IMDSv1'' of
        Inl e \<Rightarrow> Inl e
      | Inr body \<Rightarrow> account_of decode body)"

definition environmentInfoIMDSv1 ::
  "(string \<Rightarrow> identity_document option) \<Rightarrow> metadata \<Rightarrow> environment_info found"
where
  "environmentInfoIMDSv1 decode http =
     (case getMetadataIMDSv1 http regionEndpoint of
        Inl e \<Rightarrow> Inl (Scout_error ''failed to get region using IMDSv1'')
      | Inr region \<Rightarrow>
          (case getAccountIDIMDSv1 decode http of
             Inl e \<Rightarrow> Inl (Scout_error ''failed to get account ID using IMDSv1'')
           | Inr account \<Rightarrow>
               Inr \<lparr>ei_provider = CloudProviderAWS, ei_region = trim_space region,
                    ei_account = trim_space account, ei_cluster = []\<rparr>))"

definition aws_EnvironmentInfo ::
  "(string \<Rightarrow> identity_document option) \<Rightarrow> metadata \<Rightarrow> environment_info found"
where
  "aws_EnvironmentInfo decode http =
     (case getToken http of
        Inl e \<Rightarrow> if e = ErrIMDSv2Unavailable then environmentInfoIMDSv1 decode http
                 else Inl (Scout_error ''failed to get IMDSv2 token'')
      | Inr token \<Rightarrow>
          (case getMetadata http regionEndpoint token of
             Inl e \<Rightarrow> Inl (Scout_error ''failed to get region'')
           | Inr region \<Rightarrow>
               (case getAccountID decode http token of
                  Inl e \<Rightarrow> Inl (Scout_error ''failed to get account ID'')
                | Inr account \<Rightarrow>
                    Inr \<lparr>ei_provider = CloudProviderAWS, ei_region = trim_space region,
                         ei_account = trim_space account, ei_cluster = []\<rparr>)))"

section \<open>Azure\<close>

definition azureMetadataURL :: string where
  "azureMetadataURL = ''http://169.254.169.254/metadata/instance?api-version=2021-02-01''"
definition maxDNSLabelLength :: nat where "maxDNSLabelLength = 63"

record azure_metadata =
  az_location :: string
  az_subscription :: string
  az_resource_group :: string

definition azure_request :: http_req where
  "azure_request = \<lparr>rq_method = ''GET'', rq_url = azureMetadataURL, rq_headers = [(''Metadata'', ''true'')]\<rparr>"

definition azure_Detect :: "metadata \<Rightarrow> cloud_provider" where
  "azure_Detect http =
     (case http azure_request of
        None \<Rightarrow> CloudProviderUnknown
      | Some resp \<Rightarrow> if 200 \<le> rs_status resp \<and> rs_status resp < 300 then CloudProviderAzure
                     else CloudProviderUnknown)"

definition extractClusterName :: "string \<Rightarrow> string" where
  "extractClusterName resourceGroupName =
     (if \<not> prefix ''MC_'' resourceGroupName then []
      else (let parts = split_char (CHR ''_'') (drop 3 resourceGroupName)
            in if length parts < 3 then []
               else (let clusterName = parts ! (length parts - 2)
                     in if clusterName = [] \<or> maxDNSLabelLength < length clusterName then []
                        else clusterName)))"

definition azure_EnvironmentInfo ::
  "(string \<Rightarrow> azure_metadata option) \<Rightarrow> metadata \<Rightarrow> environment_info found"
where
  "azure_EnvironmentInfo decode http =
     (case http azure_request of
        None \<Rightarrow> Inl (Scout_error ''failed to get Azure metadata'')
      | Some resp \<Rightarrow>
          if rs_status resp \<noteq> 200 then Inl (Scout_error ''failed to get Azure metadata, status'')
          else (case rs_body resp of
                  None \<Rightarrow> Inl (Scout_error ''failed to read Azure metadata response'')
                | Some body \<Rightarrow>
                    (case decode body of
                       None \<Rightarrow> Inl (Scout_error ''failed to parse Azure metadata JSON'')
                     | Some m \<Rightarrow>
                         if az_subscription m = [] then Inl (Scout_error ''subscriptionId not found in Azure metadata'')
                         else if az_location m = [] then Inl (Scout_error ''location not found in Azure metadata'')
                         else Inr \<lparr>ei_provider = CloudProviderAzure, ei_region = trim_space (az_location m),
                                   ei_account = trim_space (az_subscription m),
                                   ei_cluster = extractClusterName (az_resource_group m)\<rparr>)))"

section \<open>Google\<close>

definition google_base :: string where "google_base = ''http://metadata.google.internal/computeMetadata/v1''"
definition projectEndpoint :: string where "projectEndpoint = google_base @ ''/project/numeric-project-id''"
definition zoneEndpoint :: string where "zoneEndpoint = google_base @ ''/instance/zone''"
definition clusterNameEndpoint :: string where
  "clusterNameEndpoint = google_base @ ''/instance/attributes/cluster-name''"
definition google_headers :: "(string \<times> string) list" where
  "google_headers = [(''Metadata-Flavor'', ''Google'')]"

definition google_getMetadata :: "metadata \<Rightarrow> string \<Rightarrow> string found" where
  "google_getMetadata http endpoint = fetch http endpoint google_headers ''metadata''"

definition extractRegionFromZone :: "string \<Rightarrow> string" where
  "extractRegionFromZone zone =
     (let parts = go_split ''/zones/'' zone;
          zone = (if go_contains zone ''/zones/'' \<and> length parts = 2 then parts ! 1 else zone);
          zoneParts = split_char (CHR ''-'') zone
      in if 1 < length zoneParts then go_join ''-'' (butlast zoneParts) else zone)"

definition google_EnvironmentInfo :: "metadata \<Rightarrow> environment_info found" where
  "google_EnvironmentInfo http =
     (case google_getMetadata http projectEndpoint of
        Inl e \<Rightarrow> Inl (Scout_error ''failed to get project number'')
      | Inr projectNumber \<Rightarrow>
          (case google_getMetadata http zoneEndpoint of
             Inl e \<Rightarrow> Inl (Scout_error ''failed to get zone'')
           | Inr zone \<Rightarrow>
               (let region = extractRegionFromZone zone;
                    clusterName = (case google_getMetadata http clusterNameEndpoint of Inl e \<Rightarrow> [] | Inr c \<Rightarrow> c)
                in Inr \<lparr>ei_provider = CloudProviderGoogle, ei_region = trim_space region,
                        ei_account = trim_space projectNumber, ei_cluster = trim_space clusterName\<rparr>)))"

definition google_Detect :: "metadata \<Rightarrow> cloud_provider" where
  "google_Detect http =
     (case http \<lparr>rq_method = ''GET'', rq_url = google_base @ ''/'', rq_headers = google_headers\<rparr> of
        None \<Rightarrow> CloudProviderUnknown
      | Some resp \<Rightarrow> if 200 \<le> rs_status resp \<and> rs_status resp < 300 then CloudProviderGoogle
                     else CloudProviderUnknown)"

section \<open>Oracle cloud\<close>

definition ociMetadataURL :: string where "ociMetadataURL = ''http://169.254.169.254/opc/v2/instance/''"

record oci_metadata =
  om_canonical :: string
  om_region :: string
  om_tenant :: string

definition fetchMetadata :: "(string \<Rightarrow> oci_metadata option) \<Rightarrow> metadata \<Rightarrow> oci_metadata found" where
  "fetchMetadata decode http =
     (case http \<lparr>rq_method = ''GET'', rq_url = ociMetadataURL,
                 rq_headers = [(''Authorization'', ''Bearer Oracle'')]\<rparr> of
        None \<Rightarrow> Inl (Scout_error ''failed to get OCI metadata'')
      | Some resp \<Rightarrow>
          if rs_status resp \<noteq> 200 then Inl (Scout_error ''failed to get OCI metadata, status'')
          else (case rs_body resp of
                  None \<Rightarrow> Inl (Scout_error ''failed to read OCI metadata response'')
                | Some body \<Rightarrow>
                    (case decode body of
                       None \<Rightarrow> Inl (Scout_error ''failed to parse OCI metadata JSON'')
                     | Some m \<Rightarrow> Inr m)))"

definition oci_Detect :: "(string \<Rightarrow> oci_metadata option) \<Rightarrow> metadata \<Rightarrow> cloud_provider" where
  "oci_Detect decode http =
     (case fetchMetadata decode http of
        Inl e \<Rightarrow> CloudProviderUnknown
      | Inr m \<Rightarrow> if om_tenant m \<noteq> [] \<or> om_canonical m \<noteq> [] \<or> om_region m \<noteq> [] then CloudProviderOCI
                 else CloudProviderUnknown)"

definition oci_EnvironmentInfo ::
  "(string \<Rightarrow> oci_metadata option) \<Rightarrow> metadata \<Rightarrow> environment_info found"
where
  "oci_EnvironmentInfo decode http =
     (case fetchMetadata decode http of
        Inl e \<Rightarrow> Inl e
      | Inr m \<Rightarrow>
          (let region = trim_space (om_canonical m)
           in if region = [] then Inl (Scout_error ''canonicalRegionName not found in OCI metadata'')
              else Inr \<lparr>ei_provider = CloudProviderOCI, ei_region = region, ei_account = [], ei_cluster = []\<rparr>))"

section \<open>The combined scout\<close>

text \<open>What a scout is to its clients: whether it recognises its provider, and what it reports.\<close>

record scout =
  sc_detect :: "metadata \<Rightarrow> cloud_provider found"
  sc_info :: "metadata \<Rightarrow> environment_info found"

text \<open>
  \<open>Detect\<close> starts one goroutine for each scout.  A goroutine asks its scout; one that recognises the
  provider cancels the context of the others and then writes the provider and the scout, two
  writes that other goroutines may come between.  A cancelled scout finds its requests failing
  and recognises nothing, unless its answers had already arrived.
\<close>

datatype goroutine = Asking | Found cloud_provider | Named | Finished

record detect_state =
  ds_pc :: "goroutine list"
  ds_provider :: cloud_provider
  ds_scout :: "nat option"
  ds_cancelled :: bool

datatype detect_action = Ask nat | Cut nat | Name nat | Keep nat

definition detect_start :: "scout list \<Rightarrow> detect_state" where
  "detect_start scouts =
     \<lparr>ds_pc = replicate (length scouts) Asking, ds_provider = CloudProviderUnknown,
      ds_scout = None, ds_cancelled = False\<rparr>"

definition detected :: "scout \<Rightarrow> metadata \<Rightarrow> cloud_provider" where
  "detected s http = (case sc_detect s http of Inl e \<Rightarrow> CloudProviderUnknown | Inr p \<Rightarrow> p)"

text \<open>The step of one goroutine; none where it cannot take it.\<close>

fun detect_act :: "scout list \<Rightarrow> metadata \<Rightarrow> detect_action \<Rightarrow> detect_state \<Rightarrow> detect_state option" where
  "detect_act scouts http (Ask i) s =
     (if i < length (ds_pc s) \<and> ds_pc s ! i = Asking then
        (let p = detected (scouts ! i) http
         in if p = CloudProviderUnknown then Some (s\<lparr>ds_pc := (ds_pc s)[i := Finished]\<rparr>)
            else Some (s\<lparr>ds_pc := (ds_pc s)[i := Found p], ds_cancelled := True\<rparr>))
      else None)"
| "detect_act scouts http (Cut i) s =
     (if i < length (ds_pc s) \<and> ds_pc s ! i = Asking \<and> ds_cancelled s
      then Some (s\<lparr>ds_pc := (ds_pc s)[i := Finished]\<rparr>) else None)"
| "detect_act scouts http (Name i) s =
     (if i < length (ds_pc s) then
        (case ds_pc s ! i of
           Found p \<Rightarrow> Some (s\<lparr>ds_pc := (ds_pc s)[i := Named], ds_provider := p\<rparr>)
         | _ \<Rightarrow> None)
      else None)"
| "detect_act scouts http (Keep i) s =
     (if i < length (ds_pc s) \<and> ds_pc s ! i = Named
      then Some (s\<lparr>ds_pc := (ds_pc s)[i := Finished], ds_scout := Some i\<rparr>) else None)"

fun detect_run ::
  "scout list \<Rightarrow> metadata \<Rightarrow> detect_action list \<Rightarrow> detect_state \<Rightarrow> detect_state option"
where
  "detect_run scouts http [] s = Some s"
| "detect_run scouts http (a # acts) s =
     (case detect_act scouts http a s of None \<Rightarrow> None | Some s' \<Rightarrow> detect_run scouts http acts s')"

definition all_finished :: "detect_state \<Rightarrow> bool" where
  "all_finished s = list_all (\<lambda>g. g = Finished) (ds_pc s)"

text \<open>The fields of the combined scout; the two flags are its \<open>sync.Once\<close> values.\<close>

record auto_scout =
  as_info :: environment_info
  as_error :: "scout_error option"
  as_scout :: "nat option"
  as_detected :: bool
  as_known :: bool

definition no_environment :: environment_info where
  "no_environment = \<lparr>ei_provider = CloudProviderUnknown, ei_region = [], ei_account = [], ei_cluster = []\<rparr>"

definition new_auto :: auto_scout where
  "new_auto = \<lparr>as_info = no_environment, as_error = None, as_scout = None, as_detected = False, as_known = False\<rparr>"

text \<open>\<open>acts\<close> is the order in which the goroutines run; the call waits for all of them, so only an
  order that finishes them all is one.\<close>

definition auto_Detect ::
  "scout list \<Rightarrow> metadata \<Rightarrow> detect_action list \<Rightarrow> auto_scout \<Rightarrow> auto_scout option"
where
  "auto_Detect scouts http acts A =
     (if as_detected A then Some A
      else (case detect_run scouts http acts (detect_start scouts) of
              None \<Rightarrow> None
            | Some s \<Rightarrow>
                if all_finished s then
                  Some (A\<lparr>as_detected := True, as_info := (as_info A)\<lparr>ei_provider := ds_provider s\<rparr>,
                          as_scout := ds_scout s\<rparr>)
                else None))"

text \<open>The comparison of the detected provider with the stored one compares a field with itself.\<close>

definition auto_EnvironmentInfo ::
  "scout list \<Rightarrow> metadata \<Rightarrow> detect_action list \<Rightarrow> auto_scout \<Rightarrow> auto_scout option"
where
  "auto_EnvironmentInfo scouts http acts A =
     (if as_known A then Some A
      else map_option (\<lambda>A'.
        (case as_scout A' of
           None \<Rightarrow> A'\<lparr>as_known := True,
                      as_error := Some (case as_error A' of None \<Rightarrow> ErrNoCloudProviderDetected | Some e \<Rightarrow> e)\<rparr>
         | Some i \<Rightarrow>
             (case sc_info (scouts ! i) http of
                Inl e \<Rightarrow> A'\<lparr>as_known := True, as_error := Some e\<rparr>
              | Inr ei \<Rightarrow> A'\<lparr>as_known := True, as_info := ei\<rparr>)))
        (if as_scout A = None then auto_Detect scouts http acts A else Some A))"

definition auto_result :: "auto_scout \<Rightarrow> environment_info found" where
  "auto_result A = (case as_error A of Some e \<Rightarrow> Inl e | None \<Rightarrow> Inr (as_info A))"

record decoders =
  de_identity :: "string \<Rightarrow> identity_document option"
  de_azure :: "string \<Rightarrow> azure_metadata option"
  de_oci :: "string \<Rightarrow> oci_metadata option"

definition NewScout :: "decoders \<Rightarrow> scout list" where
  "NewScout D =
     [\<lparr>sc_detect = (\<lambda>http. Inr (aws_Detect http)), sc_info = aws_EnvironmentInfo (de_identity D)\<rparr>,
      \<lparr>sc_detect = (\<lambda>http. Inr (azure_Detect http)), sc_info = azure_EnvironmentInfo (de_azure D)\<rparr>,
      \<lparr>sc_detect = (\<lambda>http. Inr (google_Detect http)), sc_info = google_EnvironmentInfo\<rparr>,
      \<lparr>sc_detect = (\<lambda>http. Inr (oci_Detect (de_oci D) http)), sc_info = oci_EnvironmentInfo (de_oci D)\<rparr>]"

section \<open>Filling in a configuration\<close>

text \<open>A value is none where the caller passes no pointer.  The values set before an error stay set.\<close>

definition needsDetection :: "string option list \<Rightarrow> bool" where
  "needsDetection vs = list_ex (\<lambda>v. v = Some []) vs"

definition settle :: "string \<Rightarrow> string option \<Rightarrow> string option option" where
  "settle found given =
     (case given of
        None \<Rightarrow> Some None
      | Some v \<Rightarrow> if found \<noteq> [] then Some (Some found) else if v = [] then None else Some (Some v))"

definition DetectConfiguration ::
  "environment_info found \<Rightarrow> string option \<Rightarrow> string option \<Rightarrow> string option \<Rightarrow>
   string option \<times> string option \<times> string option \<times> string option"
where
  "DetectConfiguration scouted region account cluster =
     (if region = None \<and> account = None \<and> cluster = None then (None, region, account, cluster)
      else (let needs = needsDetection [region, account, cluster]
            in (case scouted of
                  Inl e \<Rightarrow>
                    (if needs then Some ''failed to detect cloud provider'' else None, region, account, cluster)
                | Inr ei \<Rightarrow>
                    if ei_provider ei = CloudProviderUnknown then
                      (if needs then Some ''cloud provider could not be auto-detected'' else None,
                       region, account, cluster)
                    else
                      (case settle (ei_region ei) region of
                         None \<Rightarrow> (Some ''region could not be auto-detected'', region, account, cluster)
                       | Some r \<Rightarrow>
                           (case settle (ei_account ei) account of
                              None \<Rightarrow> (Some ''account ID could not be auto-detected'', r, account, cluster)
                            | Some a \<Rightarrow>
                                (case settle (ei_cluster ei) cluster of
                                   None \<Rightarrow> (Some ''cluster name could not be auto-detected'', r, a, cluster)
                                 | Some c \<Rightarrow> (None, r, a, c)))))))"

section \<open>The contract of a scout\<close>

text \<open>\<open>types.Scout\<close>: a scout recognises one provider, reports it as its own and trims what it reports.\<close>

locale cloud_scout =
  fixes detect :: "metadata \<Rightarrow> cloud_provider"
    and info :: "metadata \<Rightarrow> environment_info found"
    and own :: cloud_provider
  assumes own_known: "own \<noteq> CloudProviderUnknown"
    and detect_own: "detect http = own \<or> detect http = CloudProviderUnknown"
    and info_own: "info http = Inr ei \<Longrightarrow> ei_provider ei = own"
    and info_trimmed: "info http = Inr ei \<Longrightarrow>
      trim_space (ei_region ei) = ei_region ei \<and> trim_space (ei_account ei) = ei_account ei"
begin

lemma info_matches_detect:
  "detect http \<noteq> CloudProviderUnknown \<Longrightarrow> info http = Inr ei \<Longrightarrow> ei_provider ei = detect http"
  using detect_own [of http] info_own by auto

text \<open>A configuration filled in from a scout's report is complete, and what is filled in is trimmed.\<close>

lemma configured:
  assumes i: "info http = Inr ei"
    and d: "DetectConfiguration (Inr ei) (Some region) (Some account) (Some cluster) = (None, r, a, c)"
  shows "r = Some (if ei_region ei = [] then region else ei_region ei) \<and>
    a = Some (if ei_account ei = [] then account else ei_account ei) \<and>
    c = Some (if ei_cluster ei = [] then cluster else ei_cluster ei) \<and>
    r \<noteq> Some [] \<and> a \<noteq> Some [] \<and> c \<noteq> Some []"
  using d own_known info_own [OF i]
  by (auto simp: DetectConfiguration_def settle_def Let_def split: if_splits)

end

interpretation aws: cloud_scout aws_Detect "aws_EnvironmentInfo decode" CloudProviderAWS for decode
  by unfold_locales
    (auto simp: aws_Detect_def aws_EnvironmentInfo_def environmentInfoIMDSv1_def Let_def
      split: option.splits sum.splits if_splits)

interpretation azure: cloud_scout azure_Detect "azure_EnvironmentInfo decode" CloudProviderAzure for decode
  by unfold_locales
    (auto simp: azure_Detect_def azure_EnvironmentInfo_def split: option.splits if_splits)

interpretation google: cloud_scout google_Detect google_EnvironmentInfo CloudProviderGoogle
  by unfold_locales
    (auto simp: google_Detect_def google_EnvironmentInfo_def Let_def split: option.splits sum.splits if_splits)

interpretation oci: cloud_scout "oci_Detect decode" "oci_EnvironmentInfo decode" CloudProviderOCI for decode
  by unfold_locales
    (auto simp: oci_Detect_def oci_EnvironmentInfo_def Let_def split: sum.splits if_splits)

section \<open>What the goroutines reach\<close>

definition recognises :: "scout list \<Rightarrow> metadata \<Rightarrow> nat \<Rightarrow> bool" where
  "recognises scouts http i \<longleftrightarrow> i < length scouts \<and> detected (scouts ! i) http \<noteq> CloudProviderUnknown"

text \<open>What a goroutine's place says about its scout and the provider written so far.\<close>

fun place_ok :: "scout list \<Rightarrow> metadata \<Rightarrow> detect_state \<Rightarrow> nat \<Rightarrow> goroutine \<Rightarrow> bool" where
  "place_ok scouts http s i Asking = True"
| "place_ok scouts http s i (Found p) = (recognises scouts http i \<and> p = detected (scouts ! i) http)"
| "place_ok scouts http s i Named = (recognises scouts http i \<and> ds_provider s \<noteq> CloudProviderUnknown)"
| "place_ok scouts http s i Finished = (ds_cancelled s \<or> \<not> recognises scouts http i)"

definition in_between :: "goroutine \<Rightarrow> bool" where
  "in_between g \<longleftrightarrow> g \<noteq> Asking \<and> g \<noteq> Finished"

lemma in_between_simps [simp]:
  "in_between (Found p)" "in_between Named" "\<not> in_between Asking" "\<not> in_between Finished"
  by (simp_all add: in_between_def)

definition detect_inv :: "scout list \<Rightarrow> metadata \<Rightarrow> detect_state \<Rightarrow> bool" where
  "detect_inv scouts http s \<longleftrightarrow>
     length (ds_pc s) = length scouts \<and>
     (\<forall>i < length scouts. place_ok scouts http s i (ds_pc s ! i)) \<and>
     (\<forall>i. ds_scout s = Some i \<longrightarrow> recognises scouts http i \<and> ds_provider s \<noteq> CloudProviderUnknown) \<and>
     (ds_provider s = CloudProviderUnknown \<or>
        (\<exists>k. recognises scouts http k \<and> ds_provider s = detected (scouts ! k) http)) \<and>
     (ds_cancelled s \<longleftrightarrow> ds_scout s \<noteq> None \<or> (\<exists>i < length scouts. in_between (ds_pc s ! i)))"

lemma detect_invI:
  assumes "length (ds_pc s) = length scouts"
    and "\<And>i. i < length scouts \<Longrightarrow> place_ok scouts http s i (ds_pc s ! i)"
    and "\<And>i. ds_scout s = Some i \<Longrightarrow> recognises scouts http i \<and> ds_provider s \<noteq> CloudProviderUnknown"
    and "ds_provider s = CloudProviderUnknown \<or>
        (\<exists>k. recognises scouts http k \<and> ds_provider s = detected (scouts ! k) http)"
    and "ds_cancelled s \<longleftrightarrow> ds_scout s \<noteq> None \<or> (\<exists>i < length scouts. in_between (ds_pc s ! i))"
  shows "detect_inv scouts http s"
  using assms by (auto simp: detect_inv_def)

lemma detect_invD:
  assumes "detect_inv scouts http s"
  shows "length (ds_pc s) = length scouts"
    and "i < length scouts \<Longrightarrow> place_ok scouts http s i (ds_pc s ! i)"
    and "ds_scout s = Some i \<Longrightarrow> recognises scouts http i \<and> ds_provider s \<noteq> CloudProviderUnknown"
    and "ds_provider s = CloudProviderUnknown \<or>
        (\<exists>k. recognises scouts http k \<and> ds_provider s = detected (scouts ! k) http)"
    and "ds_cancelled s \<longleftrightarrow> ds_scout s \<noteq> None \<or> (\<exists>i < length scouts. in_between (ds_pc s ! i))"
  using assms by (auto simp: detect_inv_def)

lemma detect_inv_start: "detect_inv scouts http (detect_start scouts)"
  by (rule detect_invI) (auto simp: detect_start_def)

text \<open>A goroutine's place stays right when another step changes the shared fields in the
  directions in which they change.\<close>

lemma place_ok_keeps:
  assumes "place_ok scouts http s i g" and "ds_cancelled s \<longrightarrow> ds_cancelled s'"
    and "ds_provider s \<noteq> CloudProviderUnknown \<longrightarrow> ds_provider s' \<noteq> CloudProviderUnknown"
  shows "place_ok scouts http s' i g"
  using assms by (cases g) auto

text \<open>One goroutine moves from its place to the next.\<close>

lemma detect_inv_move:
  assumes inv: "detect_inv scouts http s" and i: "i < length scouts"
    and pc: "ds_pc s' = (ds_pc s)[i := g]" and ok: "place_ok scouts http s' i g"
    and canc: "ds_cancelled s \<longrightarrow> ds_cancelled s'"
    and prov: "ds_provider s \<noteq> CloudProviderUnknown \<longrightarrow> ds_provider s' \<noteq> CloudProviderUnknown"
    and known: "ds_provider s' = ds_provider s \<or> (recognises scouts http i \<and> ds_provider s' = detected (scouts ! i) http)"
    and sc: "ds_scout s' = ds_scout s \<or> (ds_scout s' = Some i \<and> recognises scouts http i \<and> ds_provider s' \<noteq> CloudProviderUnknown)"
    and busy: "in_between g \<and> ds_cancelled s' \<or>
      (ds_scout s' \<noteq> None \<and> ds_cancelled s') \<or>
      (\<not> in_between (ds_pc s ! i) \<and> \<not> in_between g \<and> ds_cancelled s' = ds_cancelled s \<and> ds_scout s' = ds_scout s)"
  shows "detect_inv scouts http s'"
proof (rule detect_invI)
  note d = detect_invD [OF inv]
  show "length (ds_pc s') = length scouts" using d(1) pc by simp
  show "place_ok scouts http s' j (ds_pc s' ! j)" if "j < length scouts" for j
  proof (cases "j = i")
    case True
    then show ?thesis using ok i d(1) pc by simp
  next
    case False
    then show ?thesis using place_ok_keeps [OF d(2) [OF that] canc prov] pc by simp
  qed
  show "recognises scouts http j \<and> ds_provider s' \<noteq> CloudProviderUnknown" if "ds_scout s' = Some j" for j
    using that sc d(3) [of j] prov by auto
  show "ds_provider s' = CloudProviderUnknown \<or>
      (\<exists>k. recognises scouts http k \<and> ds_provider s' = detected (scouts ! k) http)"
    using known d(4) by auto
  have at_i: "ds_pc s' ! i = g" using pc i d(1) by simp
  have off: "ds_pc s' ! j = ds_pc s ! j" if "j \<noteq> i" for j using pc that by simp
  show "ds_cancelled s' \<longleftrightarrow> ds_scout s' \<noteq> None \<or> (\<exists>j < length scouts. in_between (ds_pc s' ! j))"
    using busy
  proof (elim disjE conjE)
    assume "in_between g" "ds_cancelled s'"
    then show ?thesis using at_i i by auto
  next
    assume "\<not> in_between (ds_pc s ! i)" "\<not> in_between g" "ds_cancelled s' = ds_cancelled s" "ds_scout s' = ds_scout s"
    moreover from this(1,2) have "(\<exists>j < length scouts. in_between (ds_pc s' ! j)) \<longleftrightarrow>
        (\<exists>j < length scouts. in_between (ds_pc s ! j))"
      using at_i off by metis
    ultimately show ?thesis using d(5) by simp
  qed simp
qed

lemma detect_act_inv:
  assumes inv: "detect_inv scouts http s" and a: "detect_act scouts http a s = Some s'"
  shows "detect_inv scouts http s'"
proof (cases a)
  case (Ask i)
  with a have i: "i < length scouts" "ds_pc s ! i = Asking"
    using detect_invD(1) [OF inv] by (auto split: if_splits)
  show ?thesis
  proof (cases "detected (scouts ! i) http = CloudProviderUnknown")
    case True
    with Ask a i have "s' = s\<lparr>ds_pc := (ds_pc s)[i := Finished]\<rparr>" by (auto split: if_splits)
    with i True show ?thesis
      by (intro detect_inv_move [OF inv i(1), of _ Finished]) (auto simp: recognises_def)
  next
    case False
    with Ask a i have "s' = s\<lparr>ds_pc := (ds_pc s)[i := Found (detected (scouts ! i) http)], ds_cancelled := True\<rparr>"
      by (auto simp: Let_def split: if_splits)
    with i False show ?thesis
      by (intro detect_inv_move [OF inv i(1), of _ "Found (detected (scouts ! i) http)"]) (auto simp: recognises_def)
  qed
next
  case (Cut i)
  with a have i: "i < length scouts" "ds_pc s ! i = Asking"
    and "s' = s\<lparr>ds_pc := (ds_pc s)[i := Finished]\<rparr>" "ds_cancelled s"
    using detect_invD(1) [OF inv] by (auto split: if_splits)
  then show ?thesis by (intro detect_inv_move [OF inv i(1), of _ Finished]) auto
next
  case (Name i)
  with a obtain p where i: "i < length scouts" "ds_pc s ! i = Found p"
    and s': "s' = s\<lparr>ds_pc := (ds_pc s)[i := Named], ds_provider := p\<rparr>"
    using detect_invD(1) [OF inv] by (auto split: if_splits goroutine.splits)
  have p: "recognises scouts http i" "p = detected (scouts ! i) http"
    using detect_invD(2) [OF inv i(1)] i(2) by auto
  moreover have "ds_cancelled s" using detect_invD(5) [OF inv] i by (metis in_between_simps(1))
  ultimately show ?thesis
    using s' by (intro detect_inv_move [OF inv i(1), of _ Named]) (auto simp: recognises_def)
next
  case (Keep i)
  with a have i: "i < length scouts" "ds_pc s ! i = Named"
    and s': "s' = s\<lparr>ds_pc := (ds_pc s)[i := Finished], ds_scout := Some i\<rparr>"
    using detect_invD(1) [OF inv] by (auto split: if_splits)
  have "recognises scouts http i" "ds_provider s \<noteq> CloudProviderUnknown"
    using detect_invD(2) [OF inv i(1)] i(2) by auto
  moreover have "ds_cancelled s" using detect_invD(5) [OF inv] i by (metis in_between_simps(2))
  ultimately show ?thesis
    using s' by (intro detect_inv_move [OF inv i(1), of _ Finished]) auto
qed

lemma detect_run_inv:
  "detect_inv scouts http s \<Longrightarrow> detect_run scouts http acts s = Some s' \<Longrightarrow> detect_inv scouts http s'"
  by (induction acts arbitrary: s) (auto split: option.splits dest: detect_act_inv)

text \<open>What holds when all goroutines have finished.\<close>

lemma all_finished_spec:
  assumes "detect_inv scouts http s" and "all_finished s"
  shows "(\<forall>i. \<not> recognises scouts http i) \<and> ds_scout s = None \<and> ds_provider s = CloudProviderUnknown \<or>
    (\<exists>i k. recognises scouts http i \<and> recognises scouts http k \<and> ds_scout s = Some i \<and>
       ds_provider s = detected (scouts ! k) http)"
proof -
  note d = detect_invD [OF assms(1)]
  have fin: "ds_pc s ! i = Finished" if "i < length scouts" for i
    using assms(2) that d(1) by (simp add: all_finished_def list_all_length)
  show ?thesis
  proof (cases "ds_scout s")
    case None
    then have "\<not> ds_cancelled s" using d(5) fin by auto
    then have no: "\<not> recognises scouts http i" for i
      using d(2) [of i] fin [of i] by (cases "i < length scouts") (auto simp: recognises_def)
    then show ?thesis using d(4) None by auto
  next
    case (Some i)
    then show ?thesis using d(3) [OF Some] d(4) by auto
  qed
qed

section \<open>The goroutines finish\<close>

fun to_do :: "goroutine \<Rightarrow> nat" where
  "to_do Asking = 3"
| "to_do (Found p) = 2"
| "to_do Named = 1"
| "to_do Finished = 0"

lemma sum_list_update:
  "i < length xs \<Longrightarrow> sum_list (map to_do (xs[i := g])) + to_do (xs ! i) = sum_list (map to_do xs) + to_do g"
  by (induction xs arbitrary: i) (auto split: nat.splits)

lemma to_do_falls:
  "i < length xs \<Longrightarrow> to_do g < to_do (xs ! i) \<Longrightarrow> sum_list (map to_do (xs[i := g])) < sum_list (map to_do xs)"
  using sum_list_update [of i xs g] by linarith

lemma detect_act_measure:
  "detect_act scouts http a s = Some s' \<Longrightarrow>
   sum_list (map to_do (ds_pc s')) < sum_list (map to_do (ds_pc s))"
  by (cases a) (auto simp: Let_def simp del: map_update split: if_splits goroutine.splits intro!: to_do_falls)

lemma detect_progress:
  assumes "\<not> all_finished s"
  shows "\<exists>a s'. detect_act scouts http a s = Some s'"
proof -
  obtain i where i: "i < length (ds_pc s)" "ds_pc s ! i \<noteq> Finished"
    using assms by (auto simp: all_finished_def list_all_length)
  show ?thesis
  proof (cases "ds_pc s ! i")
    case Asking
    then have "detect_act scouts http (Ask i) s \<noteq> None" using i by (simp add: Let_def)
    then show ?thesis by blast
  next
    case (Found p)
    then have "detect_act scouts http (Name i) s \<noteq> None" using i by simp
    then show ?thesis by blast
  next
    case Named
    then have "detect_act scouts http (Keep i) s \<noteq> None" using i by simp
    then show ?thesis by blast
  qed (use i in simp)
qed

lemma detect_run_length:
  "detect_run scouts http acts s = Some s' \<Longrightarrow> length acts \<le> sum_list (map to_do (ds_pc s))"
  by (induction acts arbitrary: s) (fastforce split: option.splits dest: detect_act_measure)+

section \<open>Reading the names\<close>

lemma extractClusterName_parts:
  assumes "CHR ''_'' \<notin> set cluster" and "CHR ''_'' \<notin> set location"
  shows "extractClusterName (''MC_'' @ grp @ ''_'' @ cluster @ ''_'' @ location) =
    (if length cluster \<le> 63 then cluster else [])"
proof -
  have "split_char (CHR ''_'') (grp @ ''_'' @ cluster @ ''_'' @ location) =
      split_char (CHR ''_'') grp @ [cluster, location]"
    using split_char_snoc [OF assms(2), of "grp @ ''_'' @ cluster"] split_char_snoc [OF assms(1), of grp]
    by simp
  moreover have "length (split_char (CHR ''_'') grp) \<noteq> 0" by simp
  ultimately show ?thesis
    by (auto simp: extractClusterName_def Let_def maxDNSLabelLength_def nth_append)
qed

lemma extractRegionFromZone_plain:
  assumes "CHR ''/'' \<notin> set region" and "CHR ''/'' \<notin> set z" "CHR ''-'' \<notin> set z"
  shows "extractRegionFromZone (region @ ''-'' @ z) = region"
proof -
  have "\<not> go_contains (region @ ''-'' @ z) ''/zones/''"
    using assms(1,2) by (auto simp: go_contains_iff append_eq_append_conv2 append_eq_Cons_conv Cons_eq_append_conv)
  moreover have "split_char (CHR ''-'') (region @ ''-'' @ z) = split_char (CHR ''-'') region @ [z]"
    using split_char_snoc [OF assms(3)] by simp
  moreover have "length (split_char (CHR ''-'') region) \<noteq> 0" by simp
  ultimately show ?thesis
    by (simp add: extractRegionFromZone_def Let_def join_split_char)
qed

lemma zones_prefix:
  assumes "CHR ''/'' \<notin> set n" and "i < length (''projects/'' @ n)" and "n \<noteq> ''zones''"
  shows "\<not> prefix ''/zones/'' (drop i (''projects/'' @ n @ ''/zones/'' @ b))"
proof
  assume p: "prefix ''/zones/'' (drop i (''projects/'' @ n @ ''/zones/'' @ b))"
  then have "(''projects/'' @ n @ ''/zones/'' @ b) ! i = CHR ''/''"
    using assms(2) by (cases "drop i (''projects/'' @ n @ ''/zones/'' @ b)")
      (auto simp: nth_via_drop)
  then have "i = 8"
    using assms(1,2) by (auto simp: nth_append nth_Cons' split: if_splits) (metis nth_mem less_diff_conv2 not_less)
  then obtain rest where "n @ ''/zones/'' @ b = ''zones/'' @ rest" using p by (auto simp: prefix_def)
  then have "takeWhile (\<lambda>x. x \<noteq> CHR ''/'') (n @ CHR ''/'' # ''zones/'' @ b) = ''zones''" by simp
  moreover have "takeWhile (\<lambda>x. x \<noteq> CHR ''/'') (n @ CHR ''/'' # ''zones/'' @ b) = n"
    using assms(1) by (subst takeWhile_append2) auto
  ultimately show False using assms(3) by simp
qed

lemma extractRegionFromZone_path:
  assumes "CHR ''/'' \<notin> set n" "n \<noteq> ''zones''"
    and "CHR ''/'' \<notin> set region" and "CHR ''/'' \<notin> set z" "CHR ''-'' \<notin> set z"
  shows "extractRegionFromZone (''projects/'' @ n @ ''/zones/'' @ region @ ''-'' @ z) = region"
proof -
  let ?zone = "''projects/'' @ n @ ''/zones/'' @ region @ ''-'' @ z"
  have c: "cut ''/zones/'' ?zone = Some (''projects/'' @ n, region @ ''-'' @ z)"
    using cut_append [of "''projects/'' @ n" "''/zones/''" "region @ ''-'' @ z"]
      zones_prefix [OF assms(1) _ assms(2)] by simp
  have no: "\<not> go_contains (region @ ''-'' @ z) ''/zones/''"
    using assms(3,4) by (auto simp: go_contains_iff append_eq_append_conv2 append_eq_Cons_conv Cons_eq_append_conv)
  have s: "go_split ''/zones/'' ?zone = [''projects/'' @ n, region @ ''-'' @ z]"
    using go_split_cut [OF _ c] go_split_absent [OF _ no] by simp
  have "go_contains ?zone ''/zones/''" using c cut_None [of "''/zones/''" ?zone] by simp
  then have "extractRegionFromZone ?zone = extractRegionFromZone (region @ ''-'' @ z)"
    using no unfolding extractRegionFromZone_def s by simp
  then show ?thesis using extractRegionFromZone_plain [OF assms(3-5)] by simp
qed

section \<open>What the combined scout reports\<close>

lemma auto_result_cases:
  assumes "auto_EnvironmentInfo scouts http acts new_auto = Some A"
  shows "as_known A \<and>
    ((\<forall>i. \<not> recognises scouts http i) \<and> auto_result A = Inl ErrNoCloudProviderDetected \<or>
     (\<exists>i. recognises scouts http i \<and> auto_result A = sc_info (scouts ! i) http))"
proof -
  obtain s where s: "detect_run scouts http acts (detect_start scouts) = Some s" "all_finished s"
    and A: "A = (let A' = new_auto\<lparr>as_detected := True, as_info := no_environment\<lparr>ei_provider := ds_provider s\<rparr>,
                          as_scout := ds_scout s\<rparr>
        in (case ds_scout s of
           None \<Rightarrow> A'\<lparr>as_known := True, as_error := Some ErrNoCloudProviderDetected\<rparr>
         | Some i \<Rightarrow>
             (case sc_info (scouts ! i) http of
                Inl e \<Rightarrow> A'\<lparr>as_known := True, as_error := Some e\<rparr>
              | Inr ei \<Rightarrow> A'\<lparr>as_known := True, as_info := ei\<rparr>)))"
    using assms by (auto simp: auto_EnvironmentInfo_def auto_Detect_def new_auto_def Let_def
        split: option.splits if_splits)
  from all_finished_spec [OF detect_run_inv [OF detect_inv_start s(1)] s(2)]
  show ?thesis
    using A by (auto simp: auto_result_def new_auto_def Let_def split: sum.splits)
qed

text \<open>Every built-in scout keeps the contract.\<close>

lemma NewScout_contract:
  assumes "recognises (NewScout D) http i"
  obtains detect info own where "cloud_scout detect info own" "sc_info (NewScout D ! i) = info"
proof -
  have "i < 4" using assms by (simp add: recognises_def NewScout_def)
  then consider "i = 0" | "i = 1" | "i = 2" | "i = 3" by linarith
  then show thesis
    by cases (rule that [OF aws.cloud_scout_axioms], simp add: NewScout_def,
      rule that [OF azure.cloud_scout_axioms], simp add: NewScout_def,
      rule that [OF google.cloud_scout_axioms], simp add: NewScout_def,
      rule that [OF oci.cloud_scout_axioms], simp add: NewScout_def)
qed

lemma NewScout_configured:
  assumes "recognises (NewScout D) http i" and "sc_info (NewScout D ! i) http = Inr ei"
    and "DetectConfiguration (Inr ei) (Some region) (Some account) (Some cluster) = (None, r, a, c)"
  shows "r = Some (if ei_region ei = [] then region else ei_region ei) \<and>
    a = Some (if ei_account ei = [] then account else ei_account ei) \<and>
    c = Some (if ei_cluster ei = [] then cluster else ei_cluster ei) \<and>
    r \<noteq> Some [] \<and> a \<noteq> Some [] \<and> c \<noteq> Some []"
proof -
  obtain detect info own where c: "cloud_scout detect info own" "sc_info (NewScout D ! i) = info"
    using NewScout_contract [OF assms(1)] .
  have "info http = Inr ei" using assms(2) c(2) by simp
  from cloud_scout.configured [OF c(1) this assms(3)] show ?thesis .
qed

text \<open>What the combined scout reports is trimmed.\<close>

lemma auto_trimmed:
  assumes "auto_EnvironmentInfo (NewScout D) http acts new_auto = Some A" and "auto_result A = Inr ei"
  shows "trim_space (ei_region ei) = ei_region ei \<and> trim_space (ei_account ei) = ei_account ei"
proof -
  from auto_result_cases [OF assms(1)] assms(2) obtain i
    where r: "recognises (NewScout D) http i" and i: "sc_info (NewScout D ! i) http = Inr ei" by auto
  obtain detect info own where c: "cloud_scout detect info own" "sc_info (NewScout D ! i) = info"
    using NewScout_contract [OF r] .
  have "info http = Inr ei" using i c(2) by simp
  from cloud_scout.info_trimmed [OF c(1) this] show ?thesis .
qed

lemma undetected_configured:
  assumes "DetectConfiguration (Inl e) (Some region) (Some account) (Some cluster) = (None, r, a, c)"
  shows "r = Some region \<and> a = Some account \<and> c = Some cluster \<and> region \<noteq> [] \<and> account \<noteq> [] \<and> cluster \<noteq> []"
  using assms by (auto simp: DetectConfiguration_def needsDetection_def Let_def split: if_splits)

section \<open>Properties\<close>

text \<open>An instance at Amazon that serves the second version of its metadata.\<close>

definition aws_instance :: metadata where
  "aws_instance q =
     (if rq_url q = tokenURL then Some \<lparr>rs_status = 200, rs_body = Some ''t''\<rparr>
      else if rq_url q = regionEndpoint then Some \<lparr>rs_status = 200, rs_body = Some ''us-east-1''\<rparr>
      else if rq_url q = identityDocEndpoint then Some \<lparr>rs_status = 200, rs_body = Some ''123''\<rparr>
      else if rq_url q = aws_base @ ''/'' then Some \<lparr>rs_status = 401, rs_body = Some []\<rparr>
      else None)"

definition sample_decoders :: decoders where
  "sample_decoders = \<lparr>de_identity = (\<lambda>b. Some \<lparr>id_account = b, id_region = []\<rparr>),
     de_azure = (\<lambda>_. None), de_oci = (\<lambda>_. None)\<rparr>"

definition sample_schedule :: "detect_action list" where
  "sample_schedule = [Ask 1, Ask 0, Cut 2, Name 0, Ask 3, Keep 0]"

lemmas endpoint_defs = aws_base_def tokenURL_def regionEndpoint_def identityDocEndpoint_def azureMetadataURL_def
  google_base_def ociMetadataURL_def azure_request_def

lemma aws_instance_info:
  "aws_EnvironmentInfo (de_identity sample_decoders) aws_instance =
     Inr \<lparr>ei_provider = CloudProviderAWS, ei_region = ''us-east-1'', ei_account = ''123'', ei_cluster = []\<rparr>"
  by (simp add: aws_EnvironmentInfo_def getToken_def getMetadata_def getAccountID_def fetch_def account_of_def
      aws_instance_def sample_decoders_def endpoint_defs trim_space_def go_space_def)

lemma aws_instance_detect:
  "aws_Detect aws_instance = CloudProviderAWS" "azure_Detect aws_instance = CloudProviderUnknown"
  "google_Detect aws_instance = CloudProviderUnknown"
  "oci_Detect (de_oci sample_decoders) aws_instance = CloudProviderUnknown"
  by (simp_all add: aws_Detect_def azure_Detect_def google_Detect_def oci_Detect_def fetchMetadata_def
      aws_instance_def endpoint_defs)

lemma sample_detection:
  "\<exists>A. auto_EnvironmentInfo (NewScout sample_decoders) aws_instance sample_schedule new_auto = Some A \<and>
     auto_result A = Inr \<lparr>ei_provider = CloudProviderAWS, ei_region = ''us-east-1'', ei_account = ''123'', ei_cluster = []\<rparr>"
  by (simp add: auto_EnvironmentInfo_def auto_Detect_def new_auto_def NewScout_def sample_schedule_def
      detect_start_def detected_def all_finished_def auto_result_def aws_instance_detect aws_instance_info numeral_eq_Suc)

text \<open>C21: Whatever the order in which the scouts of the combined scout run, an accepted configuration
  has a region, an account and a cluster name.  Either no scout recognised its provider or one that did
  failed to report, and then they are the caller's own, all of them given; or a scout recognised its provider
  and reported, and then every value that it reports replaces the caller's, and a value it does not report is
  kept.  So where exactly one scout recognises its provider and its report succeeds, that report is what counts.\<close>

theorem detected_configuration:
  assumes "auto_EnvironmentInfo (NewScout D) http acts new_auto = Some A"
    and "DetectConfiguration (auto_result A) (Some region) (Some account) (Some cluster) = (None, r, a, c)"
  shows "r \<noteq> Some [] \<and> a \<noteq> Some [] \<and> c \<noteq> Some [] \<and>
    (((\<forall>i. \<not> recognises (NewScout D) http i) \<or>
      (\<exists>i e. recognises (NewScout D) http i \<and> sc_info (NewScout D ! i) http = Inl e)) \<and>
     r = Some region \<and> a = Some account \<and> c = Some cluster \<or>
     (\<exists>i ei. recognises (NewScout D) http i \<and> sc_info (NewScout D ! i) http = Inr ei \<and>
        r = Some (if ei_region ei = [] then region else ei_region ei) \<and>
        a = Some (if ei_account ei = [] then account else ei_account ei) \<and>
        c = Some (if ei_cluster ei = [] then cluster else ei_cluster ei))) \<and>
    (\<forall>i ei. recognises (NewScout D) http i \<and> (\<forall>j. recognises (NewScout D) http j \<longrightarrow> j = i) \<and>
        sc_info (NewScout D ! i) http = Inr ei \<longrightarrow>
        r = Some (if ei_region ei = [] then region else ei_region ei) \<and>
        a = Some (if ei_account ei = [] then account else ei_account ei) \<and>
        c = Some (if ei_cluster ei = [] then cluster else ei_cluster ei))"
proof (cases "auto_result A")
  case (Inl e)
  with auto_result_cases [OF assms(1)] have "(\<forall>i. \<not> recognises (NewScout D) http i) \<or>
      (\<exists>i. recognises (NewScout D) http i \<and> sc_info (NewScout D ! i) http = Inl e)" by metis
  with undetected_configured [OF assms(2) [unfolded Inl]] show ?thesis by fastforce
next
  case (Inr ei)
  with auto_result_cases [OF assms(1)] obtain i
    where i: "recognises (NewScout D) http i" "sc_info (NewScout D ! i) http = Inr ei" by auto
  note n = NewScout_configured [OF i assms(2) [unfolded Inr]]
  have "j = i \<and> ek = ei" if "recognises (NewScout D) http j \<and> (\<forall>k. recognises (NewScout D) http k \<longrightarrow> k = j) \<and>
      sc_info (NewScout D ! j) http = Inr ek" for j ek
    using that i by auto
  with n i show ?thesis by blast
qed

theorem detected_configuration_witness:
  "\<exists>A. auto_EnvironmentInfo (NewScout sample_decoders) aws_instance sample_schedule new_auto = Some A \<and>
     DetectConfiguration (auto_result A) (Some []) (Some ''99'') (Some ''c'') =
       (None, Some ''us-east-1'', Some ''123'', Some ''c'') \<and> Some ''us-east-1'' \<noteq> Some []"
proof -
  obtain A where A: "auto_EnvironmentInfo (NewScout sample_decoders) aws_instance sample_schedule new_auto = Some A"
    "auto_result A = Inr \<lparr>ei_provider = CloudProviderAWS, ei_region = ''us-east-1'', ei_account = ''123'', ei_cluster = []\<rparr>"
    using sample_detection by blast
  have d: "DetectConfiguration (auto_result A) (Some []) (Some ''99'') (Some ''c'') =
      (None, Some ''us-east-1'', Some ''123'', Some ''c'')"
    by (simp add: A(2) DetectConfiguration_def settle_def)
  from detected_configuration [OF A(1) d] A(1) d show ?thesis by blast
qed

text \<open>Running the scouts concurrently always ends: a run has at most three steps for each scout, and
  as long as some goroutine has not finished one of them can go on.  At the end nothing was recognised
  if no scout recognises its provider, and otherwise a scout that does is chosen, so that with
  only one such scout the choice and the provider are that scout's.\<close>

theorem detection_ends:
  assumes "detect_run scouts http acts (detect_start scouts) = Some s"
  shows "length acts \<le> 3 * length scouts \<and>
    (\<not> all_finished s \<longrightarrow> (\<exists>a s'. detect_act scouts http a s = Some s')) \<and>
    (all_finished s \<longrightarrow>
      (\<forall>i. \<not> recognises scouts http i) \<and> ds_scout s = None \<and> ds_provider s = CloudProviderUnknown \<or>
      (\<exists>i k. recognises scouts http i \<and> recognises scouts http k \<and> ds_scout s = Some i \<and>
         ds_provider s = detected (scouts ! k) http))"
proof -
  have "sum_list (map to_do (ds_pc (detect_start scouts))) = 3 * length scouts"
    by (simp add: detect_start_def map_replicate sum_list_replicate)
  with detect_run_length [OF assms] have "length acts \<le> 3 * length scouts" by simp
  then show ?thesis
    using detect_progress all_finished_spec [OF detect_run_inv [OF detect_inv_start assms]] by blast
qed

theorem detection_ends_witness:
  "\<exists>s. detect_run (NewScout sample_decoders) aws_instance sample_schedule (detect_start (NewScout sample_decoders)) = Some s \<and>
     length sample_schedule \<le> 3 * length (NewScout sample_decoders) \<and> ds_scout s = Some 0"
proof -
  obtain s where s: "detect_run (NewScout sample_decoders) aws_instance sample_schedule
      (detect_start (NewScout sample_decoders)) = Some s" "ds_scout s = Some 0"
    by (simp add: NewScout_def sample_schedule_def detect_start_def detected_def aws_instance_detect numeral_eq_Suc)
  from detection_ends [OF s(1)] s show ?thesis by blast
qed

text \<open>The race that a comment calls impossible in practice: with two scouts that both recognise
  their provider, the goroutines can leave the provider of one beside the scout of the other.\<close>

theorem two_positives_mix:
  assumes "detected x http = CloudProviderAWS" and "detected y http = CloudProviderOCI"
  shows "\<exists>acts s. detect_run [x, y] http acts (detect_start [x, y]) = Some s \<and> all_finished s \<and>
    ds_provider s = CloudProviderAWS \<and> ds_scout s = Some 1"
  by (rule exI [of _ "[Ask 0, Ask 1, Name 1, Name 0, Keep 0, Keep 1]"])
    (simp add: detect_start_def assms all_finished_def)

theorem two_positives_mix_witness:
  "\<exists>acts s. detect_run [\<lparr>sc_detect = (\<lambda>_. Inr CloudProviderAWS), sc_info = (\<lambda>_. Inl ErrNoCloudProviderDetected)\<rparr>,
      \<lparr>sc_detect = (\<lambda>_. Inr CloudProviderOCI), sc_info = (\<lambda>_. Inl ErrNoCloudProviderDetected)\<rparr>] aws_instance acts
     (detect_start [\<lparr>sc_detect = (\<lambda>_. Inr CloudProviderAWS), sc_info = (\<lambda>_. Inl ErrNoCloudProviderDetected)\<rparr>,
      \<lparr>sc_detect = (\<lambda>_. Inr CloudProviderOCI), sc_info = (\<lambda>_. Inl ErrNoCloudProviderDetected)\<rparr>]) = Some s \<and>
     ds_scout s = Some 1"
  using two_positives_mix [of "\<lparr>sc_detect = (\<lambda>_. Inr CloudProviderAWS), sc_info = (\<lambda>_. Inl ErrNoCloudProviderDetected)\<rparr>"
      aws_instance "\<lparr>sc_detect = (\<lambda>_. Inr CloudProviderOCI), sc_info = (\<lambda>_. Inl ErrNoCloudProviderDetected)\<rparr>"]
  by (auto simp: detected_def)

text \<open>The names that the providers encode are read back: the cluster of an AKS resource group, whose
  own name may contain underscores as long as cluster and location do not, if it fits a DNS
  label, and the region of a zone of Google, given plainly or as a resource path.\<close>

theorem provider_names_read:
  assumes "CHR ''_'' \<notin> set cluster" and "CHR ''_'' \<notin> set location"
    and "CHR ''/'' \<notin> set n" "n \<noteq> ''zones''"
    and "CHR ''/'' \<notin> set region" and "CHR ''/'' \<notin> set z" "CHR ''-'' \<notin> set z"
  shows "extractClusterName (''MC_'' @ grp @ ''_'' @ cluster @ ''_'' @ location) =
      (if length cluster \<le> 63 then cluster else []) \<and>
    extractRegionFromZone (region @ ''-'' @ z) = region \<and>
    extractRegionFromZone (''projects/'' @ n @ ''/zones/'' @ region @ ''-'' @ z) = region"
  using extractClusterName_parts [OF assms(1,2)] extractRegionFromZone_plain [OF assms(5-7)]
    extractRegionFromZone_path [OF assms(3-7)] by blast

theorem provider_names_read_witness:
  "extractClusterName ''MC_my_group_prod_eastus'' = ''prod'' \<and>
   extractRegionFromZone ''projects/123/zones/us-central1-a'' = ''us-central1''"
  using provider_names_read [of "''prod''" "''eastus''" "''123''" "''us-central1''" "''a''" "''my_group''"] by simp

end
