(* ===== verification/File_System.thy ===== *)
theory File_System
  imports Metric_Model
begin

text \<open>
  The directory tree the agent works on: a finite map from paths to contents, the operating
  system calls that change it, and \<open>filepath.Glob\<close> on file names.  Whether a call succeeds is
  an input of the model; what it does when it succeeds is written out here.
\<close>

text \<open>
  A file is the stream some writer still holds open, a finished file with the JSON rows that
  its compressed array holds (the brotli and JSON layers carry values unchanged), or anything
  else, given by its text.
\<close>

datatype fcontent = F_active | F_rows "json list" | F_text string

type_synonym file_system = "(string, fcontent) fmap"

fun rows_of :: "fcontent \<Rightarrow> json list" where
  "rows_of (F_rows js) = js"
| "rows_of _ = []"

definition fs_create :: "string \<Rightarrow> file_system \<Rightarrow> file_system" where
  "fs_create p fs = fmupd p F_active fs"

definition fs_remove :: "string \<Rightarrow> file_system \<Rightarrow> file_system" where
  "fs_remove p fs = fmdrop p fs"

text \<open>\<open>os.Rename\<close> replaces an existing target.\<close>

definition fs_rename :: "string \<Rightarrow> string \<Rightarrow> file_system \<Rightarrow> file_system" where
  "fs_rename old new fs =
     (case fmlookup fs old of None \<Rightarrow> fs | Some c \<Rightarrow> fmupd new c (fmdrop old fs))"

definition fs_exists :: "string \<Rightarrow> file_system \<Rightarrow> bool" where
  "fs_exists p fs = (fmlookup fs p \<noteq> None)"

lemma fs_lookup [simp]:
  "fmlookup (fs_create p fs) q = (if q = p then Some F_active else fmlookup fs q)"
  "fmlookup (fs_remove p fs) q = (if q = p then None else fmlookup fs q)"
  by (auto simp: fs_create_def fs_remove_def)

lemma fs_rename_lookup:
  "fmlookup fs old = Some c \<Longrightarrow>
   fmlookup (fs_rename old new fs) q = (if q = new then Some c else if q = old then None else fmlookup fs q)"
  by (auto simp: fs_rename_def)

section \<open>Patterns\<close>

text \<open>\<open>filepath.Match\<close> for patterns of literal bytes and \<open>*\<close>, which matches any run without a slash.\<close>

fun star_match :: "string \<Rightarrow> string \<Rightarrow> bool" where
  "star_match [] s = (s = [])"
| "star_match (p # ps) [] = (p = CHR ''*'' \<and> star_match ps [])"
| "star_match (p # ps) (c # cs) =
     (if p = CHR ''*'' then star_match ps (c # cs) \<or> (c \<noteq> CHR ''/'' \<and> star_match (p # ps) cs)
      else p = c \<and> star_match ps cs)"

lemma star_match_star:
  "star_match (CHR ''*'' # ps) s \<longleftrightarrow> (\<exists>a b. s = a @ b \<and> CHR ''/'' \<notin> set a \<and> star_match ps b)"
proof (induction s)
  case Nil
  then show ?case by auto
next
  case (Cons c cs)
  show ?case
  proof
    assume "star_match (CHR ''*'' # ps) (c # cs)"
    then consider "star_match ps (c # cs)"
      | a b where "c \<noteq> CHR ''/''" "cs = a @ b" "CHR ''/'' \<notin> set a" "star_match ps b"
      using Cons.IH by auto
    then show "\<exists>a b. c # cs = a @ b \<and> CHR ''/'' \<notin> set a \<and> star_match ps b"
    proof cases
      case 1
      then show ?thesis by (intro exI [of _ "[]"] exI [of _ "c # cs"]) simp
    next
      case (2 a b)
      then show ?thesis by (intro exI [of _ "c # a"] exI [of _ b]) simp
    qed
  next
    assume "\<exists>a b. c # cs = a @ b \<and> CHR ''/'' \<notin> set a \<and> star_match ps b"
    then obtain a b where ab: "c # cs = a @ b" "CHR ''/'' \<notin> set a" "star_match ps b" by blast
    show "star_match (CHR ''*'' # ps) (c # cs)"
    proof (cases a)
      case Nil
      with ab have "star_match ps (c # cs)" by simp
      then show ?thesis by simp
    next
      case (Cons d a')
      with ab have "c \<noteq> CHR ''/''" "\<exists>a b. cs = a @ b \<and> CHR ''/'' \<notin> set a \<and> star_match ps b"
        by auto
      with Cons.IH show ?thesis by simp
    qed
  qed
qed

lemma star_match_literal:
  "CHR ''*'' \<notin> set l \<Longrightarrow> star_match (l @ ps) s \<longleftrightarrow> (\<exists>b. s = l @ b \<and> star_match ps b)"
proof (induction l arbitrary: s)
  case Nil
  then show ?case by simp
next
  case (Cons p l)
  then show ?case by (cases s) auto
qed

lemma star_match_exact: "CHR ''*'' \<notin> set l \<Longrightarrow> star_match l s \<longleftrightarrow> s = l"
  using star_match_literal [of l "[]" s] by simp

text \<open>The pattern \<open>base_*_*ext\<close> under which a store's finished files are found.\<close>

definition finished_pattern :: "string \<Rightarrow> string \<Rightarrow> string" where
  "finished_pattern base ext = base @ ''_*_*'' @ ext"

lemma finished_pattern_match:
  assumes "CHR ''*'' \<notin> set base" and "CHR ''*'' \<notin> set ext"
  shows "star_match (finished_pattern base ext) s \<longleftrightarrow>
    (\<exists>a b. s = base @ ''_'' @ a @ ''_'' @ b @ ext \<and> CHR ''/'' \<notin> set a \<and> CHR ''/'' \<notin> set b)"
proof -
  have 1: "finished_pattern base ext = (base @ ''_'') @ CHR ''*'' # (''_'' @ CHR ''*'' # ext)"
    by (simp add: finished_pattern_def)
  have n: "CHR ''*'' \<notin> set (base @ ''_'')" "CHR ''*'' \<notin> set ''_''"
    using assms by auto
  show ?thesis
    unfolding 1 star_match_literal [OF n(1)] star_match_star star_match_literal [OF n(2)]
      star_match_exact [OF assms(2)]
    by fastforce
qed

section \<open>Directory listings\<close>

definition path_dir :: "string \<Rightarrow> string" where
  "path_dir p = rev (tl (dropWhile (\<lambda>c. c \<noteq> CHR ''/'') (rev p)))"

lemma path_dir_join [simp]: "CHR ''/'' \<notin> set n \<Longrightarrow> path_dir (path_join d n) = d"
proof -
  assume n: "CHR ''/'' \<notin> set n"
  have "dropWhile (\<lambda>c. c \<noteq> CHR ''/'') (rev n @ CHR ''/'' # rev d) = CHR ''/'' # rev d"
    using n by (subst dropWhile_append2) auto
  then show ?thesis by (simp add: path_dir_def path_join_def)
qed

text \<open>\<open>filepath.Glob\<close> of a pattern for names in a directory whose own name has no special
  byte: the matching paths in ascending order.\<close>

definition glob :: "file_system \<Rightarrow> string \<Rightarrow> string \<Rightarrow> string list" where
  "glob fs dir pat =
     filter (\<lambda>p. prefix (path_join dir []) p \<and> star_match pat (drop (length dir + 1) p))
       (map fst (sorted_list_of_fmap fs))"

lemma set_sorted_keys [simp]: "fst ` set (sorted_list_of_fmap fs) = fset (fmdom fs)"
  by (force simp: sorted_list_of_fmap_def sorted_list_of_fset.rep_eq)

lemma glob_iff:
  assumes "CHR ''/'' \<notin> set n"
  shows "path_join dir n \<in> set (glob fs dir pat) \<longleftrightarrow> fs_exists (path_join dir n) fs \<and> star_match pat n"
proof -
  have "path_join dir n \<in> fst ` set (sorted_list_of_fmap fs) \<longleftrightarrow> fs_exists (path_join dir n) fs"
    by (auto simp: fs_exists_def fmlookup_dom_iff)
  then show ?thesis
    by (auto simp: glob_def path_join_def)
qed

lemma distinct_glob: "distinct (glob fs dir pat)"
  by (simp add: glob_def distinct_sorted_list_of_fmap)

text \<open>The multiset of rows in the files whose path satisfies a predicate.\<close>

definition rows_where :: "(string \<Rightarrow> bool) \<Rightarrow> file_system \<Rightarrow> json multiset" where
  "rows_where P fs = (\<Sum>p \<in> {p \<in> fset (fmdom fs). P p}. mset (rows_of (the (fmlookup fs p))))"

lemma rows_where_cong:
  assumes "\<And>p. P p \<Longrightarrow> fmlookup fs' p = fmlookup fs p"
  shows "rows_where P fs' = rows_where P fs"
proof -
  have "{p \<in> fset (fmdom fs'). P p} = {p \<in> fset (fmdom fs). P p}"
    using assms by (auto simp: fmlookup_dom_iff)
  then show ?thesis
    unfolding rows_where_def using assms by (intro sum.cong) auto
qed

lemma rows_where_upd:
  assumes "P p" and "fmlookup fs p = None"
  shows "rows_where P (fmupd p c fs) = rows_where P fs + mset (rows_of c)"
proof -
  have "{q \<in> fset (fmdom (fmupd p c fs)). P q} = insert p {q \<in> fset (fmdom fs). P q}"
    using assms(1) by auto
  moreover have "p \<notin> {q \<in> fset (fmdom fs). P q}"
    using assms(2) by (simp add: fmlookup_dom_iff)
  moreover have "(\<Sum>q \<in> {q \<in> fset (fmdom fs). P q}. mset (rows_of (the (fmlookup (fmupd p c fs) q)))) =
      rows_where P fs"
    unfolding rows_where_def using assms(2) by (intro sum.cong) (auto simp: fmlookup_dom_iff)
  ultimately show ?thesis by (simp add: rows_where_def add.commute)
qed

lemma star_match_suffix: "star_match (p @ l) s \<Longrightarrow> CHR ''*'' \<notin> set l \<Longrightarrow> suffix l s"
proof (induction p arbitrary: s)
  case Nil
  then show ?case by (simp add: star_match_exact)
next
  case (Cons c p)
  show ?case
  proof (cases "c = CHR ''*''")
    case True
    then obtain a b where "s = a @ b" "star_match (p @ l) b"
      using Cons.prems(1) star_match_star [of "p @ l" s] by auto
    with Cons.IH [of b] Cons.prems(2) show ?thesis by (auto simp: suffix_def)
  next
    case False
    then obtain s' where "s = c # s'" "star_match (p @ l) s'"
      using Cons.prems(1) by (cases s) auto
    with Cons.IH [of s'] Cons.prems(2) show ?thesis by (auto simp: suffix_def)
  qed
qed

lemma star_match_no_slash: "star_match p s \<Longrightarrow> CHR ''/'' \<notin> set p \<Longrightarrow> CHR ''/'' \<notin> set s"
  by (induction p s rule: star_match.induct) (auto split: if_splits)

lemma in_globD:
  assumes "p \<in> set (glob fs dir pat)" and "CHR ''/'' \<notin> set pat"
  obtains n where "p = path_join dir n" "CHR ''/'' \<notin> set n" "star_match pat n" "fs_exists p fs"
proof -
  have p: "prefix (path_join dir []) p" "star_match pat (drop (length dir + 1) p)" "p \<in> fset (fmdom fs)"
    using assms(1) set_sorted_keys [of fs] by (auto simp: glob_def)
  then obtain n where n: "p = path_join dir n" by (auto simp: prefix_def path_join_def)
  then have "star_match pat n" using p(2) by (simp add: path_join_def)
  with star_match_no_slash [OF _ assms(2)] n p(3) that show thesis
    by (metis fmlookup_dom_iff fs_exists_def option.distinct(1))
qed

end
