(* ===== verification/Go_Float.thy ===== *)
theory Go_Float
  imports Complex_Main Go_Prelude
begin

text \<open>
  Go's \<open>float64\<close> as the code uses it: NaN, the infinities and finite values (exact rationals;
  the two zeroes are not told apart).  Rounding to a representable value, parsing and
  printing are parameters, collected in \<open>float_lib\<close>; the arithmetic is written out over them.
\<close>

datatype f64 = F_NaN | F_PInf | F_NInf | Fin rat

record float_lib =
  fl_round :: "rat \<Rightarrow> f64"
  fl_parse :: "string \<Rightarrow> f64 option"
  fl_format :: "f64 \<Rightarrow> string"

fun f_add :: "float_lib \<Rightarrow> f64 \<Rightarrow> f64 \<Rightarrow> f64" where
  "f_add L (Fin x) (Fin y) = fl_round L (x + y)"
| "f_add L F_NaN _ = F_NaN"
| "f_add L _ F_NaN = F_NaN"
| "f_add L F_PInf F_NInf = F_NaN"
| "f_add L F_NInf F_PInf = F_NaN"
| "f_add L F_PInf _ = F_PInf"
| "f_add L F_NInf _ = F_NInf"
| "f_add L _ F_PInf = F_PInf"
| "f_add L _ F_NInf = F_NInf"

text \<open>An infinity with the sign of a rational; zero has no sign here.\<close>

definition signed_inf :: "bool \<Rightarrow> rat \<Rightarrow> f64" where
  "signed_inf pos x = (if x = 0 then F_NaN else if (0 < x) = pos then F_PInf else F_NInf)"

fun f_mul :: "float_lib \<Rightarrow> f64 \<Rightarrow> f64 \<Rightarrow> f64" where
  "f_mul L (Fin x) (Fin y) = fl_round L (x * y)"
| "f_mul L F_NaN _ = F_NaN"
| "f_mul L _ F_NaN = F_NaN"
| "f_mul L F_PInf (Fin y) = signed_inf True y"
| "f_mul L F_NInf (Fin y) = signed_inf False y"
| "f_mul L (Fin x) F_PInf = signed_inf True x"
| "f_mul L (Fin x) F_NInf = signed_inf False x"
| "f_mul L F_PInf F_PInf = F_PInf"
| "f_mul L F_NInf F_NInf = F_PInf"
| "f_mul L F_PInf F_NInf = F_NInf"
| "f_mul L F_NInf F_PInf = F_NInf"

text \<open>Division; the code never divides by zero, so the sign of a zero divisor does not matter.\<close>

fun f_div :: "float_lib \<Rightarrow> f64 \<Rightarrow> f64 \<Rightarrow> f64" where
  "f_div L (Fin x) (Fin y) = (if y = 0 then signed_inf True x else fl_round L (x / y))"
| "f_div L F_NaN _ = F_NaN"
| "f_div L _ F_NaN = F_NaN"
| "f_div L (Fin x) _ = Fin 0"
| "f_div L F_PInf (Fin y) = (if y < 0 then F_NInf else F_PInf)"
| "f_div L F_NInf (Fin y) = (if y < 0 then F_PInf else F_NInf)"
| "f_div L _ _ = F_NaN"

fun f_le :: "f64 \<Rightarrow> f64 \<Rightarrow> bool" where
  "f_le F_NaN _ = False"
| "f_le _ F_NaN = False"
| "f_le F_NInf _ = True"
| "f_le _ F_PInf = True"
| "f_le (Fin x) (Fin y) = (x \<le> y)"
| "f_le _ _ = False"

definition f_is_zero :: "f64 \<Rightarrow> bool" where
  "f_is_zero a = (a = Fin 0)"

text \<open>
  What IEEE 754 promises of rounding: it is monotone, never gives NaN, and is exact on the
  integers of up to 53 bits and on the powers of two in range.
\<close>

definition ieee_round :: "(rat \<Rightarrow> f64) \<Rightarrow> bool" where
  "ieee_round r \<longleftrightarrow>
     (\<forall>x y. x \<le> y \<longrightarrow> f_le (r x) (r y)) \<and>
     (\<forall>i :: int. \<bar>i\<bar> \<le> 2 ^ 53 \<longrightarrow> r (of_int i) = Fin (of_int i)) \<and>
     (\<forall>n \<le> 1023. r (2 ^ n) = Fin (2 ^ n))"

lemma ieee_round_power: "ieee_round r \<Longrightarrow> n \<le> 1023 \<Longrightarrow> r (2 ^ n) = Fin (2 ^ n)"
  by (simp add: ieee_round_def)

lemma ieee_round_mono: "ieee_round r \<Longrightarrow> x \<le> y \<Longrightarrow> f_le (r x) (r y)"
  by (simp add: ieee_round_def)

lemma ieee_round_int: "ieee_round r \<Longrightarrow> \<bar>i\<bar> \<le> 2 ^ 53 \<Longrightarrow> r (of_int i) = Fin (of_int i)"
  by (simp add: ieee_round_def)

lemma ieee_round_0: "ieee_round r \<Longrightarrow> r 0 = Fin 0"
  using ieee_round_int [of r 0] by simp

lemma ieee_round_1: "ieee_round r \<Longrightarrow> r 1 = Fin 1"
  using ieee_round_int [of r 1] by simp

lemma ieee_round_100: "ieee_round r \<Longrightarrow> r 100 = Fin 100"
  using ieee_round_int [of r 100] by simp

lemma ieee_round_Fin [simp]: "ieee_round Fin"
  by (simp add: ieee_round_def)

lemma f_le_between:
  assumes "f_le (Fin lo) a" and "f_le a (Fin hi)"
  obtains x where "a = Fin x" "lo \<le> x" "x \<le> hi"
  using assms by (cases a) auto

text \<open>Rounding keeps a value between two integers that are themselves representable.\<close>

lemma ieee_round_between:
  assumes r: "ieee_round r" and le: "of_int lo \<le> x" "x \<le> of_int hi"
    and small: "\<bar>lo\<bar> \<le> 2 ^ 53" "\<bar>hi\<bar> \<le> 2 ^ 53"
  obtains y where "r x = Fin y" "of_int lo \<le> y" "y \<le> of_int hi"
proof -
  have "f_le (Fin (of_int lo)) (r x)" "f_le (r x) (Fin (of_int hi))"
    using ieee_round_mono [OF r le(1)] ieee_round_mono [OF r le(2)]
      ieee_round_int [OF r small(1)] ieee_round_int [OF r small(2)] by simp_all
  then show thesis by (rule f_le_between) (rule that)
qed

text \<open>A share of a total, in percent, as the code computes it: \<open>(used / total) * 100\<close>.\<close>

definition f_percent :: "float_lib \<Rightarrow> f64 \<Rightarrow> f64 \<Rightarrow> f64" where
  "f_percent L used tot = f_mul L (f_div L used tot) (Fin 100)"

lemma f_percent_bounds:
  assumes r: "ieee_round (fl_round L)" and u: "0 \<le> u" "u \<le> t" and t: "t \<noteq> 0"
  obtains p where "f_percent L (Fin u) (Fin t) = Fin p" "0 \<le> p" "p \<le> 100"
proof -
  have pos: "0 < t" using u t by linarith
  obtain q where q: "fl_round L (u / t) = Fin q" "of_int 0 \<le> q" "q \<le> of_int 1"
    using pos u by (rule_tac ieee_round_between [OF r, of 0 "u / t" 1]) (simp_all add: divide_le_eq_1)
  have q100: "of_int 0 \<le> q * 100" "q * 100 \<le> of_int 100"
    using q(2,3) by simp_all
  obtain p where p: "fl_round L (q * 100) = Fin p" "of_int 0 \<le> p" "p \<le> of_int 100"
    by (rule ieee_round_between [OF r q100]) simp_all
  show thesis
    using that [of p] q(1) p t by (simp add: f_percent_def)
qed

end
