(* ===== verification/Disk_Store.thy ===== *)
theory Disk_Store
  imports File_System Store_Interface Go_Float "HOL-Library.Word"
begin

text \<open>
  The disk store of \<open>app/storage/disk/disk.go\<close> and the file wrapper of \<open>metric_file.go\<close>: an
  open file that rows are appended to, and finished files
  \<open><identifier>_<start>_<stop>.json.br\<close> it is renamed to when the row limit is reached or the
  ticker flushes.  The outcomes of the operating system calls and the clock readings of one
  operation are its environment record.  The mutex of the store makes each operation one step.
\<close>

section \<open>State\<close>

datatype disk_error =
    MkdirFailed | CreateFailed | RecoverFailed | MarshalFailed | WriterFlushFailed
  | CompressorCloseFailed | FileCloseFailed | RenameFailed | OpenFailed | DecodeFailed | UsageFailed

record disk_store =
  dirPath :: string
  store_id :: string
  contentIdentifier :: string
  activeFilePath :: string
  rowLimit :: int
  rowCount :: int
  writer :: "json list option"
  startTime :: int
  maxInterval :: int

record create_env =
  ce_name_ms :: int
  ce_create_ok :: bool
  ce_start_ms :: int

record flush_env =
  fv_writer_ok :: bool
  fv_compressor_ok :: bool
  fv_close_ok :: bool
  fv_stop_ms :: int
  fv_rename_ok :: bool

record store_env =
  sv_recover :: create_env
  sv_flush :: flush_env
  sv_reopen :: create_env

type_synonym disk_world = "disk_store \<times> file_system"

definition makeFileName :: "disk_store \<Rightarrow> int \<Rightarrow> string" where
  "makeFileName d ms = store_id d @ ''.'' @ int_str ms"

definition newFileWriter :: "create_env \<Rightarrow> disk_world \<Rightarrow> (disk_error, unit) result \<times> disk_world" where
  "newFileWriter v w =
     (let d = (fst w)\<lparr>activeFilePath := path_join (dirPath (fst w)) (makeFileName (fst w) (ce_name_ms v))\<rparr>
      in if \<not> ce_create_ok v then (Inl CreateFailed, (d, snd w))
         else (Inr (), (d\<lparr>rowCount := 0, startTime := ce_start_ms v, writer := Some []\<rparr>,
                        fs_create (activeFilePath d) (snd w))))"

definition content_ext :: string where "content_ext = ''.json.br''"

definition content_base :: "disk_store \<Rightarrow> string" where
  "content_base d = (if contentIdentifier d = [] then ''file'' else contentIdentifier d)"

definition finished_name :: "string \<Rightarrow> int \<Rightarrow> int \<Rightarrow> string" where
  "finished_name base start stop = base @ ''_'' @ int_str start @ ''_'' @ int_str stop @ content_ext"

definition abandon :: "disk_world \<Rightarrow> disk_world" where
  "abandon w = ((fst w)\<lparr>writer := None, rowCount := 0\<rparr>, fs_remove (activeFilePath (fst w)) (snd w))"

text \<open>The rows reach the file when the writer, the compressor and the file are closed; the
  rename then publishes it.\<close>

definition flushUnlocked :: "flush_env \<Rightarrow> disk_world \<Rightarrow> (disk_error, unit) result \<times> disk_world" where
  "flushUnlocked v w =
     (case w of (d, fs) \<Rightarrow>
       (case writer d of
          None \<Rightarrow> (Inr (), w)
        | Some rows \<Rightarrow>
            if \<not> fv_writer_ok v then (Inl WriterFlushFailed, abandon w)
            else if \<not> fv_compressor_ok v then (Inl CompressorCloseFailed, abandon w)
            else if \<not> fv_close_ok v then (Inl FileCloseFailed, abandon w)
            else
              (let closed = fmupd (activeFilePath d) (F_rows rows) fs;
                   target = path_join (dirPath d) (finished_name (content_base d) (startTime d) (fv_stop_ms v))
               in if \<not> fv_rename_ok v then (Inl RenameFailed, abandon (d, closed))
                  else (Inr (), (d\<lparr>writer := None, rowCount := 0\<rparr>,
                                 fs_rename (activeFilePath d) target closed)))))"

text \<open>Encoding stops at the first metric that does not marshal; the rows before it are written.\<close>

fun encode_rows :: "(metric \<Rightarrow> json option) \<Rightarrow> metric list \<Rightarrow> json list \<times> bool" where
  "encode_rows marshal [] = ([], True)"
| "encode_rows marshal (m # ms) =
     (case marshal m of
        None \<Rightarrow> ([], False)
      | Some j \<Rightarrow> (let (js, ok) = encode_rows marshal ms in (j # js, ok)))"

definition disk_put ::
  "(metric \<Rightarrow> json option) \<Rightarrow> store_env \<Rightarrow> metric list \<Rightarrow> disk_world \<Rightarrow>
   (disk_error, unit) result \<times> disk_world"
where
  "disk_put marshal v ms w =
     (case (if writer (fst w) = None then newFileWriter (sv_recover v) w else (Inr (), w)) of
        (Inl e, w1) \<Rightarrow> (Inl RecoverFailed, w1)
      | (Inr _, (d1, fs1)) \<Rightarrow>
          (let (rows, ok) = encode_rows marshal ms;
               d2 = d1\<lparr>writer := map_option (\<lambda>ws. ws @ rows) (writer d1)\<rparr>
           in if \<not> ok then (Inl MarshalFailed, (d2, fs1))
              else
                (let d3 = d2\<lparr>rowCount := rowCount d2 + int (length ms)\<rparr>
                 in if rowLimit d3 \<le> rowCount d3 then
                      (case flushUnlocked (sv_flush v) (d3, fs1) of
                         (Inl e, w4) \<Rightarrow> (Inl e, w4)
                       | (Inr _, w4) \<Rightarrow> newFileWriter (sv_reopen v) w4)
                    else (Inr (), (d3, fs1)))))"

definition disk_flush :: "store_env \<Rightarrow> disk_world \<Rightarrow> (disk_error, unit) result \<times> disk_world" where
  "disk_flush v w =
     (if rowCount (fst w) = 0 then (Inr (), w)
      else (case flushUnlocked (sv_flush v) w of
              (Inl e, w1) \<Rightarrow> (Inl e, w1)
            | (Inr _, w1) \<Rightarrow> newFileWriter (sv_reopen v) w1))"

definition pending :: "disk_store \<Rightarrow> int" where
  "pending d = rowCount d"

section \<open>Construction\<close>

record database_config =
  StoragePath :: string
  MaxRecords :: int
  CompressionLevel :: int
  CostMaxInterval :: int
  ObservabilityMaxInterval :: int

datatype disk_store_opt = WithContentIdentifier string | WithMaxInterval int

definition DefaultDatabaseMaxRecords :: int where "DefaultDatabaseMaxRecords = 1500000"
definition DefaultDatabaseCompressionLevel :: int where "DefaultDatabaseCompressionLevel = 8"
definition DefaultDatabaseCostMaxInterval :: int where
  "DefaultDatabaseCostMaxInterval = 10 * 60 * 1000000000"
definition DefaultDatabaseObservabilityMaxInterval :: int where
  "DefaultDatabaseObservabilityMaxInterval = 30 * 60 * 1000000000"
definition BestCompression :: int where "BestCompression = 11"

definition clamp_settings :: "database_config \<Rightarrow> database_config" where
  "clamp_settings s =
     s\<lparr>MaxRecords := (if MaxRecords s \<le> 0 then DefaultDatabaseMaxRecords else MaxRecords s),
       CostMaxInterval := (if CostMaxInterval s \<le> 0 then DefaultDatabaseCostMaxInterval else CostMaxInterval s),
       ObservabilityMaxInterval :=
         (if ObservabilityMaxInterval s \<le> 0 then DefaultDatabaseObservabilityMaxInterval
          else ObservabilityMaxInterval s),
       CompressionLevel :=
         (if CompressionLevel s \<le> 0 \<or> BestCompression < CompressionLevel s
          then DefaultDatabaseCompressionLevel else CompressionLevel s)\<rparr>"

fun apply_opt :: "disk_store_opt \<Rightarrow> disk_store \<Rightarrow> disk_store" where
  "apply_opt (WithContentIdentifier i) d = d\<lparr>contentIdentifier := i\<rparr>"
| "apply_opt (WithMaxInterval t) d = d\<lparr>maxInterval := t\<rparr>"

text \<open>\<open>mkdir_ok\<close> is the outcome of \<open>MkdirAll\<close> where the directory is missing, \<open>uid\<close> the first
  eight characters of a fresh UUID.\<close>

definition NewDiskStore ::
  "bool \<Rightarrow> bool \<Rightarrow> string \<Rightarrow> create_env \<Rightarrow> database_config \<Rightarrow> disk_store_opt list \<Rightarrow> file_system \<Rightarrow>
   (disk_error, disk_store) result \<times> file_system"
where
  "NewDiskStore dir_exists mkdir_ok uid v settings0 opts fs =
     (let s = clamp_settings settings0
      in if \<not> dir_exists \<and> \<not> mkdir_ok then (Inl MkdirFailed, fs)
         else
           (let d0 = \<lparr>dirPath = StoragePath s, store_id = uid, contentIdentifier = [],
                      activeFilePath = [], rowLimit = MaxRecords s, rowCount = 0, writer = None,
                      startTime = 0, maxInterval = CostMaxInterval s\<rparr>;
                d = fold apply_opt opts d0
            in case newFileWriter v (d, fs) of
                 (Inl e, (d', fs')) \<Rightarrow> (Inl e, fs')
               | (Inr _, (d', fs')) \<Rightarrow> (Inr d', fs')))"

section \<open>Reading\<close>

definition GetFiles :: "disk_store \<Rightarrow> file_system \<Rightarrow> string list \<Rightarrow> string list" where
  "GetFiles d fs paths =
     (let base = (if contentIdentifier d = [] then ''*'' else contentIdentifier d)
      in glob fs (foldl path_join (dirPath d) paths) (finished_pattern base content_ext))"

text \<open>\<open>filepath.Walk\<close> visits the entries of each directory in lexical order.\<close>

definition Find_files :: "disk_store \<Rightarrow> file_system \<Rightarrow> string \<Rightarrow> string \<Rightarrow> string list" where
  "Find_files d fs filterName filterExtension =
     sort_key (split_char (CHR ''/''))
       (filter (\<lambda>p. prefix (path_join (dirPath d) []) p \<and>
                   \<not> (filterName \<noteq> [] \<and> \<not> go_contains (path_base p) filterName) \<and>
                   \<not> (filterExtension \<noteq> [] \<and> \<not> suffix filterExtension (path_base p)))
         (map fst (sorted_list_of_fmap fs)))"

fun decode_rows :: "(json \<Rightarrow> (metric_error, metric) result) \<Rightarrow> json list \<Rightarrow> metric list option" where
  "decode_rows dec [] = Some []"
| "decode_rows dec (j # js) =
     (case (dec j, decode_rows dec js) of
        (Inr m, Some ms) \<Rightarrow> Some (m # ms)
      | _ \<Rightarrow> None)"

text \<open>Reading a file back; a file that is missing is read as empty, one that is still being
  written or is not a JSON array fails to decode.\<close>

definition readCompressedJSONFile ::
  "(json \<Rightarrow> (metric_error, metric) result) \<Rightarrow> bool \<Rightarrow> file_system \<Rightarrow> string \<Rightarrow> (disk_error, metric list) result"
where
  "readCompressedJSONFile dec open_ok fs p =
     (case fmlookup fs p of
        None \<Rightarrow> Inr []
      | Some c \<Rightarrow>
          if \<not> open_ok then Inl OpenFailed
          else (case c of
                  F_rows js \<Rightarrow> (case decode_rows dec js of None \<Rightarrow> Inl DecodeFailed | Some ms \<Rightarrow> Inr ms)
                | _ \<Rightarrow> Inl DecodeFailed))"

section \<open>Disk usage\<close>

record store_usage =
  Total :: "64 word"
  Available :: "64 word"
  Used :: "64 word"
  PercentUsed :: f64
  BlockSize :: "32 word"

definition f_of_u64 :: "float_lib \<Rightarrow> 64 word \<Rightarrow> f64" where
  "f_of_u64 L w = fl_round L (of_nat (unat w))"

text \<open>\<open>stat\<close> is what \<open>statfs\<close> and \<open>disk.Usage\<close> report, \<open>None\<close> where one of them fails.\<close>

definition GetUsage :: "float_lib \<Rightarrow> 64 word \<Rightarrow> store_usage option \<Rightarrow> (disk_error, store_usage) result" where
  "GetUsage L limit stat =
     (case stat of
        None \<Rightarrow> Inl UsageFailed
      | Some u \<Rightarrow>
          if 0 < limit \<and> limit < Total u then
            (let u1 = u\<lparr>Total := limit\<rparr>;
                 u2 = (if limit \<le> Used u1 then u1\<lparr>Used := limit, Available := 0\<rparr>
                       else u1\<lparr>Available := limit - Used u1\<rparr>)
             in Inr (u2\<lparr>PercentUsed := f_percent L (f_of_u64 L (Used u2)) (f_of_u64 L (Total u2))\<rparr>))
          else Inr u)"

section \<open>Metric files\<close>

definition UniqueID :: "string \<Rightarrow> string" where
  "UniqueID location = before_char (CHR ''.'') (path_base location)"

section \<open>File names\<close>

definition finished_path :: "disk_store \<Rightarrow> string \<Rightarrow> bool" where
  "finished_path d p \<longleftrightarrow> (\<exists>a b. p = path_join (dirPath d) (finished_name (content_base d) a b))"

definition naming_ok :: "disk_store \<Rightarrow> bool" where
  "naming_ok d \<longleftrightarrow> CHR ''/'' \<notin> set (content_base d) \<and> CHR ''_'' \<notin> set (content_base d) \<and>
     CHR ''*'' \<notin> set (content_base d) \<and> CHR ''/'' \<notin> set (store_id d)"

lemma int_str_no_char:
  "(of_char c :: nat) < 45 \<or> 57 < (of_char c :: nat) \<Longrightarrow> c \<notin> set (int_str i)"
  using dec_nat_no_char [of c] by (auto simp: int_str_def)

lemma int_str_plain [simp]:
  "CHR ''_'' \<notin> set (int_str i)" "CHR ''/'' \<notin> set (int_str i)" "CHR ''r'' \<notin> set (int_str i)"
  "int_str i \<noteq> []"
  using dec_nat_no_char [of "CHR ''/''"] by (auto simp: int_str_def dec_nat_no_char)

lemma finished_name_no_slash:
  "CHR ''/'' \<notin> set base \<Longrightarrow> CHR ''/'' \<notin> set (finished_name base a b)"
  by (simp add: finished_name_def content_ext_def)

lemma finished_name_base: "CHR ''_'' \<notin> set base \<Longrightarrow> before_char (CHR ''_'') (finished_name base a b) = base"
  by (simp add: finished_name_def before_char_append)

lemma finished_name_inject:
  assumes "finished_name base a b = finished_name base a' b'"
  shows "a = a' \<and> b = b'"
proof -
  have "int_str a @ CHR ''_'' # int_str b = int_str a' @ CHR ''_'' # int_str b'"
    using assms by (simp add: finished_name_def)
  then have "split_char (CHR ''_'') (int_str a @ CHR ''_'' # int_str b) =
             split_char (CHR ''_'') (int_str a' @ CHR ''_'' # int_str b')" by simp
  then show ?thesis
    by (simp add: split_char_append_sep split_char_no_sep) (blast dest: int_str_inj)
qed

lemma path_join_inject [simp]: "path_join d m = path_join d n \<longleftrightarrow> m = n"
  by (simp add: path_join_def)

lemma last_makeFileName: "last (makeFileName d ms) \<noteq> CHR ''r''"
proof -
  have "last (makeFileName d ms) = last (int_str ms)"
    by (simp add: makeFileName_def last_append)
  then show ?thesis
    using last_in_set [OF int_str_plain(4), of ms] int_str_plain(3) [of ms] by metis
qed

lemma active_not_finished: "\<not> finished_path d (path_join dir (makeFileName d' ms))"
proof
  assume "finished_path d (path_join dir (makeFileName d' ms))"
  then obtain a b where
    "path_join dir (makeFileName d' ms) = path_join (dirPath d) (finished_name (content_base d) a b)"
    by (auto simp: finished_path_def)
  then have "last (path_join dir (makeFileName d' ms)) = CHR ''r''"
    by (simp add: path_join_def finished_name_def content_ext_def)
  moreover have "last (path_join dir (makeFileName d' ms)) = last (makeFileName d' ms)"
    by (simp add: path_join_def makeFileName_def)
  ultimately show False using last_makeFileName by metis
qed

lemma finished_path_bases:
  assumes "naming_ok d" "naming_ok d'" and "finished_path d p" "finished_path d' p"
  shows "content_base d = content_base d'"
proof -
  obtain a b where p1: "p = path_join (dirPath d) (finished_name (content_base d) a b)"
    using assms(3) by (auto simp: finished_path_def)
  obtain a' b' where p2: "p = path_join (dirPath d') (finished_name (content_base d') a' b')"
    using assms(4) by (auto simp: finished_path_def)
  note p = p1 p2
  have "path_base p = finished_name (content_base d) a b"
    unfolding p(1) using assms(1)
    by (intro path_base_join finished_name_no_slash) (simp_all add: naming_ok_def finished_name_def)
  moreover have "path_base p = finished_name (content_base d') a' b'"
    unfolding p(2) using assms(2)
    by (intro path_base_join finished_name_no_slash) (simp_all add: naming_ok_def finished_name_def)
  ultimately have "before_char (CHR ''_'') (finished_name (content_base d) a b) =
      before_char (CHR ''_'') (finished_name (content_base d') a' b')"
    by simp
  then show ?thesis
    using assms(1,2) by (simp add: finished_name_base naming_ok_def)
qed

section \<open>The invariant and the abstraction\<close>

definition disk_I :: "disk_world \<Rightarrow> bool" where
  "disk_I w \<longleftrightarrow> naming_ok (fst w) \<and> 0 < rowLimit (fst w) \<and>
     (case writer (fst w) of
        None \<Rightarrow> rowCount (fst w) = 0
      | Some rows \<Rightarrow> rowCount (fst w) = int (length rows) \<and> rowCount (fst w) < rowLimit (fst w) \<and>
          (\<exists>ms. activeFilePath (fst w) = path_join (dirPath (fst w)) (makeFileName (fst w) ms)))"

definition disk_durable :: "disk_world \<Rightarrow> json multiset" where
  "disk_durable w = rows_where (finished_path (fst w)) (snd w)"

definition disk_buffered :: "disk_world \<Rightarrow> json multiset" where
  "disk_buffered w = (case writer (fst w) of None \<Rightarrow> {#} | Some rows \<Rightarrow> mset rows)"

text \<open>The name the open file would get if it were finished now.\<close>

definition next_start :: "store_env \<Rightarrow> disk_store \<Rightarrow> int" where
  "next_start v d = (case writer d of None \<Rightarrow> ce_start_ms (sv_recover v) | Some _ \<Rightarrow> startTime d)"

definition disk_admissible :: "store_env \<Rightarrow> disk_world \<Rightarrow> bool" where
  "disk_admissible v w \<longleftrightarrow>
     \<not> fs_exists (path_join (dirPath (fst w))
          (finished_name (content_base (fst w)) (next_start v (fst w)) (fv_stop_ms (sv_flush v)))) (snd w)"

text \<open>The part of a store that no operation changes.\<close>

definition same_store :: "disk_store \<Rightarrow> disk_store \<Rightarrow> bool" where
  "same_store d d' \<longleftrightarrow> dirPath d' = dirPath d \<and> store_id d' = store_id d \<and>
     contentIdentifier d' = contentIdentifier d \<and> rowLimit d' = rowLimit d \<and>
     maxInterval d' = maxInterval d"

lemma same_store_facts:
  assumes "same_store d d'"
  shows "naming_ok d' = naming_ok d" "content_base d' = content_base d"
    "finished_path d' = finished_path d" "makeFileName d' = makeFileName d"
    "dirPath d' = dirPath d" "rowLimit d' = rowLimit d"
  using assms by (auto simp: same_store_def naming_ok_def content_base_def finished_path_def
      makeFileName_def fun_eq_iff)

lemma same_store_refl [simp]: "same_store d d"
  by (simp add: same_store_def)

lemma same_store_trans: "same_store a b \<Longrightarrow> same_store b c \<Longrightarrow> same_store a c"
  by (simp add: same_store_def)

section \<open>What the operations do\<close>

lemma newFileWriter_cases:
  assumes "newFileWriter v w = (r, w')"
  shows "same_store (fst w) (fst w') \<and>
    (case r of
       Inl e \<Rightarrow> e = CreateFailed \<and> writer (fst w') = writer (fst w) \<and>
                rowCount (fst w') = rowCount (fst w) \<and> snd w' = snd w
     | Inr _ \<Rightarrow> writer (fst w') = Some [] \<and> rowCount (fst w') = 0 \<and>
         activeFilePath (fst w') = path_join (dirPath (fst w)) (makeFileName (fst w) (ce_name_ms v)) \<and>
         startTime (fst w') = ce_start_ms v \<and>
         snd w' = fs_create (activeFilePath (fst w')) (snd w))"
  using assms by (cases w) (auto simp: newFileWriter_def Let_def same_store_def split: if_splits)

lemma rows_finished:
  "\<not> finished_path d p \<Longrightarrow> rows_where (finished_path d) (fmupd p c fs) = rows_where (finished_path d) fs"
  "\<not> finished_path d p \<Longrightarrow> rows_where (finished_path d) (fmdrop p fs) = rows_where (finished_path d) fs"
  "finished_path d p \<Longrightarrow> fmlookup fs p = None \<Longrightarrow>
     rows_where (finished_path d) (fmupd p c fs) = rows_where (finished_path d) fs + mset (rows_of c)"
  by (rule rows_where_cong, auto)+ (rule rows_where_upd)

lemma durable_create:
  "rows_where (finished_path d) (fs_create (path_join dir (makeFileName d' ms)) fs) =
   rows_where (finished_path d) fs"
  by (simp add: fs_create_def rows_finished(1) active_not_finished)

lemma durable_drop_active:
  "rows_where (finished_path d) (fmdrop (path_join dir (makeFileName d' ms)) fs) =
   rows_where (finished_path d) fs"
  by (simp add: rows_finished(2) active_not_finished)

lemma rename_closed:
  "p \<noteq> t \<Longrightarrow> fs_rename p t (fmupd p c fs) = fmupd t c (fmdrop p fs)"
  by (rule fmap_ext) (simp add: fs_rename_def)

text \<open>One flush of an open file: published under a free name, or abandoned.\<close>

lemma flushUnlocked_cases:
  assumes w: "writer (fst w) = Some rows"
    and active: "activeFilePath (fst w) = path_join (dirPath (fst w)) (makeFileName (fst w) ms)"
    and "flushUnlocked v w = (r, w')"
  defines "t \<equiv> path_join (dirPath (fst w)) (finished_name (content_base (fst w)) (startTime (fst w)) (fv_stop_ms v))"
  shows "same_store (fst w) (fst w') \<and> writer (fst w') = None \<and> rowCount (fst w') = 0 \<and>
    (case r of
       Inl e \<Rightarrow> snd w' = fmdrop (activeFilePath (fst w)) (snd w)
     | Inr _ \<Rightarrow> snd w' = fmupd t (F_rows rows) (fmdrop (activeFilePath (fst w)) (snd w)))"
proof -
  have "activeFilePath (fst w) \<noteq> t"
    using active_not_finished [of "fst w" "dirPath (fst w)" "fst w" ms] active
    by (auto simp: t_def finished_path_def)
  then show ?thesis
    using assms(1,3)
    by (cases w)
      (auto simp: flushUnlocked_def abandon_def same_store_def Let_def fs_remove_def rename_closed
        t_def split: if_splits intro!: fmap_ext)
qed

lemma finished_path_target: "finished_path d (path_join (dirPath d) (finished_name (content_base d) a b))"
  by (auto simp: finished_path_def)

lemma flushUnlocked_durable:
  assumes w: "writer (fst w) = Some rows"
    and active: "activeFilePath (fst w) = path_join (dirPath (fst w)) (makeFileName (fst w) ms)"
    and fl: "flushUnlocked v w = (r, w')"
    and free: "\<not> fs_exists (path_join (dirPath (fst w))
       (finished_name (content_base (fst w)) (startTime (fst w)) (fv_stop_ms v))) (snd w)"
  shows "disk_durable w' = (case r of Inl e \<Rightarrow> disk_durable w | Inr _ \<Rightarrow> disk_durable w + mset rows)"
proof -
  let ?t = "path_join (dirPath (fst w)) (finished_name (content_base (fst w)) (startTime (fst w)) (fv_stop_ms v))"
  note c = flushUnlocked_cases [OF w active fl]
  have fp: "finished_path (fst w') = finished_path (fst w)"
    using c same_store_facts(3) by blast
  have "fmlookup (fmdrop (activeFilePath (fst w)) (snd w)) ?t = None"
    using free by (auto simp: fs_exists_def)
  then have "rows_where (finished_path (fst w)) (fmupd ?t (F_rows rows) (fmdrop (activeFilePath (fst w)) (snd w))) =
      rows_where (finished_path (fst w)) (snd w) + mset rows"
    using rows_finished(3) [OF finished_path_target] by (simp add: active durable_drop_active)
  then show ?thesis
    using c by (auto simp: disk_durable_def fp active durable_drop_active split: sum.splits)
qed

text \<open>What one store does leaves the finished files of a store with another identifier alone.\<close>

lemma flushUnlocked_frame:
  assumes w: "writer (fst w) = Some rows"
    and active: "activeFilePath (fst w) = path_join (dirPath (fst w)) (makeFileName (fst w) ms)"
    and fl: "flushUnlocked v w = (r, w')"
    and other: "naming_ok (fst w)" "naming_ok d" "content_base d \<noteq> content_base (fst w)"
  shows "rows_where (finished_path d) (snd w') = rows_where (finished_path d) (snd w)"
proof -
  let ?t = "path_join (dirPath (fst w)) (finished_name (content_base (fst w)) (startTime (fst w)) (fv_stop_ms v))"
  note c = flushUnlocked_cases [OF w active fl]
  have "\<not> finished_path d ?t"
    using finished_path_bases [OF other(2,1)] other(3) finished_path_target by blast
  then have "rows_where (finished_path d) (fmupd ?t (F_rows rows) (fmdrop (activeFilePath (fst w)) (snd w))) =
      rows_where (finished_path d) (snd w)"
    by (simp add: rows_finished(1) active durable_drop_active)
  then show ?thesis
    using c by (auto simp: active durable_drop_active split: sum.splits)
qed

section \<open>The store as a writable store\<close>

definition open_store :: "json list \<Rightarrow> disk_world \<Rightarrow> bool" where
  "open_store rows w \<longleftrightarrow> naming_ok (fst w) \<and> 0 < rowLimit (fst w) \<and> writer (fst w) = Some rows \<and>
     (\<exists>ms. activeFilePath (fst w) = path_join (dirPath (fst w)) (makeFileName (fst w) ms))"

definition others_kept :: "disk_world \<Rightarrow> disk_world \<Rightarrow> bool" where
  "others_kept w w' \<longleftrightarrow> same_store (fst w) (fst w') \<and>
     (\<forall>d. naming_ok d \<and> content_base d \<noteq> content_base (fst w) \<longrightarrow>
        rows_where (finished_path d) (snd w') = rows_where (finished_path d) (snd w))"

lemma others_kept_trans: "others_kept a b \<Longrightarrow> others_kept b c \<Longrightarrow> others_kept a c"
  by (auto simp: others_kept_def same_store_facts intro: same_store_trans)

lemma newFileWriter_open:
  assumes "newFileWriter v w = (r, w')" and "naming_ok (fst w)" and "0 < rowLimit (fst w)"
    and "writer (fst w) = None" and "rowCount (fst w) = 0"
  shows "others_kept w w' \<and> disk_I w' \<and> disk_buffered w' = {#} \<and> disk_durable w' = disk_durable w \<and>
    (is_ok r \<longrightarrow> writer (fst w') = Some [] \<and> startTime (fst w') = ce_start_ms v \<and>
       (\<forall>a b. fmlookup (snd w') (path_join (dirPath (fst w)) (finished_name (content_base (fst w)) a b)) =
              fmlookup (snd w) (path_join (dirPath (fst w)) (finished_name (content_base (fst w)) a b))))"
proof -
  note c = newFileWriter_cases [OF assms(1)]
  then have s: "same_store (fst w) (fst w')" by simp
  note sf = same_store_facts [OF s]
  have ne: "path_join (dirPath (fst w)) (finished_name (content_base (fst w)) a b) \<noteq>
        path_join (dirPath (fst w)) (makeFileName (fst w) m)" for a b m
    using active_not_finished [of "fst w" "dirPath (fst w)" "fst w" m] finished_path_target [of "fst w" a b]
    by metis
  show ?thesis
  proof (cases r)
    case (Inl e)
    with c assms show ?thesis
      by (auto simp: others_kept_def disk_I_def disk_buffered_def disk_durable_def sf s)
  next
    case (Inr u)
    with c assms ne show ?thesis
      by (auto simp: others_kept_def disk_I_def disk_buffered_def disk_durable_def sf s durable_create)
  qed
qed

lemma finish_and_reopen:
  assumes o: "open_store rows w"
    and f: "(case flushUnlocked fv w of (Inl e, w1) \<Rightarrow> (Inl e, w1) | (Inr _, w1) \<Rightarrow> newFileWriter cv w1) = (r, w')"
  shows "others_kept w w' \<and> disk_I w' \<and> disk_buffered w' = {#} \<and>
    (\<not> fs_exists (path_join (dirPath (fst w))
         (finished_name (content_base (fst w)) (startTime (fst w)) (fv_stop_ms fv))) (snd w) \<longrightarrow>
       disk_durable w \<subseteq># disk_durable w' \<and> (is_ok r \<longrightarrow> disk_durable w' = disk_durable w + mset rows))"
proof -
  obtain r1 w1 where f1: "flushUnlocked fv w = (r1, w1)" by (cases "flushUnlocked fv w")
  obtain ms where active: "activeFilePath (fst w) = path_join (dirPath (fst w)) (makeFileName (fst w) ms)"
    and wr: "writer (fst w) = Some rows" and n: "naming_ok (fst w)" "0 < rowLimit (fst w)"
    using o by (auto simp: open_store_def)
  note c = flushUnlocked_cases [OF wr active f1] and dur = flushUnlocked_durable [OF wr active f1]
  have sf: "same_store (fst w) (fst w1)" using c by simp
  have k1: "others_kept w w1"
    using flushUnlocked_frame [OF wr active f1 n(1)] sf by (auto simp: others_kept_def)
  show ?thesis
  proof (cases r1)
    case (Inl e)
    then have "w' = w1" "r = Inl e" using f f1 by auto
    then show ?thesis
      using c Inl k1 dur n by (auto simp: disk_I_def disk_buffered_def same_store_facts [OF sf])
  next
    case (Inr u)
    then have nf: "newFileWriter cv w1 = (r, w')" using f f1 by auto
    have "naming_ok (fst w1)" "0 < rowLimit (fst w1)" "writer (fst w1) = None" "rowCount (fst w1) = 0"
      using c n by (auto simp: same_store_facts [OF sf])
    from newFileWriter_open [OF nf this]
    show ?thesis using others_kept_trans [OF k1] dur Inr by auto
  qed
qed

lemma encode_rows_total [simp]: "encode_rows (\<lambda>m. Some (row m)) ms = (map row ms, True)"
  by (induction ms) auto

lemma recover_cases:
  assumes I: "disk_I w"
    and r: "(if writer (fst w) = None then newFileWriter (sv_recover v) w else (Inr (), w)) = (r, w1)"
  shows "others_kept w w1 \<and> disk_I w1 \<and> disk_durable w1 = disk_durable w \<and> disk_buffered w1 = disk_buffered w \<and>
    (is_ok r \<longrightarrow> (\<exists>rows. open_store rows w1 \<and> rowCount (fst w1) = int (length rows) \<and> disk_buffered w = mset rows) \<and>
       (disk_admissible v w \<longrightarrow> \<not> fs_exists (path_join (dirPath (fst w1))
         (finished_name (content_base (fst w1)) (startTime (fst w1)) (fv_stop_ms (sv_flush v)))) (snd w1)))"
proof (cases "writer (fst w)")
  case None
  then have nf: "newFileWriter (sv_recover v) w = (r, w1)" using r by simp
  have n: "naming_ok (fst w)" "0 < rowLimit (fst w)" "rowCount (fst w) = 0"
    using I None by (auto simp: disk_I_def)
  note c = newFileWriter_open [OF nf n(1,2) None n(3)]
  then have "same_store (fst w) (fst w1)" by (simp add: others_kept_def)
  note sf = same_store_facts [OF this]
  show ?thesis
    using c None
    by (auto simp: disk_buffered_def open_store_def disk_I_def sf disk_admissible_def next_start_def fs_exists_def)
next
  case (Some rows)
  then have "w1 = w" "r = Inr ()" using r by auto
  then show ?thesis
    using I Some by (auto simp: disk_buffered_def open_store_def disk_I_def others_kept_def
        disk_admissible_def next_start_def)
qed

lemma disk_put_main:
  assumes I: "disk_I w" and p: "disk_put (\<lambda>m. Some (row m)) v ms w = (r, w')"
  shows "others_kept w w' \<and> disk_I w' \<and>
    (disk_admissible v w \<longrightarrow> disk_durable w \<subseteq># disk_durable w' \<and>
       (is_ok r \<longrightarrow> disk_durable w' + disk_buffered w' =
          disk_durable w + disk_buffered w + mset (map row ms)))"
proof -
  obtain r1 w1 where rec: "(if writer (fst w) = None then newFileWriter (sv_recover v) w else (Inr (), w)) = (r1, w1)"
    by (cases "if writer (fst w) = None then newFileWriter (sv_recover v) w else (Inr (), w)")
  note c = recover_cases [OF I rec]
  show ?thesis
  proof (cases r1)
    case (Inl e)
    then have "w' = w1" "r = Inl RecoverFailed"
      using p by (simp_all add: disk_put_def rec)
    with c show ?thesis by auto
  next
    case (Inr u)
    then obtain rows where o: "open_store rows w1" and cnt: "rowCount (fst w1) = int (length rows)"
      and buf: "disk_buffered w = mset rows" using c by auto
    obtain d1 fs1 where w1: "w1 = (d1, fs1)" by (cases w1)
    have wr: "writer d1 = Some rows" using o w1 by (simp add: open_store_def)
    define w3 where "w3 = (d1\<lparr>writer := Some (rows @ map row ms), rowCount := rowCount d1 + int (length ms)\<rparr>, fs1)"
    have o3: "open_store (rows @ map row ms) w3"
      using o by (auto simp: open_store_def w3_def w1 naming_ok_def content_base_def makeFileName_def)
    have same: "same_store (fst w1) (fst w3)" by (simp add: same_store_def w3_def w1)
    have k3: "others_kept w1 w3" and fs3: "snd w3 = snd w1" and st: "startTime (fst w3) = startTime (fst w1)"
      using same by (simp_all add: others_kept_def w3_def w1)
    have dur3: "disk_durable w3 = disk_durable w1"
      by (simp add: disk_durable_def fs3 same_store_facts [OF same])
    have k: "others_kept w w3" using others_kept_trans c k3 by blast
    show ?thesis
    proof (cases "rowLimit (fst w3) \<le> rowCount (fst w3)")
      case True
      then have "(case flushUnlocked (sv_flush v) w3 of (Inl e, w4) \<Rightarrow> (Inl e, w4)
          | (Inr _, w4) \<Rightarrow> newFileWriter (sv_reopen v) w4) = (r, w')"
        using p Inr wr by (simp add: disk_put_def rec w1 w3_def Let_def)
      from finish_and_reopen [OF o3 this] show ?thesis
        using c Inr buf k others_kept_trans dur3 same_store_facts [OF same] fs3 st by auto
    next
      case False
      then have "w' = w3" "r = Inr ()"
        using p Inr wr by (simp_all add: disk_put_def rec w1 w3_def Let_def)
      moreover have "disk_I w3"
        using o3 False cnt by (auto simp: disk_I_def open_store_def w3_def w1)
      moreover have "disk_buffered w3 = mset rows + mset (map row ms)"
        by (simp add: disk_buffered_def w3_def)
      ultimately show ?thesis using c buf k dur3 by (simp add: union_assoc)
    qed
  qed
qed

lemma disk_flush_main:
  assumes I: "disk_I w" and p: "disk_flush v w = (r, w')"
  shows "others_kept w w' \<and> disk_I w' \<and>
    (disk_admissible v w \<longrightarrow> disk_durable w \<subseteq># disk_durable w' \<and>
       (is_ok r \<longrightarrow> disk_durable w' = disk_durable w + disk_buffered w \<and> disk_buffered w' = {#}))"
proof (cases "rowCount (fst w) = 0")
  case True
  then have "w' = w" "r = Inr ()" using p by (simp_all add: disk_flush_def)
  moreover have "disk_buffered w = {#}"
    using I True by (auto simp: disk_I_def disk_buffered_def split: option.splits)
  ultimately show ?thesis using I by (simp add: others_kept_def)
next
  case False
  then obtain rows where o: "open_store rows w" and wr: "writer (fst w) = Some rows"
    using I by (auto simp: disk_I_def open_store_def split: option.splits)
  have "(case flushUnlocked (sv_flush v) w of (Inl e, w4) \<Rightarrow> (Inl e, w4)
      | (Inr _, w4) \<Rightarrow> newFileWriter (sv_reopen v) w4) = (r, w')"
    using p False by (simp add: disk_flush_def)
  from finish_and_reopen [OF o this] wr show ?thesis
    by (auto simp: disk_admissible_def next_start_def disk_buffered_def)
qed

interpretation disk: writable_store
  "disk_put (\<lambda>m. Some (row m))" disk_flush disk_durable disk_buffered row disk_I disk_admissible
proof unfold_locales
  fix w v ms u w'
  assume I: "disk_I w"
  obtain r1 w1 where p: "disk_put (\<lambda>m. Some (row m)) v ms w = (r1, w1)"
    by (cases "disk_put (\<lambda>m. Some (row m)) v ms w")
  note put = disk_put_main [OF I p]
  obtain r2 w2 where f: "disk_flush v w = (r2, w2)" by (cases "disk_flush v w")
  note flush = disk_flush_main [OF I f]
  show "disk_I (snd (disk_put (\<lambda>m. Some (row m)) v ms w))" "disk_I (snd (disk_flush v w))"
    using put flush p f by simp_all
  assume a: "disk_admissible v w"
  show "disk_durable w \<subseteq># disk_durable (snd (disk_put (\<lambda>m. Some (row m)) v ms w))"
    "disk_durable w \<subseteq># disk_durable (snd (disk_flush v w))"
    using put flush p f a by simp_all
  show "disk_durable w' + disk_buffered w' = disk_durable w + disk_buffered w + mset (map row ms)"
    if "disk_put (\<lambda>m. Some (row m)) v ms w = (Inr u, w')"
    using put p a that by auto
  show "disk_durable w' = disk_durable w + disk_buffered w \<and> disk_buffered w' = {#}"
    if "disk_flush v w = (Inr u, w')"
    using flush f a that by auto
qed

section \<open>Two stores in one directory\<close>

text \<open>The collector runs a cost and an observability store over the same directory.\<close>

type_synonym pair_world = "disk_store \<times> disk_store \<times> file_system"

definition on_first ::
  "(disk_world \<Rightarrow> (disk_error, unit) result \<times> disk_world) \<Rightarrow> pair_world \<Rightarrow> (disk_error, unit) result \<times> pair_world"
where
  "on_first f w = (case w of (d1, d2, fs) \<Rightarrow> (case f (d1, fs) of (r, (d1', fs')) \<Rightarrow> (r, (d1', d2, fs'))))"

definition on_second ::
  "(disk_world \<Rightarrow> (disk_error, unit) result \<times> disk_world) \<Rightarrow> pair_world \<Rightarrow> (disk_error, unit) result \<times> pair_world"
where
  "on_second f w = (case w of (d1, d2, fs) \<Rightarrow> (case f (d2, fs) of (r, (d2', fs')) \<Rightarrow> (r, (d1, d2', fs'))))"

definition first_view :: "pair_world \<Rightarrow> disk_world" where
  "first_view w = (fst w, snd (snd w))"

definition second_view :: "pair_world \<Rightarrow> disk_world" where
  "second_view w = (fst (snd w), snd (snd w))"

definition pair_I :: "pair_world \<Rightarrow> bool" where
  "pair_I w \<longleftrightarrow> disk_I (first_view w) \<and> disk_I (second_view w) \<and>
     content_base (fst w) \<noteq> content_base (fst (snd w))"

lemma on_first_views:
  "first_view (snd (on_first f w)) = snd (f (first_view w))"
  "fst (on_first f w) = fst (f (first_view w))"
  "fst (second_view (snd (on_first f w))) = fst (second_view w)"
  by (auto simp: on_first_def first_view_def second_view_def split: prod.splits)

lemma on_second_views:
  "second_view (snd (on_second f w)) = snd (f (second_view w))"
  "fst (on_second f w) = fst (f (second_view w))"
  "fst (first_view (snd (on_second f w))) = fst (first_view w)"
  by (auto simp: on_second_def first_view_def second_view_def split: prod.splits)

lemma disk_I_fs: "fst w = fst w' \<Longrightarrow> disk_I w = disk_I w'"
  by (auto simp: disk_I_def split: option.splits)

lemma on_first_frame:
  assumes I: "pair_I w" and f: "\<And>r w'. f (first_view w) = (r, w') \<Longrightarrow> others_kept (first_view w) w' \<and> disk_I w'"
  shows "pair_I (snd (on_first f w)) \<and>
    disk_durable (second_view (snd (on_first f w))) = disk_durable (second_view w) \<and>
    disk_buffered (second_view (snd (on_first f w))) = disk_buffered (second_view w)"
proof -
  obtain r w' where e: "f (first_view w) = (r, w')" by (cases "f (first_view w)")
  obtain d1 d2 fs where w: "w = (d1, d2, fs)" by (cases w)
  have k: "others_kept (d1, fs) w'" and i: "disk_I w'" using f [OF e] w by (simp_all add: first_view_def)
  then have cb: "content_base (fst w') = content_base d1"
    using same_store_facts(2) by (auto simp: others_kept_def)
  have "rows_where (finished_path d2) (snd w') = rows_where (finished_path d2) fs"
    using k I by (auto simp: others_kept_def pair_I_def w second_view_def disk_I_def)
  then show ?thesis
    using e I i cb disk_I_fs [of "(d2, fs)" "(d2, snd w')"]
    by (cases w') (auto simp: on_first_def w pair_I_def first_view_def second_view_def disk_durable_def
        disk_buffered_def)
qed

lemma on_second_frame:
  assumes I: "pair_I w" and f: "\<And>r w'. f (second_view w) = (r, w') \<Longrightarrow> others_kept (second_view w) w' \<and> disk_I w'"
  shows "pair_I (snd (on_second f w)) \<and>
    disk_durable (first_view (snd (on_second f w))) = disk_durable (first_view w) \<and>
    disk_buffered (first_view (snd (on_second f w))) = disk_buffered (first_view w)"
proof -
  obtain r w' where e: "f (second_view w) = (r, w')" by (cases "f (second_view w)")
  obtain d1 d2 fs where w: "w = (d1, d2, fs)" by (cases w)
  have k: "others_kept (d2, fs) w'" and i: "disk_I w'" using f [OF e] w by (simp_all add: second_view_def)
  then have cb: "content_base (fst w') = content_base d2"
    using same_store_facts(2) by (auto simp: others_kept_def)
  have "rows_where (finished_path d1) (snd w') = rows_where (finished_path d1) fs"
    using k I by (auto simp: others_kept_def pair_I_def w first_view_def disk_I_def)
  then show ?thesis
    using e I i cb disk_I_fs [of "(d1, fs)" "(d1, snd w')"]
    by (cases w') (auto simp: on_second_def w pair_I_def first_view_def second_view_def disk_durable_def
        disk_buffered_def)
qed

lemma put_kept: "disk_I w \<Longrightarrow> disk_put (\<lambda>m. Some (row m)) v ms w = (r, w') \<Longrightarrow> others_kept w w' \<and> disk_I w'"
  using disk_put_main by blast

lemma flush_kept: "disk_I w \<Longrightarrow> disk_flush v w = (r, w') \<Longrightarrow> others_kept w w' \<and> disk_I w'"
  using disk_flush_main by blast

lemma pair_views_I: "pair_I w \<Longrightarrow> disk_I (first_view w)" "pair_I w \<Longrightarrow> disk_I (second_view w)"
  by (simp_all add: pair_I_def)

definition put1 :: "(metric \<Rightarrow> json) \<Rightarrow> (store_env, pair_world, disk_error) put_op" where
  "put1 row v ms = on_first (disk_put (\<lambda>m. Some (row m)) v ms)"
definition put2 :: "(metric \<Rightarrow> json) \<Rightarrow> (store_env, pair_world, disk_error) put_op" where
  "put2 row v ms = on_second (disk_put (\<lambda>m. Some (row m)) v ms)"
definition flush1 :: "(store_env, pair_world, disk_error) flush_op" where
  "flush1 v = on_first (disk_flush v)"
definition flush2 :: "(store_env, pair_world, disk_error) flush_op" where
  "flush2 v = on_second (disk_flush v)"

lemmas pair_defs = put1_def put2_def flush1_def flush2_def

lemma pair_frames:
  "pair_I w \<Longrightarrow> pair_I (snd (put1 row v ms w)) \<and>
     disk_durable (second_view (snd (put1 row v ms w))) = disk_durable (second_view w) \<and>
     disk_buffered (second_view (snd (put1 row v ms w))) = disk_buffered (second_view w)"
  "pair_I w \<Longrightarrow> pair_I (snd (flush1 v w)) \<and>
     disk_durable (second_view (snd (flush1 v w))) = disk_durable (second_view w) \<and>
     disk_buffered (second_view (snd (flush1 v w))) = disk_buffered (second_view w)"
  "pair_I w \<Longrightarrow> pair_I (snd (put2 row v ms w)) \<and>
     disk_durable (first_view (snd (put2 row v ms w))) = disk_durable (first_view w) \<and>
     disk_buffered (first_view (snd (put2 row v ms w))) = disk_buffered (first_view w)"
  "pair_I w \<Longrightarrow> pair_I (snd (flush2 v w)) \<and>
     disk_durable (first_view (snd (flush2 v w))) = disk_durable (first_view w) \<and>
     disk_buffered (first_view (snd (flush2 v w))) = disk_buffered (first_view w)"
  unfolding pair_defs
  by (intro on_first_frame on_second_frame put_kept flush_kept pair_views_I; assumption)+

interpretation stores: store_pair
  "put1 row" flush1 "\<lambda>w. disk_durable (first_view w)" "\<lambda>w. disk_buffered (first_view w)"
  "\<lambda>v w. disk_admissible v (first_view w)"
  "put2 row" flush2 "\<lambda>w. disk_durable (second_view w)" "\<lambda>w. disk_buffered (second_view w)"
  "\<lambda>v w. disk_admissible v (second_view w)" row pair_I
proof unfold_locales
  fix w :: pair_world and v ms u w'
  assume I: "pair_I w"
  note I1 = pair_views_I(1) [OF I] and I2 = pair_views_I(2) [OF I]
  show "pair_I (snd (put1 row v ms w))" "pair_I (snd (flush1 v w))"
    "pair_I (snd (put2 row v ms w))" "pair_I (snd (flush2 v w))"
    using pair_frames [OF I] by blast+
  show "disk_durable (second_view (snd (put1 row v ms w))) = disk_durable (second_view w) \<and>
     disk_buffered (second_view (snd (put1 row v ms w))) = disk_buffered (second_view w)"
    "disk_durable (second_view (snd (flush1 v w))) = disk_durable (second_view w) \<and>
     disk_buffered (second_view (snd (flush1 v w))) = disk_buffered (second_view w)"
    "disk_durable (first_view (snd (put2 row v ms w))) = disk_durable (first_view w) \<and>
     disk_buffered (first_view (snd (put2 row v ms w))) = disk_buffered (first_view w)"
    "disk_durable (first_view (snd (flush2 v w))) = disk_durable (first_view w) \<and>
     disk_buffered (first_view (snd (flush2 v w))) = disk_buffered (first_view w)"
    using pair_frames [OF I] by blast+
  {
    assume a: "disk_admissible v (first_view w)"
    show "disk_durable (first_view w) \<subseteq># disk_durable (first_view (snd (put1 row v ms w)))"
      "disk_durable (first_view w) \<subseteq># disk_durable (first_view (snd (flush1 v w)))"
      using disk.put_durable [OF I1 a] disk.flush_durable [OF I1 a] by (simp_all add: pair_defs on_first_views)
    show "disk_durable (first_view w') + disk_buffered (first_view w') =
        disk_durable (first_view w) + disk_buffered (first_view w) + mset (map row ms)"
      if "put1 row v ms w = (Inr u, w')"
      using that disk.put_ok [OF I1 a] on_first_views [of "disk_put (\<lambda>m. Some (row m)) v ms" w]
      unfolding pair_defs by (metis fst_conv snd_conv prod.collapse)
    show "disk_durable (first_view w') = disk_durable (first_view w) + disk_buffered (first_view w) \<and>
        disk_buffered (first_view w') = {#}"
      if "flush1 v w = (Inr u, w')"
      using that disk.flush_ok [OF I1 a] on_first_views [of "disk_flush v" w]
      unfolding pair_defs by (metis fst_conv snd_conv prod.collapse)
  }
  assume a: "disk_admissible v (second_view w)"
  show "disk_durable (second_view w) \<subseteq># disk_durable (second_view (snd (put2 row v ms w)))"
    "disk_durable (second_view w) \<subseteq># disk_durable (second_view (snd (flush2 v w)))"
    using disk.put_durable [OF I2 a] disk.flush_durable [OF I2 a] by (simp_all add: pair_defs on_second_views)
  show "disk_durable (second_view w') + disk_buffered (second_view w') =
      disk_durable (second_view w) + disk_buffered (second_view w) + mset (map row ms)"
    if "put2 row v ms w = (Inr u, w')"
    using that disk.put_ok [OF I2 a] on_second_views [of "disk_put (\<lambda>m. Some (row m)) v ms" w]
    unfolding pair_defs by (metis fst_conv snd_conv prod.collapse)
  show "disk_durable (second_view w') = disk_durable (second_view w) + disk_buffered (second_view w) \<and>
      disk_buffered (second_view w') = {#}"
    if "flush2 v w = (Inr u, w')"
    using that disk.flush_ok [OF I2 a] on_second_views [of "disk_flush v" w]
    unfolding pair_defs by (metis fst_conv snd_conv prod.collapse)
qed

section \<open>Facts for the properties\<close>

lemma finished_matches:
  assumes "CHR ''*'' \<notin> set base"
  shows "star_match (finished_pattern base content_ext) (finished_name base a b)"
proof -
  have "\<exists>x y. finished_name base a b = base @ ''_'' @ x @ ''_'' @ y @ content_ext \<and>
      CHR ''/'' \<notin> set x \<and> CHR ''/'' \<notin> set y"
    by (intro exI [of _ "int_str a"] exI [of _ "int_str b"]) (simp add: finished_name_def)
  then show ?thesis
    using assms by (subst finished_pattern_match) (simp_all add: content_ext_def)
qed

lemma GetFiles_finished:
  assumes "naming_ok d"
  shows "path_join (dirPath d) (finished_name (content_base d) a b) \<in> set (GetFiles d fs []) \<longleftrightarrow>
         fs_exists (path_join (dirPath d) (finished_name (content_base d) a b)) fs"
proof -
  let ?n = "finished_name (content_base d) a b"
  let ?base = "if contentIdentifier d = [] then ''*'' else contentIdentifier d"
  have n: "CHR ''/'' \<notin> set (content_base d)" "CHR ''*'' \<notin> set (content_base d)"
    using assms by (simp_all add: naming_ok_def)
  have "star_match (finished_pattern ?base content_ext) ?n"
  proof (cases "contentIdentifier d = []")
    case True
    then have split: "?n = ''file'' @ finished_name [] a b"
      by (simp add: finished_name_def content_base_def)
    have "star_match (finished_pattern [] content_ext) (finished_name [] a b)"
      by (rule finished_matches) simp
    then have "star_match (CHR ''*'' # finished_pattern [] content_ext) ?n"
      unfolding star_match_star split by (intro exI [of _ "''file''"] exI) (rule conjI, rule refl, simp)
    with True show ?thesis by (simp add: finished_pattern_def)
  next
    case False
    then show ?thesis using finished_matches [OF n(2)] by (simp add: content_base_def)
  qed
  then show ?thesis
    using finished_name_no_slash [OF n(1)] by (simp add: GetFiles_def glob_iff)
qed

lemma GetFiles_not_active:
  "path_join dir (makeFileName d' ms) \<notin> set (GetFiles d fs [])"
proof
  let ?p = "path_join dir (makeFileName d' ms)"
  let ?base = "if contentIdentifier d = [] then ''*'' else contentIdentifier d"
  assume "?p \<in> set (GetFiles d fs [])"
  then have "star_match ((?base @ ''_*_*'') @ content_ext) (drop (length (dirPath d) + 1) ?p)"
    by (simp add: GetFiles_def glob_def finished_pattern_def)
  then have "suffix content_ext (drop (length (dirPath d) + 1) ?p)"
    by (rule star_match_suffix) (simp add: content_ext_def)
  then have "suffix content_ext ?p"
    using suffix_drop suffix_order.trans by blast
  then have "last ?p = CHR ''r''"
    by (auto simp: suffix_def content_ext_def)
  moreover have "last ?p = last (makeFileName d' ms)"
    by (simp add: path_join_def makeFileName_def)
  ultimately show False using last_makeFileName by metis
qed

definition good_env :: "store_env \<Rightarrow> bool" where
  "good_env v \<longleftrightarrow> ce_create_ok (sv_recover v) \<and> ce_create_ok (sv_reopen v) \<and>
     fv_writer_ok (sv_flush v) \<and> fv_compressor_ok (sv_flush v) \<and> fv_close_ok (sv_flush v) \<and>
     fv_rename_ok (sv_flush v)"

lemma good_newFileWriter: "ce_create_ok v \<Longrightarrow> \<exists>w'. newFileWriter v w = (Inr (), w') \<and> writer (fst w') = Some []"
  by (simp add: newFileWriter_def Let_def)

lemma good_flushUnlocked:
  "good_env v \<Longrightarrow> \<exists>w'. flushUnlocked (sv_flush v) w = (Inr (), w')"
  by (cases w; cases "writer (fst w)") (auto simp: flushUnlocked_def good_env_def Let_def)

lemma good_put: "good_env v \<Longrightarrow> is_ok (fst (disk_put (\<lambda>m. Some (row m)) v ms w))"
proof -
  assume g: "good_env v"
  obtain w1 where w1: "(if writer (fst w) = None then newFileWriter (sv_recover v) w else (Inr (), w)) = (Inr (), w1)"
    using g good_newFileWriter [of "sv_recover v" w]
    by (cases "writer (fst w) = None") (auto simp: good_env_def)
  obtain d1 fs1 where d: "w1 = (d1, fs1)" by (cases w1)
  obtain w3 where f: "flushUnlocked (sv_flush v)
     (d1\<lparr>writer := map_option (\<lambda>ws. ws @ map row ms) (writer d1), rowCount := rowCount d1 + int (length ms)\<rparr>, fs1) =
     (Inr (), w3)"
    using good_flushUnlocked [OF g] by blast
  obtain w4 where "newFileWriter (sv_reopen v) w3 = (Inr (), w4)"
    using g good_newFileWriter [of "sv_reopen v" w3] by (auto simp: good_env_def)
  with f show ?thesis by (simp add: disk_put_def w1 d Let_def)
qed

lemma decode_rows_map:
  "(\<And>m. m \<in> set ms \<Longrightarrow> dec (row m) = Inr (g m)) \<Longrightarrow> decode_rows dec (map row ms) = Some (map g ms)"
  by (induction ms) auto

lemma put_then_flush:
  assumes I: "disk_I w" and wr: "writer (fst w) = Some []" and ne: "ms \<noteq> []"
    and small: "int (length ms) < rowLimit (fst w)"
    and p: "disk_put (\<lambda>m. Some (row m)) v ms w = (Inr u, w1)"
    and f: "disk_flush v' w1 = (Inr u', w2)"
  shows "fmlookup (snd w2) (path_join (dirPath (fst w)) (finished_name (content_base (fst w))
           (startTime (fst w)) (fv_stop_ms (sv_flush v')))) = Some (F_rows (map row ms))"
proof -
  obtain d fs where w: "w = (d, fs)" by (cases w)
  define d1 where "d1 = d\<lparr>writer := Some (map row ms), rowCount := int (length ms)\<rparr>"
  have rc: "rowCount d = 0" using I wr by (simp add: disk_I_def w)
  have w1: "w1 = (d1, fs)"
    using p wr small rc by (simp add: disk_put_def w Let_def d1_def)
  obtain ms0 where a: "activeFilePath d1 = path_join (dirPath d1) (makeFileName d1 ms0)"
    using I wr by (auto simp: disk_I_def w d1_def makeFileName_def)
  have facts: "content_base d1 = content_base d" "dirPath d1 = dirPath d" "startTime d1 = startTime d"
    "writer d1 = Some (map row ms)" "rowCount d1 \<noteq> 0"
    using ne by (simp_all add: d1_def content_base_def)
  obtain r3 w3 where f3: "flushUnlocked (sv_flush v') (d1, fs) = (r3, w3)"
    by (cases "flushUnlocked (sv_flush v') (d1, fs)")
  then have nf: "newFileWriter (sv_reopen v') w3 = (Inr u', w2)" and r3: "is_ok r3"
    using f facts(5) by (auto simp: disk_flush_def w1 split: sum.splits)
  have c3: "same_store d1 (fst w3)" "snd w3 = fmupd (path_join (dirPath d) (finished_name (content_base d)
      (startTime d) (fv_stop_ms (sv_flush v')))) (F_rows (map row ms)) (fmdrop (activeFilePath d1) fs)"
    using flushUnlocked_cases [of "(d1, fs)" "map row ms" ms0 _ r3 w3] f3 a facts r3
    by (auto simp: is_ok_iff)
  note c4 = newFileWriter_cases [OF nf]
  have "path_join (dirPath d) (finished_name (content_base d) (startTime d) (fv_stop_ms (sv_flush v'))) \<noteq>
      activeFilePath (fst w2)"
    using c4 active_not_finished finished_path_target by (metis (mono_tags, lifting) sum.case(2))
  then show ?thesis using c3 c4 by (simp add: w)
qed

lemma f_of_u64_fin:
  assumes "ieee_round (fl_round L)"
  obtains x where "f_of_u64 L w = Fin x" "0 \<le> x" "0 < w \<Longrightarrow> 1 \<le> x"
proof -
  have lt: "unat w < 2 ^ 64" using unsigned_less [of w, where 'a = nat] by simp
  have "(of_nat (unat w) :: rat) < of_nat (2 ^ 64)"
    using lt by (simp only: of_nat_less_iff)
  then have "(of_nat (unat w) :: rat) \<le> 2 ^ 64" by simp
  then have hi: "f_le (f_of_u64 L w) (Fin (2 ^ 64))"
    using ieee_round_mono [OF assms, of "of_nat (unat w)" "2 ^ 64"] ieee_round_power [OF assms, of 64]
    by (simp add: f_of_u64_def)
  have lo: "f_le (Fin 0) (f_of_u64 L w)"
    using ieee_round_mono [OF assms of_nat_0_le_iff [of "unat w"]] ieee_round_0 [OF assms]
    by (simp add: f_of_u64_def)
  obtain x where x: "f_of_u64 L w = Fin x" "0 \<le> x" using f_le_between [OF lo hi] by blast
  have "1 \<le> x" if "0 < w"
  proof -
    have "1 \<le> unat w" using that by (simp add: Suc_le_eq unat_gt_0 word_greater_zero_iff)
    then have "(of_nat 1 :: rat) \<le> of_nat (unat w)" by (simp only: of_nat_le_iff)
    then have "(1 :: rat) \<le> of_nat (unat w)" by (simp only: of_nat_1)
    then show ?thesis
      using ieee_round_mono [OF assms, of 1 "of_nat (unat w)"] ieee_round_1 [OF assms] x(1)
      by (simp add: f_of_u64_def)
  qed
  with x show thesis by (rule that)
qed

lemma f_of_u64_mono:
  "ieee_round (fl_round L) \<Longrightarrow> v \<le> w \<Longrightarrow> f_le (f_of_u64 L v) (f_of_u64 L w)"
  unfolding f_of_u64_def word_le_nat_alt by (rule ieee_round_mono) (simp_all only: of_nat_le_iff)

lemma GetUsage_limited:
  assumes r: "ieee_round (fl_round L)" and l: "0 < limit" "limit < Total u"
    and g: "GetUsage L limit (Some u) = Inr r"
  shows "unat (Used r) + unat (Available r) = unat (Total r) \<and> Total r = limit \<and>
         (\<exists>p. PercentUsed r = Fin p \<and> 0 \<le> p \<and> p \<le> 100)"
proof -
  have le: "Used r \<le> limit" and tot: "Total r = limit"
    and pc: "PercentUsed r = f_percent L (f_of_u64 L (Used r)) (f_of_u64 L limit)"
    using g l by (auto simp: GetUsage_def Let_def split: if_splits)
  have sum: "unat (Used r) + unat (Available r) = unat limit"
    using g l by (auto simp: GetUsage_def Let_def unat_sub word_le_nat_alt split: if_splits)
  obtain x where x: "f_of_u64 L (Used r) = Fin x" "0 \<le> x" using f_of_u64_fin [OF r] by blast
  obtain t where t: "f_of_u64 L limit = Fin t" "1 \<le> t" using f_of_u64_fin [OF r] l(1) by metis
  have "x \<le> t" using f_of_u64_mono [OF r le] x t by simp
  then obtain p where "f_percent L (Fin x) (Fin t) = Fin p" "0 \<le> p" "p \<le> 100"
    using f_percent_bounds [OF r x(2)] t(2) by (metis not_one_le_zero)
  with x t pc sum tot show ?thesis by simp
qed

section \<open>Properties\<close>

definition exact_disk :: float_lib where
  "exact_disk = \<lparr>fl_round = Fin, fl_parse = (\<lambda>_. None), fl_format = (\<lambda>_. [])\<rparr>"

definition sample_create :: "int \<Rightarrow> create_env" where
  "sample_create n = \<lparr>ce_name_ms = n, ce_create_ok = True, ce_start_ms = n\<rparr>"

definition sample_env :: "int \<Rightarrow> store_env" where
  "sample_env n = \<lparr>sv_recover = sample_create n,
     sv_flush = \<lparr>fv_writer_ok = True, fv_compressor_ok = True, fv_close_ok = True, fv_stop_ms = n, fv_rename_ok = True\<rparr>,
     sv_reopen = sample_create n\<rparr>"

definition sample_store :: "int \<Rightarrow> disk_store" where
  "sample_store limit = \<lparr>dirPath = ''/d'', store_id = ''ab'', contentIdentifier = ''metrics'',
     activeFilePath = path_join ''/d'' (''ab'' @ ''.'' @ int_str 5), rowLimit = limit, rowCount = 0,
     writer = Some [], startTime = 5, maxInterval = 0\<rparr>"

definition sample_row :: "metric \<Rightarrow> json" where
  "sample_row = marshal_metric dec_nat"

definition sample_world :: "int \<Rightarrow> disk_world" where
  "sample_world limit = (sample_store limit, fmempty)"

lemma sample_naming: "naming_ok (sample_store limit)"
  by (simp add: naming_ok_def content_base_def sample_store_def)

lemma sample_I: "0 < limit \<Longrightarrow> disk_I (sample_world limit)"
  using sample_naming [of limit]
  by (auto simp: disk_I_def sample_world_def sample_store_def makeFileName_def)

lemma sample_good [simp]: "good_env (sample_env n)"
  by (simp add: good_env_def sample_env_def sample_create_def)

lemma sample_admissible [simp]: "disk_admissible v (sample_store limit, fmempty)"
  by (simp add: disk_admissible_def fs_exists_def)

lemma sample_put:
  "disk_put (\<lambda>m. Some (sample_row m)) v [m] (sample_world 10) =
     (Inr (), (sample_store 10)\<lparr>writer := Some [sample_row m], rowCount := 1\<rparr>, fmempty)"
  by (simp add: disk_put_def sample_world_def sample_store_def Let_def)

text \<open>C3: The disk store loses nothing it accepted: over any sequence of \<open>Put\<close> and \<open>Flush\<close> calls,
  whatever fails in between, every row in a finished file stays there; and if all calls
  return without error, the rows on disk and in the open file are exactly the earlier ones
  plus all rows offered, none lost, none duplicated.  The calls must not finish a file under
  a name already taken.\<close>

theorem disk_store_conserves:
  assumes "disk_I w"
    and "admissible_ops (\<lambda>c. disk_admissible (env_of c))
           (store_step (disk_put (\<lambda>m. Some (row m))) disk_flush) cs w"
  shows "disk_durable w \<subseteq>#
           disk_durable (run_ops (store_step (disk_put (\<lambda>m. Some (row m))) disk_flush) cs w) \<and>
         (all_ok_ops (store_step (disk_put (\<lambda>m. Some (row m))) disk_flush) cs w \<longrightarrow>
           disk_durable (run_ops (store_step (disk_put (\<lambda>m. Some (row m))) disk_flush) cs w) +
           disk_buffered (run_ops (store_step (disk_put (\<lambda>m. Some (row m))) disk_flush) cs w) =
           disk_durable w + disk_buffered w + mset (map row (concat (map offered cs))))"
  using disk.run_durable [OF assms] disk.run_conserves [OF assms] by blast

theorem disk_store_conserves_witness:
  "disk_buffered (run_ops (store_step (disk_put (\<lambda>m. Some (sample_row m))) disk_flush)
      [Store_put (sample_env 9) [sample_metric]] (sample_world 10)) = {#sample_row sample_metric#}"
proof -
  have a: "admissible_ops (\<lambda>c. disk_admissible (env_of c))
      (store_step (disk_put (\<lambda>m. Some (sample_row m))) disk_flush)
      [Store_put (sample_env 9) [sample_metric]] (sample_world 10)"
    by (simp add: sample_world_def)
  have o: "all_ok_ops (store_step (disk_put (\<lambda>m. Some (sample_row m))) disk_flush)
      [Store_put (sample_env 9) [sample_metric]] (sample_world 10)"
    by (simp add: sample_put)
  have z: "disk_durable (sample_world 10) = {#}" "disk_buffered (sample_world 10) = {#}"
    by (simp_all add: disk_durable_def rows_where_def sample_world_def disk_buffered_def sample_store_def)
  have d: "disk_durable (run_ops (store_step (disk_put (\<lambda>m. Some (sample_row m))) disk_flush)
      [Store_put (sample_env 9) [sample_metric]] (sample_world 10)) = {#}"
    by (simp add: sample_put disk_durable_def rows_where_def)
  show ?thesis
    using disk_store_conserves [OF sample_I a] o z d by simp
qed

text \<open>C6: The store always recovers: after any sequence of calls with any failures its
  invariant holds again (the row count is the number of buffered rows and stays below the
  limit, no file is half open), and the next \<open>Put\<close> succeeds as soon as the operating
  system calls it makes do.\<close>

theorem disk_store_recovers:
  assumes "disk_I w" and "good_env v"
  shows "disk_I (run_ops (store_step (disk_put (\<lambda>m. Some (row m))) disk_flush) cs w) \<and>
    is_ok (fst (disk_put (\<lambda>m. Some (row m)) v ms
      (run_ops (store_step (disk_put (\<lambda>m. Some (row m))) disk_flush) cs w)))"
proof -
  have "disk_I (run_ops (store_step (disk_put (\<lambda>m. Some (row m))) disk_flush) cs w)"
    using assms(1) by (induction cs arbitrary: w) (auto simp: disk.step_I)
  with good_put [OF assms(2)] show ?thesis by blast
qed

theorem disk_store_recovers_witness:
  "is_ok (fst (disk_put (\<lambda>m. Some (sample_row m)) (sample_env 9) [sample_metric]
     (run_ops (store_step (disk_put (\<lambda>m. Some (sample_row m))) disk_flush)
       [Store_put (sample_env 7) [sample_metric], Store_flush (sample_env 8)] (sample_world 1))))"
  by (rule disk_store_recovers [THEN conjunct2, OF sample_I sample_good]) simp

text \<open>\<open>GetFiles\<close> lists a finished file of the store exactly when it exists, and never lists
  a file that a store is still writing, so the shipper only ever picks up complete files.\<close>

theorem get_files_only_finished:
  assumes "naming_ok d"
  shows "(path_join (dirPath d) (finished_name (content_base d) a b) \<in> set (GetFiles d fs []) \<longleftrightarrow>
          fs_exists (path_join (dirPath d) (finished_name (content_base d) a b)) fs) \<and>
         path_join dir (makeFileName d' ms) \<notin> set (GetFiles d fs [])"
  using GetFiles_finished [OF assms] GetFiles_not_active by blast

theorem get_files_only_finished_witness:
  "path_join ''/d'' (finished_name ''metrics'' 3 4) \<in>
     set (GetFiles (sample_store 10)
       (fmupd (path_join ''/d'' (finished_name ''metrics'' 3 4)) (F_rows []) fmempty) [])"
  using get_files_only_finished [OF sample_naming, of 10 3 4
      "fmupd (path_join ''/d'' (finished_name ''metrics'' 3 4)) (F_rows []) fmempty"]
  by (simp add: sample_store_def content_base_def fs_exists_def)

text \<open>C30: What is written can be read back: metrics put into a fresh open file and flushed are
  read from the finished file as the same metrics in order, cut to milliseconds.\<close>

theorem written_metrics_read_back:
  assumes "disk_I w" "writer (fst w) = Some []" "ms \<noteq> []" "int (length ms) < rowLimit (fst w)"
    and "disk_put (\<lambda>m. Some (marshal_metric uuid_str m)) v ms w = (Inr u, w1)"
    and "disk_flush v' w1 = (Inr u', w2)"
    and "\<And>m. m \<in> set ms \<Longrightarrow> uuid_parse (uuid_str (m_id m)) = Some (m_id m) \<and> hoisted m \<and>
           int64_range (unix_milli (created_at m)) \<and> int64_range (unix_milli (time_stamp m))"
  shows "readCompressedJSONFile (unmarshal_metric uuid_parse empty_metric) True (snd w2)
     (path_join (dirPath (fst w)) (finished_name (content_base (fst w))
        (startTime (fst w)) (fv_stop_ms (sv_flush v')))) = Inr (map normalised ms)"
proof -
  have "unmarshal_metric uuid_parse empty_metric (marshal_metric uuid_str m) = Inr (normalised m)"
    if "m \<in> set ms" for m
    using assms(7) [OF that] by (intro unmarshal_marshal) simp_all
  then have "decode_rows (unmarshal_metric uuid_parse empty_metric) (map (marshal_metric uuid_str) ms) =
      Some (map normalised ms)"
    by (rule decode_rows_map)
  then show ?thesis
    using put_then_flush [OF assms(1-6)] by (simp add: readCompressedJSONFile_def)
qed

theorem written_metrics_read_back_witness:
  "\<exists>w2. readCompressedJSONFile (unmarshal_metric parse_nat empty_metric) True (snd w2)
     (path_join ''/d'' (finished_name ''metrics'' 5 9)) = Inr [normalised sample_metric]"
proof -
  let ?w1 = "((sample_store 10)\<lparr>writer := Some [sample_row sample_metric], rowCount := 1\<rparr>, fmempty)"
  obtain w2 where f: "disk_flush (sample_env 9) ?w1 = (Inr (), w2)"
    by (simp add: disk_flush_def flushUnlocked_def newFileWriter_def sample_env_def sample_create_def
        sample_store_def Let_def)
  have p: "disk_put (\<lambda>m. Some (marshal_metric dec_nat m)) (sample_env 9) [sample_metric] (sample_world 10) = (Inr (), ?w1)"
    using sample_put [of "sample_env 9" sample_metric] by (simp add: sample_row_def)
  have "readCompressedJSONFile (unmarshal_metric parse_nat empty_metric) True (snd w2)
     (path_join (dirPath (fst (sample_world 10))) (finished_name (content_base (fst (sample_world 10)))
        (startTime (fst (sample_world 10))) (fv_stop_ms (sv_flush (sample_env 9))))) = Inr (map normalised [sample_metric])"
    by (rule written_metrics_read_back [OF sample_I _ _ _ p f])
      (simp_all add: sample_world_def sample_store_def sample_metric_hoisted,
        simp_all add: sample_metric_def unix_milli_def int64_range_def)
  then show ?thesis
    by (auto simp: sample_world_def sample_store_def content_base_def sample_env_def)
qed



text \<open>Two files finished in the same millisecond overwrite each other: here two \<open>Put\<close> calls
  both return success, and one of the two rows is gone from the directory.\<close>

theorem same_millisecond_overwrites:
  "case disk_put (\<lambda>m. Some (sample_row m)) (sample_env 5) [sample_metric] (sample_world 1) of
     (r1, w1) \<Rightarrow>
       (case disk_put (\<lambda>m. Some (sample_row m)) (sample_env 5) [sample_metric\<lparr>m_value := ''2''\<rparr>] w1 of
          (r2, w2) \<Rightarrow> is_ok r1 \<and> is_ok r2 \<and> disk_I w2 \<and> disk_buffered w2 = {#} \<and>
            disk_durable w2 = {#sample_row (sample_metric\<lparr>m_value := ''2''\<rparr>)#})"
proof -
  let ?m1 = "sample_metric" and ?m2 = "sample_metric\<lparr>m_value := ''2''\<rparr>"
  let ?a = "path_join ''/d'' (''ab'' @ ''.'' @ int_str 5)"
  let ?t = "path_join ''/d'' (finished_name ''metrics'' 5 5)"
  define W where "W fs = ((sample_store 1), fs_create ?a fs)" for fs
  have ne: "?a \<noteq> ?t"
    using active_not_finished [of "sample_store 1" "''/d''" "sample_store 1" 5]
      finished_path_target [of "sample_store 1" 5 5]
    by (auto simp: sample_store_def content_base_def makeFileName_def)
  have step: "disk_put (\<lambda>m. Some (sample_row m)) (sample_env 5) [m] (sample_store 1, fs) =
      (Inr (), W (fmupd ?t (F_rows [sample_row m]) (fmdrop ?a fs)))" for m fs
    using ne
    by (simp add: disk_put_def sample_store_def flushUnlocked_def newFileWriter_def sample_env_def
        sample_create_def Let_def content_base_def makeFileName_def rename_closed W_def)
  have fin: "disk_durable (W (fmupd ?t (F_rows [sample_row m]) fs)) = {#sample_row m#}"
    if "rows_where (finished_path (sample_store 1)) (fmdrop ?t fs) = {#}" for m fs
  proof -
    have "fmupd ?t (F_rows [sample_row m]) fs = fmupd ?t (F_rows [sample_row m]) (fmdrop ?t fs)"
      by (rule fmap_ext) simp
    then show ?thesis
      using that durable_create [of "sample_store 1" "''/d''" "sample_store 1" 5]
        finished_path_target [of "sample_store 1" 5 5]
        rows_finished(3) [of "sample_store 1" ?t "fmdrop ?t fs" "F_rows [sample_row m]"]
      by (simp add: disk_durable_def W_def makeFileName_def sample_store_def content_base_def)
  qed
  define fs1 where "fs1 = fmupd ?t (F_rows [sample_row ?m1]) (fmdrop ?a fmempty)"
  have s1: "disk_put (\<lambda>m. Some (sample_row m)) (sample_env 5) [?m1] (sample_world 1) = (Inr (), W fs1)"
    by (simp only: sample_world_def step fs1_def)
  have s2: "disk_put (\<lambda>m. Some (sample_row m)) (sample_env 5) [?m2] (W fs1) =
      (Inr (), W (fmupd ?t (F_rows [sample_row ?m2]) (fmdrop ?a (fs_create ?a fs1))))"
    by (subst W_def) (rule step)
  have "fmdrop ?t (fmdrop ?a (fs_create ?a fs1)) = fmempty"
    by (rule fmap_ext) (simp add: fs1_def)
  then have "rows_where (finished_path (sample_store 1)) (fmdrop ?t (fmdrop ?a (fs_create ?a fs1))) = {#}"
    by (simp add: rows_where_def)
  note d = fin [OF this, of ?m2]
  have "disk_I (W fs)" "disk_buffered (W fs) = {#}" for fs
    using sample_I [of 1] disk_I_fs [of "W fs" "sample_world 1"]
    by (simp_all add: W_def sample_world_def disk_buffered_def) (simp add: sample_store_def)
  with d show ?thesis by (simp add: s1 s2)
qed

end
