(* ===== verification/Metric_Filters.thy ===== *)
theory Metric_Filters
  imports Metric_Model
begin

text \<open>
  Classification of metrics: the pattern engine of \<open>app/domain/filter/filter_checker.go\<close> and
  the cost/observability split of \<open>app/domain/metric_filter.go\<close>.

  The regular-expression engine is a parameter: \<open>compile\<close> stands for \<open>regexp.Compile\<close>
  (\<open>None\<close> for a pattern it rejects) and \<open>rmatch\<close> for \<open>MatchString\<close>; nothing is assumed of
  them.
\<close>

section \<open>Filter rules\<close>

datatype filter_match_type =
    FilterMatchTypeExact
  | FilterMatchTypePrefix
  | FilterMatchTypeSuffix
  | FilterMatchTypeContains
  | FilterMatchTypeRegex
  | FilterMatchTypeOther string

record filter_entry =
  fe_pattern :: string
  fe_match :: filter_match_type

datatype filter_error = BadRegex string | UnknownMatchType string

record 'r filter_checker =
  exactMatches :: "string set"
  prefixMatches :: "string list"
  suffixMatches :: "string list"
  containsMatches :: "string list"
  regexMatches :: "'r list"

definition empty_checker :: "'r filter_checker" where
  "empty_checker = \<lparr>exactMatches = {}, prefixMatches = [], suffixMatches = [],
                    containsMatches = [], regexMatches = []\<rparr>"

fun add_entry ::
  "(string \<Rightarrow> 'r option) \<Rightarrow> filter_entry \<Rightarrow> 'r filter_checker \<Rightarrow> (filter_error, 'r filter_checker) result"
where
  "add_entry compile f chk =
     (case fe_match f of
        FilterMatchTypeExact \<Rightarrow> Inr (chk\<lparr>exactMatches := insert (fe_pattern f) (exactMatches chk)\<rparr>)
      | FilterMatchTypePrefix \<Rightarrow> Inr (chk\<lparr>prefixMatches := prefixMatches chk @ [fe_pattern f]\<rparr>)
      | FilterMatchTypeSuffix \<Rightarrow> Inr (chk\<lparr>suffixMatches := suffixMatches chk @ [fe_pattern f]\<rparr>)
      | FilterMatchTypeContains \<Rightarrow> Inr (chk\<lparr>containsMatches := containsMatches chk @ [fe_pattern f]\<rparr>)
      | FilterMatchTypeRegex \<Rightarrow>
          (case compile (fe_pattern f) of
             None \<Rightarrow> Inl (BadRegex (fe_pattern f))
           | Some r \<Rightarrow> Inr (chk\<lparr>regexMatches := regexMatches chk @ [r]\<rparr>))
      | FilterMatchTypeOther s \<Rightarrow> Inl (UnknownMatchType s))"

fun add_entries ::
  "(string \<Rightarrow> 'r option) \<Rightarrow> filter_entry list \<Rightarrow> 'r filter_checker \<Rightarrow> (filter_error, 'r filter_checker) result"
where
  "add_entries compile [] chk = Inr chk"
| "add_entries compile (f # fs) chk =
     (case add_entry compile f chk of
        Inl e \<Rightarrow> Inl e
      | Inr chk' \<Rightarrow> add_entries compile fs chk')"

definition new_filter_checker ::
  "(string \<Rightarrow> 'r option) \<Rightarrow> filter_entry list \<Rightarrow> (filter_error, 'r filter_checker option) result"
where
  "new_filter_checker compile filters =
     (if filters = [] then Inr None
      else (case add_entries compile filters empty_checker of
              Inl e \<Rightarrow> Inl e
            | Inr chk \<Rightarrow> Inr (Some chk)))"

definition test_checker :: "('r \<Rightarrow> string \<Rightarrow> bool) \<Rightarrow> 'r filter_checker option \<Rightarrow> string \<Rightarrow> bool" where
  "test_checker rmatch c v =
     (case c of
        None \<Rightarrow> True
      | Some chk \<Rightarrow>
          (if v \<in> exactMatches chk then True
           else if list_ex (\<lambda>p. prefix p v) (prefixMatches chk) then True
           else if list_ex (\<lambda>s. suffix s v) (suffixMatches chk) then True
           else if list_ex (\<lambda>s. go_contains v s) (containsMatches chk) then True
           else list_ex (\<lambda>r. rmatch r v) (regexMatches chk)))"

lemma test_checker_None [simp]: "test_checker rmatch None v"
  by (simp add: test_checker_def)

subsection \<open>The rule-by-rule reading of a filter\<close>

text \<open>What one configured rule says of a name, without the grouping by match type.\<close>

definition entry_matches ::
  "(string \<Rightarrow> 'r option) \<Rightarrow> ('r \<Rightarrow> string \<Rightarrow> bool) \<Rightarrow> string \<Rightarrow> filter_entry \<Rightarrow> bool"
where
  "entry_matches compile rmatch v f =
     (case fe_match f of
        FilterMatchTypeExact \<Rightarrow> v = fe_pattern f
      | FilterMatchTypePrefix \<Rightarrow> prefix (fe_pattern f) v
      | FilterMatchTypeSuffix \<Rightarrow> suffix (fe_pattern f) v
      | FilterMatchTypeContains \<Rightarrow> sublist (fe_pattern f) v
      | FilterMatchTypeRegex \<Rightarrow> (case compile (fe_pattern f) of None \<Rightarrow> False | Some r \<Rightarrow> rmatch r v)
      | FilterMatchTypeOther s \<Rightarrow> False)"

definition entry_valid :: "(string \<Rightarrow> 'r option) \<Rightarrow> filter_entry \<Rightarrow> bool" where
  "entry_valid compile f =
     (case fe_match f of
        FilterMatchTypeRegex \<Rightarrow> compile (fe_pattern f) \<noteq> None
      | FilterMatchTypeOther s \<Rightarrow> False
      | _ \<Rightarrow> True)"

lemma go_contains_sublist: "go_contains v s \<longleftrightarrow> sublist s v"
  by (auto simp: go_contains_iff sublist_def)

lemma test_checker_Some:
  "test_checker rmatch (Some chk) v \<longleftrightarrow>
     v \<in> exactMatches chk \<or> (\<exists>p \<in> set (prefixMatches chk). prefix p v) \<or>
     (\<exists>s \<in> set (suffixMatches chk). suffix s v) \<or>
     (\<exists>s \<in> set (containsMatches chk). sublist s v) \<or>
     (\<exists>r \<in> set (regexMatches chk). rmatch r v)"
  by (auto simp: test_checker_def list_ex_iff go_contains_sublist)

lemma add_entry_test:
  "add_entry compile f chk = Inr chk' \<Longrightarrow>
   test_checker rmatch (Some chk') v \<longleftrightarrow>
     test_checker rmatch (Some chk) v \<or> entry_matches compile rmatch v f"
  unfolding test_checker_Some entry_matches_def
  by (auto split: filter_match_type.splits option.splits)

lemma add_entries_test:
  "add_entries compile fs chk = Inr chk' \<Longrightarrow>
   test_checker rmatch (Some chk') v \<longleftrightarrow>
     test_checker rmatch (Some chk) v \<or> (\<exists>f \<in> set fs. entry_matches compile rmatch v f)"
proof (induction fs arbitrary: chk)
  case Nil
  then show ?case by simp
next
  case (Cons f fs)
  then obtain c where c: "add_entry compile f chk = Inr c" "add_entries compile fs c = Inr chk'"
    by (auto split: sum.splits)
  show ?case
    using Cons.IH [OF c(2)] add_entry_test [OF c(1)] by auto
qed

lemma add_entry_ok: "is_ok (add_entry compile f chk) \<longleftrightarrow> entry_valid compile f"
  by (auto simp: entry_valid_def is_ok_def split: filter_match_type.splits option.splits)

lemma add_entries_ok: "is_ok (add_entries compile fs chk) \<longleftrightarrow> (\<forall>f \<in> set fs. entry_valid compile f)"
proof (induction fs arbitrary: chk)
  case Nil
  then show ?case by simp
next
  case (Cons f fs)
  show ?case
    using Cons.IH add_entry_ok [of compile f chk]
    by (cases "add_entry compile f chk") (auto simp del: add_entry.simps)
qed

lemma not_test_empty [simp]: "\<not> test_checker rmatch (Some empty_checker) v"
  by (simp add: test_checker_Some empty_checker_def)

lemma new_filter_checker_test:
  "new_filter_checker compile fs = Inr c \<Longrightarrow>
   test_checker rmatch c v \<longleftrightarrow> fs = [] \<or> (\<exists>f \<in> set fs. entry_matches compile rmatch v f)"
  by (auto simp: new_filter_checker_def add_entries_test split: if_splits sum.splits)

lemma new_filter_checker_ok:
  "is_ok (new_filter_checker compile fs) \<longleftrightarrow> (\<forall>f \<in> set fs. entry_valid compile f)"
proof (cases "fs = []")
  case True
  then show ?thesis by (simp add: new_filter_checker_def)
next
  case False
  then have "is_ok (new_filter_checker compile fs) = is_ok (add_entries compile fs empty_checker)"
    by (auto simp: new_filter_checker_def is_ok_def split: sum.splits)
  then show ?thesis by (simp add: add_entries_ok)
qed

section \<open>The metric filter\<close>

record metrics_config =
  cfg_cost :: "filter_entry list"
  cfg_observability :: "filter_entry list"
  cfg_cost_labels :: "filter_entry list"
  cfg_observability_labels :: "filter_entry list"

record 'r metric_filter =
  mf_cost :: "'r filter_checker option"
  mf_observability :: "'r filter_checker option"
  mf_cost_labels :: "'r filter_checker option"
  mf_observability_labels :: "'r filter_checker option"

datatype metric_filter_error =
    CostFilterError filter_error
  | CostLabelsFilterError filter_error
  | ObservabilityFilterError filter_error
  | ObservabilityLabelsFilterError filter_error

definition new_metric_filter ::
  "(string \<Rightarrow> 'r option) \<Rightarrow> metrics_config \<Rightarrow> (metric_filter_error, 'r metric_filter option) result"
where
  "new_metric_filter compile cfg =
     (case new_filter_checker compile (cfg_cost cfg) of
        Inl e \<Rightarrow> Inl (CostFilterError e)
      | Inr c \<Rightarrow>
     (case new_filter_checker compile (cfg_cost_labels cfg) of
        Inl e \<Rightarrow> Inl (CostLabelsFilterError e)
      | Inr cl \<Rightarrow>
     (case new_filter_checker compile (cfg_observability cfg) of
        Inl e \<Rightarrow> Inl (ObservabilityFilterError e)
      | Inr ob \<Rightarrow>
     (case new_filter_checker compile (cfg_observability_labels cfg) of
        Inl e \<Rightarrow> Inl (ObservabilityLabelsFilterError e)
      | Inr ol \<Rightarrow>
          (let haveFilter = (cfg_cost cfg \<noteq> [] \<or> cfg_cost_labels cfg \<noteq> [] \<or>
                             cfg_observability cfg \<noteq> [] \<or> cfg_observability_labels cfg \<noteq> [])
           in Inr (if haveFilter
                   then Some \<lparr>mf_cost = c, mf_observability = ob,
                              mf_cost_labels = cl, mf_observability_labels = ol\<rparr>
                   else None))))))"

definition project_labels ::
  "('r \<Rightarrow> string \<Rightarrow> bool) \<Rightarrow> 'r filter_checker option \<Rightarrow> metric \<Rightarrow> metric"
where
  "project_labels rmatch c m =
     (case c of
        None \<Rightarrow> m
      | Some _ \<Rightarrow> m\<lparr>m_labels := Some (fmfilter (test_checker rmatch c) (label_map (m_labels m)))\<rparr>)"

fun filter_loop ::
  "('r \<Rightarrow> string \<Rightarrow> bool) \<Rightarrow> 'r metric_filter \<Rightarrow> metric list \<Rightarrow> metric list \<times> metric list \<times> metric list"
where
  "filter_loop rmatch mf [] = ([], [], [])"
| "filter_loop rmatch mf (m # ms) =
     (let (cost, obs, dropped) = filter_loop rmatch mf ms;
          matchedCost = (mf_cost mf = None \<or> test_checker rmatch (mf_cost mf) (metric_name m));
          matchedObservability =
            (mf_observability mf = None \<or> test_checker rmatch (mf_observability mf) (metric_name m))
      in (if matchedCost then project_labels rmatch (mf_cost_labels mf) m # cost else cost,
          if matchedObservability then project_labels rmatch (mf_observability_labels mf) m # obs else obs,
          if \<not> matchedCost \<and> \<not> matchedObservability then m # dropped else dropped))"

definition filter_metrics ::
  "('r \<Rightarrow> string \<Rightarrow> bool) \<Rightarrow> 'r metric_filter option \<Rightarrow> metric slice \<Rightarrow>
   metric slice \<times> metric slice \<times> metric slice"
where
  "filter_metrics rmatch mfo ms =
     (case mfo of
        None \<Rightarrow> (ms, ms, None)
      | Some mf \<Rightarrow>
          (let (cost, obs, dropped) = filter_loop rmatch mf (elems ms)
           in (appended cost, appended obs, appended dropped)))"

lemma filter_loop_eq:
  "filter_loop rmatch mf ms =
     (map (project_labels rmatch (mf_cost_labels mf))
        (filter (\<lambda>m. test_checker rmatch (mf_cost mf) (metric_name m)) ms),
      map (project_labels rmatch (mf_observability_labels mf))
        (filter (\<lambda>m. test_checker rmatch (mf_observability mf) (metric_name m)) ms),
      filter (\<lambda>m. \<not> test_checker rmatch (mf_cost mf) (metric_name m) \<and>
                  \<not> test_checker rmatch (mf_observability mf) (metric_name m)) ms)"
  by (induction ms) (auto simp: Let_def)

lemma project_labels_fields [simp]:
  "metric_name (project_labels rmatch c m) = metric_name m"
  "m_value (project_labels rmatch c m) = m_value m"
  "m_id (project_labels rmatch c m) = m_id m"
  "node_name (project_labels rmatch c m) = node_name m"
  "time_stamp (project_labels rmatch c m) = time_stamp m"
  by (auto simp: project_labels_def split: option.splits)

lemma project_labels_lookup:
  "fmlookup (label_map (m_labels (project_labels rmatch c m))) k =
     (if test_checker rmatch c k then fmlookup (label_map (m_labels m)) k else None)"
  by (auto simp: project_labels_def split: option.splits)

lemma hoisted_project_labels: "hoisted m \<Longrightarrow> hoisted (project_labels rmatch c m)"
  by (simp add: hoisted_def project_labels_lookup)

lemmas filter_facts = filter_loop_eq project_labels_lookup new_filter_checker_test new_filter_checker_ok

text \<open>What the configuration, read rule by rule, says of a metric name: routed to the cost
  store, to the observability store.\<close>

definition wants ::
  "(string \<Rightarrow> 'r option) \<Rightarrow> ('r \<Rightarrow> string \<Rightarrow> bool) \<Rightarrow> filter_entry list \<Rightarrow> string \<Rightarrow> bool"
where
  "wants compile rmatch fs v \<longleftrightarrow> fs = [] \<or> (\<exists>f \<in> set fs. entry_matches compile rmatch v f)"

definition keep_labels ::
  "(string \<Rightarrow> 'r option) \<Rightarrow> ('r \<Rightarrow> string \<Rightarrow> bool) \<Rightarrow> filter_entry list \<Rightarrow> metric \<Rightarrow> metric"
where
  "keep_labels compile rmatch fs m =
     (if fs = [] then m
      else m\<lparr>m_labels := Some (fmfilter (wants compile rmatch fs) (label_map (m_labels m)))\<rparr>)"

lemma test_checker_wants:
  "new_filter_checker compile fs = Inr c \<Longrightarrow> test_checker rmatch c = wants compile rmatch fs"
  by (rule ext) (simp add: new_filter_checker_test wants_def)

lemma new_filter_checker_None:
  "new_filter_checker compile fs = Inr c \<Longrightarrow> c = None \<longleftrightarrow> fs = []"
  by (auto simp: new_filter_checker_def split: if_splits sum.splits)

lemma project_labels_keep:
  assumes "new_filter_checker compile fs = Inr c"
  shows "project_labels rmatch c = keep_labels compile rmatch fs"
  using new_filter_checker_None [OF assms] test_checker_wants [OF assms, of rmatch]
  by (intro ext) (auto simp: project_labels_def keep_labels_def split: option.splits)

lemma new_metric_filter_parts:
  assumes "new_metric_filter compile cfg = Inr mfo"
  obtains c cl ob ol where
    "new_filter_checker compile (cfg_cost cfg) = Inr c"
    "new_filter_checker compile (cfg_cost_labels cfg) = Inr cl"
    "new_filter_checker compile (cfg_observability cfg) = Inr ob"
    "new_filter_checker compile (cfg_observability_labels cfg) = Inr ol"
    "mfo = (if cfg_cost cfg \<noteq> [] \<or> cfg_cost_labels cfg \<noteq> [] \<or> cfg_observability cfg \<noteq> [] \<or>
               cfg_observability_labels cfg \<noteq> []
            then Some \<lparr>mf_cost = c, mf_observability = ob, mf_cost_labels = cl,
                       mf_observability_labels = ol\<rparr> else None)"
  using assms by (auto simp: new_metric_filter_def Let_def split: sum.splits)

lemma filter_metrics_spec:
  assumes "new_metric_filter compile cfg = Inr mfo"
    and "filter_metrics rmatch mfo ms = (cost, obs, dropped)"
  shows "elems cost = map (keep_labels compile rmatch (cfg_cost_labels cfg))
           (filter (\<lambda>m. wants compile rmatch (cfg_cost cfg) (metric_name m)) (elems ms))"
    and "elems obs = map (keep_labels compile rmatch (cfg_observability_labels cfg))
           (filter (\<lambda>m. wants compile rmatch (cfg_observability cfg) (metric_name m)) (elems ms))"
    and "elems dropped = filter (\<lambda>m. \<not> wants compile rmatch (cfg_cost cfg) (metric_name m) \<and>
           \<not> wants compile rmatch (cfg_observability cfg) (metric_name m)) (elems ms)"
proof -
  from assms(1) obtain c cl ob ol where parts:
    "new_filter_checker compile (cfg_cost cfg) = Inr c"
    "new_filter_checker compile (cfg_cost_labels cfg) = Inr cl"
    "new_filter_checker compile (cfg_observability cfg) = Inr ob"
    "new_filter_checker compile (cfg_observability_labels cfg) = Inr ol"
    and mfo: "mfo = (if cfg_cost cfg \<noteq> [] \<or> cfg_cost_labels cfg \<noteq> [] \<or> cfg_observability cfg \<noteq> [] \<or>
               cfg_observability_labels cfg \<noteq> []
            then Some \<lparr>mf_cost = c, mf_observability = ob, mf_cost_labels = cl,
                       mf_observability_labels = ol\<rparr> else None)"
    by (rule new_metric_filter_parts)
  note t = parts [THEN test_checker_wants, where rmatch = rmatch]
    and p = parts [THEN project_labels_keep, where rmatch = rmatch]
  have "elems cost = map (keep_labels compile rmatch (cfg_cost_labels cfg))
           (filter (\<lambda>m. wants compile rmatch (cfg_cost cfg) (metric_name m)) (elems ms)) \<and>
        elems obs = map (keep_labels compile rmatch (cfg_observability_labels cfg))
           (filter (\<lambda>m. wants compile rmatch (cfg_observability cfg) (metric_name m)) (elems ms)) \<and>
        elems dropped = filter (\<lambda>m. \<not> wants compile rmatch (cfg_cost cfg) (metric_name m) \<and>
           \<not> wants compile rmatch (cfg_observability cfg) (metric_name m)) (elems ms)"
  proof (cases "cfg_cost cfg \<noteq> [] \<or> cfg_cost_labels cfg \<noteq> [] \<or> cfg_observability cfg \<noteq> [] \<or>
               cfg_observability_labels cfg \<noteq> []")
    case True
    then show ?thesis
      using assms(2) mfo by (auto simp: filter_metrics_def filter_loop_eq t p)
  next
    case False
    moreover have "map (keep_labels compile rmatch []) xs = xs" for xs
      by (simp add: keep_labels_def map_idI)
    ultimately show ?thesis
      using assms(2) mfo by (auto simp: filter_metrics_def wants_def)
  qed
  then show "elems cost = map (keep_labels compile rmatch (cfg_cost_labels cfg))
           (filter (\<lambda>m. wants compile rmatch (cfg_cost cfg) (metric_name m)) (elems ms))"
    and "elems obs = map (keep_labels compile rmatch (cfg_observability_labels cfg))
           (filter (\<lambda>m. wants compile rmatch (cfg_observability cfg) (metric_name m)) (elems ms))"
    and "elems dropped = filter (\<lambda>m. \<not> wants compile rmatch (cfg_cost cfg) (metric_name m) \<and>
           \<not> wants compile rmatch (cfg_observability cfg) (metric_name m)) (elems ms)"
    by blast+
qed

lemma new_metric_filter_ok:
  "is_ok (new_metric_filter compile cfg) \<longleftrightarrow>
     list_all (entry_valid compile)
       (cfg_cost cfg @ cfg_cost_labels cfg @ cfg_observability cfg @ cfg_observability_labels cfg)"
proof -
  have "is_ok (new_metric_filter compile cfg) \<longleftrightarrow>
      is_ok (new_filter_checker compile (cfg_cost cfg)) \<and>
      is_ok (new_filter_checker compile (cfg_cost_labels cfg)) \<and>
      is_ok (new_filter_checker compile (cfg_observability cfg)) \<and>
      is_ok (new_filter_checker compile (cfg_observability_labels cfg))"
    by (auto simp: new_metric_filter_def is_ok_def Let_def split: sum.splits)
  then show ?thesis by (auto simp: new_filter_checker_ok list_all_iff)
qed

section \<open>Properties\<close>

text \<open>Building a filter checker fails exactly when a rule has an unknown match type or a
  regular expression that does not compile; otherwise the checker, which groups its rules by
  match type, accepts a name exactly when some single rule matches it, and a filter with no
  rules accepts every name.\<close>

theorem filter_checker_reference:
  "case new_filter_checker compile fs of
     Inl e \<Rightarrow> \<not> list_all (entry_valid compile) fs
   | Inr c \<Rightarrow> list_all (entry_valid compile) fs \<and>
             (\<forall>v. test_checker rmatch c v \<longleftrightarrow> fs = [] \<or> list_ex (entry_matches compile rmatch v) fs)"
  using new_filter_checker_ok [of compile fs]
  by (auto simp: is_ok_def list_all_iff list_ex_iff new_filter_checker_test split: sum.splits)


end
