(* ===== verification/Gator_Settings.thy ===== *)
theory Gator_Settings
  imports Cloud_Scout Disk_Store Metric_Filters
begin

text \<open>
  The settings that collector and shipper share (\<open>app/config/gator/settings.go\<close>): loading and
  validation, the API key and its refresh, the URL of the upload API and the size of the
  storage.

  The file system, the YAML reader, the parsers of URLs and of Kubernetes quantities and the
  outcome of the scout are an environment.  The methods that change the settings before they fail
  return the changed settings beside the error.
\<close>

section \<open>Data\<close>

definition DefaultCZHost :: string where "DefaultCZHost = ''api.cloudzero.com''"
definition nanoseconds :: int where "nanoseconds = 1000000000"
definition DefaultCZSendInterval :: int where "DefaultCZSendInterval = 600 * nanoseconds"
definition DefaultCZSendTimeout :: int where "DefaultCZSendTimeout = 10 * nanoseconds"
definition DefaultCZRotateInterval :: int where "DefaultCZRotateInterval = 600 * nanoseconds"
definition DefaultServerPort :: nat where "DefaultServerPort = 8080"
definition DefaultServerMode :: string where "DefaultServerMode = ''http''"

definition gator_MaxRecords :: int where "gator_MaxRecords = 1500000"
definition gator_CostMaxInterval :: int where "gator_CostMaxInterval = 600 * nanoseconds"
definition gator_ObservabilityMaxInterval :: int where "gator_ObservabilityMaxInterval = 1800 * nanoseconds"

record server_config =
  sv_mode :: string
  sv_port :: nat
  sv_profiling :: bool
  sv_reconnect :: int

record purge_rules =
  MetricsOlderThan :: int
  Lazy :: bool
  Percent :: int

text \<open>The part of the database settings that the disk store reads, and the rest.\<close>

record gator_database = database_config +
  PurgeRules :: purge_rules
  AvailableStorage :: string

text \<open>\<open>cz_cached\<close> is \<open>_host\<close>, the configured host that the URL of the upload API then replaces.\<close>

record cloudzero_config =
  APIKeyPath :: string
  RotateInterval :: int
  SendInterval :: int
  SendTimeout :: int
  HTTPMaxRetries :: int
  HTTPMaxWait :: int
  Host :: string
  UseHTTP :: bool
  cz_apiKey :: string
  cz_cached :: string

record logging_config =
  lg_level :: string
  lg_capture :: bool

record gator_settings =
  CloudAccountID :: string
  Region :: string
  ClusterName :: string
  st_server :: server_config
  st_logging :: logging_config
  st_metrics :: metrics_config
  st_database :: gator_database
  st_cloudzero :: cloudzero_config

record url =
  u_scheme :: string
  u_host :: string
  u_path :: string
  u_query :: string

text \<open>
  \<open>gv_missing\<close>: \<open>stat\<close> of the path says that it does not exist (another error counts as present);
  \<open>gv_read\<close>: the contents of a file; \<open>gv_wd\<close>: the working directory; \<open>gv_load\<close>: what the YAML reader
  makes of a file on top of the settings read before; \<open>gv_quantity\<close>: the value of a quantity.
\<close>

record gator_env =
  gv_missing :: "string \<Rightarrow> bool"
  gv_read :: "string \<Rightarrow> string option"
  gv_wd :: "string option"
  gv_load :: "string \<Rightarrow> gator_settings \<Rightarrow> gator_settings option"
  gv_quantity :: "string \<Rightarrow> int option"
  gv_parse_url :: "string \<Rightarrow> url option"
  gv_url_string :: "url \<Rightarrow> string"
  gv_valid_url :: "string \<Rightarrow> bool"
  gv_scouted :: "environment_info found"

section \<open>Validation\<close>

definition server_Validate :: "server_config \<Rightarrow> server_config" where
  "server_Validate s =
     s\<lparr>sv_mode := (if sv_mode s = [] then DefaultServerMode else sv_mode s),
       sv_port := (if sv_port s = 0 then DefaultServerPort else sv_port s)\<rparr>"

definition database_Validate :: "gator_env \<Rightarrow> gator_database \<Rightarrow> string option \<times> gator_database" where
  "database_Validate v d0 =
     (let d = d0\<lparr>MaxRecords := (if MaxRecords d0 \<le> 0 then gator_MaxRecords else MaxRecords d0),
                CostMaxInterval := (if CostMaxInterval d0 \<le> 0 then gator_CostMaxInterval else CostMaxInterval d0),
                ObservabilityMaxInterval :=
                  (if ObservabilityMaxInterval d0 \<le> 0 then gator_ObservabilityMaxInterval
                   else ObservabilityMaxInterval d0)\<rparr>
      in if gv_missing v (StoragePath d) then (Some ''database storage path does not exist'', d)
         else if AvailableStorage d \<noteq> [] \<and> gv_quantity v (AvailableStorage d) = None
         then (Some ''failed to parse the size_limit quantity'', d)
         else (None, d))"

definition cloudzero_Validate :: "gator_env \<Rightarrow> cloudzero_config \<Rightarrow> string option \<times> cloudzero_config" where
  "cloudzero_Validate v c0 =
     (let c = c0\<lparr>Host := (if Host c0 = [] then DefaultCZHost else Host c0),
                SendInterval := (if SendInterval c0 \<le> 0 then DefaultCZSendInterval else SendInterval c0),
                SendTimeout := (if SendTimeout c0 \<le> 0 then DefaultCZSendTimeout else SendTimeout c0),
                RotateInterval := (if RotateInterval c0 \<le> 0 then DefaultCZRotateInterval else RotateInterval c0)\<rparr>
      in if APIKeyPath c = [] then (Some ''API key path is empty'', c)
         else if gv_missing v (APIKeyPath c) then (Some ''API key path does not exist'', c)
         else (None, c))"

text \<open>The detection gets pointers to the three values, so none of them is absent.\<close>

definition settled :: "string option \<Rightarrow> string" where
  "settled v = (case v of None \<Rightarrow> [] | Some s \<Rightarrow> s)"

definition Validate :: "gator_env \<Rightarrow> gator_settings \<Rightarrow> string option \<times> gator_settings" where
  "Validate v s0 =
     (let s = s0\<lparr>CloudAccountID := trim_space (CloudAccountID s0), Region := trim_space (Region s0)\<rparr>
      in (case DetectConfiguration (gv_scouted v) (Some (Region s)) (Some (CloudAccountID s)) (Some (ClusterName s)) of
            (err, r, a, c) \<Rightarrow>
              (let s = s\<lparr>Region := settled r, CloudAccountID := settled a, ClusterName := settled c\<rparr>
               in if err \<noteq> None then (Some ''failed to auto-detect cloud environment'', s)
                  else
                    (let s = s\<lparr>ClusterName := trim_space (ClusterName s)\<rparr>
                     in if ClusterName s = [] then (Some ''cluster name is empty'', s)
                        else
                          (let s = s\<lparr>st_server := server_Validate (st_server s)\<rparr>
                           in (case database_Validate v (st_database s) of
                                 (Some e, d) \<Rightarrow> (Some ''database validation'', s\<lparr>st_database := d\<rparr>)
                               | (None, d) \<Rightarrow>
                                   (let s = s\<lparr>st_database := d\<rparr>
                                    in (case cloudzero_Validate v (st_cloudzero s) of
                                          (Some e, z) \<Rightarrow> (Some ''cloudzero validation'', s\<lparr>st_cloudzero := z\<rparr>)
                                        | (None, z) \<Rightarrow> (None, s\<lparr>st_cloudzero := z\<rparr>)))))))))"

section \<open>The API key\<close>

definition absFilePath :: "gator_env \<Rightarrow> string \<Rightarrow> string option" where
  "absFilePath v location =
     (let dir = go_dir (go_clean location)
      in if dir = [] \<or> prefix ''.'' dir then
           map_option (\<lambda>wd. go_clean (go_path_join [wd, location])) (gv_wd v)
         else Some location)"

definition GetAPIKey :: "gator_settings \<Rightarrow> string" where
  "GetAPIKey s = cz_apiKey (st_cloudzero s)"

definition SetAPIKey :: "gator_env \<Rightarrow> gator_settings \<Rightarrow> string option \<times> gator_settings" where
  "SetAPIKey v s =
     (case absFilePath v (APIKeyPath (st_cloudzero s)) of
        None \<Rightarrow> (Some ''failed to get absolute path'', s)
      | Some p \<Rightarrow>
          if gv_missing v p then (Some ''API key file not found'', s)
          else (case gv_read v (APIKeyPath (st_cloudzero s)) of
                  None \<Rightarrow> (Some ''failed to read API key'', s)
                | Some text \<Rightarrow>
                    (let s' = s\<lparr>st_cloudzero := (st_cloudzero s)\<lparr>cz_apiKey := trim_space text\<rparr>\<rparr>
                     in if GetAPIKey s' = [] then (Some ''API key is empty'', s') else (None, s'))))"

section \<open>The remote API\<close>

definition upload_query :: "gator_settings \<Rightarrow> (string \<times> string) list" where
  "upload_query s =
     [(''cloud_account_id'', CloudAccountID s), (''cluster_name'', ClusterName s), (''region'', Region s)]"

definition SetRemoteUploadAPI :: "gator_env \<Rightarrow> gator_settings \<Rightarrow> string option \<times> gator_settings" where
  "SetRemoteUploadAPI v s0 =
     (if Host (st_cloudzero s0) = [] then (Some ''host is empty'', s0)
      else (let s = s0\<lparr>st_cloudzero := (st_cloudzero s0)\<lparr>cz_cached := Host (st_cloudzero s0)\<rparr>\<rparr>
            in (case gv_parse_url v (''https://'' @ Host (st_cloudzero s)) of
                  None \<Rightarrow> (Some ''failed to parse host'', s)
                | Some base \<Rightarrow>
                    (let u = gv_url_string v
                           (base\<lparr>u_path := u_path base @ ''/v1/container-metrics/upload'',
                                 u_query := values_encode (upload_query s)\<rparr>)
                     in if \<not> gv_valid_url v u then (Some ''invalid URL'', s)
                        else (None, s\<lparr>st_cloudzero := (st_cloudzero s)\<lparr>Host := u\<rparr>\<rparr>)))))"

definition GetRemoteAPIBase :: "gator_env \<Rightarrow> gator_settings \<Rightarrow> url option \<times> gator_settings" where
  "GetRemoteAPIBase v s0 =
     (let c = st_cloudzero s0;
          s = (if cz_cached c = [] then s0\<lparr>st_cloudzero := c\<lparr>cz_cached := Host c\<rparr>\<rparr> else s0);
          host = cz_cached (st_cloudzero s);
          val = (if go_contains host ''://'' then host else ''http://'' @ host)
      in (map_option (\<lambda>u. u\<lparr>u_scheme := (if UseHTTP (st_cloudzero s) then ''http'' else ''https''),
                            u_path := u_path u @ ''/v1/container-metrics''\<rparr>) (gv_parse_url v val), s))"

section \<open>Loading\<close>

fun load_files :: "gator_env \<Rightarrow> string list \<Rightarrow> gator_settings \<Rightarrow> (string, gator_settings) result" where
  "load_files v [] cfg = Inr cfg"
| "load_files v (f # fs) cfg =
     (if f = [] then load_files v fs cfg
      else if gv_missing v f then Inl (''no config '' @ f)
      else (case gv_load v f cfg of
              None \<Rightarrow> Inl (''config read '' @ f)
            | Some cfg' \<Rightarrow> load_files v fs cfg'))"

definition zero_settings :: gator_settings where
  "zero_settings =
     \<lparr>CloudAccountID = [], Region = [], ClusterName = [],
      st_server = \<lparr>sv_mode = [], sv_port = 0, sv_profiling = False, sv_reconnect = 0\<rparr>,
      st_logging = \<lparr>lg_level = [], lg_capture = False\<rparr>,
      st_metrics = \<lparr>cfg_cost = [], cfg_observability = [], cfg_cost_labels = [], cfg_observability_labels = []\<rparr>,
      st_database = \<lparr>StoragePath = [], MaxRecords = 0, CompressionLevel = 0, CostMaxInterval = 0,
        ObservabilityMaxInterval = 0, PurgeRules = \<lparr>MetricsOlderThan = 0, Lazy = False, Percent = 0\<rparr>,
        AvailableStorage = []\<rparr>,
      st_cloudzero = \<lparr>APIKeyPath = [], RotateInterval = 0, SendInterval = 0, SendTimeout = 0,
        HTTPMaxRetries = 0, HTTPMaxWait = 0, Host = [], UseHTTP = False, cz_apiKey = [], cz_cached = []\<rparr>\<rparr>"

text \<open>\<open>files\<close> is none for a nil slice.\<close>

definition NewSettings :: "gator_env \<Rightarrow> string slice \<Rightarrow> (string, gator_settings) result" where
  "NewSettings v files =
     (case files of
        None \<Rightarrow> Inl ''the config files slice cannot be nil''
      | Some fs \<Rightarrow>
          (case load_files v fs zero_settings of
             Inl e \<Rightarrow> Inl e
           | Inr cfg \<Rightarrow>
               (case Validate v cfg of
                  (Some e, _) \<Rightarrow> Inl ''failed to validate settings''
                | (None, cfg) \<Rightarrow>
                    (case SetAPIKey v cfg of
                       (Some e, _) \<Rightarrow> Inl ''failed to get API key''
                     | (None, cfg) \<Rightarrow>
                         (case SetRemoteUploadAPI v cfg of
                            (Some e, _) \<Rightarrow> Inl ''failed to set remote upload API''
                          | (None, cfg) \<Rightarrow> Inr cfg)))))"

text \<open>The size in bytes; none where the conversion of a negative size panics.\<close>

definition GetAvailableSizeBytes :: "gator_env \<Rightarrow> gator_settings \<Rightarrow> 64 word option" where
  "GetAvailableSizeBytes v s =
     (if AvailableStorage (st_database s) = [] then Some 0
      else (case gv_quantity v (AvailableStorage (st_database s)) of
              None \<Rightarrow> Some 0
            | Some q \<Rightarrow> if q < 0 then None else Some (word_of_int q)))"

section \<open>What validation establishes\<close>

lemmas config_fields = server_config.simps purge_rules.simps database_config.simps gator_database.simps
  cloudzero_config.simps gator_settings.simps

definition valid_server :: "server_config \<Rightarrow> bool" where
  "valid_server s \<longleftrightarrow> sv_mode s \<noteq> [] \<and> sv_port s \<noteq> 0"

definition valid_database :: "gator_env \<Rightarrow> gator_database \<Rightarrow> bool" where
  "valid_database v d \<longleftrightarrow> 0 < MaxRecords d \<and> 0 < CostMaxInterval d \<and> 0 < ObservabilityMaxInterval d \<and>
     \<not> gv_missing v (StoragePath d) \<and>
     (AvailableStorage d = [] \<or> gv_quantity v (AvailableStorage d) \<noteq> None)"

definition valid_cloudzero :: "gator_env \<Rightarrow> cloudzero_config \<Rightarrow> bool" where
  "valid_cloudzero v c \<longleftrightarrow> Host c \<noteq> [] \<and> 0 < SendInterval c \<and> 0 < SendTimeout c \<and> 0 < RotateInterval c \<and>
     APIKeyPath c \<noteq> [] \<and> \<not> gv_missing v (APIKeyPath c)"

lemma server_Validate_valid: "valid_server (server_Validate s)"
  by (simp add: valid_server_def server_Validate_def DefaultServerMode_def DefaultServerPort_def)

lemma server_Validate_same: "valid_server s \<Longrightarrow> server_Validate s = s"
  by (simp add: valid_server_def server_Validate_def)

lemma database_Validate_valid: "database_Validate v d0 = (None, d) \<Longrightarrow> valid_database v d"
  by (auto simp: database_Validate_def valid_database_def Let_def gator_MaxRecords_def gator_CostMaxInterval_def
      gator_ObservabilityMaxInterval_def nanoseconds_def split: if_splits)

lemma database_Validate_storage: "AvailableStorage (snd (database_Validate v d0)) = AvailableStorage d0"
  by (simp add: database_Validate_def Let_def)

lemma database_Validate_same: "valid_database v d \<Longrightarrow> database_Validate v d = (None, d)"
  by (auto simp: database_Validate_def valid_database_def Let_def)

lemma cloudzero_Validate_valid: "cloudzero_Validate v c0 = (None, c) \<Longrightarrow> valid_cloudzero v c"
  by (auto simp: cloudzero_Validate_def valid_cloudzero_def Let_def DefaultCZHost_def DefaultCZSendInterval_def
      DefaultCZSendTimeout_def DefaultCZRotateInterval_def nanoseconds_def split: if_splits)

lemma cloudzero_Validate_same: "valid_cloudzero v c \<Longrightarrow> cloudzero_Validate v c = (None, c)"
  by (auto simp: cloudzero_Validate_def valid_cloudzero_def Let_def)

lemma cloudzero_Validate_key: "cloudzero_Validate v c0 = (None, c) \<Longrightarrow> cz_apiKey c = cz_apiKey c0 \<and> cz_cached c = cz_cached c0"
  by (auto simp: cloudzero_Validate_def Let_def split: if_splits)

lemma DetectConfiguration_given:
  "DetectConfiguration sc (Some r0) (Some a0) (Some c0) = (None, r, a, c) \<Longrightarrow>
   \<exists>r' a' c'. r = Some r' \<and> a = Some a' \<and> c = Some c' \<and> r' \<noteq> [] \<and> a' \<noteq> [] \<and> c' \<noteq> []"
  by (auto simp: DetectConfiguration_def settle_def needsDetection_def Let_def split: sum.splits if_splits)

text \<open>An accepted validation in one step: what the detection answered and what each part became.\<close>

lemma Validate_parts:
  assumes "Validate v s0 = (None, s)"
  obtains r a c d z where
    "DetectConfiguration (gv_scouted v) (Some (trim_space (Region s0))) (Some (trim_space (CloudAccountID s0)))
       (Some (ClusterName s0)) = (None, Some r, Some a, Some c)"
    "r \<noteq> []" "a \<noteq> []" "trim_space c \<noteq> []"
    "database_Validate v (st_database s0) = (None, d)" "cloudzero_Validate v (st_cloudzero s0) = (None, z)"
    "s = s0\<lparr>Region := r, CloudAccountID := a, ClusterName := trim_space c,
            st_server := server_Validate (st_server s0), st_database := d, st_cloudzero := z\<rparr>"
proof -
  obtain err r a c where D: "DetectConfiguration (gv_scouted v) (Some (trim_space (Region s0)))
      (Some (trim_space (CloudAccountID s0))) (Some (ClusterName s0)) = (err, r, a, c)"
    by (cases "DetectConfiguration (gv_scouted v) (Some (trim_space (Region s0)))
      (Some (trim_space (CloudAccountID s0))) (Some (ClusterName s0))")
  have e: "err = None" using assms D by (cases err) (auto simp: Validate_def Let_def)
  from DetectConfiguration_given [OF D [unfolded e]] obtain r' a' c'
    where n: "r = Some r'" "a = Some a'" "c = Some c'" "r' \<noteq> []" "a' \<noteq> []" by blast
  obtain e1 d where d: "database_Validate v (st_database s0) = (e1, d)" by fastforce
  obtain e2 z where z: "cloudzero_Validate v (st_cloudzero s0) = (e2, z)" by fastforce
  have t: "trim_space c' \<noteq> []" using assms D e n by (auto simp: Validate_def Let_def settled_def split: if_splits)
  have e1: "e1 = None"
    using assms D e n t d by (cases e1) (simp_all add: Validate_def Let_def settled_def)
  have e2: "e2 = None"
    using assms D e n t d z e1 by (cases e2) (simp_all add: Validate_def Let_def settled_def)
  have "s = s0\<lparr>Region := r', CloudAccountID := a', ClusterName := trim_space c',
            st_server := server_Validate (st_server s0), st_database := d, st_cloudzero := z\<rparr>"
    using assms D e n t d z e1 e2 by (simp add: Validate_def Let_def settled_def)
  with D e n t d z e1 e2 that show thesis by blast
qed

definition valid_settings :: "gator_env \<Rightarrow> gator_settings \<Rightarrow> bool" where
  "valid_settings v s \<longleftrightarrow> Region s \<noteq> [] \<and> CloudAccountID s \<noteq> [] \<and> ClusterName s \<noteq> [] \<and>
     trim_space (ClusterName s) = ClusterName s \<and> valid_server (st_server s) \<and>
     valid_database v (st_database s) \<and> valid_cloudzero v (st_cloudzero s)"

lemma Validate_valid: "Validate v s0 = (None, s) \<Longrightarrow> valid_settings v s"
  by (elim Validate_parts)
    (simp add: valid_settings_def server_Validate_valid database_Validate_valid cloudzero_Validate_valid)

lemma SetAPIKey_ok:
  "SetAPIKey v s = (None, s') \<Longrightarrow> \<exists>k. k \<noteq> [] \<and> map_option trim_space (gv_read v (APIKeyPath (st_cloudzero s))) = Some k \<and>
     s' = s\<lparr>st_cloudzero := (st_cloudzero s)\<lparr>cz_apiKey := k\<rparr>\<rparr>"
  by (auto simp: SetAPIKey_def GetAPIKey_def Let_def split: option.splits if_splits)

lemma SetRemoteUploadAPI_ok:
  assumes "SetRemoteUploadAPI v s = (None, s')"
  shows "\<exists>base u. gv_parse_url v (''https://'' @ Host (st_cloudzero s)) = Some base \<and> gv_valid_url v u \<and>
     u = gv_url_string v (base\<lparr>u_path := u_path base @ ''/v1/container-metrics/upload'',
                              u_query := values_encode (upload_query s)\<rparr>) \<and>
     s' = s\<lparr>st_cloudzero := (st_cloudzero s)\<lparr>cz_cached := Host (st_cloudzero s), Host := u\<rparr>\<rparr>"
  using assms by (auto simp: SetRemoteUploadAPI_def Let_def upload_query_def split: if_splits option.splits)

lemma upload_query_read [simp]: "parse_query (values_encode (upload_query s)) = Some (upload_query s)"
  by (rule parse_values_encode) (simp add: upload_query_def)

lemma NewSettings_parts:
  assumes "NewSettings v files = Inr s"
  obtains s0 s1 s2 where "Validate v s0 = (None, s1)" "SetAPIKey v s1 = (None, s2)"
    "SetRemoteUploadAPI v s2 = (None, s)"
  using assms that by (auto simp: NewSettings_def split: option.splits sum.splits prod.splits)

text \<open>Detecting again with the values that a detection settled settles them the same way.\<close>

lemma DetectConfiguration_again:
  assumes "DetectConfiguration sc (Some r0) (Some a0) (Some c0) = (None, Some r, Some a, Some c)" and "c' \<noteq> []"
  shows "DetectConfiguration sc (Some r) (Some a) (Some c') =
    (None, Some r, Some a, Some (case sc of
       Inl e \<Rightarrow> c'
     | Inr ei \<Rightarrow> if ei_provider ei = CloudProviderUnknown \<or> ei_cluster ei = [] then c' else ei_cluster ei))"
  using assms by (auto simp: DetectConfiguration_def settle_def needsDetection_def Let_def split: sum.splits if_splits)

lemma DetectConfiguration_cluster:
  assumes "DetectConfiguration sc (Some r0) (Some a0) (Some c0) = (None, Some r, Some a, Some c)"
  shows "c = (case sc of
       Inl e \<Rightarrow> c0
     | Inr ei \<Rightarrow> if ei_provider ei = CloudProviderUnknown \<or> ei_cluster ei = [] then c0 else ei_cluster ei)"
  using assms by (auto simp: DetectConfiguration_def settle_def needsDetection_def Let_def split: sum.splits if_splits)

lemma DetectConfiguration_trimmed:
  assumes "DetectConfiguration sc (Some (trim_space r0)) (Some (trim_space a0)) (Some c0) = (None, Some r, Some a, Some c)"
    and "\<And>ei. sc = Inr ei \<Longrightarrow> trim_space (ei_region ei) = ei_region ei \<and> trim_space (ei_account ei) = ei_account ei"
  shows "trim_space r = r \<and> trim_space a = a"
  using assms by (auto simp: DetectConfiguration_def settle_def needsDetection_def Let_def split: sum.splits if_splits)

section \<open>Properties\<close>

definition sample_gator_env :: gator_env where
  "sample_gator_env = \<lparr>gv_missing = (\<lambda>_. False), gv_read = (\<lambda>_. Some ''key ''), gv_wd = Some ''/'',
     gv_load = (\<lambda>f s. Some (s\<lparr>ClusterName := '' prod '',
        st_database := (st_database s)\<lparr>StoragePath := ''/d'', AvailableStorage := ''5''\<rparr>,
        st_cloudzero := (st_cloudzero s)\<lparr>APIKeyPath := ''/k''\<rparr>\<rparr>)),
     gv_quantity = (\<lambda>_. Some 5), gv_parse_url = (\<lambda>s. Some \<lparr>u_scheme = [], u_host = s, u_path = [], u_query = []\<rparr>),
     gv_url_string = (\<lambda>u. u_host u @ u_path u @ ''?'' @ u_query u), gv_valid_url = (\<lambda>s. s \<noteq> []),
     gv_scouted = Inr \<lparr>ei_provider = CloudProviderAWS, ei_region = ''us-east-1'', ei_account = ''123'', ei_cluster = []\<rparr>\<rparr>"

lemma sample_NewSettings: "\<exists>s. NewSettings sample_gator_env (Some [''f'']) = Inr s"
  by (simp add: NewSettings_def sample_gator_env_def zero_settings_def Validate_def DetectConfiguration_def
      settle_def settled_def trim_space_def go_space_def database_Validate_def cloudzero_Validate_def SetAPIKey_def
      absFilePath_def GetAPIKey_def SetRemoteUploadAPI_def DefaultCZHost_def Let_def go_dir_def go_clean_def split: option.splits)



text \<open>Validation is stable: settings it accepted, with what the scouts detected filled in, are
  accepted again unchanged.\<close>

theorem validation_stable:
  assumes "gv_scouted v = auto_result A" and "auto_EnvironmentInfo (NewScout D) http acts new_auto = Some A"
    and "Validate v s0 = (None, s)"
  shows "Validate v s = (None, s)"
proof -
  from assms(3) obtain r a c d z where p:
    "DetectConfiguration (gv_scouted v) (Some (trim_space (Region s0))) (Some (trim_space (CloudAccountID s0)))
       (Some (ClusterName s0)) = (None, Some r, Some a, Some c)"
    "r \<noteq> []" "a \<noteq> []" "trim_space c \<noteq> []"
    "database_Validate v (st_database s0) = (None, d)" "cloudzero_Validate v (st_cloudzero s0) = (None, z)"
    "s = s0\<lparr>Region := r, CloudAccountID := a, ClusterName := trim_space c,
            st_server := server_Validate (st_server s0), st_database := d, st_cloudzero := z\<rparr>"
    by (rule Validate_parts)
  have t: "trim_space r = r" "trim_space a = a"
    using DetectConfiguration_trimmed [OF p(1)] auto_trimmed [OF assms(2)] assms(1) by auto
  have "\<exists>c'. DetectConfiguration (gv_scouted v) (Some r) (Some a) (Some (trim_space c)) =
      (None, Some r, Some a, Some c') \<and> trim_space c' = trim_space c"
    using DetectConfiguration_again [OF p(1) p(4)] DetectConfiguration_cluster [OF p(1)]
    by (auto split: sum.splits if_splits)
  then show ?thesis
    using p(4) t server_Validate_same [OF server_Validate_valid] database_Validate_same [OF database_Validate_valid [OF p(5)]]
      cloudzero_Validate_same [OF cloudzero_Validate_valid [OF p(6)]]
    unfolding p(7) by (auto simp: Validate_def Let_def settled_def)
qed

theorem validation_stable_witness:
  "\<exists>A s. auto_EnvironmentInfo (NewScout sample_decoders) aws_instance sample_schedule new_auto = Some A \<and>
     Validate (sample_gator_env\<lparr>gv_scouted := auto_result A\<rparr>) s = (None, s)"
proof -
  obtain A where A: "auto_EnvironmentInfo (NewScout sample_decoders) aws_instance sample_schedule new_auto = Some A"
    "auto_result A = Inr \<lparr>ei_provider = CloudProviderAWS, ei_region = ''us-east-1'', ei_account = ''123'', ei_cluster = []\<rparr>"
    using sample_detection by blast
  then have e: "sample_gator_env\<lparr>gv_scouted := auto_result A\<rparr> = sample_gator_env" by (simp add: sample_gator_env_def)
  obtain s0 s where "Validate sample_gator_env s0 = (None, s)" using sample_NewSettings NewSettings_parts by metis
  then have "Validate (sample_gator_env\<lparr>gv_scouted := auto_result A\<rparr>) s0 = (None, s)" by (simp only: e)
  from validation_stable [OF _ A(1) this] A(1) show ?thesis by auto
qed

text \<open>Refreshing the key gives it up before it has a new one: where the key file is there but blank, as
  it is while it is being rewritten, the refresh fails and the key is gone, while every other
  failure keeps the key.\<close>

theorem refresh_drops_key:
  "(\<exists>p. absFilePath v (APIKeyPath (st_cloudzero s)) = Some p \<and> \<not> gv_missing v p) \<longrightarrow>
   (case gv_read v (APIKeyPath (st_cloudzero s)) of
      Some text \<Rightarrow>
        if trim_space text = [] then \<exists>e. SetAPIKey v s = (Some e, s\<lparr>st_cloudzero := (st_cloudzero s)\<lparr>cz_apiKey := []\<rparr>\<rparr>)
        else fst (SetAPIKey v s) = None \<and> GetAPIKey (snd (SetAPIKey v s)) = trim_space text
    | None \<Rightarrow> \<exists>e. SetAPIKey v s = (Some e, s))"
  by (auto simp: SetAPIKey_def GetAPIKey_def Let_def split: option.splits)

theorem refresh_drops_key_witness:
  "\<exists>e. SetAPIKey (sample_gator_env\<lparr>gv_read := (\<lambda>_. Some [])\<rparr>)
       (zero_settings\<lparr>st_cloudzero := (st_cloudzero zero_settings)\<lparr>APIKeyPath := ''/k'', cz_apiKey := ''old''\<rparr>\<rparr>) =
     (Some e, zero_settings\<lparr>st_cloudzero := (st_cloudzero zero_settings)\<lparr>APIKeyPath := ''/k'', cz_apiKey := []\<rparr>\<rparr>)"
  using refresh_drops_key [of "sample_gator_env\<lparr>gv_read := (\<lambda>_. Some [])\<rparr>"
      "zero_settings\<lparr>st_cloudzero := (st_cloudzero zero_settings)\<lparr>APIKeyPath := ''/k'', cz_apiKey := ''old''\<rparr>\<rparr>"]
  by (simp add: absFilePath_def sample_gator_env_def zero_settings_def go_dir_def go_clean_def)

text \<open>A negative amount of available storage passes the validation, which only asks that the quantity
  parses; reading it then panics.\<close>

theorem negative_storage_accepted:
  assumes "gv_quantity v (AvailableStorage (st_database s)) = Some q" "q < 0" "AvailableStorage (st_database s) \<noteq> []"
    and "Validate v s = (None, s')"
  shows "GetAvailableSizeBytes v s' = None"
proof -
  from assms(4) obtain d where "database_Validate v (st_database s) = (None, d)" "st_database s' = d"
    by (auto elim: Validate_parts)
  then have "AvailableStorage (st_database s') = AvailableStorage (st_database s)"
    using database_Validate_storage [of v "st_database s"] by simp
  then show ?thesis using assms(1-3) by (simp add: GetAvailableSizeBytes_def)
qed

theorem negative_storage_accepted_witness:
  "\<exists>s s'. Validate (sample_gator_env\<lparr>gv_quantity := (\<lambda>_. Some (- 1))\<rparr>) s = (None, s') \<and>
     GetAvailableSizeBytes (sample_gator_env\<lparr>gv_quantity := (\<lambda>_. Some (- 1))\<rparr>) s' = None"
proof -
  let ?v = "sample_gator_env\<lparr>gv_quantity := (\<lambda>_. Some (- 1))\<rparr>"
  let ?s = "the (gv_load sample_gator_env ''f'' zero_settings)"
  have "\<exists>s'. Validate ?v ?s = (None, s')"
    by (simp add: sample_gator_env_def zero_settings_def Validate_def DetectConfiguration_def
      settle_def settled_def trim_space_def go_space_def database_Validate_def cloudzero_Validate_def Let_def)
  then obtain s' where s': "Validate ?v ?s = (None, s')" by blast
  have "GetAvailableSizeBytes ?v s' = None"
    by (rule negative_storage_accepted [OF _ _ _ s', of "- 1"]) (simp_all add: sample_gator_env_def)
  with s' show ?thesis by blast
qed

end
