(* ===== verification/Secret_Monitor.thy ===== *)
theory Secret_Monitor
  imports Gator_Settings
begin

text \<open>
  The monitor that refreshes the API key (\<open>app/domain/monitor/secret_monitor.go\<close>): a goroutine that reads
  the key file at every tick, started by \<open>Run\<close>, stopped by \<open>Shutdown\<close>, and ended by the cancellation of
  the context.  Its methods, the goroutine and the caller's context interleave; the steps are those
  between which another can come.  The goroutine does not take the mutex of the methods.
\<close>

section \<open>The monitor\<close>

definition redactSecret :: "string \<Rightarrow> string" where
  "redactSecret secret = (if 2 < length secret then take 2 secret @ ''***'' else ''*****'')"

datatype mutex = Free | In_run | In_shutdown

text \<open>
  \<open>sm_cancelled\<close>: the context of the monitor is done; \<open>sm_closed\<close>: the channel \<open>done\<close> is closed;
  \<open>sm_loops\<close>: the goroutines that are alive; \<open>sm_crashed\<close>: the process died of a panic.  The hash
  of the last key is none for the zero value.
\<close>

record secrets_monitor =
  sm_settings :: gator_settings
  sm_running :: bool
  sm_parent_done :: bool
  sm_cancelled :: bool
  sm_closed :: bool
  sm_loops :: nat
  sm_mutex :: mutex
  sm_last :: "string option"
  sm_logged :: "string list"
  sm_crashed :: bool

definition NewSecretMonitor :: "gator_settings \<Rightarrow> secrets_monitor" where
  "NewSecretMonitor s =
     \<lparr>sm_settings = s, sm_running = False, sm_parent_done = False, sm_cancelled = False, sm_closed = False,
      sm_loops = 0, sm_mutex = Free, sm_last = None, sm_logged = [], sm_crashed = False\<rparr>"

text \<open>One tick: the error of the refresh is ignored, and a key with another hash is logged.\<close>

definition refresh :: "(string \<Rightarrow> string) \<Rightarrow> gator_env \<Rightarrow> secrets_monitor \<Rightarrow> secrets_monitor" where
  "refresh hash v m =
     (let s = snd (SetAPIKey v (sm_settings m));
          newSecret = GetAPIKey s;
          newHash = hash newSecret
      in if Some newHash \<noteq> sm_last m
         then m\<lparr>sm_settings := s, sm_logged := sm_logged m @ [redactSecret newSecret], sm_last := Some newHash\<rparr>
         else m\<lparr>sm_settings := s\<rparr>)"

text \<open>\<open>reset\<close> makes a new context from the caller's and a new channel.\<close>

definition reset :: "secrets_monitor \<Rightarrow> secrets_monitor" where
  "reset m = m\<lparr>sm_running := False, sm_cancelled := sm_parent_done m, sm_closed := False\<rparr>"

datatype monitor_action =
  Run_spawn | Run_set | Loop_tick gator_env | Loop_done | Shutdown_begin | Shutdown_end | Parent_cancel

fun monitor_act :: "(string \<Rightarrow> string) \<Rightarrow> monitor_action \<Rightarrow> secrets_monitor \<Rightarrow> secrets_monitor option" where
  "monitor_act hash Run_spawn m =
     (if sm_mutex m \<noteq> Free then None
      else if sm_running m then Some m
      else Some (m\<lparr>sm_mutex := In_run, sm_loops := sm_loops m + 1\<rparr>))"
| "monitor_act hash Run_set m =
     (if sm_mutex m = In_run then Some (m\<lparr>sm_mutex := Free, sm_running := True\<rparr>) else None)"
| "monitor_act hash (Loop_tick v) m =
     (if 0 < sm_loops m then Some (refresh hash v m) else None)"
| "monitor_act hash Loop_done m =
     (if 0 < sm_loops m \<and> sm_cancelled m then
        Some (m\<lparr>sm_running := False, sm_loops := sm_loops m - 1,
                sm_closed := True, sm_crashed := sm_crashed m \<or> sm_closed m\<rparr>)
      else None)"
| "monitor_act hash Shutdown_begin m =
     (if sm_mutex m \<noteq> Free then None
      else if \<not> sm_running m then Some m
      else Some (m\<lparr>sm_mutex := In_shutdown, sm_cancelled := True\<rparr>))"
| "monitor_act hash Shutdown_end m =
     (if sm_mutex m = In_shutdown \<and> sm_closed m then Some ((reset m)\<lparr>sm_mutex := Free\<rparr>) else None)"
| "monitor_act hash Parent_cancel m = Some (m\<lparr>sm_parent_done := True, sm_cancelled := True\<rparr>)"

fun monitor_run :: "(string \<Rightarrow> string) \<Rightarrow> monitor_action list \<Rightarrow> secrets_monitor \<Rightarrow> secrets_monitor option" where
  "monitor_run hash [] m = Some m"
| "monitor_run hash (a # acts) m =
     (if sm_crashed m then Some m
      else (case monitor_act hash a m of None \<Rightarrow> None | Some m' \<Rightarrow> monitor_run hash acts m'))"

definition IsRunning :: "secrets_monitor \<Rightarrow> bool option" where
  "IsRunning m = (if sm_mutex m \<noteq> Free then None else Some (sm_running m))"

section \<open>The life cycle\<close>

definition monitor_inv :: "secrets_monitor \<Rightarrow> bool" where
  "monitor_inv m \<longleftrightarrow> \<not> sm_crashed m \<and> \<not> sm_parent_done m \<and>
     (case sm_mutex m of
        Free \<Rightarrow> \<not> sm_cancelled m \<and> \<not> sm_closed m \<and> sm_loops m = (if sm_running m then 1 else 0)
      | In_run \<Rightarrow> \<not> sm_cancelled m \<and> \<not> sm_closed m \<and> \<not> sm_running m \<and> sm_loops m = 1
      | In_shutdown \<Rightarrow> sm_cancelled m \<and> (if sm_closed m then sm_loops m = 0 else sm_loops m = 1))"

lemma refresh_fields [simp]:
  "sm_running (refresh hash v m) = sm_running m" "sm_parent_done (refresh hash v m) = sm_parent_done m"
  "sm_cancelled (refresh hash v m) = sm_cancelled m" "sm_closed (refresh hash v m) = sm_closed m"
  "sm_loops (refresh hash v m) = sm_loops m" "sm_mutex (refresh hash v m) = sm_mutex m"
  "sm_crashed (refresh hash v m) = sm_crashed m"
  "sm_settings (refresh hash v m) = snd (SetAPIKey v (sm_settings m))"
  by (simp_all add: refresh_def Let_def)

lemma monitor_act_inv:
  "monitor_inv m \<Longrightarrow> Parent_cancel \<noteq> a \<Longrightarrow> monitor_act hash a m = Some m' \<Longrightarrow> monitor_inv m'"
  by (cases a) (auto simp: monitor_inv_def reset_def split: if_splits mutex.splits)

lemma monitor_run_inv:
  "monitor_inv m \<Longrightarrow> Parent_cancel \<notin> set acts \<Longrightarrow> monitor_run hash acts m = Some m' \<Longrightarrow> monitor_inv m'"
  by (induction acts arbitrary: m) (auto split: if_splits option.splits dest: monitor_act_inv)

text \<open>A waiting \<open>Shutdown\<close> gets its answer: one step of the goroutine, if it is still there, and its own.\<close>

lemma shutdown_returns:
  assumes "monitor_inv m" and "sm_mutex m = In_shutdown"
  shows "\<exists>acts m'. length acts \<le> 2 \<and> monitor_run hash acts m = Some m' \<and> sm_mutex m' = Free \<and>
    \<not> sm_running m' \<and> sm_loops m' = 0"
proof (cases "sm_closed m")
  case True
  with assms show ?thesis
    by (intro exI [of _ "[Shutdown_end]"]) (auto simp: monitor_inv_def reset_def)
next
  case False
  with assms show ?thesis
    by (intro exI [of _ "[Loop_done, Shutdown_end]"]) (auto simp: monitor_inv_def reset_def)
qed

section \<open>Properties\<close>

text \<open>As long as the caller's context lives, the monitor keeps at most one goroutine and never crashes,
  however its methods, ticks and shutdowns interleave; no method runs beside a wrong idea of whether it
  is running, and a shutdown that waits returns after at most two more steps with the goroutine gone.\<close>

theorem monitor_life_cycle:
  assumes "monitor_run hash acts (NewSecretMonitor s) = Some m" and "Parent_cancel \<notin> set acts"
  shows "\<not> sm_crashed m \<and> sm_loops m \<le> 1 \<and> (sm_mutex m = Free \<longrightarrow> (sm_running m \<longleftrightarrow> sm_loops m = 1)) \<and>
    (sm_mutex m = In_shutdown \<longrightarrow>
      (\<exists>rest m'. length rest \<le> 2 \<and> monitor_run hash rest m = Some m' \<and> sm_mutex m' = Free \<and>
         \<not> sm_running m' \<and> sm_loops m' = 0))"
proof -
  have "monitor_inv (NewSecretMonitor s)" by (simp add: monitor_inv_def NewSecretMonitor_def)
  then have inv: "monitor_inv m" using monitor_run_inv assms by blast
  then have "\<not> sm_crashed m \<and> sm_loops m \<le> 1 \<and> (sm_mutex m = Free \<longrightarrow> (sm_running m \<longleftrightarrow> sm_loops m = 1))"
    by (auto simp: monitor_inv_def split: mutex.splits if_splits)
  with shutdown_returns [OF inv] show ?thesis by blast
qed

theorem monitor_life_cycle_witness:
  "\<exists>m. monitor_run (\<lambda>k. k) [Run_spawn, Run_set, Loop_tick sample_gator_env, Shutdown_begin] (NewSecretMonitor zero_settings) = Some m \<and>
     \<not> sm_crashed m \<and> (\<exists>rest m'. length rest \<le> 2 \<and> monitor_run (\<lambda>k. k) rest m = Some m' \<and> sm_loops m' = 0)"
proof -
  let ?acts = "[Run_spawn, Run_set, Loop_tick sample_gator_env, Shutdown_begin]"
  obtain m where m: "monitor_run (\<lambda>k. k) ?acts (NewSecretMonitor zero_settings) = Some m" "sm_mutex m = In_shutdown"
    by (simp add: NewSecretMonitor_def)
  from monitor_life_cycle [OF m(1)] m show ?thesis by auto
qed

text \<open>Once the caller's context has been cancelled and the goroutine has ended, starting the monitor again
  kills the process: the new goroutine closes the channel that the old one has closed, after its own
  recovery has run.\<close>

theorem restart_after_cancel_crashes:
  "\<exists>m. monitor_run hash [Run_spawn, Run_set, Parent_cancel, Loop_done, Run_spawn, Run_set, Loop_done]
     (NewSecretMonitor s) = Some m \<and> sm_crashed m"
  by (simp add: NewSecretMonitor_def)

text \<open>A tick that meets a blank key file leaves the process without an API key, whatever key it had,
  until a later tick reads one; the log shows of a key at most its first two characters.\<close>

theorem blank_tick_loses_key:
  assumes "absFilePath v (APIKeyPath (st_cloudzero (sm_settings m))) = Some p" "\<not> gv_missing v p"
    and "gv_read v (APIKeyPath (st_cloudzero (sm_settings m))) = Some text" "trim_space text = []"
    and "0 < sm_loops m"
  shows "\<exists>m'. monitor_act hash (Loop_tick v) m = Some m' \<and> GetAPIKey (sm_settings m') = [] \<and>
    (\<forall>l \<in> set (drop (length (sm_logged m)) (sm_logged m')). l = ''*****'')"
  using assms by (auto simp: refresh_def SetAPIKey_def GetAPIKey_def redactSecret_def Let_def)

theorem blank_tick_loses_key_witness:
  "\<exists>m'. monitor_act (\<lambda>k. k) (Loop_tick (sample_gator_env\<lparr>gv_read := (\<lambda>_. Some [])\<rparr>))
     ((NewSecretMonitor (zero_settings\<lparr>st_cloudzero := (st_cloudzero zero_settings)\<lparr>APIKeyPath := ''/k'', cz_apiKey := ''old''\<rparr>\<rparr>))
       \<lparr>sm_loops := 1\<rparr>) = Some m' \<and> GetAPIKey (sm_settings m') = []"
  using blank_tick_loses_key [of "sample_gator_env\<lparr>gv_read := (\<lambda>_. Some [])\<rparr>"
      "(NewSecretMonitor (zero_settings\<lparr>st_cloudzero := (st_cloudzero zero_settings)\<lparr>APIKeyPath := ''/k'', cz_apiKey := ''old''\<rparr>\<rparr>))\<lparr>sm_loops := 1\<rparr>"
      "''/k''" "[]" "\<lambda>k. k"]
  by (auto simp: absFilePath_def sample_gator_env_def zero_settings_def go_dir_def go_clean_def NewSecretMonitor_def)

text \<open>What a refresh logs of a long key does not depend on anything after its second character.\<close>

lemma redaction_hides: "2 < length a \<Longrightarrow> 2 < length b \<Longrightarrow> take 2 a = take 2 b \<Longrightarrow> redactSecret a = redactSecret b"
  by (simp add: redactSecret_def)

end
