(* ===== verification/Service_Loops.thy ===== *)
theory Service_Loops
  imports Webhook_Pipeline Secret_Monitor
begin

text \<open>
  The goroutines of the webhook server that flush and clean its store: \<open>Run\<close>, \<open>Shutdown\<close>, \<open>reset\<close> and
  \<open>IsRunning\<close> of the pusher (\<open>app/domain/pusher/pusher.go\<close>) and of the housekeeper
  (\<open>app/domain/housekeeper/housekeeper.go\<close>), which are the same up to what a tick and the last turn do.
  The steps are those between which another goroutine can come; the loop does not take the mutex of the
  methods.  A panic of a turn is recovered and ends the goroutine.
\<close>

section \<open>A service\<close>

datatype turn_end = Goes_on | Panics | Exits

text \<open>
  \<open>sv_closed\<close>: the channel \<open>done\<close> is closed; \<open>sv_loops\<close>: the goroutines that are alive; \<open>sv_crashed\<close>:
  the process died of closing the channel twice; \<open>sv_exited\<close>: a turn ended the process.
\<close>

record 'w service =
  sv_world :: 'w
  sv_running :: bool
  sv_parent_done :: bool
  sv_cancelled :: bool
  sv_closed :: bool
  sv_loops :: nat
  sv_mutex :: mutex
  sv_crashed :: bool
  sv_exited :: bool

definition new_service :: "'w \<Rightarrow> 'w service" where
  "new_service w = \<lparr>sv_world = w, sv_running = False, sv_parent_done = False, sv_cancelled = False,
     sv_closed = False, sv_loops = 0, sv_mutex = Free, sv_crashed = False, sv_exited = False\<rparr>"

text \<open>The deferred calls of the goroutine.\<close>

definition loop_ends :: "'w service \<Rightarrow> 'w service" where
  "loop_ends s = s\<lparr>sv_loops := sv_loops s - 1, sv_closed := True, sv_crashed := sv_crashed s \<or> sv_closed s\<rparr>"

definition service_reset :: "'w service \<Rightarrow> 'w service" where
  "service_reset s = s\<lparr>sv_running := False, sv_cancelled := sv_parent_done s, sv_closed := False\<rparr>"

text \<open>\<open>Elsewhere f\<close> is what other goroutines do to the world.\<close>

datatype ('e, 'w) service_action =
    Begin_run | Set_running | Tick 'e | Last_turn 'e | Begin_shutdown | End_shutdown | Cancel_parent
  | Elsewhere "'w \<Rightarrow> 'w"

fun service_act ::
  "('e \<Rightarrow> 'w \<Rightarrow> turn_end \<times> 'w) \<Rightarrow> ('e \<Rightarrow> 'w \<Rightarrow> turn_end \<times> 'w) \<Rightarrow> ('e, 'w) service_action \<Rightarrow> 'w service \<Rightarrow>
   'w service option"
where
  "service_act tick final Begin_run s =
     (if sv_mutex s \<noteq> Free then None
      else if sv_running s then Some s
      else Some (s\<lparr>sv_mutex := In_run, sv_loops := sv_loops s + 1\<rparr>))"
| "service_act tick final Set_running s =
     (if sv_mutex s = In_run then Some (s\<lparr>sv_mutex := Free, sv_running := True\<rparr>) else None)"
| "service_act tick final (Tick e) s =
     (if sv_loops s = 0 then None
      else (case tick e (sv_world s) of
              (Goes_on, w) \<Rightarrow> Some (s\<lparr>sv_world := w\<rparr>)
            | (Panics, w) \<Rightarrow> Some (loop_ends (s\<lparr>sv_world := w\<rparr>))
            | (Exits, w) \<Rightarrow> Some (s\<lparr>sv_world := w, sv_exited := True\<rparr>)))"
| "service_act tick final (Last_turn e) s =
     (if sv_loops s = 0 \<or> \<not> sv_cancelled s then None
      else (case final e (sv_world s) of
              (Goes_on, w) \<Rightarrow> Some (loop_ends (s\<lparr>sv_world := w, sv_running := False\<rparr>))
            | (Panics, w) \<Rightarrow> Some (loop_ends (s\<lparr>sv_world := w\<rparr>))
            | (Exits, w) \<Rightarrow> Some (s\<lparr>sv_world := w, sv_exited := True\<rparr>)))"
| "service_act tick final Begin_shutdown s =
     (if sv_mutex s \<noteq> Free then None
      else if \<not> sv_running s then Some s
      else Some (s\<lparr>sv_mutex := In_shutdown, sv_cancelled := True\<rparr>))"
| "service_act tick final End_shutdown s =
     (if sv_mutex s = In_shutdown \<and> sv_closed s then Some ((service_reset s)\<lparr>sv_mutex := Free\<rparr>) else None)"
| "service_act tick final Cancel_parent s = Some (s\<lparr>sv_parent_done := True, sv_cancelled := True\<rparr>)"
| "service_act tick final (Elsewhere f) s = Some (s\<lparr>sv_world := f (sv_world s)\<rparr>)"

text \<open>A process that crashed or exited makes no more steps.\<close>

fun service_run ::
  "('e \<Rightarrow> 'w \<Rightarrow> turn_end \<times> 'w) \<Rightarrow> ('e \<Rightarrow> 'w \<Rightarrow> turn_end \<times> 'w) \<Rightarrow> ('e, 'w) service_action list \<Rightarrow> 'w service \<Rightarrow>
   'w service option"
where
  "service_run tick final [] s = Some s"
| "service_run tick final (a # acts) s =
     (if sv_crashed s \<or> sv_exited s then None
      else (case service_act tick final a s of None \<Rightarrow> None | Some s' \<Rightarrow> service_run tick final acts s'))"

text \<open>The answer of \<open>IsRunning\<close>; none while another method holds the mutex.\<close>

definition service_IsRunning :: "'w service \<Rightarrow> bool option" where
  "service_IsRunning s = (if sv_mutex s \<noteq> Free then None else Some (sv_running s))"

section \<open>The pusher and the housekeeper\<close>

text \<open>The pusher flushes at every tick and in its last turn; the error is ignored.\<close>

definition push_turn :: "pusher \<Rightarrow> push_env \<Rightarrow> table \<Rightarrow> turn_end \<times> table" where
  "push_turn P v t =
     (case Flush P v t of
        (Flush_panic, _, t') \<Rightarrow> (Panics, t')
      | (Flush_exit, _, t') \<Rightarrow> (Exits, t')
      | (_, _, t') \<Rightarrow> (Goes_on, t'))"

definition pusher_run :: "pusher \<Rightarrow> (push_env, table) service_action list \<Rightarrow> table service \<Rightarrow> table service option" where
  "pusher_run P = service_run (push_turn P) (push_turn P)"

text \<open>The housekeeper cleans at every tick, and in its last turn it does nothing.\<close>

definition keep_turn :: "keeper_env \<Rightarrow> table \<Rightarrow> turn_end \<times> table" where
  "keep_turn v t = (Goes_on, cleanup v t)"

definition keeper_run :: "(keeper_env, table) service_action list \<Rightarrow> table service \<Rightarrow> table service option" where
  "keeper_run = service_run keep_turn (\<lambda>_ t. (Goes_on, t))"

section \<open>The life cycle\<close>

text \<open>A service that runs has its goroutine, or its channel is closed because a turn panicked.\<close>

definition service_inv :: "'w service \<Rightarrow> bool" where
  "service_inv s \<longleftrightarrow> \<not> sv_crashed s \<and> \<not> sv_parent_done s \<and>
     sv_loops s = (if sv_closed s then 0 else if sv_mutex s = Free \<and> \<not> sv_running s then 0 else 1) \<and>
     (sv_cancelled s \<longleftrightarrow> sv_mutex s = In_shutdown) \<and>
     (sv_mutex s = In_run \<longrightarrow> \<not> sv_running s) \<and>
     (sv_mutex s = Free \<and> \<not> sv_running s \<longrightarrow> \<not> sv_closed s)"

lemma service_inv_new: "service_inv (new_service w)"
  by (simp add: service_inv_def new_service_def)

lemma service_act_inv:
  assumes "service_inv s" and "service_act tick final a s = Some s'" and "a \<noteq> Cancel_parent"
  shows "service_inv s'"
proof (cases a)
  case (Tick e)
  obtain r w where t: "tick e (sv_world s) = (r, w)" by fastforce
  have "sv_loops s \<noteq> 0" using assms(2) Tick by (auto split: if_splits)
  then show ?thesis using assms(1,2) Tick t by (cases r) (auto simp: service_inv_def loop_ends_def split: if_splits)
next
  case (Last_turn e)
  obtain r w where t: "final e (sv_world s) = (r, w)" by fastforce
  have "sv_loops s \<noteq> 0" "sv_cancelled s" using assms(2) Last_turn by (auto split: if_splits)
  then show ?thesis using assms(1,2) Last_turn t
    by (cases r) (auto simp: service_inv_def loop_ends_def split: if_splits)
qed (use assms in \<open>auto simp: service_inv_def service_reset_def split: if_splits\<close>)

lemma service_run_inv:
  "service_run tick final acts s = Some s' \<Longrightarrow> service_inv s \<Longrightarrow> Cancel_parent \<notin> set acts \<Longrightarrow> service_inv s'"
proof (induction acts arbitrary: s)
  case (Cons a acts)
  from Cons.prems(1) obtain s1 where s1: "service_act tick final a s = Some s1" "service_run tick final acts s1 = Some s'"
    by (auto split: if_splits option.splits)
  have "a \<noteq> Cancel_parent" using Cons.prems(3) by auto
  then have "service_inv s1" by (rule service_act_inv [OF Cons.prems(2) s1(1)])
  then show ?case using Cons.IH [OF s1(2)] Cons.prems(3) by simp
qed simp

text \<open>A waiting \<open>Shutdown\<close> gets its answer by the last turn of the goroutine, if there is one left.\<close>

lemma service_shutdown_returns:
  assumes "service_inv s" and "sv_mutex s = In_shutdown" and "\<not> sv_exited s" and "fst (final e (sv_world s)) \<noteq> Exits"
  shows "\<exists>acts s'. set acts \<subseteq> {Last_turn e, End_shutdown} \<and> length acts \<le> 2 \<and>
    service_run tick final acts s = Some s' \<and> sv_mutex s' = Free \<and> \<not> sv_running s' \<and> sv_loops s' = 0 \<and>
    sv_world s' = (if sv_loops s = 0 then sv_world s else snd (final e (sv_world s)))"
proof (cases "sv_closed s")
  case True
  with assms show ?thesis
    by (intro exI [of _ "[End_shutdown]"]) (auto simp: service_inv_def service_reset_def)
next
  case False
  obtain r w where t: "final e (sv_world s) = (r, w)" by fastforce
  with False assms show ?thesis
    by (intro exI [of _ "[Last_turn e, End_shutdown]"])
      (cases r; auto simp: service_inv_def service_reset_def loop_ends_def)
qed

text \<open>A service whose goroutine is gone stays as it is while nobody shuts it down.\<close>

lemma silent_act:
  assumes "service_act tick final a s = Some s'" and "sv_running s" "sv_loops s = 0" "sv_mutex s = Free"
    and "a \<noteq> Begin_shutdown"
  shows "sv_running s' \<and> sv_loops s' = 0 \<and> sv_mutex s' = Free \<and>
    sv_world s' = (case a of Elsewhere f \<Rightarrow> f (sv_world s) | _ \<Rightarrow> sv_world s)"
  using assms by (cases a) (auto split: if_splits)

section \<open>A pusher that went silent\<close>

text \<open>What the other goroutines did to the store.\<close>

fun elsewhere :: "('e, 'w) service_action \<Rightarrow> 'w \<Rightarrow> 'w" where
  "elsewhere (Elsewhere f) w = f w"
| "elsewhere a w = w"

lemma silent_run:
  "service_run tick final acts s = Some s' \<Longrightarrow> sv_running s \<Longrightarrow> sv_loops s = 0 \<Longrightarrow> sv_mutex s = Free \<Longrightarrow>
   Begin_shutdown \<notin> set acts \<Longrightarrow>
   sv_running s' \<and> sv_loops s' = 0 \<and> sv_mutex s' = Free \<and> sv_world s' = fold elsewhere acts (sv_world s)"
proof (induction acts arbitrary: s)
  case (Cons a acts)
  from Cons.prems(1) obtain s1 where s1: "service_act tick final a s = Some s1" "service_run tick final acts s1 = Some s'"
    by (auto split: if_splits option.splits)
  have "a \<noteq> Begin_shutdown" using Cons.prems(5) by auto
  from silent_act [OF s1(1) Cons.prems(2-4) this]
  have "sv_running s1" "sv_loops s1 = 0" "sv_mutex s1 = Free" "sv_world s1 = elsewhere a (sv_world s)"
    by (cases a; simp)+
  then show ?case using Cons.IH [OF s1(2)] Cons.prems(5) by simp
qed simp

text \<open>Marking a row without a namespace panics when the database refuses the update.\<close>

lemma Flush_panics:
  assumes "repo_FindAllBy (pe_find v) (\<lambda>r. rt_sent r = None) t = Done (r # found)"
    and "flush_loop P v 0 [] 0 (r # found) = (Flush_ok, sent)"
    and "rt_id r \<noteq> []" "rt_namespace r = None" "de_error (pe_update v 0) = Some g" "TranslateError g \<noteq> ErrTableMissing"
  shows "Flush P v t = (Flush_panic, sent, pe_between v t)"
proof -
  have "mark_sent v 0 (r # found) (pe_between v t) = (Panicked, pe_between v t)"
    using assms(3-6) by (simp add: repo_Update_def Let_def write_failure_def)
  then show ?thesis using assms(1,2) by (simp add: Flush_def repo_Tx_def del: mark_sent.simps flush_loop.simps)
qed

section \<open>Properties\<close>

text \<open>However \<open>Run\<close>, \<open>Shutdown\<close>, the ticks and the other goroutines of the server interleave while the
  context of the caller lives: a pusher and a housekeeper have at most one goroutine and never close their
  channel twice; and a shutdown that waits returns after at most the last turn of the goroutine, which is
  then gone, unless that turn ends the process.\<close>

theorem service_life_cycle:
  assumes "service_run tick final acts (new_service w) = Some s" and "Cancel_parent \<notin> set acts"
  shows "\<not> sv_crashed s \<and> sv_loops s \<le> 1 \<and>
    (sv_mutex s = Free \<longrightarrow> (sv_running s \<longleftrightarrow> sv_loops s = 1 \<or> sv_closed s)) \<and>
    (sv_mutex s = In_shutdown \<and> \<not> sv_exited s \<and> fst (final e (sv_world s)) \<noteq> Exits \<longrightarrow>
      (\<exists>rest s'. set rest \<subseteq> {Last_turn e, End_shutdown} \<and> length rest \<le> 2 \<and>
         service_run tick final rest s = Some s' \<and> sv_mutex s' = Free \<and> \<not> sv_running s' \<and> sv_loops s' = 0))"
proof -
  have inv: "service_inv s" by (rule service_run_inv [OF assms(1) service_inv_new assms(2)])
  have "\<exists>rest s'. set rest \<subseteq> {Last_turn e, End_shutdown} \<and> length rest \<le> 2 \<and>
         service_run tick final rest s = Some s' \<and> sv_mutex s' = Free \<and> \<not> sv_running s' \<and> sv_loops s' = 0"
    if "sv_mutex s = In_shutdown" "\<not> sv_exited s" "fst (final e (sv_world s)) \<noteq> Exits"
    using service_shutdown_returns [where final = final and e = e, OF inv that] by blast
  then show ?thesis using inv by (auto simp: service_inv_def)
qed

theorem service_life_cycle_witness:
  "case keeper_run [Begin_run, Set_running, Begin_shutdown] (new_service []) of
     None \<Rightarrow> False
   | Some s \<Rightarrow> \<not> sv_crashed s \<and> (\<exists>rest s'. length rest \<le> 2 \<and> keeper_run rest s = Some s' \<and> sv_mutex s' = Free \<and> \<not> sv_running s')"
proof -
  let ?acts = "[Begin_run, Set_running, Begin_shutdown] :: (keeper_env, table) service_action list"
  obtain s where run: "keeper_run ?acts (new_service []) = Some s" and s: "sv_mutex s = In_shutdown" "\<not> sv_exited s"
    by (simp add: keeper_run_def new_service_def)
  have "Cancel_parent \<notin> set ?acts" by simp
  from service_life_cycle [OF run [unfolded keeper_run_def] this, of undefined] s
  have "\<not> sv_crashed s \<and> (\<exists>rest s'. length rest \<le> 2 \<and> keeper_run rest s = Some s' \<and> sv_mutex s' = Free \<and> \<not> sv_running s')"
    by (simp add: keeper_run_def [symmetric]) blast
  then show ?thesis by (simp add: run)
qed

text \<open>A running pusher that is shut down while its store is quiet sends everything that was not sent: its
  last turn comes after the shutdown was asked for, and the store it leaves is that of this flush.\<close>

theorem shutdown_sends_rest:
  assumes "pusher_run P acts (new_service t0) = Some s" "Cancel_parent \<notin> set acts"
    and "sv_mutex s = Free" "sv_loops s = 1" "\<not> sv_exited s"
    and "Flush P v (sv_world s) = (Flush_ok, sent, t')" "quiet (pe_find v)"
  shows "\<exists>s'. pusher_run P [Begin_shutdown, Last_turn v, End_shutdown] s = Some s' \<and> sv_world s' = t' \<and>
    \<not> sv_running s' \<and> sv_loops s' = 0 \<and> mset (concat sent) = mset (filter (\<lambda>r. rt_sent r = None) (sv_world s))"
proof -
  have inv: "service_inv s" by (rule service_run_inv [OF assms(1) [unfolded pusher_run_def] service_inv_new assms(2)])
  then have r: "sv_running s" "\<not> sv_closed s" "\<not> sv_crashed s" "\<not> sv_parent_done s"
    using assms(3,4) by (auto simp: service_inv_def split: if_splits)
  have turn: "push_turn P v (sv_world s) = (Goes_on, t')" by (simp add: push_turn_def assms(6))
  obtain found where f: "repo_FindAllBy (pe_find v) (\<lambda>r. rt_sent r = None) (sv_world s) = Done found"
    "flush_loop P v 0 [] 0 found = (Flush_ok, sent)" by (rule Flush_ok_cases [OF assms(6)])
  have "concat sent = found" using flush_loop_batches [OF f(2)] by simp
  then have "mset (concat sent) = mset (filter (\<lambda>r. rt_sent r = None) (sv_world s))"
    using find_all_unsent [OF f(1) assms(7)] by simp
  then show ?thesis using r assms(3-5) turn
    by (simp add: pusher_run_def loop_ends_def service_reset_def)
qed

theorem shutdown_sends_rest_witness:
  "\<exists>s'. pusher_run sample_pusher [Begin_run, Set_running, Begin_shutdown, Last_turn good_push, End_shutdown]
     (new_service [fresh_row ''web'' ''1'', fresh_row ''db'' ''2'']) = Some s' \<and> \<not> sv_running s' \<and>
     list_all (\<lambda>r. rt_sent r \<noteq> None) (sv_world s')"
proof -
  let ?t = "[fresh_row ''web'' ''1'', fresh_row ''db'' ''2'']"
  obtain s where run: "pusher_run sample_pusher [Begin_run, Set_running] (new_service ?t) = Some s"
    and s: "sv_mutex s = Free" "sv_loops s = 1" "\<not> sv_exited s" "sv_world s = ?t"
    by (simp add: pusher_run_def new_service_def)
  have q: "quiet (pe_find good_push)" by (simp add: good_push_def quiet_plain)
  have no: "Cancel_parent \<notin> set [Begin_run, Set_running :: (push_env, table) service_action]" by simp
  obtain s' where s': "pusher_run sample_pusher [Begin_shutdown, Last_turn good_push, End_shutdown] s = Some s'"
    "sv_world s' = snd (snd (Flush sample_pusher good_push ?t))" "\<not> sv_running s'"
    using shutdown_sends_rest [OF run no s(1-3) good_push_flush [folded s(4)] q] s(4)
    by (auto simp: good_push_flush)
  have "pusher_run sample_pusher [Begin_run, Set_running, Begin_shutdown, Last_turn good_push, End_shutdown]
     (new_service ?t) = Some s'" using run s' by (auto simp: pusher_run_def new_service_def)
  then show ?thesis using s' by (auto simp: good_push_flush)
qed

text \<open>C38: A flush that panics silences the pusher for good.  When the first row that was found belongs to a
  resource without a namespace, such as a node, and the database refuses to mark it, the goroutine ends;
  from then on, whatever comes but a shutdown, nothing is sent or marked any more, while \<open>IsRunning\<close> says
  that the pusher runs and \<open>Run\<close> starts no other.\<close>

theorem failed_mark_silences_pusher:
  assumes "pusher_run P acts (new_service t0) = Some s" "Cancel_parent \<notin> set acts"
    and "sv_mutex s = Free" "sv_loops s = 1" "\<not> sv_exited s"
    and "repo_FindAllBy (pe_find v) (\<lambda>r. rt_sent r = None) (sv_world s) = Done (r # found)"
    and "flush_loop P v 0 [] 0 (r # found) = (Flush_ok, sent)"
    and "rt_id r \<noteq> []" "rt_namespace r = None" "de_error (pe_update v 0) = Some g" "TranslateError g \<noteq> ErrTableMissing"
    and "pusher_run P (Tick v # later) s = Some s'" "Begin_shutdown \<notin> set later"
  shows "service_IsRunning s' = Some True \<and> sv_loops s' = 0 \<and>
    sv_world s' = fold elsewhere later (pe_between v (sv_world s))"
proof -
  have inv: "service_inv s" by (rule service_run_inv [OF assms(1) [unfolded pusher_run_def] service_inv_new assms(2)])
  then have r: "sv_running s" using assms(3,4) by (auto simp: service_inv_def split: if_splits)
  have turn: "push_turn P v (sv_world s) = (Panics, pe_between v (sv_world s))"
    by (simp add: push_turn_def Flush_panics [OF assms(6-11)])
  let ?s1 = "loop_ends (s\<lparr>sv_world := pe_between v (sv_world s)\<rparr>)"
  have "service_run (push_turn P) (push_turn P) later ?s1 = Some s'"
    using assms(4,12) turn by (simp add: pusher_run_def split: if_splits)
  from silent_run [OF this _ _ _ assms(13)] show ?thesis
    using r assms(3,4) by (simp add: loop_ends_def service_IsRunning_def)
qed

definition refused_push :: push_env where
  "refused_push = good_push\<lparr>pe_update := \<lambda>_. (plain_env 9 ''x'')\<lparr>de_error := Some (OtherError ''disk I/O error'')\<rparr>\<rparr>"

definition unmarked_node :: resource_tags where
  "unmarked_node = (fresh_row ''n1'' ''1'')\<lparr>rt_namespace := None\<rparr>"

theorem failed_mark_silences_pusher_witness:
  "\<exists>s'. pusher_run sample_pusher [Begin_run, Set_running, Tick refused_push, Begin_run] (new_service [unmarked_node]) = Some s' \<and>
     service_IsRunning s' = Some True \<and> sv_loops s' = 0"
proof -
  obtain s where run: "pusher_run sample_pusher [Begin_run, Set_running] (new_service [unmarked_node]) = Some s"
    and s: "sv_mutex s = Free" "sv_loops s = 1" "\<not> sv_exited s" "sv_world s = [unmarked_node]" "sv_running s"
      "\<not> sv_crashed s" "\<not> sv_closed s"
    by (simp add: pusher_run_def new_service_def)
  have found: "repo_FindAllBy (pe_find refused_push) (\<lambda>r. rt_sent r = None) (sv_world s) = Done [unmarked_node]"
    by (simp add: s(4) repo_FindAllBy_def refused_push_def unmarked_node_def sample_defs)
  have loop: "flush_loop sample_pusher refused_push 0 [] 0 [unmarked_node] = (Flush_ok, [[unmarked_node]])"
    by (simp add: sendBatch_def PushMetrics_def numeral_eq_Suc row_size_def column_size_def Let_def
        refused_push_def unmarked_node_def sample_defs)
  have row: "rt_id unmarked_node \<noteq> []" "rt_namespace unmarked_node = None"
    "de_error (pe_update refused_push 0) = Some (OtherError ''disk I/O error'')"
    by (simp_all add: unmarked_node_def fresh_row_def refused_push_def)
  have err: "TranslateError (OtherError ''disk I/O error'') \<noteq> ErrTableMissing" by simp
  have "push_turn sample_pusher refused_push [unmarked_node] = (Panics, [unmarked_node])"
    using Flush_panics [OF found loop row err] by (simp add: push_turn_def s(4)) (simp add: refused_push_def good_push_def)
  then obtain s' where s': "pusher_run sample_pusher [Tick refused_push, Begin_run] s = Some s'"
    using s by (simp add: pusher_run_def loop_ends_def)
  have no: "Cancel_parent \<notin> set [Begin_run, Set_running :: (push_env, table) service_action]"
    "Begin_shutdown \<notin> set [Begin_run :: (push_env, table) service_action]" by simp_all
  from failed_mark_silences_pusher [OF run no(1) s(1-3) found loop row err s' no(2)]
  have "service_IsRunning s' = Some True \<and> sv_loops s' = 0" by blast
  moreover have "pusher_run sample_pusher [Begin_run, Set_running, Tick refused_push, Begin_run] (new_service [unmarked_node]) = Some s'"
    using run s' by (auto simp: pusher_run_def new_service_def)
  ultimately show ?thesis by blast
qed

end
