(* ===== verification/Helm_Overrides.thy ===== *)
theory Helm_Overrides
  imports Go_Float "HOL-Library.Finite_Map"
begin

text \<open>
  The extraction of overrides (\<open>app/functions/helmless/overrides/extractor.go\<close>): from the configured
  values of a Helm chart and its default values, the values that have to be given.

  A value is what the YAML decoder makes of a document whose maps have texts as their keys.
\<close>

section \<open>Values\<close>

datatype yaml =
    Y_null
  | Y_bool bool
  | Y_int int
  | Y_float f64
  | Y_str string
  | Y_list "yaml list"
  | Y_map "(string, yaml) fmap"

type_synonym yaml_map = "(string, yaml) fmap"

text \<open>\<open>cmp.Equal\<close> compares deeply; a float that is NaN is equal to nothing.\<close>

primrec has_nan :: "yaml \<Rightarrow> bool" where
  "has_nan Y_null = False"
| "has_nan (Y_bool b) = False"
| "has_nan (Y_int i) = False"
| "has_nan (Y_float x) = (x = F_NaN)"
| "has_nan (Y_str s) = False"
| "has_nan (Y_list vs) = list_ex id (map has_nan vs)"
| "has_nan (Y_map m) = (\<not> fmpred (\<lambda>_ b. \<not> b) (fmmap has_nan m))"

definition cmp_Equal :: "yaml \<Rightarrow> yaml \<Rightarrow> bool" where
  "cmp_Equal a b \<longleftrightarrow> a = b \<and> \<not> has_nan a"

section \<open>The extractor\<close>

text \<open>The loop of \<open>diffMaps\<close>: \<open>fs\<close> is its body for each configured value, given the default value
  of the same key; none leaves the key out of the result.\<close>

definition each_key :: "(string, yaml option \<Rightarrow> yaml option) fmap \<Rightarrow> yaml_map \<Rightarrow> yaml_map" where
  "each_key fs defaults =
     (let found = fmmap_keys (\<lambda>key f. f (fmlookup defaults key)) fs
      in fmmap the (fmfilter (\<lambda>key. fmlookup found key \<noteq> Some None) found))"

text \<open>The body for a value that is no map, and for the values where one of the two is none.\<close>

definition plain_value :: "yaml \<Rightarrow> yaml option \<Rightarrow> yaml option" where
  "plain_value confVal defVal =
     (case defVal of
        None \<Rightarrow> Some confVal
      | Some d \<Rightarrow> if cmp_Equal confVal d then None else Some confVal)"

primrec diff_value :: "yaml \<Rightarrow> yaml option \<Rightarrow> yaml option" where
  "diff_value Y_null = plain_value Y_null"
| "diff_value (Y_bool b) = plain_value (Y_bool b)"
| "diff_value (Y_int i) = plain_value (Y_int i)"
| "diff_value (Y_float x) = plain_value (Y_float x)"
| "diff_value (Y_str s) = plain_value (Y_str s)"
| "diff_value (Y_list vs) = plain_value (Y_list vs)"
| "diff_value (Y_map confMap) =
     (\<lambda>defVal. case defVal of
        Some (Y_map defMap) \<Rightarrow>
          if cmp_Equal (Y_map confMap) (Y_map defMap) then None
          else (let diff = each_key (fmmap diff_value confMap) defMap
                in if diff \<noteq> fmempty then Some (Y_map diff)
                   else if confMap = fmempty \<and> defMap \<noteq> fmempty then Some (Y_map confMap)
                   else None)
      | _ \<Rightarrow> plain_value (Y_map confMap) defVal)"

definition diffMaps :: "yaml_map \<Rightarrow> yaml_map \<Rightarrow> yaml_map" where
  "diffMaps configured defaults = each_key (fmmap diff_value configured) defaults"

definition Extract :: "string list \<Rightarrow> yaml_map \<Rightarrow> yaml_map \<Rightarrow> yaml_map" where
  "Extract excludeKeys configured defaults = diffMaps (fmfilter (\<lambda>key. key \<notin> set excludeKeys) configured) defaults"

text \<open>The command; a file that cannot be read or decoded is none.\<close>

definition helmless_run ::
  "yaml_map option \<Rightarrow> bool \<Rightarrow> yaml_map option \<Rightarrow> yaml_map option \<Rightarrow> string + yaml_map"
where
  "helmless_run configured given defaults embedded =
     (case configured of
        None \<Rightarrow> Inl ''reading configured values''
      | Some c \<Rightarrow>
          (case (if given then defaults else embedded) of
             None \<Rightarrow> Inl (if given then ''reading default values'' else ''reading embedded default values'')
           | Some d \<Rightarrow> Inr (Extract [''kubeStateMetrics''] c d)))"

section \<open>What the overrides are for\<close>

text \<open>The values in effect: an override takes the place of the default, and maps are merged.\<close>

primrec merge_value :: "yaml \<Rightarrow> yaml option \<Rightarrow> yaml" where
  "merge_value Y_null = (\<lambda>d. Y_null)"
| "merge_value (Y_bool b) = (\<lambda>d. Y_bool b)"
| "merge_value (Y_int i) = (\<lambda>d. Y_int i)"
| "merge_value (Y_float x) = (\<lambda>d. Y_float x)"
| "merge_value (Y_str s) = (\<lambda>d. Y_str s)"
| "merge_value (Y_list vs) = (\<lambda>d. Y_list vs)"
| "merge_value (Y_map m) =
     (\<lambda>d. case d of
        Some (Y_map dm) \<Rightarrow> Y_map (dm ++\<^sub>f fmmap_keys (\<lambda>k f. f (fmlookup dm k)) (fmmap merge_value m))
      | _ \<Rightarrow> Y_map m)"

definition merge_maps :: "yaml_map \<Rightarrow> yaml_map \<Rightarrow> yaml_map" where
  "merge_maps m dm = dm ++\<^sub>f fmmap_keys (\<lambda>k f. f (fmlookup dm k)) (fmmap merge_value m)"

lemma fmlookup_each_key:
  "fmlookup (each_key fs d) k = Option.bind (fmlookup fs k) (\<lambda>f. f (fmlookup d k))"
  by (cases "fmlookup fs k") (auto simp: each_key_def Let_def split: option.splits)

lemma fmlookup_diffMaps:
  "fmlookup (diffMaps c d) k = Option.bind (fmlookup c k) (\<lambda>v. diff_value v (fmlookup d k))"
  by (cases "fmlookup c k") (simp_all add: diffMaps_def fmlookup_each_key)

lemma fmlookup_merge_maps:
  "fmlookup (merge_maps m d) k =
     (case fmlookup m k of None \<Rightarrow> fmlookup d k | Some v \<Rightarrow> Some (merge_value v (fmlookup d k)))"
  by (cases "fmlookup m k") (auto simp: merge_maps_def fmdom_notI fmlookup_dom_iff split: option.splits)

lemma merge_value_map:
  "merge_value (Y_map m) d = (case d of Some (Y_map dm) \<Rightarrow> Y_map (merge_maps m dm) | _ \<Rightarrow> Y_map m)"
  by (simp add: merge_maps_def split: option.split yaml.split)

lemma diff_value_map:
  "diff_value (Y_map c) (Some (Y_map d)) =
     (if cmp_Equal (Y_map c) (Y_map d) then None
      else if diffMaps c d \<noteq> fmempty then Some (Y_map (diffMaps c d))
      else if c = fmempty \<and> d \<noteq> fmempty then Some (Y_map c) else None)"
  by (simp add: diffMaps_def Let_def)

lemma diff_value_plain: "\<forall>m. d \<noteq> Some (Y_map m) \<Longrightarrow> diff_value (Y_map c) d = plain_value (Y_map c) d"
  by (auto split: option.split yaml.split)

lemmas diff_value_simps = diff_value.simps(1-6) diff_value_map
lemmas merge_value_simps = merge_value.simps(1-6) merge_value_map

declare diff_value.simps [simp del] merge_value.simps [simp del]

lemma merge_maps_self:
  assumes "\<And>v. v \<in> fmran' m \<Longrightarrow> merge_value v (Some v) = v"
  shows "merge_maps m m = m"
proof (rule fmap_ext)
  fix k
  show "fmlookup (merge_maps m m) k = fmlookup m k"
    by (cases "fmlookup m k") (simp_all add: fmlookup_merge_maps assms fmran'I)
qed

lemma merge_value_self: "merge_value v (Some v) = v"
proof (induction v)
  case (Y_map m)
  then show ?case by (simp add: merge_value_simps merge_maps_self)
qed (simp_all add: merge_value_simps)

text \<open>One value: without an override the default is already right, and an override does the same as
  the configured value.\<close>

definition suffices :: "yaml \<Rightarrow> yaml option \<Rightarrow> bool" where
  "suffices v d \<longleftrightarrow>
     (case diff_value v d of
        None \<Rightarrow> (\<exists>x. d = Some x \<and> merge_value v d = x)
      | Some r \<Rightarrow> merge_value r d = merge_value v d)"

lemma plain_suffices:
  assumes "diff_value v d = plain_value v d"
  shows "suffices v d"
  using assms merge_value_self [of v]
  by (auto simp: suffices_def plain_value_def cmp_Equal_def split: option.splits)

lemma diffMaps_suffice:
  assumes "\<And>k v. fmlookup c k = Some v \<Longrightarrow> suffices v (fmlookup d k)"
  shows "merge_maps (diffMaps c d) d = merge_maps c d"
proof (rule fmap_ext)
  fix k
  show "fmlookup (merge_maps (diffMaps c d) d) k = fmlookup (merge_maps c d) k"
  proof (cases "fmlookup c k")
    case None
    then show ?thesis by (simp add: fmlookup_merge_maps fmlookup_diffMaps)
  next
    case (Some v)
    show ?thesis using assms [OF Some] Some
      by (auto simp: suffices_def fmlookup_merge_maps fmlookup_diffMaps split: option.splits)
  qed
qed

lemma merge_maps_empty [simp]: "merge_maps fmempty d = d"
  by (rule fmap_ext) (simp add: fmlookup_merge_maps)

lemma value_suffices: "suffices v d"
proof (induction v arbitrary: d)
  case (Y_map c)
  show ?case
  proof (cases "\<exists>m. d = Some (Y_map m)")
    case True
    then obtain m where d: "d = Some (Y_map m)" by blast
    have "merge_maps (diffMaps c m) m = merge_maps c m"
      by (rule diffMaps_suffice) (use Y_map fmran'I in fastforce)
    moreover have "merge_value (Y_map c) (Some (Y_map c)) = Y_map c" by (rule merge_value_self)
    ultimately show ?thesis
      by (auto simp: suffices_def d diff_value_map merge_value_map cmp_Equal_def)
  next
    case False
    then show ?thesis by (intro plain_suffices diff_value_plain) blast
  qed
qed (rule plain_suffices, simp add: diff_value_simps)+

text \<open>An extracted value differs from its default.\<close>

lemma diff_value_differs: "diff_value v (Some d) = Some r \<Longrightarrow> \<not> cmp_Equal v d"
  by (cases v; cases d) (auto simp: diff_value_simps diff_value_plain plain_value_def split: if_splits)

section \<open>Paths into the values\<close>

text \<open>The value that a path of keys leads to.\<close>

fun yaml_at :: "string list \<Rightarrow> yaml_map \<Rightarrow> yaml option" where
  "yaml_at [] m = Some (Y_map m)"
| "yaml_at (k # ks) m =
     (if ks = [] then fmlookup m k
      else (case fmlookup m k of Some (Y_map sub) \<Rightarrow> yaml_at ks sub | _ \<Rightarrow> None))"

definition is_map :: "yaml \<Rightarrow> bool" where
  "is_map v \<longleftrightarrow> (\<exists>m. v = Y_map m)"

lemma yaml_at_deep: "ks \<noteq> [] \<Longrightarrow> yaml_at (k # ks) m = (case fmlookup m k of Some (Y_map sub) \<Rightarrow> yaml_at ks sub | _ \<Rightarrow> None)"
  by simp

lemma yaml_at_empty: "path \<noteq> [] \<Longrightarrow> yaml_at path fmempty = None"
  by (cases path) simp_all

text \<open>What two maps below the same key leave of it.\<close>

lemma diff_below:
  assumes "fmlookup c k = Some v" and "fmlookup (diffMaps c d) k = Some (Y_map m)"
  obtains (whole) "v = Y_map m" "\<forall>dm. fmlookup d k \<noteq> Some (Y_map dm)"
    | (part) cm dm where "v = Y_map cm" "fmlookup d k = Some (Y_map dm)" "m = diffMaps cm dm"
    | (none) "m = fmempty" "v = Y_map fmempty"
  using assms
  by (cases v; cases "fmlookup d k"; cases "the (fmlookup d k)")
     (auto simp: fmlookup_diffMaps diff_value_simps diff_value_plain plain_value_def split: if_splits)

lemma equal_paths_left_out:
  assumes "path \<noteq> []" and "yaml_at path c = Some v" and "yaml_at path d = Some v" and "\<not> has_nan v"
  shows "yaml_at path (diffMaps c d) = None"
  using assms
proof (induction path arbitrary: c d)
  case (Cons k ks)
  show ?case
  proof (cases "ks = []")
    case True
    with Cons.prems diff_value_differs [of v v] show ?thesis
      by (cases "diff_value v (Some v)") (auto simp: fmlookup_diffMaps cmp_Equal_def)
  next
    case False
    with Cons.prems obtain cm dm where m: "fmlookup c k = Some (Y_map cm)" "fmlookup d k = Some (Y_map dm)"
      "yaml_at ks cm = Some v" "yaml_at ks dm = Some v"
      by (auto simp: yaml_at_deep split: option.splits yaml.splits)
    have ih: "yaml_at ks (diffMaps cm dm) = None" using Cons.IH False m Cons.prems(4) by blast
    have "cm \<noteq> fmempty" using m(3) yaml_at_empty [OF False] by auto
    then show ?thesis using False m ih
      by (auto simp: yaml_at_deep fmlookup_diffMaps diff_value_map split: if_splits)
  qed
qed simp

lemma extracted_leaves:
  assumes "path \<noteq> []" and "yaml_at path (diffMaps c d) = Some r" and "\<not> is_map r"
  shows "yaml_at path c = Some r \<and> (\<forall>x. yaml_at path d = Some x \<longrightarrow> \<not> cmp_Equal r x)"
  using assms
proof (induction path arbitrary: c d)
  case (Cons k ks)
  show ?case
  proof (cases "ks = []")
    case True
    with Cons.prems obtain v where v: "fmlookup c k = Some v" "diff_value v (fmlookup d k) = Some r"
      by (auto simp: fmlookup_diffMaps bind_eq_Some_conv)
    have "v = r" using v(2) Cons.prems(3)
      by (cases v; cases "fmlookup d k"; cases "the (fmlookup d k)")
         (auto simp: is_map_def diff_value_simps diff_value_plain plain_value_def split: if_splits)
    with v diff_value_differs [of r _ r] True show ?thesis by auto
  next
    case False
    with Cons.prems obtain m where m: "fmlookup (diffMaps c d) k = Some (Y_map m)" "yaml_at ks m = Some r"
      by (auto simp: yaml_at_deep split: option.splits yaml.splits)
    then obtain v where v: "fmlookup c k = Some v" by (auto simp: fmlookup_diffMaps bind_eq_Some_conv)
    from v m(1) show ?thesis
    proof (cases rule: diff_below)
      case whole
      then show ?thesis using False m(2) v by (auto simp: yaml_at_deep split: option.splits yaml.splits)
    next
      case (part cm dm)
      with Cons.IH [of cm dm] False m(2) Cons.prems(3) v show ?thesis by (auto simp: yaml_at_deep)
    next
      case none
      then show ?thesis using m(2) yaml_at_empty [OF False] by simp
    qed
  qed
qed simp

section \<open>Property\<close>

lemma yaml_at_filter:
  "yaml_at (k # ks) (fmfilter P m) = (if P k then yaml_at (k # ks) m else None)"
  by simp

text \<open>C33: The extracted overrides, merged into the defaults, give the same values as the whole configuration
  merged into the defaults, at every depth, except for the excluded keys, which are left out.  And they are
  minimal at every depth: below whatever path of keys the configuration and the defaults agree, nothing is
  extracted, unless the value holds a NaN, which equals nothing; and what is extracted at the end of a path and is
  no map is the configured value there, and it is not equal to the default.\<close>

theorem overrides_suffice:
  "merge_maps (Extract excluded configured defaults) defaults =
     merge_maps (fmfilter (\<lambda>key. key \<notin> set excluded) configured) defaults \<and>
   (\<forall>path v. path \<noteq> [] \<longrightarrow> yaml_at path configured = Some v \<longrightarrow> yaml_at path defaults = Some v \<longrightarrow> \<not> has_nan v \<longrightarrow>
      yaml_at path (Extract excluded configured defaults) = None) \<and>
   (\<forall>path r. path \<noteq> [] \<longrightarrow> yaml_at path (Extract excluded configured defaults) = Some r \<longrightarrow> \<not> is_map r \<longrightarrow>
      hd path \<notin> set excluded \<and> yaml_at path configured = Some r \<and>
      (\<forall>d. yaml_at path defaults = Some d \<longrightarrow> \<not> cmp_Equal r d))"
proof (intro conjI allI impI)
  let ?c = "fmfilter (\<lambda>key. key \<notin> set excluded) configured"
  show "merge_maps (Extract excluded configured defaults) defaults = merge_maps ?c defaults"
    using diffMaps_suffice [OF value_suffices] by (simp add: Extract_def)
  fix path v assume p: "path \<noteq> []" "yaml_at path configured = Some v" "yaml_at path defaults = Some v" "\<not> has_nan v"
  obtain k ks where k: "path = k # ks" using p(1) by (cases path) auto
  show "yaml_at path (Extract excluded configured defaults) = None"
  proof (cases "k \<in> set excluded")
    case True
    then show ?thesis by (simp add: k Extract_def fmlookup_diffMaps)
  next
    case False
    then have "yaml_at path ?c = Some v" using p(2) unfolding k yaml_at_filter by simp
    then show ?thesis unfolding Extract_def by (rule equal_paths_left_out [OF p(1) _ p(3,4)])
  qed
next
  fix path r
  assume p: "path \<noteq> []" "yaml_at path (Extract excluded configured defaults) = Some r" "\<not> is_map r"
  obtain k ks where k: "path = k # ks" using p(1) by (cases path) auto
  note e = extracted_leaves [OF p(1) p(2) [unfolded Extract_def] p(3)]
  then have "k \<notin> set excluded" unfolding k yaml_at_filter by (auto split: if_splits)
  then show "hd path \<notin> set excluded" "yaml_at path configured = Some r"
    using e unfolding k yaml_at_filter by simp_all
  fix d assume "yaml_at path defaults = Some d"
  then show "\<not> cmp_Equal r d" using e by blast
qed

text \<open>An example with two levels: only the inner value that differs is extracted.\<close>

definition sample_conf :: yaml_map where
  "sample_conf = fmap_of_list [(''agent'', Y_map (fmap_of_list [(''mode'', Y_str ''fast''), (''size'', Y_int 2)]))]"

definition sample_dflt :: yaml_map where
  "sample_dflt = fmap_of_list [(''agent'', Y_map (fmap_of_list [(''mode'', Y_str ''fast''), (''size'', Y_int 1)]))]"

theorem overrides_suffice_witness:
  "yaml_at [''agent'', ''mode''] (Extract [''x''] sample_conf sample_dflt) = None \<and>
   yaml_at [''agent'', ''size''] (merge_maps (Extract [''x''] sample_conf sample_dflt) sample_dflt) = Some (Y_int 2)"
proof -
  note p = overrides_suffice [of "[''x'']" sample_conf sample_dflt]
  have at: "yaml_at [''agent'', ''mode''] sample_conf = Some (Y_str ''fast'')"
    "yaml_at [''agent'', ''mode''] sample_dflt = Some (Y_str ''fast'')"
    by (simp_all add: sample_conf_def sample_dflt_def fmlookup_of_list)
  have "yaml_at [''agent'', ''size''] (merge_maps (fmfilter (\<lambda>key. key \<notin> set [''x'']) sample_conf) sample_dflt) = Some (Y_int 2)"
    by (simp add: sample_conf_def sample_dflt_def fmlookup_of_list fmlookup_merge_maps merge_value_simps)
  then show ?thesis using p at by (metis has_nan.simps(5) list.distinct(1))
qed

text \<open>Maps are merged, so an empty map as an override changes nothing.\<close>

lemma empty_override_keeps_default:
  assumes "d \<noteq> fmempty"
  shows "diff_value (Y_map fmempty) (Some (Y_map d)) = Some (Y_map fmempty) \<and>
    merge_value (Y_map fmempty) (Some (Y_map d)) = Y_map d"
proof -
  have "diffMaps fmempty d = fmempty" by (rule fmap_ext) (simp add: fmlookup_diffMaps)
  then show ?thesis using assms by (auto simp: diff_value_map merge_value_map cmp_Equal_def)
qed

text \<open>The values that are not configured keep their defaults: an override cannot remove a key.\<close>

lemma absent_key_stays:
  "fmlookup configured key = None \<Longrightarrow>
   fmlookup (merge_maps (Extract excluded configured defaults) defaults) key = fmlookup defaults key"
  by (simp add: fmlookup_merge_maps Extract_def fmlookup_diffMaps)

end
