(* ===== verification/Dcgm_Transform.thy ===== *)
theory Dcgm_Transform
  imports Metric_Model Go_Float "HOL-Library.AList"
begin

text \<open>
  Vendor-specific metric transformation: the DCGM GPU transformer
  (\<open>app/domain/transform/dcgm/transformer.go\<close>) and the catalog that chains transformers
  (\<open>catalog/catalog.go\<close>, \<open>transform.go\<close>).

  The transformer's state is its memory buffer, an association list from keys to pairs with
  distinct keys, and the number of UUIDs drawn so far; \<open>gen\<close> gives the n-th UUID.  Ranging
  over the buffer visits its entries in an order the parameter \<open>ord\<close> chooses; the laws ask
  only that it permutes them.
\<close>

section \<open>The transformer interface\<close>

type_synonym ('s, 'e) transformer = "'s \<Rightarrow> metric slice \<Rightarrow> ('e, metric slice) result \<times> 's"

text \<open>
  The contract of \<open>types.MetricTransformer\<close> that the collector relies on: from a state
  satisfying the invariant a call succeeds, restores the invariant, and hands every metric
  the transformer does not own through, in order.
\<close>

locale metric_transformer =
  fixes transform :: "('s, 'e) transformer"
    and I :: "'s \<Rightarrow> bool"
    and owned :: "metric \<Rightarrow> bool"
  assumes succeeds: "I s \<Longrightarrow> is_ok (fst (transform s ms))"
    and preserves: "I s \<Longrightarrow> I (snd (transform s ms))"
    and hands_through:
      "I s \<Longrightarrow> fst (transform s ms) = Inr out \<Longrightarrow>
       subseq (filter (\<lambda>m. \<not> owned m) (elems ms)) (elems out)"
begin

lemma returns:
  assumes "I s"
  obtains out s' where "transform s ms = (Inr out, s')" "I s'"
    "subseq (filter (\<lambda>m. \<not> owned m) (elems ms)) (elems out)"
proof -
  obtain r s' where eq: "transform s ms = (r, s')" by (cases "transform s ms")
  then obtain out where "r = Inr out"
    using succeeds [OF assms, of ms] by (auto simp: is_ok_iff)
  with eq show thesis
    using that [of out s'] preserves [OF assms, of ms] hands_through [OF assms, of ms out] by simp
qed

lemma nothing_lost:
  assumes "I s" and "fst (transform s ms) = Inr out"
    and "m \<in> set (elems ms)" and "\<not> owned m"
  shows "m \<in> set (elems out)"
proof -
  have "m \<in> set (filter (\<lambda>m. \<not> owned m) (elems ms))" using assms(3,4) by simp
  then show ?thesis
    using list_emb_set [OF hands_through [OF assms(1,2)]] by auto
qed

end

section \<open>The catalog\<close>

fun run_transformers :: "('s, 'e) transformer list \<Rightarrow> ('s, 'e) transformer" where
  "run_transformers [] s ms = (Inr ms, s)"
| "run_transformers (t # ts) s ms =
     (case t s ms of
        (Inl e, s') \<Rightarrow> (Inl e, s')
      | (Inr ms', s') \<Rightarrow> run_transformers ts s' ms')"

definition catalog_transform :: "('s, 'e) transformer list \<Rightarrow> ('s, 'e) transformer" where
  "catalog_transform ts s ms = (if ts = [] then (Inr ms, s) else run_transformers ts s ms)"

lemma run_transformers_contract:
  assumes "\<forall>t \<in> set ts. metric_transformer t I owned" and "I s"
  shows "\<exists>out s'. run_transformers ts s ms = (Inr out, s') \<and> I s' \<and>
           subseq (filter (\<lambda>m. \<not> owned m) (elems ms)) (elems out)"
  using assms
proof (induction ts arbitrary: s ms)
  case Nil
  then show ?case by (auto simp: subseq_filter_left)
next
  case (Cons t ts)
  then have "metric_transformer t I owned" by simp
  then obtain out s' where t: "t s ms = (Inr out, s')" "I s'"
    "subseq (filter (\<lambda>m. \<not> owned m) (elems ms)) (elems out)"
    using metric_transformer.returns [of t I owned s ms] Cons.prems(2) by metis
  obtain out2 s2 where r: "run_transformers ts s' out = (Inr out2, s2)" "I s2"
    "subseq (filter (\<lambda>m. \<not> owned m) (elems out)) (elems out2)"
    using Cons.IH [of s' out] Cons.prems(1) t(2) by auto
  have "subseq (filter (\<lambda>m. \<not> owned m) (filter (\<lambda>m. \<not> owned m) (elems ms)))
               (filter (\<lambda>m. \<not> owned m) (elems out))"
    by (rule subseq_filter [OF t(3)])
  then have "subseq (filter (\<lambda>m. \<not> owned m) (elems ms)) (filter (\<lambda>m. \<not> owned m) (elems out))"
    by simp
  with t r show ?case using subseq_order.trans by auto
qed

lemma catalog_contract:
  assumes "\<forall>t \<in> set ts. metric_transformer t I owned"
  shows "metric_transformer (catalog_transform ts) I owned"
proof unfold_locales
  fix s ms out
  assume s: "I s"
  obtain o2 s2 where r: "run_transformers ts s ms = (Inr o2, s2)" "I s2"
      "subseq (filter (\<lambda>m. \<not> owned m) (elems ms)) (elems o2)"
    using run_transformers_contract [OF assms s] by blast
  have e: "catalog_transform ts s ms = run_transformers ts s ms"
    by (cases "ts = []") (simp_all add: catalog_transform_def)
  show "is_ok (fst (catalog_transform ts s ms))" "I (snd (catalog_transform ts s ms))"
    using r e by simp_all
  show "subseq (filter (\<lambda>m. \<not> owned m) (elems ms)) (elems out)"
    if "fst (catalog_transform ts s ms) = Inr out"
    using that r e by simp
qed

section \<open>The DCGM transformer\<close>

record memory_pair =
  mp_used :: "metric option"
  mp_free :: "metric option"

record dcgm_state =
  memoryBuffer :: "(string \<times> memory_pair) list"
  uuids_drawn :: nat

definition dcgm_prefix :: string where "dcgm_prefix = ''DCGM_FI_DEV_''"
definition dcgmGPUUtilization :: string where "dcgmGPUUtilization = ''DCGM_FI_DEV_GPU_UTIL''"
definition dcgmMemoryUsed :: string where "dcgmMemoryUsed = ''DCGM_FI_DEV_FB_USED''"
definition dcgmMemoryFree :: string where "dcgmMemoryFree = ''DCGM_FI_DEV_FB_FREE''"
definition standardGPUUsage :: string where
  "standardGPUUsage = ''container_resources_gpu_usage_percent''"
definition standardGPUMemoryUsage :: string where
  "standardGPUMemoryUsage = ''container_resources_gpu_memory_usage_percent''"

definition requiredLabels :: "string list" where
  "requiredLabels = [''namespace'', ''pod'', ''container'']"

definition hasRequiredLabels :: "metric \<Rightarrow> bool" where
  "hasRequiredLabels m = list_all (\<lambda>l. fmlookup (label_map (m_labels m)) l \<noteq> None) requiredLabels"

definition trim_gpu :: "string \<Rightarrow> string" where
  "trim_gpu v = (if prefix ''GPU-'' v then drop 4 v else v)"

text \<open>\<open>UUID\<close> is renamed to \<open>gpu_uuid\<close>, its \<open>GPU-\<close> prefix stripped; where both keys are
  present the order of Go's map iteration decides which of the two values stays, the flag
  \<open>uuid_last\<close> of the model.\<close>

definition transformLabels :: "bool \<Rightarrow> labels \<Rightarrow> labels" where
  "transformLabels uuid_last ls =
     (case ls of
        None \<Rightarrow> None
      | Some f \<Rightarrow>
          (case fmlookup f ''UUID'' of
             None \<Rightarrow> Some f
           | Some v \<Rightarrow>
               (let rest = fmdrop ''UUID'' f
                in if fmlookup f ''gpu_uuid'' = None \<or> uuid_last
                   then Some (fmupd ''gpu_uuid'' (trim_gpu v) rest)
                   else Some rest)))"

definition resolve_node :: "metric \<Rightarrow> string" where
  "resolve_node m =
     (let n1 = node_name m;
          n2 = (if n1 = [] then label_at (m_labels m) ''node'' else n1)
      in if n2 = [] then label_at (m_labels m) ''Hostname'' else n2)"

definition transformGPUUtilization :: "bool \<Rightarrow> nat \<Rightarrow> metric \<Rightarrow> metric" where
  "transformGPUUtilization ul uid m =
     \<lparr>m_id = uid, cluster_name = cluster_name m, cloud_account_id = cloud_account_id m,
      metric_name = standardGPUUsage, node_name = resolve_node m, created_at = created_at m,
      time_stamp = time_stamp m, m_labels = transformLabels ul (m_labels m), m_value = m_value m\<rparr>"

definition makeMemoryKey :: "metric \<Rightarrow> string" where
  "makeMemoryKey m =
     label_at (m_labels m) ''namespace'' @ ''/'' @ label_at (m_labels m) ''pod'' @ ''/'' @
     label_at (m_labels m) ''container'' @ ''/'' @ label_at (m_labels m) ''gpu''"

definition bufferMemoryMetric ::
  "metric \<Rightarrow> bool \<Rightarrow> (string \<times> memory_pair) list \<Rightarrow> (string \<times> memory_pair) list"
where
  "bufferMemoryMetric m isUsed buf =
     (let key = makeMemoryKey m;
          pair = (case map_of buf key of None \<Rightarrow> \<lparr>mp_used = None, mp_free = None\<rparr> | Some p \<Rightarrow> p)
      in AList.update key (if isUsed then pair\<lparr>mp_used := Some m\<rparr> else pair\<lparr>mp_free := Some m\<rparr>) buf)"

definition transformSingle ::
  "bool \<Rightarrow> (nat \<Rightarrow> nat) \<Rightarrow> dcgm_state \<Rightarrow> metric \<Rightarrow> metric list \<times> dcgm_state"
where
  "transformSingle ul gen s m =
     (if \<not> prefix dcgm_prefix (metric_name m) then ([m], s)
      else if \<not> hasRequiredLabels m then ([], s)
      else if metric_name m = dcgmGPUUtilization then
        ([transformGPUUtilization ul (gen (uuids_drawn s)) m], s\<lparr>uuids_drawn := Suc (uuids_drawn s)\<rparr>)
      else if metric_name m = dcgmMemoryUsed then
        ([], s\<lparr>memoryBuffer := bufferMemoryMetric m True (memoryBuffer s)\<rparr>)
      else if metric_name m = dcgmMemoryFree then
        ([], s\<lparr>memoryBuffer := bufferMemoryMetric m False (memoryBuffer s)\<rparr>)
      else ([m], s))"

fun transform_loop ::
  "bool \<Rightarrow> (nat \<Rightarrow> nat) \<Rightarrow> dcgm_state \<Rightarrow> metric list \<Rightarrow> metric list \<times> dcgm_state"
where
  "transform_loop ul gen s [] = ([], s)"
| "transform_loop ul gen s (m # ms) =
     (let (out, s') = transformSingle ul gen s m;
          (rest, s'') = transform_loop ul gen s' ms
      in (out @ rest, s''))"

text \<open>The value of a complete pair; \<open>None\<close> where a value does not parse or the total is zero.\<close>

definition memory_percentage :: "float_lib \<Rightarrow> metric \<Rightarrow> metric \<Rightarrow> f64 option" where
  "memory_percentage L usedm freem =
     (case fl_parse L (m_value usedm) of
        None \<Rightarrow> None
      | Some used \<Rightarrow>
          (case fl_parse L (m_value freem) of
             None \<Rightarrow> None
           | Some free \<Rightarrow>
               (let tot = f_add L used free
                in if f_is_zero tot then None else Some (f_percent L used tot))))"

definition memory_metric :: "bool \<Rightarrow> float_lib \<Rightarrow> nat \<Rightarrow> metric \<Rightarrow> f64 \<Rightarrow> metric" where
  "memory_metric ul L uid u p =
     \<lparr>m_id = uid, cluster_name = cluster_name u, cloud_account_id = cloud_account_id u,
      metric_name = standardGPUMemoryUsage, node_name = resolve_node u, created_at = created_at u,
      time_stamp = time_stamp u, m_labels = transformLabels ul (m_labels u),
      m_value = fl_format L p\<rparr>"

fun flush_pairs ::
  "bool \<Rightarrow> float_lib \<Rightarrow> (nat \<Rightarrow> nat) \<Rightarrow> nat \<Rightarrow> (string \<times> memory_pair) list \<Rightarrow> metric list \<times> nat"
where
  "flush_pairs ul L gen n [] = ([], n)"
| "flush_pairs ul L gen n ((k, pair) # ps) =
     (case (mp_used pair, mp_free pair) of
        (Some u, Some f) \<Rightarrow>
          (case memory_percentage L u f of
             None \<Rightarrow> flush_pairs ul L gen n ps
           | Some p \<Rightarrow>
               (let (rest, n') = flush_pairs ul L gen (Suc n) ps
                in (memory_metric ul L (gen n) u p # rest, n')))
      | _ \<Rightarrow> flush_pairs ul L gen n ps)"

definition flushMemory ::
  "bool \<Rightarrow> float_lib \<Rightarrow> (nat \<Rightarrow> nat) \<Rightarrow>
   ((string \<times> memory_pair) list \<Rightarrow> (string \<times> memory_pair) list) \<Rightarrow>
   dcgm_state \<Rightarrow> metric list \<times> dcgm_state"
where
  "flushMemory ul L gen ord s =
     (if memoryBuffer s = [] then ([], s)
      else (let (out, n) = flush_pairs ul L gen (uuids_drawn s) (ord (memoryBuffer s))
            in (out, s\<lparr>memoryBuffer := [], uuids_drawn := n\<rparr>)))"

definition dcgm_transform ::
  "bool \<Rightarrow> float_lib \<Rightarrow> (nat \<Rightarrow> nat) \<Rightarrow>
   ((string \<times> memory_pair) list \<Rightarrow> (string \<times> memory_pair) list) \<Rightarrow>
   (dcgm_state, 'e) transformer"
where
  "dcgm_transform ul L gen ord s ms =
     (if elems ms = [] then (Inr ms, s)
      else (let (out, s1) = transform_loop ul gen s (elems ms);
                (flushed, s2) = flushMemory ul L gen ord s1
            in (Inr (Some (out @ flushed)), s2)))"

definition new_metric_transformer ::
  "bool \<Rightarrow> float_lib \<Rightarrow> (nat \<Rightarrow> nat) \<Rightarrow>
   ((string \<times> memory_pair) list \<Rightarrow> (string \<times> memory_pair) list) \<Rightarrow>
   (dcgm_state, 'e) transformer"
where
  "new_metric_transformer ul L gen ord = catalog_transform [dcgm_transform ul L gen ord]"

subsection \<open>Keys\<close>

lemma append_sep_inject:
  assumes "c \<notin> set a" and "c \<notin> set b" and "a @ c # x = b @ c # y"
  shows "a = b \<and> x = y"
  using assms
proof (induction a arbitrary: b)
  case Nil
  then show ?case by (cases b) auto
next
  case (Cons d a)
  then show ?case by (cases b) auto
qed

lemma makeMemoryKey_inject:
  assumes "makeMemoryKey m = makeMemoryKey m'"
    and "\<forall>l \<in> {''namespace'', ''pod'', ''container''}.
           CHR ''/'' \<notin> set (label_at (m_labels m) l) \<and> CHR ''/'' \<notin> set (label_at (m_labels m') l)"
    and "l \<in> {''namespace'', ''pod'', ''container'', ''gpu''}"
  shows "label_at (m_labels m) l = label_at (m_labels m') l"
  using assms by (auto simp: makeMemoryKey_def dest!: append_sep_inject [rotated -1])

subsection \<open>The contract\<close>

definition dcgm_owned :: "metric \<Rightarrow> bool" where
  "dcgm_owned m = prefix dcgm_prefix (metric_name m)"

definition dcgm_idle :: "dcgm_state \<Rightarrow> bool" where
  "dcgm_idle s = (memoryBuffer s = [])"

lemma flushMemory_idle: "flushMemory ul L gen ord s = (out, s') \<Longrightarrow> dcgm_idle s'"
  by (auto simp: flushMemory_def dcgm_idle_def split: prod.splits if_splits)

lemma transform_loop_hands_through:
  "subseq (filter (\<lambda>m. \<not> dcgm_owned m) ms) (fst (transform_loop ul gen s ms))"
proof (induction ms arbitrary: s)
  case Nil
  then show ?case by simp
next
  case (Cons m ms)
  obtain out s' where o: "transformSingle ul gen s m = (out, s')" by (cases "transformSingle ul gen s m")
  have "subseq (if dcgm_owned m then [] else [m]) out"
    using o by (auto simp: transformSingle_def dcgm_owned_def split: if_splits)
  with Cons.IH [of s'] o show ?case
    using list_emb_append_mono [of "(=)" "if dcgm_owned m then [] else [m]" out]
    by (fastforce simp: Let_def split: prod.splits if_splits)
qed

lemma dcgm_transform_Inr: "\<exists>out. fst (dcgm_transform ul L gen ord s ms) = Inr out"
  by (auto simp: dcgm_transform_def Let_def split: prod.splits)

lemma dcgm_transform_idle:
  "dcgm_idle s \<Longrightarrow> dcgm_idle (snd (dcgm_transform ul L gen ord s ms))"
  by (auto simp: dcgm_transform_def Let_def dest: flushMemory_idle split: prod.splits)

interpretation dcgm: metric_transformer
  "dcgm_transform ul L gen ord :: (dcgm_state, 'e) transformer" dcgm_idle dcgm_owned
proof unfold_locales
  fix s ms out
  assume s: "dcgm_idle s"
  show "is_ok (fst (dcgm_transform ul L gen ord s ms :: ('e, metric slice) result \<times> dcgm_state))"
    using dcgm_transform_Inr [of ul L gen ord s ms] by (auto simp: is_ok_iff)
  show "dcgm_idle (snd (dcgm_transform ul L gen ord s ms :: ('e, metric slice) result \<times> dcgm_state))"
    by (rule dcgm_transform_idle [OF s])
  show "subseq (filter (\<lambda>m. \<not> dcgm_owned m) (elems ms)) (elems out)"
    if "fst (dcgm_transform ul L gen ord s ms :: ('e, metric slice) result \<times> dcgm_state) = Inr out"
    using that transform_loop_hands_through [of "elems ms" ul gen s]
    by (auto simp: dcgm_transform_def Let_def split: prod.splits if_splits
        intro: list_emb_append2 [of "(=)", where zs = "[]"] subseq_rev_drop_many)
qed

interpretation agent_transformer: metric_transformer
  "new_metric_transformer ul L gen ord :: (dcgm_state, 'e) transformer" dcgm_idle dcgm_owned
  unfolding new_metric_transformer_def
  by (rule catalog_contract) (simp add: dcgm.metric_transformer_axioms)

subsection \<open>Pairing of memory readings\<close>

definition memory_reading :: "string \<Rightarrow> string \<Rightarrow> metric \<Rightarrow> bool" where
  "memory_reading name k m \<longleftrightarrow> metric_name m = name \<and> hasRequiredLabels m \<and> makeMemoryKey m = k"

text \<open>The reading that counts for a key is the last one of the request.\<close>

definition last_reading :: "string \<Rightarrow> string \<Rightarrow> metric list \<Rightarrow> metric option" where
  "last_reading name k ms = find (memory_reading name k) (rev ms)"

definition reading_keys :: "metric list \<Rightarrow> string list" where
  "reading_keys ms =
     remdups (map makeMemoryKey
       (filter (\<lambda>m. hasRequiredLabels m \<and> metric_name m \<in> {dcgmMemoryUsed, dcgmMemoryFree}) ms))"

definition erase_id :: "metric \<Rightarrow> metric" where "erase_id m = m\<lparr>m_id := 0\<rparr>"

definition combined_reading ::
  "bool \<Rightarrow> float_lib \<Rightarrow> metric option \<Rightarrow> metric option \<Rightarrow> metric option"
where
  "combined_reading ul L u f =
     (case (u, f) of
        (Some um, Some fm) \<Rightarrow> map_option (memory_metric ul L 0 um) (memory_percentage L um fm)
      | _ \<Rightarrow> None)"

definition pair_at :: "(string \<times> memory_pair) list \<Rightarrow> string \<Rightarrow> memory_pair" where
  "pair_at b k = (case map_of b k of None \<Rightarrow> \<lparr>mp_used = None, mp_free = None\<rparr> | Some p \<Rightarrow> p)"

definition or_opt :: "'a option \<Rightarrow> 'a option \<Rightarrow> 'a option" where
  "or_opt a b = (case a of None \<Rightarrow> b | Some _ \<Rightarrow> a)"

lemma or_opt_simps [simp]: "or_opt None b = b" "or_opt (Some x) b = Some x" "or_opt a None = a"
  by (simp_all add: or_opt_def split: option.splits)

lemma find_append: "find P (xs @ ys) = or_opt (find P xs) (find P ys)"
  by (induction xs) auto

lemma or_opt_assoc: "or_opt (or_opt a b) c = or_opt a (or_opt b c)"
  by (cases a) auto

lemma dcgm_names [simp]:
  "prefix dcgm_prefix dcgmMemoryUsed" "prefix dcgm_prefix dcgmMemoryFree"
  "prefix dcgm_prefix dcgmGPUUtilization"
  "dcgmMemoryUsed \<noteq> dcgmMemoryFree" "dcgmMemoryUsed \<noteq> dcgmGPUUtilization"
  "dcgmMemoryFree \<noteq> dcgmGPUUtilization" "dcgmMemoryFree \<noteq> dcgmMemoryUsed"
  "dcgmGPUUtilization \<noteq> dcgmMemoryUsed" "dcgmGPUUtilization \<noteq> dcgmMemoryFree"
  by (simp_all add: dcgm_prefix_def dcgmMemoryUsed_def dcgmMemoryFree_def dcgmGPUUtilization_def)

lemma pair_at_buffer:
  "pair_at (bufferMemoryMetric m isUsed b) k =
     (if k = makeMemoryKey m
      then (if isUsed then (pair_at b k)\<lparr>mp_used := Some m\<rparr> else (pair_at b k)\<lparr>mp_free := Some m\<rparr>)
      else pair_at b k)"
  by (simp add: pair_at_def bufferMemoryMetric_def Let_def update_conv')

lemma transformSingle_buffer:
  "pair_at (memoryBuffer (snd (transformSingle ul gen s m))) k =
     \<lparr>mp_used = or_opt (find (memory_reading dcgmMemoryUsed k) [m]) (mp_used (pair_at (memoryBuffer s) k)),
      mp_free = or_opt (find (memory_reading dcgmMemoryFree k) [m]) (mp_free (pair_at (memoryBuffer s) k))\<rparr>"
  by (cases "pair_at (memoryBuffer s) k")
    (auto simp: transformSingle_def pair_at_buffer memory_reading_def)

lemma transform_loop_buffer:
  "pair_at (memoryBuffer (snd (transform_loop ul gen s ms))) k =
     \<lparr>mp_used = or_opt (last_reading dcgmMemoryUsed k ms) (mp_used (pair_at (memoryBuffer s) k)),
      mp_free = or_opt (last_reading dcgmMemoryFree k ms) (mp_free (pair_at (memoryBuffer s) k))\<rparr>"
proof (induction ms arbitrary: s)
  case Nil
  then show ?case by (simp add: last_reading_def)
next
  case (Cons m ms)
  have "pair_at (memoryBuffer (snd (transform_loop ul gen s (m # ms)))) k =
        pair_at (memoryBuffer (snd (transform_loop ul gen (snd (transformSingle ul gen s m)) ms))) k"
    by (simp add: Let_def split: prod.splits)
  then show ?case
    by (simp add: Cons.IH transformSingle_buffer last_reading_def find_append or_opt_assoc)
qed

lemma buffer_keys:
  "fst ` set (bufferMemoryMetric m isUsed b) = insert (makeMemoryKey m) (fst ` set b)"
  by (simp add: bufferMemoryMetric_def Let_def dom_update)

lemma buffer_distinct:
  "distinct (map fst b) \<Longrightarrow> distinct (map fst (bufferMemoryMetric m isUsed b))"
  by (simp add: bufferMemoryMetric_def Let_def distinct_update)

lemma transform_loop_keys:
  assumes "distinct (map fst (memoryBuffer s))"
  shows "distinct (map fst (memoryBuffer (snd (transform_loop ul gen s ms)))) \<and>
         fst ` set (memoryBuffer (snd (transform_loop ul gen s ms))) =
           fst ` set (memoryBuffer s) \<union> set (reading_keys ms)"
  using assms
proof (induction ms arbitrary: s)
  case Nil
  then show ?case by (simp add: reading_keys_def)
next
  case (Cons m ms)
  let ?s' = "snd (transformSingle ul gen s m)"
  have d: "distinct (map fst (memoryBuffer ?s'))"
    using Cons.prems by (auto simp: transformSingle_def buffer_distinct)
  have k: "fst ` set (memoryBuffer ?s') = fst ` set (memoryBuffer s) \<union>
      (if hasRequiredLabels m \<and> metric_name m \<in> {dcgmMemoryUsed, dcgmMemoryFree}
       then {makeMemoryKey m} else {})"
    by (auto simp: transformSingle_def buffer_keys)
  have e: "snd (transform_loop ul gen s (m # ms)) = snd (transform_loop ul gen ?s' ms)"
    by (simp add: Let_def split: prod.splits)
  show ?case
    using Cons.IH [OF d] unfolding e k by (auto simp: reading_keys_def)
qed

lemma flush_pairs_outputs:
  "map erase_id (fst (flush_pairs ul L gen n ps)) =
     List.map_filter (\<lambda>(k, pair). combined_reading ul L (mp_used pair) (mp_free pair)) ps"
proof (induction ps arbitrary: n)
  case Nil
  then show ?case by (simp add: List.map_filter_simps)
next
  case (Cons kp ps)
  obtain k pair where kp: "kp = (k, pair)" by (cases kp)
  have erase: "erase_id (memory_metric ul L x u p) = memory_metric ul L 0 u p" for x u p
    by (simp add: erase_id_def memory_metric_def)
  show ?case
  proof (cases "combined_reading ul L (mp_used pair) (mp_free pair)")
    case None
    then have "flush_pairs ul L gen n (kp # ps) = flush_pairs ul L gen n ps"
      by (auto simp: kp combined_reading_def split: option.splits)
    with None show ?thesis by (simp add: kp List.map_filter_simps Cons.IH)
  next
    case (Some m)
    then obtain u f p where "mp_used pair = Some u" "mp_free pair = Some f"
      "memory_percentage L u f = Some p" "m = memory_metric ul L 0 u p"
      by (auto simp: combined_reading_def split: option.splits)
    then show ?thesis
      using Some by (simp add: kp List.map_filter_simps Cons.IH case_prod_beta Let_def erase)
  qed
qed

lemma map_filter_via:
  "(\<And>x. x \<in> set xs \<Longrightarrow> g x = h (k x)) \<Longrightarrow> List.map_filter g xs = List.map_filter h (map k xs)"
  by (induction xs) (simp_all add: List.map_filter_simps split: option.split)

lemma map_filter_pair_at:
  assumes "distinct (map fst b)"
  shows "List.map_filter (\<lambda>(k, pair). combined_reading ul L (mp_used pair) (mp_free pair)) b =
         List.map_filter (\<lambda>k. combined_reading ul L (mp_used (pair_at b k)) (mp_free (pair_at b k)))
           (map fst b)"
proof (rule map_filter_via)
  fix x
  assume "x \<in> set b"
  with assms have "map_of b (fst x) = Some (snd x)"
    by (intro map_of_is_SomeI) simp_all
  then show "(case x of (k, pair) \<Rightarrow> combined_reading ul L (mp_used pair) (mp_free pair)) =
      combined_reading ul L (mp_used (pair_at b (fst x))) (mp_free (pair_at b (fst x)))"
    by (simp add: pair_at_def case_prod_beta)
qed

lemma mset_map_filter_cong:
  assumes "mset xs = mset ys"
  shows "mset (List.map_filter f xs) = mset (List.map_filter f ys)"
  using assms by (simp add: List.map_filter_def)

definition direct_output :: "bool \<Rightarrow> metric \<Rightarrow> metric list" where
  "direct_output ul m =
     (if \<not> dcgm_owned m then [erase_id m]
      else if \<not> hasRequiredLabels m then []
      else if metric_name m = dcgmGPUUtilization then [transformGPUUtilization ul 0 m]
      else if metric_name m \<in> {dcgmMemoryUsed, dcgmMemoryFree} then []
      else [erase_id m])"

lemma transform_loop_outputs:
  "map erase_id (fst (transform_loop ul gen s ms)) = concat (map (direct_output ul) ms)"
proof (induction ms arbitrary: s)
  case Nil
  then show ?case by simp
next
  case (Cons m ms)
  have "map erase_id (fst (transformSingle ul gen s m)) = direct_output ul m"
    by (auto simp: transformSingle_def direct_output_def dcgm_owned_def erase_id_def
        transformGPUUtilization_def)
  then show ?case
    using Cons.IH [of "snd (transformSingle ul gen s m)"] by (simp add: Let_def case_prod_beta)
qed

lemma flushMemory_outputs:
  assumes "\<forall>b. mset (ord b) = mset b" and "distinct (map fst (memoryBuffer s))"
  shows "mset (map erase_id (fst (flushMemory ul L gen ord s))) =
         mset (List.map_filter (\<lambda>k. combined_reading ul L (mp_used (pair_at (memoryBuffer s) k))
                 (mp_free (pair_at (memoryBuffer s) k))) (map fst (memoryBuffer s)))"
proof (cases "memoryBuffer s = []")
  case True
  then show ?thesis by (simp add: flushMemory_def List.map_filter_def)
next
  case False
  let ?f = "\<lambda>(k, pair). combined_reading ul L (mp_used pair) (mp_free pair)"
  from False have "map erase_id (fst (flushMemory ul L gen ord s)) =
      List.map_filter ?f (ord (memoryBuffer s))"
    using flush_pairs_outputs [of ul L gen "uuids_drawn s" "ord (memoryBuffer s)"]
    by (simp add: flushMemory_def case_prod_beta)
  moreover have "mset (List.map_filter ?f (ord (memoryBuffer s))) = mset (List.map_filter ?f (memoryBuffer s))"
    using assms(1) by (intro mset_map_filter_cong) simp
  ultimately show ?thesis by (simp add: map_filter_pair_at [OF assms(2)])
qed

text \<open>The whole transformer, against its reading as one combined output per key.\<close>

lemma dcgm_transform_spec:
  assumes idle: "dcgm_idle s" and ne: "ms \<noteq> []" and ord: "\<forall>b. mset (ord b) = mset b"
  obtains direct flushed s' where
    "(dcgm_transform ul L gen ord :: (dcgm_state, 'e) transformer) s (Some ms) =
       (Inr (Some (direct @ flushed)), s')"
    "dcgm_idle s'"
    "map erase_id direct = concat (map (direct_output ul) ms)"
    "mset (map erase_id flushed) =
       mset (List.map_filter (\<lambda>k. combined_reading ul L (last_reading dcgmMemoryUsed k ms)
               (last_reading dcgmMemoryFree k ms)) (reading_keys ms))"
proof -
  obtain direct s1 where l: "transform_loop ul gen s ms = (direct, s1)" by (cases "transform_loop ul gen s ms")
  obtain flushed s2 where f: "flushMemory ul L gen ord s1 = (flushed, s2)" by (cases "flushMemory ul L gen ord s1")
  have b: "memoryBuffer s = []" using idle by (simp add: dcgm_idle_def)
  have keys: "distinct (map fst (memoryBuffer s1))" "fst ` set (memoryBuffer s1) = set (reading_keys ms)"
    using transform_loop_keys [of s ul gen ms] b l by simp_all
  have pa: "pair_at (memoryBuffer s1) k = \<lparr>mp_used = last_reading dcgmMemoryUsed k ms,
      mp_free = last_reading dcgmMemoryFree k ms\<rparr>" for k
  proof -
    have "pair_at (memoryBuffer s) k = \<lparr>mp_used = None, mp_free = None\<rparr>"
      using b by (simp add: pair_at_def)
    then show ?thesis using transform_loop_buffer [of ul gen s ms k] l by simp
  qed
  have "mset (map fst (memoryBuffer s1)) = mset (reading_keys ms)"
    using keys by (intro set_eq_iff_mset_eq_distinct [THEN iffD1]) (simp_all add: reading_keys_def)
  note same = mset_map_filter_cong [OF this]
  have "mset (map erase_id flushed) =
       mset (List.map_filter (\<lambda>k. combined_reading ul L (last_reading dcgmMemoryUsed k ms)
               (last_reading dcgmMemoryFree k ms)) (map fst (memoryBuffer s1)))"
    using flushMemory_outputs [OF ord keys(1), of ul L gen] unfolding f pa by simp
  then have "mset (map erase_id flushed) =
       mset (List.map_filter (\<lambda>k. combined_reading ul L (last_reading dcgmMemoryUsed k ms)
               (last_reading dcgmMemoryFree k ms)) (reading_keys ms))"
    using same by (rule trans)
  moreover have "map erase_id direct = concat (map (direct_output ul) ms)"
    using transform_loop_outputs [of ul gen s ms] l by simp
  moreover have "(dcgm_transform ul L gen ord :: (dcgm_state, 'e) transformer) s (Some ms) =
       (Inr (Some (direct @ flushed)), s2)"
    using ne l f by (simp add: dcgm_transform_def)
  ultimately show thesis using that flushMemory_idle [OF f] by blast
qed

subsection \<open>The percentage\<close>

lemma f_add_nonneg:
  assumes r: "ieee_round (fl_round L)" and "0 \<le> x" "0 \<le> y" and x: "fl_round L x = Fin x"
  shows "f_add L (Fin x) (Fin y) = F_PInf \<or> (\<exists>t \<ge> x. f_add L (Fin x) (Fin y) = Fin t)"
proof -
  have "f_le (Fin x) (fl_round L (x + y))"
    using ieee_round_mono [OF r, of x "x + y"] assms by simp
  then show ?thesis by (cases "fl_round L (x + y)") auto
qed

lemma memory_percentage_bounds:
  assumes r: "ieee_round (fl_round L)"
    and u: "fl_parse L (m_value um) = Some (Fin x)" "0 \<le> x" "fl_round L x = Fin x"
    and f: "fl_parse L (m_value fm) = Some (Fin y)" "0 \<le> y"
    and p: "memory_percentage L um fm = Some p"
  shows "\<exists>q. p = Fin q \<and> 0 \<le> q \<and> q \<le> 100"
proof -
  have eq: "p = f_percent L (Fin x) (f_add L (Fin x) (Fin y))"
    and nz: "f_add L (Fin x) (Fin y) \<noteq> Fin 0"
    using p u(1) f(1) by (auto simp: memory_percentage_def f_is_zero_def Let_def split: if_splits)
  from f_add_nonneg [OF r u(2) f(2) u(3)] show ?thesis
  proof
    assume "f_add L (Fin x) (Fin y) = F_PInf"
    then show ?thesis using eq ieee_round_0 [OF r] by (simp add: f_percent_def)
  next
    assume "\<exists>t \<ge> x. f_add L (Fin x) (Fin y) = Fin t"
    then obtain t where t: "x \<le> t" "f_add L (Fin x) (Fin y) = Fin t" by blast
    then obtain q where "f_percent L (Fin x) (Fin t) = Fin q" "0 \<le> q" "q \<le> 100"
      using f_percent_bounds [OF r u(2) t(1)] nz by auto
    then show ?thesis using eq t(2) by simp
  qed
qed

section \<open>Properties\<close>

definition exact_floats :: float_lib where
  "exact_floats = \<lparr>fl_round = Fin, fl_parse = (\<lambda>s. map_option (\<lambda>n. Fin (of_nat n)) (parse_nat s)),
                   fl_format = (\<lambda>_. ''ratio'')\<rparr>"

definition gpu_labels :: labels where
  "gpu_labels = Some (fmap_of_list [(''namespace'', ''ns''), (''pod'', ''p''), (''container'', ''c''), (''gpu'', ''0'')])"

definition used_reading :: metric where
  "used_reading = empty_metric\<lparr>metric_name := dcgmMemoryUsed, m_labels := gpu_labels, m_value := ''30''\<rparr>"

definition free_reading :: metric where
  "free_reading = empty_metric\<lparr>metric_name := dcgmMemoryFree, m_labels := gpu_labels, m_value := ''10''\<rparr>"

text \<open>C13: On a transformer whose memory buffer is empty, a non-empty request succeeds and
  leaves the buffer empty.  Its output is, up to ids, the direct image of each metric in order
  (foreign and other DCGM metrics as they are, utilisation renamed, unlabelled DCGM metrics
  dropped) followed by one percentage for each GPU key that has a last used and a last free
  reading with a computable ratio, in some order.\<close>

theorem dcgm_transform_reference:
  assumes "dcgm_idle s" and "ms \<noteq> []" and "\<forall>b. mset (ord b) = mset b"
  shows "\<exists>direct flushed s'.
    (dcgm_transform ul L gen ord :: (dcgm_state, 'e) transformer) s (Some ms) =
       (Inr (Some (direct @ flushed)), s') \<and>
    dcgm_idle s' \<and>
    map erase_id direct = concat (map (direct_output ul) ms) \<and>
    mset (map erase_id flushed) =
       mset (List.map_filter (\<lambda>k. combined_reading ul L (last_reading dcgmMemoryUsed k ms)
               (last_reading dcgmMemoryFree k ms)) (reading_keys ms))"
  by (rule dcgm_transform_spec [OF assms, where ul = ul and L = L and gen = gen]) blast

theorem dcgm_transform_reference_witness:
  "\<exists>direct flushed s'.
    (dcgm_transform True exact_floats id rev :: (dcgm_state, unit) transformer)
        \<lparr>memoryBuffer = [], uuids_drawn = 0\<rparr> (Some [used_reading]) =
       (Inr (Some (direct @ flushed)), s') \<and>
    dcgm_idle s' \<and>
    map erase_id direct = concat (map (direct_output True) [used_reading]) \<and>
    mset (map erase_id flushed) =
       mset (List.map_filter (\<lambda>k. combined_reading True exact_floats (last_reading dcgmMemoryUsed k [used_reading])
               (last_reading dcgmMemoryFree k [used_reading])) (reading_keys [used_reading]))"
  by (rule dcgm_transform_reference) (simp_all add: dcgm_idle_def)

lemma sample_values: "parse_nat ''30'' = Some 30" "parse_nat ''10'' = Some 10"
  by (simp_all add: parse_nat_def)

lemma memory_percentage_sample:
  "memory_percentage exact_floats used_reading free_reading = Some (Fin 75)"
  by (simp add: memory_percentage_def exact_floats_def used_reading_def free_reading_def sample_values
      f_percent_def f_is_zero_def Let_def)

text \<open>A memory percentage that is computed from a non-negative used and a non-negative
  free reading lies between 0 and 100, under any rounding that is monotone and exact on small
  integers as IEEE arithmetic is: rounding never pushes it over 100, and a total that
  overflows to infinity gives 0.\<close>

theorem memory_percentage_in_range:
  assumes "ieee_round (fl_round L)"
    and "fl_parse L (m_value um) = Some (Fin x)" "0 \<le> x" "fl_round L x = Fin x"
    and "fl_parse L (m_value fm) = Some (Fin y)" "0 \<le> y"
    and "memory_percentage L um fm = Some p"
  shows "\<exists>q. p = Fin q \<and> 0 \<le> q \<and> q \<le> 100"
  by (rule memory_percentage_bounds [OF assms])

theorem memory_percentage_in_range_witness:
  "memory_percentage exact_floats used_reading free_reading = Some (Fin 75) \<and>
   (\<exists>q. Fin 75 = Fin q \<and> 0 \<le> q \<and> q \<le> 100)"
proof -
  note p = sample_values and v = memory_percentage_sample
  have "\<exists>q. Fin 75 = Fin q \<and> 0 \<le> q \<and> q \<le> 100"
    by (rule memory_percentage_in_range [of exact_floats used_reading 30 free_reading 10])
      (simp_all add: v ieee_round_Fin, simp_all add: exact_floats_def used_reading_def free_reading_def p)
  with v show ?thesis by simp
qed

text \<open>The GPU key separates readings: if two metrics share a key and none of their
  namespace, pod and container labels contains a slash, the four labels agree, so readings of
  different containers or GPUs are never combined.\<close>

theorem memory_key_separates:
  assumes "makeMemoryKey m = makeMemoryKey m'"
    and "\<forall>l \<in> {''namespace'', ''pod'', ''container''}.
           CHR ''/'' \<notin> set (label_at (m_labels m) l) \<and> CHR ''/'' \<notin> set (label_at (m_labels m') l)"
    and "l \<in> {''namespace'', ''pod'', ''container'', ''gpu''}"
  shows "label_at (m_labels m) l = label_at (m_labels m') l"
  by (rule makeMemoryKey_inject [OF assms])

theorem memory_key_separates_witness:
  "label_at (m_labels used_reading) ''gpu'' = label_at (m_labels free_reading) ''gpu''"
  by (rule memory_key_separates)
    (simp_all add: used_reading_def free_reading_def makeMemoryKey_def gpu_labels_def label_at_def)

text \<open>The transformer is shared by all requests and not locked: when another request runs
  between the two phases of a request, its flush takes the first request's readings.  Here
  the reply to a request without GPU metrics carries the percentage, and the request that
  brought both readings gets none.\<close>

theorem concurrent_request_takes_readings:
  "case transform_loop True id \<lparr>memoryBuffer = [], uuids_drawn = 0\<rparr> [used_reading, free_reading] of
     (outA, s1) \<Rightarrow>
       (case (dcgm_transform True exact_floats id rev :: (dcgm_state, unit) transformer) s1 (Some [empty_metric]) of
          (rB, s2) \<Rightarrow> outA = [] \<and> fst (flushMemory True exact_floats id rev s2) = [] \<and>
            (case rB of Inr outB \<Rightarrow> map metric_name (elems outB) = [[], standardGPUMemoryUsage] | _ \<Rightarrow> False))"
proof -
  have p: "memory_percentage exact_floats used_reading free_reading = Some (Fin 75)"
    using memory_percentage_sample .
  have k: "makeMemoryKey free_reading = makeMemoryKey used_reading" "makeMemoryKey used_reading = ''ns/p/c/0''"
    by (simp_all add: makeMemoryKey_def used_reading_def free_reading_def gpu_labels_def label_at_def)
  have r: "hasRequiredLabels used_reading" "hasRequiredLabels free_reading"
    by (simp_all add: hasRequiredLabels_def requiredLabels_def used_reading_def free_reading_def gpu_labels_def)
  have n: "metric_name used_reading = dcgmMemoryUsed" "metric_name free_reading = dcgmMemoryFree"
    "metric_name empty_metric = []"
    by (simp_all add: used_reading_def free_reading_def empty_metric_def)
  have "transform_loop True id \<lparr>memoryBuffer = [], uuids_drawn = 0\<rparr> [used_reading, free_reading] =
      ([], \<lparr>memoryBuffer = [(''ns/p/c/0'', \<lparr>mp_used = Some used_reading, mp_free = Some free_reading\<rparr>)], uuids_drawn = 0\<rparr>)"
    by (simp add: transformSingle_def n r bufferMemoryMetric_def k)
  then show ?thesis
    by (simp add: dcgm_transform_def transformSingle_def n dcgm_prefix_def flushMemory_def p memory_metric_def)
qed

end
