(* ===== verification/Metric_Collector.thy ===== *)
theory Metric_Collector
  imports Metric_Filters Dcgm_Transform Disk_Store
begin

text \<open>
  The remote-write path: \<open>app/domain/metric_collector.go\<close> (content negotiation, decoding of
  both protocol versions, transformation, filtering, storing) and the handler
  \<open>app/handlers/remote_write.go\<close> in front of it.

  Snappy and protobuf are parameters (the decoded messages are records), and so are the
  names and the validity check of the remote-write message types, which a client library
  defines.  UUIDs and clock readings are functions of the number drawn so far.  A Go run-time
  panic is the error \<open>IndexPanic\<close>.
\<close>

section \<open>Content negotiation\<close>

datatype 'e collector_error =
    BadMediaType | BadParameter | InvalidMessageType | SnappyFailed | ErrJSONUnmarshal
  | UnsupportedContentType | TransformFailed | StoreFailed 'e | IndexPanic

record remote_api =
  ra_v1 :: string
  ra_v2 :: string
  ra_valid :: "string \<Rightarrow> bool"

definition appProtoContentType :: string where "appProtoContentType = ''application/x-protobuf''"
definition SnappyBlockCompression :: string where "SnappyBlockCompression = ''snappy''"

fun proto_params :: "remote_api \<Rightarrow> string list \<Rightarrow> ('e collector_error, string) result" where
  "proto_params ra [] = Inr (ra_v1 ra)"
| "proto_params ra (p # ps) =
     (case split_char (CHR ''='') p of
        [k, v] \<Rightarrow>
          if k = ''proto'' then (if ra_valid ra v then Inr v else Inl InvalidMessageType)
          else proto_params ra ps
      | _ \<Rightarrow> Inl BadParameter)"

definition parseProtoMsg :: "remote_api \<Rightarrow> string \<Rightarrow> ('e collector_error, string) result" where
  "parseProtoMsg ra contentType =
     (case split_char (CHR '';'') (trim_space contentType) of
        [] \<Rightarrow> Inl BadMediaType
      | media # params \<Rightarrow>
          if media \<noteq> appProtoContentType then Inl BadMediaType else proto_params ra params)"

section \<open>Decoding\<close>

record sample =
  sa_timestamp :: int
  sa_value :: f64

record series_v1 =
  s1_labels :: "(string \<times> string) list"
  s1_samples :: "sample list"

record series_v2 =
  s2_refs :: "32 word list"
  s2_samples :: "sample list"
  s2_histograms :: nat
  s2_exemplars :: nat

record request_v2 =
  q_symbols :: "string list"
  q_series :: "series_v2 list"

record write_stats =
  Samples :: nat
  Histograms :: nat
  Exemplars :: nat
  Confirmed :: bool

definition no_stats :: write_stats where
  "no_stats = \<lparr>Samples = 0, Histograms = 0, Exemplars = 0, Confirmed = False\<rparr>"

record decoder_env =
  de_cluster :: string
  de_account :: string
  de_uuid :: "nat \<Rightarrow> nat"
  de_clock :: "nat \<Rightarrow> int"
  de_format :: "f64 \<Rightarrow> string"

definition sample_to_metric :: "decoder_env \<Rightarrow> nat \<Rightarrow> str_map \<Rightarrow> sample \<Rightarrow> metric" where
  "sample_to_metric E n ls s =
     import_labels
       \<lparr>m_id = de_uuid E n, cluster_name = de_cluster E, cloud_account_id = de_account E,
        metric_name = [], node_name = [], created_at = de_clock E n,
        time_stamp = from_milli (sa_timestamp s), m_labels = None, m_value = de_format E (sa_value s)\<rparr>
       (Some ls)"

fun v1_labels :: "(string \<times> string) list \<Rightarrow> str_map \<Rightarrow> str_map" where
  "v1_labels [] m = m"
| "v1_labels ((k, v) # ls) m = v1_labels ls (fmupd k v m)"

fun v1_samples :: "decoder_env \<Rightarrow> nat \<Rightarrow> str_map \<Rightarrow> sample list \<Rightarrow> metric list \<times> nat" where
  "v1_samples E n ls [] = ([], n)"
| "v1_samples E n ls (s # ss) =
     (let m = sample_to_metric E n ls s;
          (rest, n') = v1_samples E (Suc n) ls ss
      in (if metric_name m = [] then rest else m # rest, n'))"

fun DecodeV1 :: "decoder_env \<Rightarrow> nat \<Rightarrow> series_v1 list \<Rightarrow> metric list \<times> nat" where
  "DecodeV1 E n [] = ([], n)"
| "DecodeV1 E n (ts # tss) =
     (let (ms, n') = v1_samples E n (v1_labels (s1_labels ts) fmempty) (s1_samples ts);
          (rest, n'') = DecodeV1 E n' tss
      in (ms @ rest, n''))"

text \<open>The loop reads a name and a value reference per round, so an odd number of references
  runs past the slice before any bound is checked.\<close>

fun v2_labels :: "string list \<Rightarrow> 32 word list \<Rightarrow> str_map \<Rightarrow> ('e collector_error, str_map) result" where
  "v2_labels syms [] m = Inr m"
| "v2_labels syms [r] m = Inl IndexPanic"
| "v2_labels syms (nameIdx # valueIdx # rs) m =
     (if length syms \<le> unat nameIdx \<or> length syms \<le> unat valueIdx then Inl ErrJSONUnmarshal
      else v2_labels syms rs (fmupd (syms ! unat nameIdx) (syms ! unat valueIdx) m))"

fun v2_samples :: "decoder_env \<Rightarrow> nat \<Rightarrow> str_map \<Rightarrow> sample list \<Rightarrow> metric list \<times> nat" where
  "v2_samples E n ls [] = ([], n)"
| "v2_samples E n ls (s # ss) =
     (let m = sample_to_metric E n ls s;
          (rest, n') = v2_samples E (Suc n) ls ss
      in (m # rest, n'))"

fun v2_series ::
  "decoder_env \<Rightarrow> string list \<Rightarrow> nat \<Rightarrow> write_stats \<Rightarrow> series_v2 list \<Rightarrow>
   ('e collector_error, metric list \<times> write_stats) result \<times> nat"
where
  "v2_series E syms n st [] = (Inr ([], st), n)"
| "v2_series E syms n st (ts # tss) =
     (case v2_labels syms (s2_refs ts) fmempty of
        Inl e \<Rightarrow> (Inl e, n)
      | Inr ls \<Rightarrow>
          (let (ms, n') = v2_samples E n ls (s2_samples ts);
               st' = st\<lparr>Samples := Samples st + length ms,
                        Histograms := Histograms st + s2_histograms ts,
                        Exemplars := Exemplars st + s2_exemplars ts\<rparr>
           in case v2_series E syms n' st' tss of
                (Inl e, n'') \<Rightarrow> (Inl e, n'')
              | (Inr (rest, st''), n'') \<Rightarrow> (Inr (ms @ rest, st''), n'')))"

definition DecodeV2 ::
  "decoder_env \<Rightarrow> nat \<Rightarrow> request_v2 \<Rightarrow> ('e collector_error, metric list \<times> write_stats) result \<times> nat"
where
  "DecodeV2 E n req =
     (case v2_series E (q_symbols req) n no_stats (q_series req) of
        (Inl e, n') \<Rightarrow> (Inl e, n')
      | (Inr (ms, st), n') \<Rightarrow> (Inr (ms, st\<lparr>Confirmed := True\<rparr>), n'))"

section \<open>Storing\<close>

record ('v, 'w, 'e) store_ops =
  so_put :: "('v, 'w, 'e) put_op"
  so_flush :: "('v, 'w, 'e) flush_op"

record wire =
  wi_snappy :: "string \<Rightarrow> string option"
  wi_v1 :: "string \<Rightarrow> series_v1 list option"
  wi_v2 :: "string \<Rightarrow> request_v2 option"

record ('r, 'v, 'w, 'e) collector =
  co_api :: remote_api
  co_wire :: wire
  co_env :: decoder_env
  co_transform :: "(dcgm_state, 'e collector_error) transformer"
  co_match :: "'r \<Rightarrow> string \<Rightarrow> bool"
  co_filter :: "'r metric_filter option"
  costStore :: "('v, 'w, 'e) store_ops option"
  observabilityStore :: "('v, 'w, 'e) store_ops option"

record 'w collector_state =
  initialFlush :: bool
  cs_dcgm :: dcgm_state
  cs_world :: 'w

text \<open>The environments of the up to three store calls of one request.\<close>

record 'v request_env =
  re_put :: 'v
  re_flush :: 'v
  re_obs :: 'v

definition decode_body ::
  "('r, 'v, 'w, 'e) collector \<Rightarrow> nat \<Rightarrow> string \<Rightarrow> string \<Rightarrow> string \<Rightarrow>
   ('e collector_error, metric list) result \<times> write_stats option \<times> nat"
where
  "decode_body C n contentType encodingType body =
     (case parseProtoMsg (co_api C) (if contentType = [] then appProtoContentType else contentType) of
        Inl e \<Rightarrow> (Inl e, None, n)
      | Inr ct \<Rightarrow>
          (case (if encodingType = SnappyBlockCompression then wi_snappy (co_wire C) body else Some body) of
             None \<Rightarrow> (Inl SnappyFailed, None, n)
           | Some data \<Rightarrow>
               if ct = ra_v1 (co_api C) then
                 (case wi_v1 (co_wire C) data of
                    None \<Rightarrow> (Inl ErrJSONUnmarshal, None, n)
                  | Some req \<Rightarrow> (let (ms, n') = DecodeV1 (co_env C) n req in (Inr ms, None, n')))
               else if ct = ra_v2 (co_api C) then
                 (case wi_v2 (co_wire C) data of
                    None \<Rightarrow> (Inl ErrJSONUnmarshal, Some no_stats, n)
                  | Some req \<Rightarrow>
                      (case DecodeV2 (co_env C) n req of
                         (Inl e, n') \<Rightarrow> (Inl e, Some no_stats, n')
                       | (Inr (ms, st), n') \<Rightarrow> (Inr ms, Some st, n')))
               else (Inl UnsupportedContentType, None, n)))"

definition store_cost ::
  "('v, 'w, 'e) store_ops option \<Rightarrow> 'v request_env \<Rightarrow> metric slice \<Rightarrow> bool \<Rightarrow> 'w \<Rightarrow>
   ('e collector_error, unit) result \<times> bool \<times> 'w"
where
  "store_cost store V costMetrics flushed w =
     (case (costMetrics, store) of
        (Some ms, Some ops) \<Rightarrow>
          (case so_put ops (re_put V) ms w of
             (Inl e, w1) \<Rightarrow> (Inl (StoreFailed e), flushed, w1)
           | (Inr _, w1) \<Rightarrow>
               if \<not> flushed \<and> 0 < length ms then
                 (case so_flush ops (re_flush V) w1 of
                    (Inl e, w2) \<Rightarrow> (Inl (StoreFailed e), True, w2)
                  | (Inr _, w2) \<Rightarrow> (Inr (), True, w2))
               else (Inr (), flushed, w1))
      | _ \<Rightarrow> (Inr (), flushed, w))"

definition store_observability ::
  "('v, 'w, 'e) store_ops option \<Rightarrow> 'v request_env \<Rightarrow> metric slice \<Rightarrow> 'w \<Rightarrow>
   ('e collector_error, unit) result \<times> 'w"
where
  "store_observability store V obsMetrics w =
     (case (obsMetrics, store) of
        (Some ms, Some ops) \<Rightarrow>
          (case so_put ops (re_obs V) ms w of
             (Inl e, w1) \<Rightarrow> (Inl (StoreFailed e), w1)
           | (Inr _, w1) \<Rightarrow> (Inr (), w1))
      | _ \<Rightarrow> (Inr (), w))"

text \<open>What a request offers to the two stores once it is decoded and transformed.\<close>

definition route ::
  "('r, 'v, 'w, 'e) collector \<Rightarrow> metric slice \<Rightarrow> metric slice \<times> metric slice \<times> metric slice"
where
  "route C ms = filter_metrics (co_match C) (co_filter C) ms"

definition PutMetrics ::
  "('r, 'v, 'w, 'e) collector \<Rightarrow> 'v request_env \<Rightarrow> string \<Rightarrow> string \<Rightarrow> string \<Rightarrow> 'w collector_state \<Rightarrow>
   ('e collector_error, unit) result \<times> write_stats option \<times> 'w collector_state"
where
  "PutMetrics C V contentType encodingType body s =
     (case decode_body C (uuids_drawn (cs_dcgm s)) contentType encodingType body of
        (Inl e, st, n) \<Rightarrow> (Inl e, st, s\<lparr>cs_dcgm := (cs_dcgm s)\<lparr>uuids_drawn := n\<rparr>\<rparr>)
      | (Inr decoded, st, n) \<Rightarrow>
          (case co_transform C ((cs_dcgm s)\<lparr>uuids_drawn := n\<rparr>) (appended decoded) of
             (Inl e, t) \<Rightarrow> (Inl TransformFailed, st, s\<lparr>cs_dcgm := t\<rparr>)
           | (Inr metrics, t) \<Rightarrow>
               (let (costMetrics, obsMetrics, dropped) = route C metrics
                in case store_cost (costStore C) V costMetrics (initialFlush s) (cs_world s) of
                     (Inl e, fl, w1) \<Rightarrow> (Inl e, st, \<lparr>initialFlush = fl, cs_dcgm = t, cs_world = w1\<rparr>)
                   | (Inr _, fl, w1) \<Rightarrow>
                       (case store_observability (observabilityStore C) V obsMetrics w1 of
                          (r, w2) \<Rightarrow> (r, st, \<lparr>initialFlush = fl, cs_dcgm = t, cs_world = w2\<rparr>)))))"

text \<open>\<open>Flush\<close> stops at the first store that fails; both stores must be there.\<close>

definition collector_flush ::
  "('v, 'w, 'e) store_ops \<Rightarrow> ('v, 'w, 'e) store_ops \<Rightarrow> 'v request_env \<Rightarrow> 'w \<Rightarrow> ('e, unit) result \<times> 'w"
where
  "collector_flush cost obs V w =
     (case so_flush cost (re_flush V) w of
        (Inl e, w1) \<Rightarrow> (Inl e, w1)
      | (Inr _, w1) \<Rightarrow> so_flush obs (re_obs V) w1)"

section \<open>The handler\<close>

record write_request =
  wr_content_length :: int
  wr_content_type :: string
  wr_content_encoding :: string
  wr_body :: "string option"
  wr_proto_major :: int

datatype write_response =
    Reply nat (closes: bool) (stats: "write_stats option")
  | Panicked

definition MaxPayloadSize :: int where "MaxPayloadSize = 16 * 1024 * 1024"

text \<open>\<open>rf\<close> is the configured reconnect frequency and \<open>draw\<close> the outcome of \<open>rand.Intn(rf)\<close>.\<close>

definition PostMetrics ::
  "('r, 'v, 'w, 'e) collector \<Rightarrow> 'v request_env \<Rightarrow> int \<Rightarrow> int \<Rightarrow> write_request \<Rightarrow> 'w collector_state \<Rightarrow>
   write_response \<times> 'w collector_state"
where
  "PostMetrics C V rf draw req s =
     (if wr_content_length req \<le> 0 then (Reply 200 False None, s)
      else if MaxPayloadSize < wr_content_length req then (Reply 200 False None, s)
      else (case wr_body req of
              None \<Rightarrow> (Reply 400 False None, s)
            | Some data \<Rightarrow>
                (case PutMetrics C V (wr_content_type req) (wr_content_encoding req) data s of
                   (Inl IndexPanic, st, s') \<Rightarrow> (Panicked, s')
                 | (Inl e, st, s') \<Rightarrow> (Reply 500 (wr_proto_major req = 1) None, s')
                 | (Inr _, st, s') \<Rightarrow>
                     (Reply 204 (wr_proto_major req = 1 \<and> 0 < rf \<and> draw = 0) st, s'))))"

section \<open>The two protocol versions\<close>

text \<open>The label pairs that a list of symbol references spells.\<close>

fun deref :: "string list \<Rightarrow> 32 word list \<Rightarrow> (string \<times> string) list option" where
  "deref syms [] = Some []"
| "deref syms [r] = None"
| "deref syms (a # b # rs) =
     (if length syms \<le> unat a \<or> length syms \<le> unat b then None
      else map_option (\<lambda>ls. (syms ! unat a, syms ! unat b) # ls) (deref syms rs))"

definition same_series :: "string list \<Rightarrow> series_v1 \<Rightarrow> series_v2 \<Rightarrow> bool" where
  "same_series syms a b \<longleftrightarrow> deref syms (s2_refs b) = Some (s1_labels a) \<and> s2_samples b = s1_samples a"

definition named_series :: "series_v1 \<Rightarrow> bool" where
  "named_series ts \<longleftrightarrow>
     (case fmlookup (v1_labels (s1_labels ts) fmempty) name_label of None \<Rightarrow> False | Some v \<Rightarrow> v \<noteq> [])"

lemma v2_labels_deref: "deref syms refs = Some ls \<Longrightarrow> v2_labels syms refs m = Inr (v1_labels ls m)"
  by (induction syms refs arbitrary: ls m rule: deref.induct) (auto split: if_splits)

lemma v2_labels_odd:
  "odd (length refs) \<Longrightarrow> list_all (\<lambda>r. unat r < length syms) refs \<Longrightarrow> v2_labels syms refs m = Inl IndexPanic"
  by (induction syms refs m rule: v2_labels.induct) auto

lemma sample_metric_name:
  "metric_name (sample_to_metric E n ls s) = or_else (fmlookup ls name_label) []"
  by (simp add: sample_to_metric_def import_labels_def Let_def)

lemma v1_samples_named:
  "or_else (fmlookup ls name_label) [] \<noteq> [] \<Longrightarrow> v1_samples E n ls ss = v2_samples E n ls ss"
  by (induction ss arbitrary: n) (simp_all add: sample_metric_name Let_def)

lemma v1_samples_names: "m \<in> set (fst (v1_samples E n ls ss)) \<Longrightarrow> metric_name m \<noteq> []"
  by (induction ss arbitrary: n) (auto simp: Let_def case_prod_beta split: if_splits)

lemma DecodeV1_names: "m \<in> set (fst (DecodeV1 E n tss)) \<Longrightarrow> metric_name m \<noteq> []"
  by (induction tss arbitrary: n) (auto simp: Let_def case_prod_beta dest: v1_samples_names)

lemma v2_series_v1:
  "list_all2 (same_series syms) tss1 tss2 \<Longrightarrow> list_all named_series tss1 \<Longrightarrow>
   \<exists>st'. v2_series E syms n st tss2 = (Inr (fst (DecodeV1 E n tss1), st'), snd (DecodeV1 E n tss1)) \<and>
         Samples st' = Samples st + length (fst (DecodeV1 E n tss1))"
proof (induction tss1 tss2 arbitrary: n st rule: list_all2_induct)
  case Nil
  then show ?case by simp
next
  case (Cons a as b bs)
  let ?ls = "v1_labels (s1_labels a) fmempty"
  have l: "v2_labels syms (s2_refs b) fmempty = Inr ?ls"
    using Cons.hyps(1) by (simp add: same_series_def v2_labels_deref)
  have s: "v1_samples E n ?ls (s1_samples a) = v2_samples E n ?ls (s2_samples b)"
    using Cons.prems Cons.hyps(1)
    by (simp add: same_series_def named_series_def v1_samples_named split: option.splits)
  obtain ms n' where v: "v2_samples E n ?ls (s2_samples b) = (ms, n')"
    by (cases "v2_samples E n ?ls (s2_samples b)")
  let ?st = "st\<lparr>Samples := Samples st + length ms, Histograms := Histograms st + s2_histograms b,
                Exemplars := Exemplars st + s2_exemplars b\<rparr>"
  have "list_all named_series as" using Cons.prems by simp
  from Cons.IH [OF this, of n' ?st] show ?case
    by (auto simp: l s v Let_def case_prod_beta)
qed

section \<open>What a request stores\<close>

definition request_admissible ::
  "('v \<Rightarrow> 'w \<Rightarrow> bool) \<Rightarrow> ('v \<Rightarrow> 'w \<Rightarrow> bool) \<Rightarrow> ('v, 'w, 'e) store_ops \<Rightarrow> 'v request_env \<Rightarrow>
   metric slice \<Rightarrow> bool \<Rightarrow> 'w \<Rightarrow> bool"
where
  "request_admissible adm1 adm2 cost V costMetrics flushed w \<longleftrightarrow>
     adm1 (re_put V) w \<and>
     adm1 (re_flush V) (snd (so_put cost (re_put V) (elems costMetrics) w)) \<and>
     adm2 (re_obs V) (snd (snd (store_cost (Some cost) V costMetrics flushed w :: ('e collector_error, unit) result \<times> bool \<times> 'w)))"

context store_pair
begin

abbreviation cost_ops :: "('v, 'w, 'e) store_ops" where
  "cost_ops \<equiv> \<lparr>so_put = put1, so_flush = flush1\<rparr>"

abbreviation obs_ops :: "('v, 'w, 'e) store_ops" where
  "obs_ops \<equiv> \<lparr>so_put = put2, so_flush = flush2\<rparr>"

lemma store_cost_stores:
  assumes I: "I w" and a: "admissible1 (re_put V) w" "admissible1 (re_flush V) (snd (put1 (re_put V) (elems ms) w))"
    and s: "store_cost (Some cost_ops) V ms fl w = (r, fl', w')"
  shows "I w' \<and> durable2 w' = durable2 w \<and> buffered2 w' = buffered2 w \<and>
    (is_ok r \<longrightarrow> durable1 w' + buffered1 w' = durable1 w + buffered1 w + mset (map row (elems ms)) \<and>
       (\<not> fl \<and> elems ms \<noteq> [] \<longrightarrow> fl' \<and> buffered1 w' = {#}))"
proof (cases ms)
  case None
  then show ?thesis using s I by (auto simp: store_cost_def)
next
  case (Some xs)
  obtain r1 w1 where p: "put1 (re_put V) xs w = (r1, w1)" by (cases "put1 (re_put V) xs w")
  have I1: "I w1" and f1: "durable2 w1 = durable2 w" "buffered2 w1 = buffered2 w"
    using cost.put_I [OF I, of "re_put V" xs] frame1 [OF I, of "re_put V" xs] p by simp_all
  obtain r2 w2 where f: "flush1 (re_flush V) w1 = (r2, w2)" by (cases "flush1 (re_flush V) w1")
  have I2: "I w2" and f2: "durable2 w2 = durable2 w1" "buffered2 w2 = buffered2 w1"
    using cost.flush_I [OF I1, of "re_flush V"] frame1_flush [OF I1, of "re_flush V"] f by simp_all
  show ?thesis
  proof (cases r1)
    case (Inl e)
    then show ?thesis using s I1 f1 by (auto simp: store_cost_def Some p)
  next
    case (Inr u)
    then have put: "durable1 w1 + buffered1 w1 = durable1 w + buffered1 w + mset (map row xs)"
      using cost.put_ok [OF I a(1)] p by simp
    have flush: "is_ok r2 \<Longrightarrow> durable1 w2 = durable1 w1 + buffered1 w1 \<and> buffered1 w2 = {#}"
      using cost.flush_ok [OF I1] a(2) p f by (auto simp: Some is_ok_iff)
    show ?thesis
      using s I1 I2 f1 f2 put flush
      by (cases r2) (auto simp: store_cost_def Some p f Inr split: if_splits)
  qed
qed

lemma store_observability_stores:
  assumes I: "I w" and a: "admissible2 (re_obs V) w"
    and s: "store_observability (Some obs_ops) V ms w = (r, w')"
  shows "I w' \<and> durable1 w' = durable1 w \<and> buffered1 w' = buffered1 w \<and>
    (is_ok r \<longrightarrow> durable2 w' + buffered2 w' = durable2 w + buffered2 w + mset (map row (elems ms)))"
proof (cases ms)
  case None
  then show ?thesis using s I by (auto simp: store_observability_def)
next
  case (Some xs)
  obtain r1 w1 where p: "put2 (re_obs V) xs w = (r1, w1)" by (cases "put2 (re_obs V) xs w")
  have "I w1" "durable1 w1 = durable1 w" "buffered1 w1 = buffered1 w"
    using obs.put_I [OF I, of "re_obs V" xs] frame2 [OF I, of "re_obs V" xs] p by simp_all
  then show ?thesis
    using s obs.put_ok [OF I a] p by (cases r1) (auto simp: store_observability_def Some)
qed

text \<open>The whole storing phase.\<close>

lemma storing_phase:
  assumes I: "I w"
    and a: "request_admissible admissible1 admissible2 cost_ops V cm fl w"
    and c: "store_cost (Some cost_ops) V cm fl w = (Inr u, fl', w1)"
    and ob: "store_observability (Some obs_ops) V om w1 = (Inr u', w2)"
  shows "I w2 \<and>
    durable1 w2 + buffered1 w2 = durable1 w + buffered1 w + mset (map row (elems cm)) \<and>
    durable2 w2 + buffered2 w2 = durable2 w + buffered2 w + mset (map row (elems om)) \<and>
    (\<not> fl \<and> elems cm \<noteq> [] \<longrightarrow> fl' \<and> buffered1 w2 = {#})"
proof -
  have a1: "admissible1 (re_put V) w" "admissible1 (re_flush V) (snd (put1 (re_put V) (elems cm) w))"
    using a by (simp_all add: request_admissible_def)
  note cs = store_cost_stores [OF I a1 c]
  have a2: "admissible2 (re_obs V) w1"
    using a c by (simp add: request_admissible_def)
  from cs have I1: "I w1" by simp
  from store_observability_stores [OF I1 a2 ob] cs show ?thesis by simp
qed

end

lemma PutMetrics_ok:
  assumes p: "PutMetrics C V ct et body s = (Inr u, st', s')"
    and d: "decode_body C (uuids_drawn (cs_dcgm s)) ct et body = (Inr decoded, st, n)"
    and t: "co_transform C ((cs_dcgm s)\<lparr>uuids_drawn := n\<rparr>) (appended decoded) = (Inr metrics, t)"
    and r: "route C metrics = (cm, om, dr)"
  obtains fl w1 where
    "store_cost (costStore C) V cm (initialFlush s) (cs_world s) =
       ((Inr (), fl, w1) :: ('e collector_error, unit) result \<times> bool \<times> 'w)"
    "store_observability (observabilityStore C) V om w1 =
       ((Inr (), cs_world s') :: ('e collector_error, unit) result \<times> 'w)"
    "initialFlush s' = fl" "cs_dcgm s' = t" "st' = st"
  using p unfolding PutMetrics_def d t r
  by (auto simp: t r split: sum.splits prod.splits)

definition disk_ops1 :: "(metric \<Rightarrow> json) \<Rightarrow> (store_env, pair_world, disk_error) store_ops" where
  "disk_ops1 row = \<lparr>so_put = put1 row, so_flush = flush1\<rparr>"

definition disk_ops2 :: "(metric \<Rightarrow> json) \<Rightarrow> (store_env, pair_world, disk_error) store_ops" where
  "disk_ops2 row = \<lparr>so_put = put2 row, so_flush = flush2\<rparr>"

definition cost_content :: "pair_world \<Rightarrow> json multiset" where
  "cost_content w = disk_durable (first_view w) + disk_buffered (first_view w)"

definition observability_content :: "pair_world \<Rightarrow> json multiset" where
  "observability_content w = disk_durable (second_view w) + disk_buffered (second_view w)"

text \<open>No file of this request is finished under a name already taken.\<close>

definition names_free ::
  "(metric \<Rightarrow> json) \<Rightarrow> store_env request_env \<Rightarrow> metric slice \<Rightarrow> bool \<Rightarrow> pair_world \<Rightarrow> bool"
where
  "names_free row V cm fl w \<longleftrightarrow>
     request_admissible (\<lambda>v w. disk_admissible v (first_view w)) (\<lambda>v w. disk_admissible v (second_view w))
       (disk_ops1 row) V cm fl w"

lemma PutMetrics_contents:
  assumes I: "pair_I (cs_world s)"
    and ops: "costStore C = Some (disk_ops1 row)" "observabilityStore C = Some (disk_ops2 row)"
    and mf: "new_metric_filter compile cfg = Inr (co_filter C)"
    and d: "decode_body C (uuids_drawn (cs_dcgm s)) ct et body = (Inr decoded, st, n)"
    and t: "co_transform C ((cs_dcgm s)\<lparr>uuids_drawn := n\<rparr>) (appended decoded) = (Inr metrics, t)"
    and free: "names_free row V (fst (route C metrics)) (initialFlush s) (cs_world s)"
    and p: "PutMetrics C V ct et body s = (Inr u, st', s')"
  shows "pair_I (cs_world s') \<and>
    cost_content (cs_world s') = cost_content (cs_world s) +
      mset (map row (map (keep_labels compile (co_match C) (cfg_cost_labels cfg))
        (filter (\<lambda>m. wants compile (co_match C) (cfg_cost cfg) (metric_name m)) (elems metrics)))) \<and>
    observability_content (cs_world s') = observability_content (cs_world s) +
      mset (map row (map (keep_labels compile (co_match C) (cfg_observability_labels cfg))
        (filter (\<lambda>m. wants compile (co_match C) (cfg_observability cfg) (metric_name m)) (elems metrics)))) \<and>
    (\<not> initialFlush s \<and> list_ex (\<lambda>m. wants compile (co_match C) (cfg_cost cfg) (metric_name m)) (elems metrics) \<longrightarrow>
       initialFlush s' \<and> disk_buffered (first_view (cs_world s')) = {#})"
proof -
  obtain cm om dr where r: "route C metrics = (cm, om, dr)" by (cases "route C metrics")
  from PutMetrics_ok [OF p d t r] obtain fl w1 where c:
    "store_cost (costStore C) V cm (initialFlush s) (cs_world s) = (Inr () :: (disk_error collector_error, unit) result, fl, w1)"
    and ob: "store_observability (observabilityStore C) V om w1 = (Inr () :: (disk_error collector_error, unit) result, cs_world s')"
    and fl: "initialFlush s' = fl" by metis
  have f: "filter_metrics (co_match C) (co_filter C) metrics = (cm, om, dr)"
    using r by (simp add: route_def)
  note spec = filter_metrics_spec [OF mf f]
  have "request_admissible (\<lambda>v w. disk_admissible v (first_view w)) (\<lambda>v w. disk_admissible v (second_view w))
       \<lparr>so_put = put1 row, so_flush = flush1\<rparr> V cm (initialFlush s) (cs_world s)"
    using free r by (simp add: names_free_def disk_ops1_def)
  from stores.storing_phase [OF I this c [unfolded ops disk_ops1_def] ob [unfolded ops disk_ops2_def]]
  show ?thesis
    by (auto simp: cost_content_def observability_content_def spec fl list_ex_iff filter_empty_conv)
qed

text \<open>A request answered with 204 went through the collector without an error.\<close>

lemma PostMetrics_204:
  assumes "PostMetrics C V rf draw req s = (Reply 204 c st, s')"
  obtains data u where "wr_body req = Some data"
    "PutMetrics C V (wr_content_type req) (wr_content_encoding req) data s = (Inr u, st, s')"
  using assms by (auto simp: PostMetrics_def split: if_splits option.splits sum.splits prod.splits collector_error.splits)

section \<open>Properties\<close>

definition sample_decoder :: decoder_env where
  "sample_decoder = \<lparr>de_cluster = ''c'', de_account = ''a'', de_uuid = id, de_clock = (\<lambda>n. 0), de_format = (\<lambda>_. ''1'')\<rparr>"

definition sample_series :: series_v1 where
  "sample_series = \<lparr>s1_labels = [(name_label, ''up''), (''pod'', ''p'')], s1_samples = [\<lparr>sa_timestamp = 5, sa_value = Fin 1\<rparr>]\<rparr>"

definition sample_collector :: "(unit, store_env, pair_world, disk_error) collector" where
  "sample_collector =
     \<lparr>co_api = \<lparr>ra_v1 = ''v1'', ra_v2 = ''v2'', ra_valid = (\<lambda>m. m \<in> {''v1'', ''v2''})\<rparr>,
      co_wire = \<lparr>wi_snappy = Some, wi_v1 = (\<lambda>_. Some [sample_series]), wi_v2 = (\<lambda>_. None)\<rparr>,
      co_env = sample_decoder,
      co_transform = new_metric_transformer True exact_floats id rev,
      co_match = (\<lambda>_ _. False), co_filter = None,
      costStore = Some (disk_ops1 sample_row), observabilityStore = Some (disk_ops2 sample_row)\<rparr>"

definition sample_state :: "pair_world collector_state" where
  "sample_state = \<lparr>initialFlush = True, cs_dcgm = \<lparr>memoryBuffer = [], uuids_drawn = 0\<rparr>,
     cs_world = (sample_store 10, (sample_store 10)\<lparr>contentIdentifier := ''observability''\<rparr>, fmempty)\<rparr>"

definition sample_config :: metrics_config where
  "sample_config = \<lparr>cfg_cost = [], cfg_observability = [], cfg_cost_labels = [], cfg_observability_labels = []\<rparr>"

definition sample_renv :: "store_env request_env" where
  "sample_renv = \<lparr>re_put = sample_env 9, re_flush = sample_env 9, re_obs = sample_env 9\<rparr>"

definition sample_decoded :: metric where
  "sample_decoded = sample_to_metric sample_decoder 0 (v1_labels (s1_labels sample_series) fmempty) \<lparr>sa_timestamp = 5, sa_value = Fin 1\<rparr>"

lemma sample_decode:
  "decode_body sample_collector 0 [] [] [] = (Inr [sample_decoded], None, Suc 0)"
proof -
  have "metric_name sample_decoded = ''up''"
    by (simp add: sample_decoded_def sample_metric_name sample_series_def)
  then show ?thesis
    by (simp add: decode_body_def parseProtoMsg_def sample_collector_def appProtoContentType_def trim_space_def
        go_space_def SnappyBlockCompression_def sample_series_def sample_decoded_def)
qed

lemma sample_route:
  "co_transform sample_collector s (appended [sample_decoded]) = (Inr (Some [sample_decoded]), s)"
  if "memoryBuffer s = []"
proof -
  have "metric_name sample_decoded = ''up''"
    by (simp add: sample_decoded_def sample_metric_name sample_series_def)
  then show ?thesis
    using that by (simp add: sample_collector_def new_metric_transformer_def catalog_transform_def appended_def
        dcgm_transform_def transformSingle_def dcgm_prefix_def flushMemory_def)
qed

lemma sample_state_I: "pair_I (cs_world sample_state)"
proof -
  have "disk_I (sample_store 10, fmempty)" using sample_I [of 10] by (simp add: sample_world_def)
  moreover have "disk_I ((sample_store 10)\<lparr>contentIdentifier := ''observability''\<rparr>, fmempty)"
    by (auto simp: disk_I_def sample_store_def naming_ok_def content_base_def makeFileName_def)
  ultimately show ?thesis
    by (simp add: pair_I_def sample_state_def first_view_def second_view_def) (simp add: content_base_def sample_store_def)
qed

lemma sample_pair_put:
  "put1 sample_row v [m] (sample_store 10, d, fmempty) =
     (Inr (), (sample_store 10)\<lparr>writer := Some [sample_row m], rowCount := 1\<rparr>, d, fmempty)"
  "put2 sample_row v [m] (d, (sample_store 10)\<lparr>contentIdentifier := ''observability''\<rparr>, fmempty) =
     (Inr (), d, (sample_store 10)\<lparr>contentIdentifier := ''observability'', writer := Some [sample_row m], rowCount := 1\<rparr>, fmempty)"
  by (simp_all add: put1_def put2_def on_first_def on_second_def disk_put_def sample_store_def Let_def)

lemma sample_names_free:
  "names_free sample_row sample_renv (Some [m]) True (cs_world sample_state)"
  by (simp add: names_free_def request_admissible_def disk_ops1_def sample_state_def sample_renv_def
      store_cost_def sample_pair_put first_view_def second_view_def disk_admissible_def fs_exists_def)

lemma sample_put_metrics:
  "\<exists>s'. PutMetrics sample_collector sample_renv [] [] [] sample_state = (Inr (), None, s')"
  using sample_decode sample_route [of "\<lparr>memoryBuffer = [], uuids_drawn = Suc 0\<rparr>"]
  by (simp add: PutMetrics_def sample_state_def route_def)
    (simp add: sample_collector_def filter_metrics_def store_cost_def store_observability_def disk_ops1_def
      disk_ops2_def sample_pair_put sample_renv_def)

text \<open>C2: A request that \<open>PutMetrics\<close> accepts is stored exactly, provided that neither store finishes a
  file under a name already taken during the request (such a file would be replaced, see
  \<open>same_millisecond_overwrites\<close>): the cost store, on disk or in its open file, gains precisely the transformed
  metrics the cost rules want, with the labels they keep; the observability store gains precisely its own;
  and the first request with cost metrics leaves none of them buffered.\<close>

theorem put_metrics_stores_exactly:
  assumes "pair_I (cs_world s)"
    and "costStore C = Some (disk_ops1 row)" "observabilityStore C = Some (disk_ops2 row)"
    and "new_metric_filter compile cfg = Inr (co_filter C)"
    and "decode_body C (uuids_drawn (cs_dcgm s)) ct et body = (Inr decoded, st, n)"
    and "co_transform C ((cs_dcgm s)\<lparr>uuids_drawn := n\<rparr>) (appended decoded) = (Inr metrics, t)"
    and "names_free row V (fst (route C metrics)) (initialFlush s) (cs_world s)"
    and "PutMetrics C V ct et body s = (Inr u, st', s')"
  shows "pair_I (cs_world s') \<and>
    cost_content (cs_world s') = cost_content (cs_world s) +
      mset (map row (map (keep_labels compile (co_match C) (cfg_cost_labels cfg))
        (filter (\<lambda>m. wants compile (co_match C) (cfg_cost cfg) (metric_name m)) (elems metrics)))) \<and>
    observability_content (cs_world s') = observability_content (cs_world s) +
      mset (map row (map (keep_labels compile (co_match C) (cfg_observability_labels cfg))
        (filter (\<lambda>m. wants compile (co_match C) (cfg_observability cfg) (metric_name m)) (elems metrics)))) \<and>
    (\<not> initialFlush s \<and> list_ex (\<lambda>m. wants compile (co_match C) (cfg_cost cfg) (metric_name m)) (elems metrics) \<longrightarrow>
       initialFlush s' \<and> disk_buffered (first_view (cs_world s')) = {#})"
  by (rule PutMetrics_contents [OF assms])

theorem put_metrics_stores_exactly_witness:
  "\<exists>s'. PutMetrics sample_collector sample_renv [] [] [] sample_state = (Inr (), None, s') \<and>
     cost_content (cs_world s') = cost_content (cs_world sample_state) + {#sample_row sample_decoded#}"
proof -
  obtain s' where p: "PutMetrics sample_collector sample_renv [] [] [] sample_state = (Inr (), None, s')"
    using sample_put_metrics by blast
  have stores: "costStore sample_collector = Some (disk_ops1 sample_row)"
    "observabilityStore sample_collector = Some (disk_ops2 sample_row)"
    by (simp_all add: sample_collector_def)
  have f: "new_metric_filter (\<lambda>_. None) sample_config = Inr (co_filter sample_collector)"
    by (simp add: new_metric_filter_def new_filter_checker_def sample_config_def sample_collector_def)
  have d: "decode_body sample_collector (uuids_drawn (cs_dcgm sample_state)) [] [] [] = (Inr [sample_decoded], None, Suc 0)"
    using sample_decode by (simp add: sample_state_def)
  have t: "co_transform sample_collector ((cs_dcgm sample_state)\<lparr>uuids_drawn := Suc 0\<rparr>) (appended [sample_decoded]) =
      (Inr (Some [sample_decoded]), (cs_dcgm sample_state)\<lparr>uuids_drawn := Suc 0\<rparr>)"
    by (rule sample_route) (simp add: sample_state_def)
  have "fst (route sample_collector (Some [sample_decoded])) = Some [sample_decoded]"
    by (simp add: route_def sample_collector_def filter_metrics_def)
  then have fr: "names_free sample_row sample_renv (fst (route sample_collector (Some [sample_decoded])))
      (initialFlush sample_state) (cs_world sample_state)"
    using sample_names_free by (simp add: sample_state_def)
  from put_metrics_stores_exactly [OF sample_state_I stores f d t fr p] p show ?thesis
    by (auto simp: sample_config_def wants_def keep_labels_def)
qed

text \<open>C1: End to end, with the agent's own transformer: if the handler answers 204, every
  decoded metric that is not a GPU metric and that the cost rules want is in the cost store,
  carrying exactly the labels the rules keep.  Two conditions: no store finishes a file under a name that is
  already taken during the request, as it does if two files start and stop in the same milliseconds (then the
  rename would replace a file, see \<open>same_millisecond_overwrites\<close>); and the buffer of the GPU transformer is
  empty when the request starts, as every request leaves it.\<close>

theorem acknowledged_metrics_stored:
  assumes "pair_I (cs_world s)" and "dcgm_idle (cs_dcgm s)"
    and "costStore C = Some (disk_ops1 row)" "observabilityStore C = Some (disk_ops2 row)"
    and "co_transform C = new_metric_transformer ul L gen ord"
    and "new_metric_filter compile cfg = Inr (co_filter C)"
    and "wr_body req = Some data"
    and "decode_body C (uuids_drawn (cs_dcgm s)) (wr_content_type req) (wr_content_encoding req) data = (Inr decoded, st, n)"
    and "co_transform C ((cs_dcgm s)\<lparr>uuids_drawn := n\<rparr>) (appended decoded) = (Inr metrics, t)"
    and "names_free row V (fst (route C metrics)) (initialFlush s) (cs_world s)"
    and "PostMetrics C V rf draw req s = (Reply 204 c st', s')"
    and "m \<in> set decoded" "\<not> dcgm_owned m" "wants compile (co_match C) (cfg_cost cfg) (metric_name m)"
  shows "row (keep_labels compile (co_match C) (cfg_cost_labels cfg) m) \<in># cost_content (cs_world s')"
proof -
  obtain u where p: "PutMetrics C V (wr_content_type req) (wr_content_encoding req) data s = (Inr u, st', s')"
    using PostMetrics_204 [OF assms(11)] assms(7) by (metis option.inject)
  have idle: "dcgm_idle ((cs_dcgm s)\<lparr>uuids_drawn := n\<rparr>)"
    using assms(2) by (simp add: dcgm_idle_def)
  have tr: "fst ((new_metric_transformer ul L gen ord :: (dcgm_state, disk_error collector_error) transformer)
      ((cs_dcgm s)\<lparr>uuids_drawn := n\<rparr>) (appended decoded)) = Inr metrics"
    using assms(5,9) by simp
  have "m \<in> set (elems metrics)"
    using agent_transformer.nothing_lost [OF idle tr _ assms(13)] assms(12) by simp
  moreover from PutMetrics_contents [OF assms(1,3,4,6,8,9,10) p] have
    "cost_content (cs_world s') = cost_content (cs_world s) +
      mset (map row (map (keep_labels compile (co_match C) (cfg_cost_labels cfg))
        (filter (\<lambda>m. wants compile (co_match C) (cfg_cost cfg) (metric_name m)) (elems metrics))))" by blast
  ultimately show ?thesis using assms(14) by auto
qed

theorem acknowledged_metrics_stored_witness:
  "\<exists>s' c st. PostMetrics sample_collector sample_renv 0 1
      \<lparr>wr_content_length = 1, wr_content_type = [], wr_content_encoding = [], wr_body = Some [], wr_proto_major = 1\<rparr>
      sample_state = (Reply 204 c st, s') \<and>
     sample_row sample_decoded \<in># cost_content (cs_world s')"
proof -
  let ?req = "\<lparr>wr_content_length = 1, wr_content_type = [], wr_content_encoding = [], wr_body = Some [], wr_proto_major = 1\<rparr>"
  obtain s' where p: "PutMetrics sample_collector sample_renv [] [] [] sample_state = (Inr (), None, s')"
    using sample_put_metrics by blast
  then have post: "PostMetrics sample_collector sample_renv 0 1 ?req sample_state = (Reply 204 False None, s')"
    by (simp add: PostMetrics_def MaxPayloadSize_def)
  have f: "new_metric_filter (\<lambda>_. None) sample_config = Inr (co_filter sample_collector)"
    by (simp add: new_metric_filter_def new_filter_checker_def sample_config_def sample_collector_def)
  have t: "co_transform sample_collector ((cs_dcgm sample_state)\<lparr>uuids_drawn := Suc 0\<rparr>) (appended [sample_decoded]) =
      (Inr (Some [sample_decoded]), (cs_dcgm sample_state)\<lparr>uuids_drawn := Suc 0\<rparr>)"
    by (rule sample_route) (simp add: sample_state_def)
  have "fst (route sample_collector (Some [sample_decoded])) = Some [sample_decoded]"
    by (simp add: route_def sample_collector_def filter_metrics_def)
  then have fr: "names_free sample_row sample_renv (fst (route sample_collector (Some [sample_decoded])))
      (initialFlush sample_state) (cs_world sample_state)"
    using sample_names_free by (simp add: sample_state_def)
  have own: "\<not> dcgm_owned sample_decoded"
    by (simp add: dcgm_owned_def dcgm_prefix_def sample_decoded_def sample_metric_name sample_series_def)
  have "sample_row (keep_labels (\<lambda>_. None) (co_match sample_collector) (cfg_cost_labels sample_config) sample_decoded)
      \<in># cost_content (cs_world s')"
    by (rule acknowledged_metrics_stored [OF sample_state_I _ _ _ _ f _ _ t fr post _ own])
      (use sample_decode in \<open>simp_all add: sample_state_def dcgm_idle_def sample_collector_def wants_def sample_config_def\<close>)
  with post show ?thesis by (auto simp: keep_labels_def sample_config_def)
qed

text \<open>The two protocol versions agree: a version 2 request whose symbol references spell
  the labels of a version 1 request decodes to the same metrics, in the same order and with
  the same ids, and reports exactly their number, provided every series carries a name.\<close>

theorem decode_versions_agree:
  assumes "list_all2 (same_series (q_symbols req)) tss (q_series req)" and "list_all named_series tss"
  shows "\<exists>st. (DecodeV2 E n req :: ('e collector_error, metric list \<times> write_stats) result \<times> nat) =
             (Inr (fst (DecodeV1 E n tss), st), snd (DecodeV1 E n tss)) \<and>
              Samples st = length (fst (DecodeV1 E n tss)) \<and> Confirmed st"
proof -
  have "\<exists>st'. (v2_series E (q_symbols req) n no_stats (q_series req) ::
      ('e collector_error, metric list \<times> write_stats) result \<times> nat) =
        (Inr (fst (DecodeV1 E n tss), st'), snd (DecodeV1 E n tss)) \<and>
      Samples st' = Samples no_stats + length (fst (DecodeV1 E n tss))"
    by (rule v2_series_v1 [OF assms])
  then show ?thesis by (auto simp: DecodeV2_def no_stats_def)
qed

theorem decode_versions_agree_witness:
  "\<exists>st. (DecodeV2 :: _ \<Rightarrow> _ \<Rightarrow> _ \<Rightarrow> (unit collector_error, metric list \<times> write_stats) result \<times> nat) sample_decoder 0 \<lparr>q_symbols = [name_label, ''up'', ''pod'', ''p''],
      q_series = [\<lparr>s2_refs = [0, 1, 2, 3], s2_samples = s1_samples sample_series, s2_histograms = 0, s2_exemplars = 0\<rparr>]\<rparr> =
     (Inr (fst (DecodeV1 sample_decoder 0 [sample_series]), st), 1) \<and> Samples st = 1"
proof -
  have "\<exists>st. (DecodeV2 :: _ \<Rightarrow> _ \<Rightarrow> _ \<Rightarrow> (unit collector_error, metric list \<times> write_stats) result \<times> nat) sample_decoder 0 \<lparr>q_symbols = [name_label, ''up'', ''pod'', ''p''],
      q_series = [\<lparr>s2_refs = [0, 1, 2, 3], s2_samples = s1_samples sample_series, s2_histograms = 0, s2_exemplars = 0\<rparr>]\<rparr> =
     (Inr (fst (DecodeV1 sample_decoder 0 [sample_series]), st), snd (DecodeV1 sample_decoder 0 [sample_series])) \<and>
     Samples st = length (fst (DecodeV1 sample_decoder 0 [sample_series])) \<and> Confirmed st"
    by (rule decode_versions_agree) (simp_all add: same_series_def sample_series_def named_series_def)
  then show ?thesis
    by (auto simp: sample_series_def sample_metric_name Let_def)
qed

text \<open>A version 2 series with an odd number of references, all of them valid symbols, ends
  the decoder with an index panic instead of the error that out-of-range references get.\<close>

theorem odd_references_panic:
  assumes "odd (length refs)" and "list_all (\<lambda>r. unat r < length syms) refs"
  shows "DecodeV2 E n \<lparr>q_symbols = syms, q_series = \<lparr>s2_refs = refs, s2_samples = ss, s2_histograms = h, s2_exemplars = x\<rparr> # tss\<rparr> =
         (Inl IndexPanic, n)"
  by (simp add: DecodeV2_def v2_labels_odd [OF assms])

theorem odd_references_panic_witness:
  "DecodeV2 sample_decoder 0 \<lparr>q_symbols = [''a''], q_series = [\<lparr>s2_refs = [0], s2_samples = [], s2_histograms = 0, s2_exemplars = 0\<rparr>]\<rparr> =
     (Inl IndexPanic, 0)"
  by (rule odd_references_panic) simp_all

text \<open>The status codes of the handler: 204 exactly for requests within the size limit whose
  metrics were put without error, and 200, with nothing read and no state changed, exactly
  for an empty, an oversized or a length-less body, which the client takes for delivered.\<close>

theorem post_metrics_status:
  "case PostMetrics C V rf draw req s of
     (Panicked, s') \<Rightarrow> True
   | (Reply code c st, s') \<Rightarrow>
       (code = 200 \<longleftrightarrow> wr_content_length req \<le> 0 \<or> MaxPayloadSize < wr_content_length req) \<and>
       (code = 204 \<longleftrightarrow> 0 < wr_content_length req \<and> wr_content_length req \<le> MaxPayloadSize \<and>
          (case wr_body req of None \<Rightarrow> False
           | Some data \<Rightarrow> is_ok (fst (PutMetrics C V (wr_content_type req) (wr_content_encoding req) data s)))) \<and>
       (s' = s \<or> code = 204 \<or> code = 500) \<and> code \<in> {200, 204, 400, 500}"
  by (auto simp: PostMetrics_def split: option.splits sum.splits prod.splits collector_error.splits)

end
