(* ===== verification/Metric_Transcode.thy ===== *)
theory Metric_Transcode
  imports Metric_Collector Go_Text
begin

text \<open>
  Reading and writing metrics (\<open>app/domain/metricio\<close>): the conversions between metrics, Parquet rows
  and remote-write time series, the readers of CSV, JSON and Parquet files, which hand over their
  metrics in batches, the writers of files and the remote writer.

  Files are what the libraries make of their bytes: the records of \<open>encoding/csv\<close>, the tokens of a
  JSON decoder, the reads of a Parquet reader.  The world that a callback changes is a parameter of
  the reader, as is the callback.  Parsing and printing of numbers and instants are collected in
  \<open>transcode_lib\<close>.
\<close>

section \<open>Conversions\<close>

text \<open>\<open>tl_value\<close>: the number that \<open>ParseFloat\<close> returns also beside an error; \<open>tl_number\<close>: none on an
  error; \<open>tl_instant\<close>: one of the two layouts reads the text; \<open>tl_json\<close>: the tree of a JSON text.\<close>

record transcode_lib =
  tl_value :: "string \<Rightarrow> f64"
  tl_number :: "string \<Rightarrow> f64 option"
  tl_format :: "f64 \<Rightarrow> string"
  tl_instant :: "string \<Rightarrow> int option"
  tl_instant_text :: "int \<Rightarrow> string"
  tl_json :: "string \<Rightarrow> json option"
  tl_json_text :: "json \<Rightarrow> string"

definition cluster_label :: string where "cluster_label = ''cluster_name''"
definition account_label :: string where "account_label = ''cloud_account_id''"

lemmas field_labels = cluster_label_def account_label_def

text \<open>The labels of a map without the empty ones, sorted by name.\<close>

definition sorted_labels :: "str_map \<Rightarrow> (string \<times> string) list" where
  "sorted_labels f = filter (\<lambda>kv. snd kv \<noteq> []) (sorted_list_of_fmap f)"

definition MetricToTimeSeries :: "transcode_lib \<Rightarrow> metric \<Rightarrow> series_v1" where
  "MetricToTimeSeries L m =
     (let full = full_labels m;
          full = (if cluster_name m \<noteq> [] then fmupd cluster_label (cluster_name m) full else full);
          full = (if cloud_account_id m \<noteq> [] then fmupd account_label (cloud_account_id m) full else full)
      in \<lparr>s1_labels = sorted_labels full,
          s1_samples = [\<lparr>sa_timestamp = unix_milli (time_stamp m), sa_value = tl_value L (m_value m)\<rparr>]\<rparr>)"

text \<open>The loop over the labels: its four variables and its map are the fields of a metric.\<close>

fun take_label :: "string \<times> string \<Rightarrow> metric \<Rightarrow> metric" where
  "take_label (k, v) m =
     (if k = name_label then m\<lparr>metric_name := v\<rparr>
      else if k = node_label then m\<lparr>node_name := v\<rparr>
      else if k = cluster_label then m\<lparr>cluster_name := v\<rparr>
      else if k = account_label then m\<lparr>cloud_account_id := v\<rparr>
      else m\<lparr>m_labels := Some (fmupd k v (label_map (m_labels m)))\<rparr>)"

definition TimeSeriesToMetrics :: "transcode_lib \<Rightarrow> int \<Rightarrow> series_v1 \<Rightarrow> metric list" where
  "TimeSeriesToMetrics L now ts =
     (let m = fold take_label (s1_labels ts) (empty_metric\<lparr>m_labels := Some fmempty\<rparr>)
      in map (\<lambda>s. m\<lparr>time_stamp := from_milli (sa_timestamp s), created_at := now,
                      m_value := tl_format L (sa_value s)\<rparr>) (s1_samples ts))"

text \<open>The labels of a row that are kept; a document that is no map of texts is left out.  The order
  of the stable sort matters only between equal names.\<close>

definition convertSingle :: "transcode_lib \<Rightarrow> parquet_metric \<Rightarrow> series_v1" where
  "convertSingle L p =
     (let labels = [(name_label, p_metric_name p)] @
            (if p_cluster_name p \<noteq> [] then [(cluster_label, p_cluster_name p)] else []) @
            (if p_cloud_account_id p \<noteq> [] then [(account_label, p_cloud_account_id p)] else []) @
            (if p_node_name p \<noteq> [] then [(''node_name'', p_node_name p)] else []) @
            (case json_to_map (p_labels p) of
               None \<Rightarrow> []
             | Some extra \<Rightarrow> filter (\<lambda>kv. fst kv \<noteq> name_label \<and> snd kv \<noteq> [])
                                (sorted_list_of_fmap (label_map extra)))
      in \<lparr>s1_labels = sort_key fst labels,
          s1_samples = [\<lparr>sa_timestamp = p_time_stamp p, sa_value = tl_value L (p_value p)\<rparr>]\<rparr>)"

definition ConvertToTimeSeries :: "transcode_lib \<Rightarrow> parquet_metric list \<Rightarrow> series_v1 list" where
  "ConvertToTimeSeries L ps = map (convertSingle L) ps"

section \<open>Files\<close>

definition DefaultBatchSize :: nat where "DefaultBatchSize = 10000"

text \<open>\<open>NewCSVReader\<close>, \<open>NewJSONReader\<close> and \<open>NewParquetReader\<close> are the same function.\<close>

definition reader_batch :: "int \<Rightarrow> nat" where
  "reader_batch n = (if n \<le> 0 then DefaultBatchSize else nat n)"

definition IsSupportedFile :: "string \<Rightarrow> bool" where
  "IsSupportedFile path =
     (let l = to_lower path
      in suffix ''.csv'' l \<or> suffix ''.parquet'' l \<or> suffix ''.json'' l \<or> suffix ''.json.br'' l)"

text \<open>A directory that the readers walk; \<open>Unreadable\<close> is an entry whose \<open>ReadDir\<close> or \<open>Stat\<close> fails.\<close>

datatype dir_entry = File string | Dir string "dir_entry list" | Unreadable string

fun walk_dir :: "(string \<Rightarrow> bool) \<Rightarrow> string \<Rightarrow> dir_entry list \<Rightarrow> string list option" where
  "walk_dir keep dir [] = Some []"
| "walk_dir keep dir (e # es) =
     (case (case e of
              Unreadable n \<Rightarrow> None
            | File n \<Rightarrow> Some (if keep (go_path_join [dir, n]) then [go_path_join [dir, n]] else [])
            | Dir n ds \<Rightarrow> walk_dir keep (go_path_join [dir, n]) ds) of
        None \<Rightarrow> None
      | Some fs \<Rightarrow> map_option (\<lambda>rest. fs @ rest) (walk_dir keep dir es))"

definition FindSupportedFiles :: "string \<Rightarrow> dir_entry list \<Rightarrow> string list option" where
  "FindSupportedFiles dir es = walk_dir IsSupportedFile dir es"

text \<open>A callback gets a batch and the world, and may fail.\<close>

type_synonym ('b, 'w) callback = "'b list \<Rightarrow> 'w \<Rightarrow> string option \<times> 'w"

text \<open>The outcome of a reader: it returned, with an error or without, or it panicked.\<close>

datatype read_end = Read_ok | Read_error string | Read_panic

subsection \<open>CSV\<close>

definition to_upper :: "string \<Rightarrow> string" where
  "to_upper = map (\<lambda>c. let n = of_char c :: nat in if 97 \<le> n \<and> n \<le> 122 then char_of (n - 32) else c)"

text \<open>The index of the last column of a name.\<close>

definition column :: "string \<Rightarrow> string list \<Rightarrow> nat option" where
  "column name header =
     (case filter (\<lambda>i. to_upper (header ! i) = name) [0..<length header] of [] \<Rightarrow> None | is \<Rightarrow> Some (last is))"

datatype csv_row = Bad_row | Row "string list"

datatype row_reading = Skipped | Out_of_range | Series_read series_v1

definition read_row :: "transcode_lib \<Rightarrow> nat \<Rightarrow> nat \<Rightarrow> nat \<Rightarrow> csv_row \<Rightarrow> row_reading" where
  "read_row L dateIdx valueIdx labelsIdx r =
     (case r of
        Bad_row \<Rightarrow> Skipped
      | Row cols \<Rightarrow>
          if length cols \<le> labelsIdx then Skipped
          else if length cols \<le> dateIdx then Out_of_range
          else (case tl_instant L (cols ! dateIdx) of
                  None \<Rightarrow> Skipped
                | Some t \<Rightarrow>
                    if length cols \<le> valueIdx then Out_of_range
                    else (case tl_number L (cols ! valueIdx) of
                            None \<Rightarrow> Skipped
                          | Some x \<Rightarrow>
                              (case Option.bind (tl_json L (cols ! labelsIdx)) json_to_map of
                                 None \<Rightarrow> Skipped
                               | Some ls \<Rightarrow>
                                   Series_read \<lparr>s1_labels = sorted_labels (label_map ls),
                                     s1_samples = [\<lparr>sa_timestamp = unix_milli t, sa_value = x\<rparr>]\<rparr>))))"

fun csv_rows ::
  "transcode_lib \<Rightarrow> nat \<Rightarrow> nat \<times> nat \<times> nat \<Rightarrow> (series_v1, 'w) callback \<Rightarrow> csv_row list \<Rightarrow> series_v1 list \<Rightarrow> 'w \<Rightarrow>
   read_end \<times> 'w"
where
  "csv_rows L n (d, v, l) cb [] batch w =
     (if batch = [] then (Read_ok, w)
      else (case cb batch w of
              (None, w') \<Rightarrow> (Read_ok, w')
            | (Some e, w') \<Rightarrow> (Read_error (''callback error at final batch: '' @ e), w')))"
| "csv_rows L n (d, v, l) cb (r # rs) batch w =
     (case read_row L d v l r of
        Skipped \<Rightarrow> csv_rows L n (d, v, l) cb rs batch w
      | Out_of_range \<Rightarrow> (Read_panic, w)
      | Series_read ts \<Rightarrow>
          (let batch = batch @ [ts]
           in if length batch < n then csv_rows L n (d, v, l) cb rs batch w
              else (case cb batch w of
                      (Some e, w') \<Rightarrow> (Read_error (''callback error: '' @ e), w')
                    | (None, w') \<Rightarrow> csv_rows L n (d, v, l) cb rs [] w')))"

text \<open>\<open>csv\<close> is none where the file cannot be opened; its first record is the header, none where it
  cannot be read.\<close>

definition ReadCSVFile ::
  "transcode_lib \<Rightarrow> nat \<Rightarrow> (string list option \<times> csv_row list) option \<Rightarrow> (series_v1, 'w) callback \<Rightarrow> 'w \<Rightarrow>
   read_end \<times> 'w"
where
  "ReadCSVFile L n csv cb w =
     (case csv of
        None \<Rightarrow> (Read_error ''failed to open CSV file'', w)
      | Some (None, _) \<Rightarrow> (Read_error ''failed to read CSV header'', w)
      | Some (Some header, rows) \<Rightarrow>
          (case (column ''USAGE_DATE'' header, column ''VALUE'' header, column ''LABELS'' header) of
             (Some d, Some v, Some l) \<Rightarrow> csv_rows L n (d, v, l) cb rows [] w
           | _ \<Rightarrow> (Read_error ''CSV must have USAGE_DATE, VALUE, and LABELS columns'', w)))"

subsection \<open>JSON\<close>

text \<open>What the decoder meets: the brackets of the array, a value between them, and text that is none.
  The commas belong to the values.\<close>

datatype json_token = Open_array | Close_array | Item json | Junk

fun json_items ::
  "(string \<Rightarrow> nat option) \<Rightarrow> nat \<Rightarrow> (metric, 'w) callback \<Rightarrow> json_token list \<Rightarrow> metric list \<Rightarrow> 'w \<Rightarrow> read_end \<times> 'w"
where
  "json_items up n cb [] batch w = (Read_error ''failed to read last token from JSON'', w)"
| "json_items up n cb (Close_array # ts) batch w =
     (if batch = [] then (Read_ok, w)
      else (case cb batch w of
              (None, w') \<Rightarrow> (Read_ok, w')
            | (Some e, w') \<Rightarrow> (Read_error (''callback error at final batch: '' @ e), w')))"
| "json_items up n cb (Item j # ts) batch w =
     (case unmarshal_metric up empty_metric j of
        Inl _ \<Rightarrow> (Read_error ''failed to decode metric'', w)
      | Inr m \<Rightarrow>
          (let batch = batch @ [m]
           in if length batch < n then json_items up n cb ts batch w
              else (case cb batch w of
                      (Some e, w') \<Rightarrow> (Read_error (''callback error: '' @ e), w')
                    | (None, w') \<Rightarrow> json_items up n cb ts [] w')))"
| "json_items up n cb (Open_array # ts) batch w = (Read_error ''failed to decode metric'', w)"
| "json_items up n cb (Junk # ts) batch w = (Read_error ''failed to decode metric'', w)"

definition decodeJSONStream ::
  "(string \<Rightarrow> nat option) \<Rightarrow> nat \<Rightarrow> json_token list \<Rightarrow> (metric, 'w) callback \<Rightarrow> 'w \<Rightarrow> read_end \<times> 'w"
where
  "decodeJSONStream up n toks cb w =
     (case toks of
        Open_array # ts \<Rightarrow> json_items up n cb ts [] w
      | [] \<Rightarrow> (Read_error ''failed to read first token from JSON'', w)
      | Junk # _ \<Rightarrow> (Read_error ''failed to read first token from JSON'', w)
      | _ \<Rightarrow> (Read_error ''expected an array at the beginning of the file'', w))"

text \<open>\<open>toks\<close> is none where the file cannot be opened.\<close>

definition ReadJSONFile ::
  "(string \<Rightarrow> nat option) \<Rightarrow> nat \<Rightarrow> json_token list option \<Rightarrow> (metric, 'w) callback \<Rightarrow> 'w \<Rightarrow> read_end \<times> 'w"
where
  "ReadJSONFile up n toks cb w =
     (case toks of
        None \<Rightarrow> (Read_error ''failed to open JSON file'', w)
      | Some ts \<Rightarrow> decodeJSONStream up n ts cb w)"

definition ReadAllMetrics :: "(string \<Rightarrow> nat option) \<Rightarrow> nat \<Rightarrow> json_token list option \<Rightarrow> (string, metric list) result" where
  "ReadAllMetrics up n toks =
     (case ReadJSONFile up n toks (\<lambda>ms acc. (None, acc @ ms)) [] of
        (Read_ok, all) \<Rightarrow> Inr all
      | (Read_error e, _) \<Rightarrow> Inl e
      | (Read_panic, _) \<Rightarrow> Inl ''panic'')"

subsection \<open>Parquet\<close>

text \<open>A read fills the batch with some rows and says whether more may follow.\<close>

datatype read_status = More | At_end | Failed_read

fun parquet_reads ::
  "(parquet_metric, 'w) callback \<Rightarrow> (parquet_metric list \<times> read_status) list \<Rightarrow> 'w \<Rightarrow> read_end option \<times> 'w"
where
  "parquet_reads cb [] w = (None, w)"
| "parquet_reads cb ((rows, st) # rs) w =
     (case (if rows = [] then (None, w) else cb rows w) of
        (Some e, w') \<Rightarrow> (Some (Read_error (''callback error: '' @ e)), w')
      | (None, w') \<Rightarrow>
          (case st of
             At_end \<Rightarrow> (Some Read_ok, w')
           | Failed_read \<Rightarrow> (Some (Read_error ''failed to read from file''), w')
           | More \<Rightarrow> parquet_reads cb rs w'))"

text \<open>The reads of a file; none where it cannot be opened.\<close>

definition ReadParquetFile ::
  "(parquet_metric list \<times> read_status) list option \<Rightarrow> (parquet_metric, 'w) callback \<Rightarrow> 'w \<Rightarrow> read_end option \<times> 'w"
where
  "ReadParquetFile reads cb w =
     (case reads of
        None \<Rightarrow> (Some (Read_error ''failed to open file''), w)
      | Some rs \<Rightarrow> parquet_reads cb rs w)"

section \<open>Writers\<close>

text \<open>
  The destination of a writer, a file: whether its \<open>n\<close>-th write, its sync and its close succeed, and
  the pieces written so far.
\<close>

record 'p dest =
  ds_ok :: "nat \<Rightarrow> bool"
  ds_sync_ok :: bool
  ds_close_ok :: bool
  ds_count :: nat
  ds_pieces :: "'p list"

definition put :: "'p list \<Rightarrow> 'p dest \<Rightarrow> bool \<times> 'p dest" where
  "put ps d =
     (if ds_ok d (ds_count d) then (True, d\<lparr>ds_count := Suc (ds_count d), ds_pieces := ds_pieces d @ ps\<rparr>)
      else (False, d\<lparr>ds_count := Suc (ds_count d)\<rparr>))"

text \<open>The end of every \<open>Close\<close>: sync and close the destination.\<close>

definition close_dest :: "'p dest \<Rightarrow> string option" where
  "close_dest d =
     (if \<not> ds_sync_ok d then Some ''failed to sync'' else if \<not> ds_close_ok d then Some ''failed to close'' else None)"

subsection \<open>JSON\<close>

datatype json_piece = P_open | P_comma | P_value json | P_close

text \<open>\<open>jw_finish_ok\<close>: closing the compressor succeeds; it is true where there is none.\<close>

record json_writer =
  jw_dest :: "json_piece dest"
  jw_first :: bool
  jw_closed :: bool
  jw_finish_ok :: bool

definition NewJSONWriterToWriter :: "json_piece dest \<Rightarrow> bool \<Rightarrow> json_writer option" where
  "NewJSONWriterToWriter d finish =
     (case put [P_open] d of
        (False, _) \<Rightarrow> None
      | (True, d') \<Rightarrow> Some \<lparr>jw_dest = d', jw_first = True, jw_closed = False, jw_finish_ok = finish\<rparr>)"

fun json_write_each :: "(nat \<Rightarrow> string) \<Rightarrow> metric list \<Rightarrow> json_writer \<Rightarrow> string option \<times> json_writer" where
  "json_write_each us [] w = (None, w)"
| "json_write_each us (m # ms) w =
     (case (if jw_first w then (True, jw_dest w) else put [P_comma] (jw_dest w)) of
        (False, d) \<Rightarrow> (Some ''failed to write separator'', w\<lparr>jw_dest := d\<rparr>)
      | (True, d) \<Rightarrow>
          (case put [P_value (marshal_metric us m)] d of
             (False, d') \<Rightarrow> (Some ''failed to encode metric'', w\<lparr>jw_dest := d', jw_first := False\<rparr>)
           | (True, d') \<Rightarrow> json_write_each us ms (w\<lparr>jw_dest := d', jw_first := False\<rparr>)))"

definition json_Write :: "(nat \<Rightarrow> string) \<Rightarrow> metric list \<Rightarrow> json_writer \<Rightarrow> string option \<times> json_writer" where
  "json_Write us ms w = (if jw_closed w then (Some ''writer is closed'', w) else json_write_each us ms w)"

definition json_WriteOne :: "(nat \<Rightarrow> string) \<Rightarrow> metric \<Rightarrow> json_writer \<Rightarrow> string option \<times> json_writer" where
  "json_WriteOne us m w = json_Write us [m] w"

definition json_Close :: "json_writer \<Rightarrow> string option \<times> json_writer" where
  "json_Close w0 =
     (if jw_closed w0 then (None, w0)
      else (let w = w0\<lparr>jw_closed := True\<rparr>
            in (case put [P_close] (jw_dest w) of
                  (False, d) \<Rightarrow> (Some ''failed to write closing bracket'', w\<lparr>jw_dest := d\<rparr>)
                | (True, d) \<Rightarrow>
                    (if \<not> jw_finish_ok w then Some ''failed to close compressor'' else close_dest d,
                     w\<lparr>jw_dest := d\<rparr>))))"

subsection \<open>CSV\<close>

record csv_writer =
  cw_dest :: "string list dest"
  cw_flush_ok :: bool
  cw_closed :: bool

definition NewCSVWriterToWriter :: "string list dest \<Rightarrow> bool \<Rightarrow> csv_writer option" where
  "NewCSVWriterToWriter d flush =
     (case put [[''USAGE_DATE'', ''VALUE'', ''LABELS'']] d of
        (False, _) \<Rightarrow> None
      | (True, d') \<Rightarrow> Some \<lparr>cw_dest = d', cw_flush_ok = flush, cw_closed = False\<rparr>)"

definition csv_record :: "transcode_lib \<Rightarrow> metric \<Rightarrow> string list" where
  "csv_record L m = [tl_instant_text L (time_stamp m) @ '' Z'', m_value m, tl_json_text L (json_of_map (full_labels m))]"

definition csv_writeMetric :: "transcode_lib \<Rightarrow> metric \<Rightarrow> csv_writer \<Rightarrow> string option \<times> csv_writer" where
  "csv_writeMetric L m w =
     (case put [csv_record L m] (cw_dest w) of
        (ok, d) \<Rightarrow> (if ok then None else Some ''failed to write CSV record'', w\<lparr>cw_dest := d\<rparr>))"

fun csv_write_each :: "transcode_lib \<Rightarrow> metric list \<Rightarrow> csv_writer \<Rightarrow> string option \<times> csv_writer" where
  "csv_write_each L [] w = (None, w)"
| "csv_write_each L (m # ms) w =
     (case csv_writeMetric L m w of
        (Some e, w') \<Rightarrow> (Some e, w')
      | (None, w') \<Rightarrow> csv_write_each L ms w')"

definition csv_Write :: "transcode_lib \<Rightarrow> metric list \<Rightarrow> csv_writer \<Rightarrow> string option \<times> csv_writer" where
  "csv_Write L ms w = (if cw_closed w then (Some ''writer is closed'', w) else csv_write_each L ms w)"

definition csv_WriteOne :: "transcode_lib \<Rightarrow> metric \<Rightarrow> csv_writer \<Rightarrow> string option \<times> csv_writer" where
  "csv_WriteOne L m w = (if cw_closed w then (Some ''writer is closed'', w) else csv_writeMetric L m w)"

definition csv_Close :: "csv_writer \<Rightarrow> string option \<times> csv_writer" where
  "csv_Close w =
     (if cw_closed w then (None, w)
      else (if \<not> cw_flush_ok w then Some ''failed to flush CSV writer'' else close_dest (cw_dest w),
            w\<lparr>cw_closed := True\<rparr>))"

subsection \<open>Parquet\<close>

record parquet_writer =
  pw_dest :: "parquet_metric dest"
  pw_finish_ok :: bool
  pw_closed :: bool

definition NewParquetWriterToWriter :: "parquet_metric dest \<Rightarrow> bool \<Rightarrow> parquet_writer" where
  "NewParquetWriterToWriter d finish = \<lparr>pw_dest = d, pw_finish_ok = finish, pw_closed = False\<rparr>"

definition WriteParquetMetrics :: "parquet_metric list \<Rightarrow> parquet_writer \<Rightarrow> string option \<times> parquet_writer" where
  "WriteParquetMetrics ps w =
     (if pw_closed w then (Some ''writer is closed'', w)
      else (case put ps (pw_dest w) of
              (ok, d) \<Rightarrow> (if ok then None else Some ''failed to write metrics to Parquet'', w\<lparr>pw_dest := d\<rparr>)))"

definition parquet_Write :: "metric list \<Rightarrow> parquet_writer \<Rightarrow> string option \<times> parquet_writer" where
  "parquet_Write ms w =
     (if pw_closed w then (Some ''writer is closed'', w)
      else (case put (map to_parquet ms) (pw_dest w) of
              (ok, d) \<Rightarrow> (if ok then None else Some ''failed to write metrics to Parquet'', w\<lparr>pw_dest := d\<rparr>)))"

definition parquet_WriteOne :: "metric \<Rightarrow> parquet_writer \<Rightarrow> string option \<times> parquet_writer" where
  "parquet_WriteOne m w = parquet_Write [m] w"

definition parquet_Close :: "parquet_writer \<Rightarrow> string option \<times> parquet_writer" where
  "parquet_Close w =
     (if pw_closed w then (None, w)
      else (if \<not> pw_finish_ok w then Some ''failed to close Parquet writer'' else close_dest (pw_dest w),
            w\<lparr>pw_closed := True\<rparr>))"

section \<open>The remote writer\<close>

definition DefaultMaxRetries :: nat where "DefaultMaxRetries = 3"

text \<open>
  The server: its answer to the \<open>k\<close>-th request, none where the request fails, the number of requests
  so far and the batches that it answered with a status of success.  Encoding a request cannot fail.
\<close>

record remote =
  rm_answer :: "nat \<Rightarrow> nat option"
  rm_count :: nat
  rm_accepted :: "series_v1 list list"

definition doRequest :: "series_v1 list \<Rightarrow> remote \<Rightarrow> bool \<times> remote" where
  "doRequest ts r =
     (let r' = r\<lparr>rm_count := Suc (rm_count r)\<rparr>
      in (case rm_answer r (rm_count r) of
            None \<Rightarrow> (False, r')
          | Some s \<Rightarrow>
              if s < 200 \<or> 300 \<le> s then (False, r')
              else (True, r'\<lparr>rm_accepted := rm_accepted r @ [ts]\<rparr>)))"

fun remote_attempts :: "nat \<Rightarrow> series_v1 list \<Rightarrow> remote \<Rightarrow> bool \<times> remote" where
  "remote_attempts 0 ts r = (False, r)"
| "remote_attempts (Suc k) ts r =
     (case doRequest ts r of (True, r') \<Rightarrow> (True, r') | (False, r') \<Rightarrow> remote_attempts k ts r')"

definition remote_Write :: "series_v1 list \<Rightarrow> remote \<Rightarrow> bool \<times> remote" where
  "remote_Write ts r = (if ts = [] then (True, r) else remote_attempts DefaultMaxRetries ts r)"

section \<open>The contract of a reader\<close>

text \<open>A file that is read to its end is handed over in order, in batches that are not empty and not
  larger than configured.\<close>

locale batch_reader =
  fixes read :: "('b, 'w) callback \<Rightarrow> 'w \<Rightarrow> read_end \<times> 'w" and n :: nat and items :: "'b list"
  assumes batches: "(\<And>b w. fst (cb b w) = None) \<Longrightarrow> read cb w = (Read_ok, w') \<Longrightarrow>
    \<exists>bs. concat bs = items \<and> (\<forall>b \<in> set bs. b \<noteq> [] \<and> length b \<le> n) \<and> w' = fold (\<lambda>b w. snd (cb b w)) bs w"
begin

text \<open>A callback that takes the elements of its batch one by one takes those of the file.\<close>

lemma each_in_order:
  assumes "read (\<lambda>b w. (None, fold step b w)) w = (Read_ok, w')"
  shows "w' = fold step items w"
proof -
  obtain bs where "concat bs = items" "w' = fold (\<lambda>b w. fold step b w) bs w"
    using batches [OF _ assms] by auto
  moreover have "fold (\<lambda>b w. fold step b w) bs w = fold step (concat bs) w"
    by (induction bs arbitrary: w) simp_all
  ultimately show ?thesis by simp
qed

end

text \<open>The series of the rows that are read.\<close>

definition row_series :: "transcode_lib \<Rightarrow> nat \<times> nat \<times> nat \<Rightarrow> csv_row list \<Rightarrow> series_v1 list" where
  "row_series L idx rows =
     List.map_filter (\<lambda>r. case read_row L (fst idx) (fst (snd idx)) (snd (snd idx)) r of
                            Series_read s \<Rightarrow> Some s | _ \<Rightarrow> None) rows"

lemma row_series_simps:
  "row_series L idx [] = []"
  "row_series L (d, v, l) (r # rs) =
     (case read_row L d v l r of Series_read s \<Rightarrow> s # row_series L (d, v, l) rs | _ \<Rightarrow> row_series L (d, v, l) rs)"
  by (simp_all add: row_series_def map_filter_simps split: row_reading.split)

text \<open>The common step of the readers: a full batch is handed over before the rest.\<close>

lemma batches_Cons:
  assumes "concat bs = items" "\<forall>b \<in> set bs. b \<noteq> [] \<and> length b \<le> n" "w' = fold (\<lambda>b w. snd (cb b w)) bs w1"
    and "cb b w = (None, w1)" "b \<noteq> []" "length b \<le> n"
  shows "\<exists>bs. concat bs = b @ items \<and> (\<forall>b \<in> set bs. b \<noteq> [] \<and> length b \<le> n) \<and> w' = fold (\<lambda>b w. snd (cb b w)) bs w"
  using assms by (intro exI [of _ "b # bs"]) simp

lemma csv_rows_batches:
  assumes cb: "\<And>b w. fst (cb b w) = None"
  shows "csv_rows L n (d, v, l) cb rows batch w = (Read_ok, w') \<Longrightarrow> length batch < n \<Longrightarrow>
    \<exists>bs. concat bs = batch @ row_series L (d, v, l) rows \<and> (\<forall>b \<in> set bs. b \<noteq> [] \<and> length b \<le> n) \<and>
      w' = fold (\<lambda>b w. snd (cb b w)) bs w"
proof (induction rows arbitrary: batch w)
  case Nil
  show ?case
  proof (cases "batch = []")
    case True
    then show ?thesis using Nil by (intro exI [of _ "[]"]) (simp add: row_series_simps)
  next
    case False
    obtain w1 where c: "cb batch w = (None, w1)" using cb [of batch w] by (metis prod.collapse)
    with Nil False have "w' = w1" by simp
    then show ?thesis using c Nil(2) False by (intro exI [of _ "[batch]"]) (simp add: row_series_simps)
  qed
next
  case (Cons r rows)
  show ?case
  proof (cases "read_row L d v l r")
    case Skipped
    then show ?thesis using Cons by (simp add: row_series_simps)
  next
    case Out_of_range
    then show ?thesis using Cons.prems by simp
  next
    case (Series_read s)
    obtain w1 where c: "cb (batch @ [s]) w = (None, w1)" using cb [of "batch @ [s]" w] by (metis prod.collapse)
    show ?thesis
    proof (cases "length (batch @ [s]) < n")
      case True
      then show ?thesis using Cons.prems Cons.IH [of "batch @ [s]" w] Series_read by (simp add: row_series_simps)
    next
      case False
      then have n: "0 < n" "length (batch @ [s]) \<le> n" using Cons.prems(2) by auto
      have "csv_rows L n (d, v, l) cb rows [] w1 = (Read_ok, w')"
        using Cons.prems(1) Series_read c False by simp
      then obtain bs where "concat bs = row_series L (d, v, l) rows" "\<forall>b \<in> set bs. b \<noteq> [] \<and> length b \<le> n"
        "w' = fold (\<lambda>b w. snd (cb b w)) bs w1" using Cons.IH [of "[]" w1] n(1) by auto
      from batches_Cons [OF this c _ n(2)] show ?thesis using Series_read by (simp add: row_series_simps)
    qed
  qed
qed

text \<open>The metrics of the items before the closing bracket.\<close>

fun item_metrics :: "(string \<Rightarrow> nat option) \<Rightarrow> json_token list \<Rightarrow> metric list" where
  "item_metrics up (Item j # ts) =
     (case unmarshal_metric up empty_metric j of Inr m \<Rightarrow> m # item_metrics up ts | Inl _ \<Rightarrow> [])"
| "item_metrics up _ = []"

lemma json_items_batches:
  assumes cb: "\<And>b w. fst (cb b w) = None"
  shows "json_items up n cb toks batch w = (Read_ok, w') \<Longrightarrow> length batch < n \<Longrightarrow>
    \<exists>bs. concat bs = batch @ item_metrics up toks \<and> (\<forall>b \<in> set bs. b \<noteq> [] \<and> length b \<le> n) \<and>
      w' = fold (\<lambda>b w. snd (cb b w)) bs w"
proof (induction toks arbitrary: batch w)
  case (Cons t toks)
  show ?case
  proof (cases t)
    case Close_array
    show ?thesis
    proof (cases "batch = []")
      case True
      then show ?thesis using Cons.prems Close_array by (intro exI [of _ "[]"]) simp
    next
      case False
      obtain w1 where c: "cb batch w = (None, w1)" using cb [of batch w] by (metis prod.collapse)
      with Cons.prems False Close_array have "w' = w1" by simp
      then show ?thesis using c Cons.prems(2) False Close_array by (intro exI [of _ "[batch]"]) simp
    qed
  next
    case (Item j)
    obtain m where m: "unmarshal_metric up empty_metric j = Inr m" using Cons.prems(1) Item
      by (cases "unmarshal_metric up empty_metric j") simp_all
    obtain w1 where c: "cb (batch @ [m]) w = (None, w1)" using cb [of "batch @ [m]" w] by (metis prod.collapse)
    show ?thesis
    proof (cases "length (batch @ [m]) < n")
      case True
      then show ?thesis using Cons.prems Cons.IH [of "batch @ [m]" w] Item m by simp
    next
      case False
      then have n: "0 < n" "length (batch @ [m]) \<le> n" using Cons.prems(2) by auto
      have "json_items up n cb toks [] w1 = (Read_ok, w')" using Cons.prems(1) Item m c False by simp
      then obtain bs where "concat bs = item_metrics up toks" "\<forall>b \<in> set bs. b \<noteq> [] \<and> length b \<le> n"
        "w' = fold (\<lambda>b w. snd (cb b w)) bs w1" using Cons.IH [of "[]" w1] n(1) by auto
      from batches_Cons [OF this c _ n(2)] show ?thesis using Item m by simp
    qed
  qed (use Cons.prems in simp_all)
qed simp

lemma parquet_reads_batches:
  assumes cb: "\<And>b w. fst (cb b w) = None"
    and rows: "\<forall>r \<in> set reads. length (fst r) \<le> n"
  shows "parquet_reads cb reads w = (Some Read_ok, w') \<Longrightarrow>
    \<exists>bs. concat bs = concat (map fst (takeWhile (\<lambda>r. snd r = More) reads)) @
        concat (map fst (take 1 (dropWhile (\<lambda>r. snd r = More) reads))) \<and>
      (\<forall>b \<in> set bs. b \<noteq> [] \<and> length b \<le> n) \<and> w' = fold (\<lambda>b w. snd (cb b w)) bs w"
  using rows
proof (induction reads arbitrary: w)
  case (Cons r reads)
  obtain rs st where r: "r = (rs, st)" by fastforce
  obtain w1 where w1: "(if rs = [] then (None, w) else cb rs w) = (None, w1)"
    using cb [of rs w] by (cases "rs = []") (auto simp: prod_eq_iff)
  have one: "\<exists>bs. concat bs = rs \<and> (\<forall>b \<in> set bs. b \<noteq> [] \<and> length b \<le> n) \<and> w1 = fold (\<lambda>b w. snd (cb b w)) bs w"
  proof (cases "rs = []")
    case True
    then show ?thesis using w1 by (intro exI [of _ "[]"]) simp
  next
    case False
    then show ?thesis using w1 Cons.prems(2) r by (intro exI [of _ "[rs]"]) auto
  qed
  then obtain b1 where b1: "concat b1 = rs" "\<forall>b \<in> set b1. b \<noteq> [] \<and> length b \<le> n"
    "w1 = fold (\<lambda>b w. snd (cb b w)) b1 w" by blast
  show ?case
  proof (cases st)
    case More
    then have "parquet_reads cb reads w1 = (Some Read_ok, w')" using Cons.prems(1) r w1 by simp
    then obtain bs where "concat bs = concat (map fst (takeWhile (\<lambda>r. snd r = More) reads)) @
        concat (map fst (take 1 (dropWhile (\<lambda>r. snd r = More) reads)))"
      "\<forall>b \<in> set bs. b \<noteq> [] \<and> length b \<le> n" "w' = fold (\<lambda>b w. snd (cb b w)) bs w1"
      using Cons.IH [of w1] Cons.prems(2) by auto
    then show ?thesis using b1 r More by (intro exI [of _ "b1 @ bs"]) auto
  next
    case At_end
    then have "w' = w1" using Cons.prems(1) r w1 by simp
    then show ?thesis using b1 r At_end by (intro exI [of _ b1]) simp
  next
    case Failed_read
    then show ?thesis using Cons.prems(1) r w1 by simp
  qed
qed simp

lemma reader_batch_pos [simp]: "0 < reader_batch k"
  by (simp add: reader_batch_def DefaultBatchSize_def)

interpretation csv_file: batch_reader "\<lambda>cb w. csv_rows L (reader_batch k) (d, v, l) cb rows [] w" "reader_batch k"
    "row_series L (d, v, l) rows" for L k d v l rows
proof unfold_locales
  fix cb w w' assume cb: "\<And>b w. fst (cb b w) = (None :: string option)"
    and run: "csv_rows L (reader_batch k) (d, v, l) cb rows [] w = (Read_ok, w')"
  from csv_rows_batches [OF cb run]
  show "\<exists>bs. concat bs = row_series L (d, v, l) rows \<and> (\<forall>b \<in> set bs. b \<noteq> [] \<and> length b \<le> reader_batch k) \<and>
      w' = fold (\<lambda>b w. snd (cb b w)) bs w" by simp
qed

interpretation json_file: batch_reader "\<lambda>cb w. json_items up (reader_batch k) cb toks [] w" "reader_batch k"
    "item_metrics up toks" for up k toks
proof unfold_locales
  fix cb w w' assume cb: "\<And>b w. fst (cb b w) = (None :: string option)"
    and run: "json_items up (reader_batch k) cb toks [] w = (Read_ok, w')"
  from json_items_batches [OF cb run]
  show "\<exists>bs. concat bs = item_metrics up toks \<and> (\<forall>b \<in> set bs. b \<noteq> [] \<and> length b \<le> reader_batch k) \<and>
      w' = fold (\<lambda>b w. snd (cb b w)) bs w" by simp
qed

text \<open>A Parquet reader never gives more rows than fit the batch, and says when the file ends.\<close>

definition parquet_file_read ::
  "nat \<Rightarrow> (parquet_metric list \<times> read_status) list \<Rightarrow> (parquet_metric, 'w) callback \<Rightarrow> 'w \<Rightarrow> read_end \<times> 'w"
where
  "parquet_file_read n reads cb w =
     (if \<not> list_all (\<lambda>r. length (fst r) \<le> n) reads then (Read_error ''too many rows'', w)
      else (case parquet_reads cb reads w of
              (Some e, w') \<Rightarrow> (e, w')
            | (None, w') \<Rightarrow> (Read_error ''no end'', w')))"

definition parquet_rows :: "(parquet_metric list \<times> read_status) list \<Rightarrow> parquet_metric list" where
  "parquet_rows reads = concat (map fst (takeWhile (\<lambda>r. snd r = More) reads)) @
     concat (map fst (take 1 (dropWhile (\<lambda>r. snd r = More) reads)))"

interpretation parquet_file: batch_reader "\<lambda>cb w. parquet_file_read n reads cb w" n "parquet_rows reads" for n reads
proof unfold_locales
  fix cb w w' assume cb: "\<And>b w. fst (cb b w) = (None :: string option)"
    and run: "parquet_file_read n reads cb w = (Read_ok, w')"
  have small: "\<forall>r \<in> set reads. length (fst r) \<le> n"
    using run by (simp add: parquet_file_read_def list_all_iff split: if_splits)
  have "parquet_reads cb reads w = (Some Read_ok, w')"
    using run small by (auto simp: parquet_file_read_def list_all_iff split: prod.splits option.splits)
  from parquet_reads_batches [OF cb small this]
  show "\<exists>bs. concat bs = parquet_rows reads \<and> (\<forall>b \<in> set bs. b \<noteq> [] \<and> length b \<le> n) \<and>
      w' = fold (\<lambda>b w. snd (cb b w)) bs w" by (simp add: parquet_rows_def)
qed

section \<open>The contract of a writer\<close>

text \<open>A metric that is written without an error is stored after those before it, one that is not
  leaves what is stored; a closed writer takes nothing, and closing it again is harmless.\<close>

locale metric_writer =
  fixes write_one :: "metric \<Rightarrow> 'w \<Rightarrow> string option \<times> 'w" and close_it :: "'w \<Rightarrow> string option \<times> 'w"
    and is_closed :: "'w \<Rightarrow> bool" and stored :: "'w \<Rightarrow> 'p list" and piece :: "metric \<Rightarrow> 'p"
  assumes write_stores: "\<not> is_closed w \<Longrightarrow> write_one m w = (None, w') \<Longrightarrow> stored w' = stored w @ [piece m] \<and> \<not> is_closed w'"
    and write_fails: "write_one m w = (Some e, w') \<Longrightarrow> stored w' = stored w \<and> is_closed w' = is_closed w"
    and write_closed: "is_closed w \<Longrightarrow> fst (write_one m w) \<noteq> None"
    and close_closes: "close_it w = (r, w') \<Longrightarrow> stored w' = stored w \<and> is_closed w'"
    and close_again: "is_closed w \<Longrightarrow> close_it w = (None, w)"

definition piece_values :: "json_piece list \<Rightarrow> json list" where
  "piece_values ps = List.map_filter (\<lambda>p. case p of P_value j \<Rightarrow> Some j | _ \<Rightarrow> None) ps"

lemma piece_values_simps [simp]:
  "piece_values [] = []" "piece_values (P_value j # ps) = j # piece_values ps" "piece_values (P_comma # ps) = piece_values ps"
  "piece_values (P_open # ps) = piece_values ps" "piece_values (P_close # ps) = piece_values ps"
  by (simp_all add: piece_values_def map_filter_simps)

lemma piece_values_append [simp]: "piece_values (ps @ qs) = piece_values ps @ piece_values qs"
  by (simp add: piece_values_def List.map_filter_def)

interpretation json_out: metric_writer "json_WriteOne us" json_Close jw_closed
    "\<lambda>w. piece_values (ds_pieces (jw_dest w))" "marshal_metric us" for us
  by unfold_locales
    (auto simp: json_WriteOne_def json_Write_def json_Close_def put_def Let_def split: if_splits prod.splits bool.splits)

interpretation csv_out: metric_writer "csv_WriteOne L" csv_Close cw_closed
    "\<lambda>w. ds_pieces (cw_dest w)" "csv_record L" for L
  by unfold_locales
    (auto simp: csv_WriteOne_def csv_writeMetric_def csv_Close_def put_def split: if_splits)

interpretation parquet_out: metric_writer parquet_WriteOne parquet_Close pw_closed
    "\<lambda>w. ds_pieces (pw_dest w)" to_parquet
  by unfold_locales
    (auto simp: parquet_WriteOne_def parquet_Write_def parquet_Close_def put_def split: if_splits)

section \<open>Round trips\<close>

lemma map_of_filter_distinct:
  "distinct (map fst xs) \<Longrightarrow> map_of (filter (\<lambda>kv. P (snd kv)) xs) k =
     (case map_of xs k of Some v \<Rightarrow> if P v then Some v else None | None \<Rightarrow> None)"
  by (induction xs) (auto simp: map_of_eq_None_iff split: option.split dest: map_of_SomeD)

lemma sorted_labels_lookup:
  "map_of (sorted_labels f) k = (case fmlookup f k of Some v \<Rightarrow> if v \<noteq> [] then Some v else None | None \<Rightarrow> None)"
  unfolding sorted_labels_def by (subst map_of_filter_distinct [OF distinct_sorted_list_of_fmap]) simp

lemma sorted_labels_distinct: "distinct (map fst (sorted_labels f))"
  unfolding sorted_labels_def by (rule distinct_map_filter [OF distinct_sorted_list_of_fmap])

text \<open>What the loop over the labels of a series leaves in its variables.\<close>

definition special_label :: "string \<Rightarrow> bool" where
  "special_label k \<longleftrightarrow> k \<in> {name_label, node_label, cluster_label, account_label}"

lemma special_distinct:
  "name_label \<noteq> cluster_label" "name_label \<noteq> account_label" "node_label \<noteq> cluster_label"
  "node_label \<noteq> account_label" "cluster_label \<noteq> account_label"
  by (simp_all add: field_labels)

lemma fold_take_label:
  assumes "distinct (map fst kvs)"
  shows "metric_name (fold take_label kvs m) = or_else (map_of kvs name_label) (metric_name m)"
    and "node_name (fold take_label kvs m) = or_else (map_of kvs node_label) (node_name m)"
    and "cluster_name (fold take_label kvs m) = or_else (map_of kvs cluster_label) (cluster_name m)"
    and "cloud_account_id (fold take_label kvs m) = or_else (map_of kvs account_label) (cloud_account_id m)"
    and "m_id (fold take_label kvs m) = m_id m"
    and "fmlookup (label_map (m_labels (fold take_label kvs m))) k =
      (if special_label k then fmlookup (label_map (m_labels m)) k
       else (case map_of kvs k of Some v \<Rightarrow> Some v | None \<Rightarrow> fmlookup (label_map (m_labels m)) k))"
    and "m_labels m \<noteq> None \<Longrightarrow> m_labels (fold take_label kvs m) \<noteq> None"
proof -
  have "distinct (map fst kvs) \<Longrightarrow>
    metric_name (fold take_label kvs m) = or_else (map_of kvs name_label) (metric_name m) \<and>
    node_name (fold take_label kvs m) = or_else (map_of kvs node_label) (node_name m) \<and>
    cluster_name (fold take_label kvs m) = or_else (map_of kvs cluster_label) (cluster_name m) \<and>
    cloud_account_id (fold take_label kvs m) = or_else (map_of kvs account_label) (cloud_account_id m) \<and>
    m_id (fold take_label kvs m) = m_id m \<and>
    fmlookup (label_map (m_labels (fold take_label kvs m))) k =
      (if special_label k then fmlookup (label_map (m_labels m)) k
       else (case map_of kvs k of Some v \<Rightarrow> Some v | None \<Rightarrow> fmlookup (label_map (m_labels m)) k)) \<and>
    (m_labels m \<noteq> None \<longrightarrow> m_labels (fold take_label kvs m) \<noteq> None)"
  proof (induction kvs arbitrary: m)
    case (Cons kv kvs)
    obtain j v where kv: "kv = (j, v)" by fastforce
    have n: "map_of kvs j = None" and d: "distinct (map fst kvs)"
      using Cons.prems kv by (simp_all add: map_of_eq_None_iff)
    note IH = Cons.IH [OF d, of "take_label (j, v) m"]
    show ?case unfolding kv fold_simps using IH n special_distinct special_distinct [symmetric]
      by (auto simp: special_label_def split: option.split)
  qed simp
  then show "metric_name (fold take_label kvs m) = or_else (map_of kvs name_label) (metric_name m)"
    "node_name (fold take_label kvs m) = or_else (map_of kvs node_label) (node_name m)"
    "cluster_name (fold take_label kvs m) = or_else (map_of kvs cluster_label) (cluster_name m)"
    "cloud_account_id (fold take_label kvs m) = or_else (map_of kvs account_label) (cloud_account_id m)"
    "m_id (fold take_label kvs m) = m_id m"
    "fmlookup (label_map (m_labels (fold take_label kvs m))) k =
      (if special_label k then fmlookup (label_map (m_labels m)) k
       else (case map_of kvs k of Some v \<Rightarrow> Some v | None \<Rightarrow> fmlookup (label_map (m_labels m)) k))"
    "m_labels m \<noteq> None \<Longrightarrow> m_labels (fold take_label kvs m) \<noteq> None"
    using assms by simp_all
qed

text \<open>A metric is sendable when no label of it bears the name of a field.\<close>

definition sendable :: "metric \<Rightarrow> bool" where
  "sendable m \<longleftrightarrow> (\<forall>k. special_label k \<longrightarrow> fmlookup (label_map (m_labels m)) k = None)"

lemma series_label_lookup:
  assumes "sendable m"
  shows "map_of (s1_labels (MetricToTimeSeries L m)) k =
    (let v = (if k = name_label then Some (metric_name m) else if k = node_label then Some (node_name m)
              else if k = cluster_label then Some (cluster_name m)
              else if k = account_label then Some (cloud_account_id m) else fmlookup (label_map (m_labels m)) k)
     in if v = Some [] then None else v)"
  using assms special_distinct special_distinct [symmetric]
  by (auto simp: MetricToTimeSeries_def sorted_labels_lookup full_labels_def sendable_def special_label_def Let_def
      split: option.split)

text \<open>C29: a metric whose labels bear no name of a field survives the way through a remote-write series:
  sent and received again it has the same name, node, cluster and account, its labels but the empty
  ones, its instant cut to the millisecond and its value as the number prints; its id is the zero id
  and it is created now.\<close>

theorem series_roundtrip:
  assumes "sendable m"
  shows "TimeSeriesToMetrics L now (MetricToTimeSeries L m) =
    [m\<lparr>m_id := 0, created_at := now, time_stamp := from_milli (unix_milli (time_stamp m)),
       m_labels := Some (fmfilter (\<lambda>k. fmlookup (label_map (m_labels m)) k \<noteq> Some []) (label_map (m_labels m))),
       m_value := tl_format L (tl_value L (m_value m))\<rparr>]"
proof -
  let ?kvs = "s1_labels (MetricToTimeSeries L m)"
  let ?m0 = "empty_metric\<lparr>m_labels := Some fmempty\<rparr>"
  let ?r = "fold take_label ?kvs ?m0"
  have d: "distinct (map fst ?kvs)" by (simp add: MetricToTimeSeries_def Let_def sorted_labels_distinct)
  note f = fold_take_label [OF d, of ?m0]
  note l = series_label_lookup [OF assms, of L]
  have names: "metric_name ?r = metric_name m" "node_name ?r = node_name m" "cluster_name ?r = cluster_name m"
    "cloud_account_id ?r = cloud_account_id m" "m_id ?r = 0"
    using f(1-5) special_distinct special_distinct [symmetric]
    by (auto simp: l Let_def empty_metric_def)
  have labels: "m_labels ?r = Some (fmfilter (\<lambda>k. fmlookup (label_map (m_labels m)) k \<noteq> Some []) (label_map (m_labels m)))"
  proof -
    obtain g where g: "m_labels ?r = Some g" using f(7) by fastforce
    have "fmlookup g k = fmlookup (fmfilter (\<lambda>k. fmlookup (label_map (m_labels m)) k \<noteq> Some []) (label_map (m_labels m))) k" for k
      using f(6) [of k] g assms
      by (auto simp: l Let_def empty_metric_def special_label_def sendable_def split: if_splits option.splits)
    then show ?thesis using g by (simp add: fmap_ext)
  qed
  have "s1_samples (MetricToTimeSeries L m) =
    [\<lparr>sa_timestamp = unix_milli (time_stamp m), sa_value = tl_value L (m_value m)\<rparr>]"
    by (simp add: MetricToTimeSeries_def Let_def)
  then show ?thesis using names labels
    by (cases m, cases ?r) (simp add: TimeSeriesToMetrics_def Let_def)
qed

definition sample_lib :: transcode_lib where
  "sample_lib = \<lparr>tl_value = (\<lambda>_. Fin 1), tl_number = (\<lambda>_. Some (Fin 1)), tl_format = (\<lambda>_. ''1''),
     tl_instant = (\<lambda>_. Some 0), tl_instant_text = (\<lambda>_. []), tl_json = (\<lambda>_. Some JNull), tl_json_text = (\<lambda>_. [])\<rparr>"

theorem series_roundtrip_witness:
  "TimeSeriesToMetrics sample_lib 0 (MetricToTimeSeries sample_lib sample_metric) =
     [sample_metric\<lparr>m_id := 0, created_at := 0, time_stamp := 1700000000999000000,
        m_labels := Some (fmfilter (\<lambda>k. fmlookup (label_map (m_labels sample_metric)) k \<noteq> Some [])
          (label_map (m_labels sample_metric))), m_value := ''1''\<rparr>]"
proof -
  have "sendable sample_metric"
    by (auto simp: sendable_def special_label_def sample_metric_def field_labels)
  from series_roundtrip [OF this, of sample_lib 0] show ?thesis
    by (simp add: sample_lib_def sample_metric_def unix_milli_def from_milli_def)
qed

section \<open>JSON files\<close>

text \<open>What a decoder makes of written pieces: values follow the bracket or a comma.\<close>

fun value_tokens :: "bool \<Rightarrow> json_piece list \<Rightarrow> json_token list" where
  "value_tokens first [] = []"
| "value_tokens first (P_close # ps) = [Close_array]"
| "value_tokens True (P_value j # ps) = Item j # value_tokens False ps"
| "value_tokens False (P_comma # P_value j # ps) = Item j # value_tokens False ps"
| "value_tokens _ _ = [Junk]"

fun file_tokens :: "json_piece list \<Rightarrow> json_token list" where
  "file_tokens (P_open # ps) = Open_array # value_tokens True ps"
| "file_tokens [] = []"
| "file_tokens _ = [Junk]"

fun separated :: "json list \<Rightarrow> json_piece list" where
  "separated [] = []"
| "separated (j # js) = P_value j # concat (map (\<lambda>k. [P_comma, P_value k]) js)"

lemma separated_snoc:
  "separated (js @ [j]) = separated js @ (if js = [] then [P_value j] else [P_comma, P_value j])"
  by (cases js) simp_all

lemma value_tokens_rest:
  "value_tokens False (concat (map (\<lambda>k. [P_comma, P_value k]) js) @ ps) = map Item js @ value_tokens False ps"
  by (induction js) simp_all

lemma value_tokens_close:
  "value_tokens True (separated js @ [P_close]) = map Item js @ [Close_array]"
  "value_tokens True (separated js) = map Item js"
  using value_tokens_rest [of "tl js" "[]"] by (cases js; simp add: value_tokens_rest)+

text \<open>A writer that has not failed holds the opening bracket and its values with commas between.\<close>

definition json_writing :: "json list \<Rightarrow> json_writer \<Rightarrow> bool" where
  "json_writing js w \<longleftrightarrow> ds_pieces (jw_dest w) = P_open # separated js \<and> jw_first w = (js = []) \<and> \<not> jw_closed w"

lemma json_new_writing:
  "ds_pieces d = [] \<Longrightarrow> NewJSONWriterToWriter d fin = Some w \<Longrightarrow> json_writing [] w"
  by (auto simp: NewJSONWriterToWriter_def put_def json_writing_def split: if_splits)

lemma json_write_each_writing:
  "json_writing js w \<Longrightarrow> json_write_each us ms w = (None, w') \<Longrightarrow>
     json_writing (js @ map (marshal_metric us) ms) w'"
proof (induction ms arbitrary: js w)
  case (Cons m ms)
  let ?j = "marshal_metric us m"
  obtain ok d where d: "(if jw_first w then (True, jw_dest w) else put [P_comma] (jw_dest w)) = (ok, d)" by fastforce
  have ok: "ok = True" using Cons.prems(2) d by (cases ok) auto
  obtain ok' d' where d': "put [P_value ?j] d = (ok', d')" by fastforce
  have ok': "ok' = True" using Cons.prems(2) d ok d' by (cases ok') auto
  have run: "json_write_each us ms (w\<lparr>jw_dest := d', jw_first := False\<rparr>) = (None, w')"
    using Cons.prems(2) d ok d' ok' by simp
  have "ds_pieces d' = P_open # separated (js @ [?j])"
    using Cons.prems(1) d ok d' ok'
    by (auto simp: json_writing_def put_def separated_snoc split: if_splits)
  then have "json_writing (js @ [?j]) (w\<lparr>jw_dest := d', jw_first := False\<rparr>)"
    using Cons.prems(1) by (simp add: json_writing_def)
  from Cons.IH [OF this run] show ?case by simp
qed simp

lemma json_Write_writing:
  assumes "json_writing js w" and "json_Write us ms w = (None, w')"
  shows "json_writing (js @ map (marshal_metric us) ms) w'"
proof (rule json_write_each_writing [OF assms(1)])
  show "json_write_each us ms w = (None, w')" using assms by (simp add: json_Write_def json_writing_def)
qed

lemma put_True: "put ps d = (True, d') \<Longrightarrow> ds_pieces d' = ds_pieces d @ ps"
  by (auto simp: put_def split: if_splits)

lemma json_Close_writing:
  assumes "json_writing js w" and "json_Close w = (None, w')"
  shows "ds_pieces (jw_dest w') = P_open # separated js @ [P_close]"
proof -
  obtain ok d where d: "put [P_close] (jw_dest w) = (ok, d)" by fastforce
  have n: "\<not> jw_closed w" using assms(1) by (simp add: json_writing_def)
  have "ok" "jw_dest w' = d" using assms(2) d n by (cases ok; auto simp: json_Close_def Let_def)+
  then show ?thesis using put_True [of "[P_close]" "jw_dest w" d] d assms(1) by (simp add: json_writing_def)
qed

text \<open>The metrics that survive a JSON document.\<close>

definition json_faithful :: "(nat \<Rightarrow> string) \<Rightarrow> (string \<Rightarrow> nat option) \<Rightarrow> metric \<Rightarrow> bool" where
  "json_faithful us up m \<longleftrightarrow> up (us (m_id m)) = Some (m_id m) \<and> hoisted m \<and>
     int64_range (unix_milli (created_at m)) \<and> int64_range (unix_milli (time_stamp m))"

lemma json_items_faithful:
  "list_all (json_faithful us up) ms \<Longrightarrow>
     item_metrics up (map Item (map (marshal_metric us) ms) @ ts) = map normalised ms @ item_metrics up ts"
  by (induction ms) (simp_all add: json_faithful_def unmarshal_marshal)

lemma json_items_end:
  assumes cb: "\<And>b w. fst (cb b w) = None"
  shows "list_all (json_faithful us up) ms \<Longrightarrow>
    \<exists>w'. json_items up n cb (map Item (map (marshal_metric us) ms) @ Close_array # ts) batch w = (Read_ok, w')"
proof (induction ms arbitrary: batch w)
  case Nil
  obtain w1 where "cb batch w = (None, w1)" using cb [of batch w] by (metis prod.collapse)
  then show ?case by simp
next
  case (Cons m ms)
  have m: "unmarshal_metric up empty_metric (marshal_metric us m) = Inr (normalised m)"
    using Cons.prems by (simp add: json_faithful_def unmarshal_marshal)
  obtain w1 where "cb (batch @ [normalised m]) w = (None, w1)"
    using cb [of "batch @ [normalised m]" w] by (metis prod.collapse)
  then show ?case using Cons.IH [of "batch @ [normalised m]" w] Cons.IH [of "[]" w1] Cons.prems m
    by (simp add: Let_def)
qed

text \<open>C28: a JSON file that was written and closed without an error is read back whole: the reader
  hands over, in order and in batches that are never empty nor larger than configured, exactly the
  metrics that were written, with their instants cut to the millisecond.\<close>

theorem json_file_roundtrip:
  assumes "NewJSONWriterToWriter d fin = Some w0" and "ds_pieces d = []"
    and "json_Write us ms w0 = (None, w1)" and "json_Close w1 = (None, w2)"
    and "list_all (json_faithful us up) ms"
  shows "\<exists>bs. ReadJSONFile up (reader_batch k) (Some (file_tokens (ds_pieces (jw_dest w2)))) (\<lambda>b acc. (None, acc @ [b])) [] =
      (Read_ok, bs) \<and> concat bs = map normalised ms \<and> (\<forall>b \<in> set bs. b \<noteq> [] \<and> length b \<le> reader_batch k)"
proof -
  let ?cb = "\<lambda>b acc. (None :: string option, acc @ [b :: metric list])"
  have "json_writing (map (marshal_metric us) ms) w1"
    using json_Write_writing [OF json_new_writing [OF assms(2,1)] assms(3)] by simp
  from json_Close_writing [OF this assms(4)]
  have toks: "file_tokens (ds_pieces (jw_dest w2)) = Open_array # map Item (map (marshal_metric us) ms) @ [Close_array]"
    by (simp add: value_tokens_close)
  let ?ts = "map Item (map (marshal_metric us) ms) @ [Close_array]"
  obtain bs where run: "json_items up (reader_batch k) ?cb ?ts [] [] = (Read_ok, bs)"
    using json_items_end [of ?cb us up ms "reader_batch k" "[]" "[]" "[]"] assms(5) by auto
  obtain bs' where bs': "concat bs' = item_metrics up ?ts" "\<forall>b \<in> set bs'. b \<noteq> [] \<and> length b \<le> reader_batch k"
    "bs = fold (\<lambda>b w. snd (?cb b w)) bs' []"
    using json_file.batches [OF _ run] by auto
  have "fold (\<lambda>b w. snd (?cb b w)) xs acc = acc @ xs" for xs acc by (induction xs arbitrary: acc) simp_all
  then have "bs = bs'" using bs'(3) by simp
  then show ?thesis using run bs'(1,2) json_items_faithful [OF assms(5), of "[Close_array]"]
    by (simp add: ReadJSONFile_def decodeJSONStream_def toks)
qed

definition sample_dest :: "json_piece dest" where
  "sample_dest = \<lparr>ds_ok = (\<lambda>_. True), ds_sync_ok = True, ds_close_ok = True, ds_count = 0, ds_pieces = []\<rparr>"

definition sample_writer :: json_writer where
  "sample_writer = \<lparr>jw_dest = snd (put [P_open] sample_dest), jw_first = True, jw_closed = False, jw_finish_ok = True\<rparr>"

theorem json_file_roundtrip_witness:
  "\<exists>w2 bs. json_Close (snd (json_Write (\<lambda>_. ''u'') [sample_metric, sample_metric] sample_writer)) = (None, w2) \<and>
     ReadJSONFile (\<lambda>_. Some 7) 1 (Some (file_tokens (ds_pieces (jw_dest w2)))) (\<lambda>b acc. (None, acc @ [b])) [] = (Read_ok, bs) \<and>
     concat bs = map normalised [sample_metric, sample_metric]"
proof -
  have n: "NewJSONWriterToWriter sample_dest True = Some sample_writer"
    by (simp add: NewJSONWriterToWriter_def sample_dest_def sample_writer_def put_def)
  obtain w1 where w1: "json_Write (\<lambda>_. ''u'') [sample_metric, sample_metric] sample_writer = (None, w1)"
    by (simp add: json_Write_def sample_writer_def sample_dest_def put_def)
  obtain w2 where w2: "json_Close w1 = (None, w2)"
    using w1 by (auto simp: json_Write_def sample_writer_def sample_dest_def put_def json_Close_def close_dest_def)
  have f: "list_all (json_faithful (\<lambda>_. ''u'') (\<lambda>_. Some 7)) [sample_metric, sample_metric]"
    using sample_metric_hoisted
    by (simp add: json_faithful_def int64_range_def unix_milli_def sample_metric_def)
  have e: "ds_pieces sample_dest = []" by (simp add: sample_dest_def)
  have k: "reader_batch 1 = 1" by (simp add: reader_batch_def)
  obtain bs where "ReadJSONFile (\<lambda>_. Some 7) (reader_batch 1) (Some (file_tokens (ds_pieces (jw_dest w2))))
      (\<lambda>b acc. (None, acc @ [b])) [] = (Read_ok, bs)" "concat bs = map normalised [sample_metric, sample_metric]"
    using json_file_roundtrip [OF n e w1 w2 f] by blast
  then show ?thesis using w1 w2 k by auto
qed

text \<open>A JSON file that ends before its closing bracket: the reader reports an error and has handed over
  the full batches only; the metrics it had decoded for the next batch are lost.\<close>

lemma json_truncated:
  assumes "list_all (json_faithful us up) ms" and "length batch + length ms < n"
  shows "json_items up n cb (map Item (map (marshal_metric us) ms)) batch w =
    (Read_error ''failed to read last token from JSON'', w)"
  using assms
proof (induction ms arbitrary: batch)
  case (Cons m ms)
  have m: "unmarshal_metric up empty_metric (marshal_metric us m) = Inr (normalised m)"
    using Cons.prems by (simp add: json_faithful_def unmarshal_marshal)
  then show ?case using Cons.IH [of "batch @ [normalised m]"] Cons.prems by (simp add: Let_def)
qed simp

theorem truncated_json_drops_tail:
  assumes "list_all (json_faithful us up) ms" and "length ms < n"
  shows "decodeJSONStream up n (Open_array # map Item (map (marshal_metric us) ms)) cb w =
    (Read_error ''failed to read last token from JSON'', w)"
  using json_truncated [OF assms(1), of "[]" n cb w] assms(2) by (simp add: decodeJSONStream_def)

theorem truncated_json_drops_tail_witness:
  "decodeJSONStream (\<lambda>_. Some 7) 10 (Open_array # map Item (map (marshal_metric (\<lambda>_. ''u'')) [sample_metric]))
     (\<lambda>b acc. (None, acc @ b)) [] = (Read_error ''failed to read last token from JSON'', [])"
proof -
  have f: "list_all (json_faithful (\<lambda>_. ''u'') (\<lambda>_. Some 7)) [sample_metric]"
    using sample_metric_hoisted
    by (simp add: json_faithful_def int64_range_def unix_milli_def sample_metric_def)
  show ?thesis by (rule truncated_json_drops_tail [OF f]) simp
qed

text \<open>A CSV row that has a labels column but is too short for the date or the value column, which may
  stand after it, ends the reader with a panic.\<close>

lemma csv_short_row_panics:
  assumes "l < length cols" and "length cols \<le> d"
  shows "csv_rows L n (d, v, l) cb (Row cols # rows) batch w = (Read_panic, w)"
  using assms by (simp add: read_row_def)

section \<open>The remote writer's promise\<close>

lemma doRequest_accepts:
  assumes "doRequest ts r = (ok, r')"
  shows "rm_accepted r' = rm_accepted r @ (if ok then [ts] else []) \<and> rm_count r' = Suc (rm_count r) \<and>
    rm_answer r' = rm_answer r"
  using assms by (auto simp: doRequest_def Let_def split: option.splits if_splits)

lemma remote_attempts_accepts:
  "remote_attempts k ts r = (ok, r') \<Longrightarrow>
     rm_accepted r' = rm_accepted r @ (if ok then [ts] else []) \<and> rm_count r' \<le> rm_count r + k \<and>
     rm_answer r' = rm_answer r"
proof (induction k arbitrary: r)
  case (Suc k)
  obtain b r1 where d: "doRequest ts r = (b, r1)" by fastforce
  show ?case
  proof (cases b)
    case True
    then show ?thesis using Suc.prems d doRequest_accepts [OF d] by auto
  next
    case False
    then have "remote_attempts k ts r1 = (ok, r')" using Suc.prems d by simp
    from Suc.IH [OF this] doRequest_accepts [OF d] False show ?thesis by auto
  qed
qed simp

text \<open>A write is reported as done exactly when the server accepted the batch, once, within three requests.\<close>

lemma remote_Write_accepts:
  assumes "remote_Write ts r = (ok, r')" and "ts \<noteq> []"
  shows "rm_accepted r' = rm_accepted r @ (if ok then [ts] else []) \<and> rm_count r' \<le> rm_count r + 3 \<and>
    rm_answer r' = rm_answer r"
  using remote_attempts_accepts [of DefaultMaxRetries ts r ok r'] assms
  by (simp add: remote_Write_def DefaultMaxRetries_def)

end
