(* ===== verification/Regurgitator.thy ===== *)
theory Regurgitator
  imports Metric_Transcode
begin

text \<open>
  The transcoder of metrics (\<open>app/functions/regurgitator/main.go\<close>): readers of files or an HTTP server
  put metrics into a channel, \<open>FanOut\<close> copies each to the channel of every output, and the writers of an
  output take them from there.

  The channels are a step relation: an action is the step of one goroutine, and a run is any list of
  actions each of which is possible.  Files are the readings of \<open>Metric_Transcode\<close>; the context of a
  remote writer is asked by the number of the look at it.
\<close>

section \<open>The adapter of the remote writer\<close>

definition channelBufferSize :: nat where "channelBufferSize = 8096"
definition defaultBatchSize :: nat where "defaultBatchSize = 10000"
definition regurgitator_maxRetries :: nat where "regurgitator_maxRetries = 10"

record adapter =
  ad_remote :: remote
  ad_batchSize :: nat
  ad_batch :: "series_v1 list"
  ad_done :: "nat \<Rightarrow> bool"
  ad_looks :: nat

definition newRemoteWriterAdapter :: "remote \<Rightarrow> (nat \<Rightarrow> bool) \<Rightarrow> adapter" where
  "newRemoteWriterAdapter r ctx =
     \<lparr>ad_remote = r, ad_batchSize = defaultBatchSize, ad_batch = [], ad_done = ctx, ad_looks = 0\<rparr>"

definition look :: "adapter \<Rightarrow> bool \<times> adapter" where
  "look a = (ad_done a (ad_looks a), a\<lparr>ad_looks := Suc (ad_looks a)\<rparr>)"

fun flush_attempts :: "nat \<Rightarrow> adapter \<Rightarrow> string option \<times> adapter" where
  "flush_attempts 0 a = (Some ''failed after 10 retries'', a)"
| "flush_attempts (Suc k) a =
     (case look a of
        (True, a1) \<Rightarrow> (Some ''context canceled'', a1)
      | (False, a1) \<Rightarrow>
          (case remote_Write (ad_batch a1) (ad_remote a1) of
             (True, r) \<Rightarrow> (None, a1\<lparr>ad_remote := r, ad_batch := []\<rparr>)
           | (False, r) \<Rightarrow>
               (case look (a1\<lparr>ad_remote := r\<rparr>) of
                  (True, a2) \<Rightarrow> (Some ''context canceled'', a2)
                | (False, a2) \<Rightarrow> flush_attempts k a2)))"

definition adapter_flush :: "adapter \<Rightarrow> string option \<times> adapter" where
  "adapter_flush a = (if ad_batch a = [] then (None, a) else flush_attempts regurgitator_maxRetries a)"

definition adapter_WriteOne :: "transcode_lib \<Rightarrow> metric \<Rightarrow> adapter \<Rightarrow> string option \<times> adapter" where
  "adapter_WriteOne L m a0 =
     (let a = a0\<lparr>ad_batch := ad_batch a0 @ [MetricToTimeSeries L m]\<rparr>
      in if ad_batchSize a \<le> length (ad_batch a) then adapter_flush a else (None, a))"

definition adapter_Close :: "adapter \<Rightarrow> string option \<times> adapter" where
  "adapter_Close a = adapter_flush a"

section \<open>Writers\<close>

datatype out_writer =
    Dry_run
  | Remote_out adapter
  | Json_out json_writer
  | Parquet_out parquet_writer
  | Csv_out csv_writer

text \<open>\<open>L\<close> and \<open>us\<close> print what the writers need.\<close>

fun WriteOne :: "transcode_lib \<Rightarrow> (nat \<Rightarrow> string) \<Rightarrow> metric \<Rightarrow> out_writer \<Rightarrow> string option \<times> out_writer" where
  "WriteOne L us m Dry_run = (None, Dry_run)"
| "WriteOne L us m (Remote_out a) = map_prod id Remote_out (adapter_WriteOne L m a)"
| "WriteOne L us m (Json_out w) = map_prod id Json_out (json_WriteOne us m w)"
| "WriteOne L us m (Parquet_out w) = map_prod id Parquet_out (parquet_WriteOne m w)"
| "WriteOne L us m (Csv_out w) = map_prod id Csv_out (csv_WriteOne L m w)"

fun out_Close :: "out_writer \<Rightarrow> string option \<times> out_writer" where
  "out_Close Dry_run = (None, Dry_run)"
| "out_Close (Remote_out a) = map_prod id Remote_out (adapter_Close a)"
| "out_Close (Json_out w) = map_prod id Json_out (json_Close w)"
| "out_Close (Parquet_out w) = map_prod id Parquet_out (parquet_Close w)"
| "out_Close (Csv_out w) = map_prod id Csv_out (csv_Close w)"

definition isRemoteWriteURL :: "string \<Rightarrow> bool" where
  "isRemoteWriteURL s \<longleftrightarrow> prefix ''http://'' s \<or> prefix ''https://'' s"

text \<open>\<open>filepath.Ext\<close>: the last dot of the last element of the path and what follows it.\<close>

definition go_ext :: "string \<Rightarrow> string" where
  "go_ext p =
     (let e = rev (takeWhile (\<lambda>c. c \<noteq> CHR ''/'') (rev p))
      in if CHR ''.'' \<in> set e then CHR ''.'' # rev (takeWhile (\<lambda>c. c \<noteq> CHR ''.'') (rev e)) else [])"

text \<open>The new files: none where one cannot be created.  A compressed file may fail when it is finished.\<close>

record out_files =
  of_json :: "string \<Rightarrow> json_piece dest option"
  of_csv :: "string \<Rightarrow> string list dest option"
  of_parquet_file :: "string \<Rightarrow> parquet_metric dest option"
  of_finish_ok :: "string \<Rightarrow> bool"
  of_remote :: "string \<Rightarrow> remote"
  of_context :: "nat \<Rightarrow> bool"

definition createWriter :: "out_files \<Rightarrow> bool \<Rightarrow> string \<Rightarrow> (string, out_writer) result" where
  "createWriter fs dryRun output =
     (if dryRun then Inr Dry_run
      else if isRemoteWriteURL output then Inr (Remote_out (newRemoteWriterAdapter (of_remote fs output) (of_context fs)))
      else (let ext = to_lower (go_ext output);
                ext = (if ext = ''.br'' \<and> suffix ''.json.br'' output then ''.json.br'' else ext)
            in if ext = ''.parquet'' then
                 (case of_parquet_file fs output of
                    None \<Rightarrow> Inl ''failed to create output file''
                  | Some d \<Rightarrow> Inr (Parquet_out (NewParquetWriterToWriter d (of_finish_ok fs output))))
               else if ext = ''.json'' \<or> ext = ''.json.br'' then
                 (case Option.bind (of_json fs output) (\<lambda>d. NewJSONWriterToWriter d (of_finish_ok fs output)) of
                    None \<Rightarrow> Inl ''failed to create output file''
                  | Some w \<Rightarrow> Inr (Json_out w))
               else if ext = ''.csv'' then
                 (case Option.bind (of_csv fs output) (\<lambda>d. NewCSVWriterToWriter d (of_finish_ok fs output)) of
                    None \<Rightarrow> Inl ''failed to create CSV file''
                  | Some w \<Rightarrow> Inr (Csv_out w))
               else Inl (''unsupported output format: '' @ ext)))"

text \<open>The goroutine of a writer: an error is logged and the next metric is written; closing comes last
  and its error is dropped.\<close>

fun writer_loop :: "('m \<Rightarrow> 'w \<Rightarrow> string option \<times> 'w) \<Rightarrow> 'm list \<Rightarrow> 'w \<Rightarrow> 'w" where
  "writer_loop write [] w = w"
| "writer_loop write (m # ms) w = writer_loop write ms (snd (write m w))"

text \<open>The errors that it logs.\<close>

fun writer_errors :: "('m \<Rightarrow> 'w \<Rightarrow> string option \<times> 'w) \<Rightarrow> 'm list \<Rightarrow> 'w \<Rightarrow> string list" where
  "writer_errors write [] w = []"
| "writer_errors write (m # ms) w =
     (case write m w of
        (None, w') \<Rightarrow> writer_errors write ms w'
      | (Some e, w') \<Rightarrow> e # writer_errors write ms w')"

definition writer_goroutine ::
  "('m \<Rightarrow> 'w \<Rightarrow> string option \<times> 'w) \<Rightarrow> ('w \<Rightarrow> string option \<times> 'w) \<Rightarrow> 'm list \<Rightarrow> 'w \<Rightarrow> 'w"
where
  "writer_goroutine write close ms w = snd (close (writer_loop write ms w))"

section \<open>The channels\<close>

text \<open>
  \<open>pi_hand\<close> is the item that \<open>FanOut\<close> has taken and the output it goes to next; \<open>pi_arrived\<close> and
  \<open>pi_taken\<close> record what was ever sent into the channel and what the writers of each output took.
\<close>

record 'a pipe =
  pi_input :: "'a list"
  pi_closed :: bool
  pi_hand :: "('a \<times> nat) option"
  pi_outs :: "'a list list"
  pi_done :: bool
  pi_cancelled :: bool
  pi_arrived :: "'a list"
  pi_taken :: "'a list list"

definition new_pipe :: "nat \<Rightarrow> 'a pipe" where
  "new_pipe n = \<lparr>pi_input = [], pi_closed = False, pi_hand = None, pi_outs = replicate n [], pi_done = False,
     pi_cancelled = False, pi_arrived = [], pi_taken = replicate n []\<rparr>"

datatype 'a pipe_action =
    Send 'a | Close_input | Cancel_context | Take_item | Give_item | Stop_fan | Finish_fan | Consume nat

definition give_next :: "'a \<Rightarrow> nat \<Rightarrow> nat \<Rightarrow> ('a \<times> nat) option" where
  "give_next x j n = (if j < n then Some (x, j) else None)"

text \<open>None where the step is not possible: a channel is full or empty, or the goroutine is elsewhere.\<close>

fun pipe_act :: "nat \<Rightarrow> 'a pipe_action \<Rightarrow> 'a pipe \<Rightarrow> 'a pipe option" where
  "pipe_act cap (Send x) s =
     (if \<not> pi_closed s \<and> length (pi_input s) < cap
      then Some (s\<lparr>pi_input := pi_input s @ [x], pi_arrived := pi_arrived s @ [x]\<rparr>) else None)"
| "pipe_act cap Close_input s = (if pi_closed s then None else Some (s\<lparr>pi_closed := True\<rparr>))"
| "pipe_act cap Cancel_context s = Some (s\<lparr>pi_cancelled := True\<rparr>)"
| "pipe_act cap Take_item s =
     (case (pi_done s, pi_hand s, pi_input s) of
        (False, None, x # xs) \<Rightarrow> Some (s\<lparr>pi_input := xs, pi_hand := give_next x 0 (length (pi_outs s))\<rparr>)
      | _ \<Rightarrow> None)"
| "pipe_act cap Give_item s =
     (case (pi_done s, pi_hand s) of
        (False, Some (x, j)) \<Rightarrow>
          if length (pi_outs s ! j) < cap
          then Some (s\<lparr>pi_outs := (pi_outs s)[j := pi_outs s ! j @ [x]],
                       pi_hand := give_next x (Suc j) (length (pi_outs s))\<rparr>) else None
      | _ \<Rightarrow> None)"
| "pipe_act cap Stop_fan s = (if pi_cancelled s \<and> \<not> pi_done s then Some (s\<lparr>pi_done := True\<rparr>) else None)"
| "pipe_act cap Finish_fan s =
     (if \<not> pi_done s \<and> pi_hand s = None \<and> pi_input s = [] \<and> pi_closed s then Some (s\<lparr>pi_done := True\<rparr>) else None)"
| "pipe_act cap (Consume i) s =
     (if i < length (pi_outs s) \<and> pi_outs s ! i \<noteq> []
      then Some (s\<lparr>pi_outs := (pi_outs s)[i := tl (pi_outs s ! i)],
                   pi_taken := (pi_taken s)[i := pi_taken s ! i @ [hd (pi_outs s ! i)]]\<rparr>) else None)"

fun pipe_run :: "nat \<Rightarrow> 'a pipe_action list \<Rightarrow> 'a pipe \<Rightarrow> 'a pipe option" where
  "pipe_run cap [] s = Some s"
| "pipe_run cap (a # as) s = (case pipe_act cap a s of None \<Rightarrow> None | Some s' \<Rightarrow> pipe_run cap as s')"

section \<open>Inputs\<close>

text \<open>
  \<open>HTTP server\<close>: the status of a request and the metrics it sends into the channel; \<open>body\<close> is none where
  reading it fails.  The status is written after the metrics are sent.
\<close>

definition receive_request ::
  "transcode_lib \<Rightarrow> int \<Rightarrow> wire \<Rightarrow> string \<Rightarrow> string option \<Rightarrow> nat \<times> metric list"
where
  "receive_request L now wi method body =
     (if method \<noteq> ''POST'' then (405, [])
      else (case body of
              None \<Rightarrow> (400, [])
            | Some b \<Rightarrow>
                (case wi_snappy wi b of
                   None \<Rightarrow> (400, [])
                 | Some raw \<Rightarrow>
                     (case wi_v1 wi raw of
                        None \<Rightarrow> (400, [])
                      | Some tss \<Rightarrow> (204, concat (map (TimeSeriesToMetrics L now) tss))))))"

text \<open>The files below a directory that can be read, in the order of the walk; none where an entry fails.\<close>

definition expandInputs :: "bool \<Rightarrow> (string \<Rightarrow> dir_entry option) \<Rightarrow> string list \<Rightarrow> (string, string list) result" where
  "expandInputs recursive stat inputs =
     foldl (\<lambda>acc input.
       (case acc of
          Inl e \<Rightarrow> Inl e
        | Inr files \<Rightarrow>
            (case stat input of
               None \<Rightarrow> Inl (''failed to stat '' @ input)
             | Some (Unreadable _) \<Rightarrow> Inl (''failed to stat '' @ input)
             | Some (Dir _ es) \<Rightarrow>
                 if \<not> recursive then Inl (input @ '' is a directory (use -r to process directories)'')
                 else (case walk_dir IsSupportedFile input es of
                         None \<Rightarrow> Inl (''failed to walk directory '' @ input)
                       | Some fs \<Rightarrow> Inr (files @ fs))
             | Some (File _) \<Rightarrow> Inr (files @ [input])))) (Inr []) inputs"

text \<open>What a file holds for each of the readers.\<close>

record file_contents =
  fc_csv :: "(string list option \<times> csv_row list) option"
  fc_json :: "json_token list option"
  fc_parquet :: "(parquet_metric list \<times> read_status) list option"

definition send_series :: "transcode_lib \<Rightarrow> int \<Rightarrow> series_v1 list \<Rightarrow> metric list \<Rightarrow> string option \<times> metric list" where
  "send_series L now tss ch = (None, fold (\<lambda>ts ch. ch @ TimeSeriesToMetrics L now ts) tss ch)"

definition send_metrics :: "metric list \<Rightarrow> metric list \<Rightarrow> string option \<times> metric list" where
  "send_metrics ms ch = (None, fold (\<lambda>m ch. ch @ [m]) ms ch)"

text \<open>A row whose labels cannot be read ends the process; the callback never fails otherwise.\<close>

fun send_rows :: "parquet_metric list \<Rightarrow> metric list \<Rightarrow> string option \<times> metric list" where
  "send_rows [] ch = (None, ch)"
| "send_rows (p # ps) ch =
     (case of_parquet p of Inl _ \<Rightarrow> (Some ''fatal'', ch) | Inr m \<Rightarrow> send_rows ps (ch @ [m]))"

definition readCSVFile :: "transcode_lib \<Rightarrow> int \<Rightarrow> file_contents \<Rightarrow> metric list \<Rightarrow> read_end \<times> metric list" where
  "readCSVFile L now f ch = ReadCSVFile L (reader_batch (int defaultBatchSize)) (fc_csv f) (send_series L now) ch"

definition readJSONFile :: "(string \<Rightarrow> nat option) \<Rightarrow> file_contents \<Rightarrow> metric list \<Rightarrow> read_end \<times> metric list" where
  "readJSONFile up f ch = ReadJSONFile up (reader_batch (int defaultBatchSize)) (fc_json f) send_metrics ch"

definition readParquetFile :: "file_contents \<Rightarrow> metric list \<Rightarrow> read_end \<times> metric list" where
  "readParquetFile f ch =
     (case ReadParquetFile (fc_parquet f) send_rows ch of
        (Some (Read_error e), ch') \<Rightarrow>
          (if e = ''callback error: '' @ ''fatal'' then Read_panic else Read_error e, ch')
      | (Some e, ch') \<Rightarrow> (e, ch')
      | (None, ch') \<Rightarrow> (Read_error ''reading'', ch'))"

definition readFile ::
  "transcode_lib \<Rightarrow> (string \<Rightarrow> nat option) \<Rightarrow> int \<Rightarrow> string \<Rightarrow> file_contents \<Rightarrow> metric list \<Rightarrow> read_end \<times> metric list"
where
  "readFile L up now path f ch =
     (let ext = to_lower (go_ext path);
          ext = (if suffix ''.json.br'' path then ''.json.br'' else ext)
      in if ext = ''.csv'' then readCSVFile L now f ch
         else if ext = ''.parquet'' then readParquetFile f ch
         else if ext = ''.json'' \<or> ext = ''.json.br'' then readJSONFile up f ch
         else (Read_error (''unsupported input format: '' @ ext), ch))"

text \<open>
  \<open>startFileReaders\<close>: a goroutine for each file; \<open>order\<close> is the order in which they end and \<open>mix\<close> puts
  their metrics in one order.  The error is the first one in that order.
\<close>

definition startFileReaders ::
  "transcode_lib \<Rightarrow> (string \<Rightarrow> nat option) \<Rightarrow> int \<Rightarrow> (string \<Rightarrow> file_contents) \<Rightarrow> string list \<Rightarrow>
   nat list \<Rightarrow> (metric list list \<Rightarrow> metric list) \<Rightarrow> read_end \<times> metric list"
where
  "startFileReaders L up now contents files order mix =
     (let rs = map (\<lambda>f. readFile L up now f (contents f) []) files;
          sent = mix (map snd rs)
      in if list_ex (\<lambda>r. fst r = Read_panic) rs then (Read_panic, sent)
         else (case filter (\<lambda>i. fst (rs ! i) \<noteq> Read_ok) order of
                 [] \<Rightarrow> (Read_ok, sent)
               | i # _ \<Rightarrow> (fst (rs ! i), sent)))"

section \<open>The command\<close>

record settings_rg =
  sr_outputs :: "string list"
  sr_listen :: string
  sr_recursive :: bool
  sr_dryRun :: bool

text \<open>The arguments: what to read and where to write; none where they are refused.\<close>

definition check_inputs :: "settings_rg \<Rightarrow> string list \<Rightarrow> string option" where
  "check_inputs c inputs =
     (if sr_listen c = [] \<and> inputs = [] then Some ''must specify input files or --listen''
      else if sr_listen c \<noteq> [] \<and> inputs \<noteq> [] then Some ''cannot use both --listen and input files''
      else None)"

fun create_all :: "(string \<Rightarrow> (string, 'w) result) \<Rightarrow> string list \<Rightarrow> (string, 'w list) result" where
  "create_all create [] = Inr []"
| "create_all create (out # outs) =
     (case create out of
        Inl e \<Rightarrow> Inl (''failed to create writer for '' @ out @ '': '' @ e)
      | Inr w \<Rightarrow> (case create_all create outs of Inl e \<Rightarrow> Inl e | Inr ws \<Rightarrow> Inr (w # ws)))"

text \<open>
  The command with files as its input and one writer for each output (the default of \<open>--writers\<close>),
  run without a signal: the metrics that were read reach every writer.  When reading failed, the command
  returns the error without waiting for the writers, and the process ends while they work:
  \<open>progress i\<close> is the number of metrics that writer \<open>i\<close> has written by then, and a larger number than
  there are metrics means that it was closed too.
\<close>

datatype rg_result = Refused string | Rg_panic | Aborted string "out_writer list" | Completed "out_writer list"

definition interrupted ::
  "('m \<Rightarrow> 'w \<Rightarrow> string option \<times> 'w) \<Rightarrow> ('w \<Rightarrow> string option \<times> 'w) \<Rightarrow> nat \<Rightarrow> 'm list \<Rightarrow> 'w \<Rightarrow> 'w"
where
  "interrupted write close k ms w =
     (if length ms < k then writer_goroutine write close ms w else writer_loop write (take k ms) w)"

definition regurgitate ::
  "transcode_lib \<Rightarrow> (nat \<Rightarrow> string) \<Rightarrow> (string \<Rightarrow> nat option) \<Rightarrow> int \<Rightarrow> out_files \<Rightarrow> (string \<Rightarrow> dir_entry option) \<Rightarrow>
   (string \<Rightarrow> file_contents) \<Rightarrow> nat list \<Rightarrow> (metric list list \<Rightarrow> metric list) \<Rightarrow> (nat \<Rightarrow> nat) \<Rightarrow>
   settings_rg \<Rightarrow> string list \<Rightarrow> rg_result"
where
  "regurgitate L us up now fs stat contents order mix progress c inputs =
     (case check_inputs c inputs of
        Some e \<Rightarrow> Refused e
      | None \<Rightarrow>
          (case create_all (createWriter fs (sr_dryRun c)) (sr_outputs c) of
             Inl e \<Rightarrow> Refused e
           | Inr ws \<Rightarrow>
               (let abort = (\<lambda>e sent. Aborted e (map (\<lambda>i.
                      interrupted (WriteOne L us) out_Close (progress i) sent (ws ! i)) [0..<length ws]))
                in (case expandInputs (sr_recursive c) stat inputs of
                      Inl e \<Rightarrow> abort e []
                    | Inr files \<Rightarrow>
                        (case startFileReaders L up now contents files order mix of
                           (Read_panic, _) \<Rightarrow> Rg_panic
                         | (Read_error e, sent) \<Rightarrow> abort e sent
                         | (Read_ok, sent) \<Rightarrow>
                             Completed (map (writer_goroutine (WriteOne L us) out_Close sent) ws))))))"

section \<open>The adapter keeps every metric\<close>

lemma look_same [simp]:
  "ad_remote (snd (look a)) = ad_remote a" "ad_batch (snd (look a)) = ad_batch a"
  "ad_batchSize (snd (look a)) = ad_batchSize a" "ad_done (snd (look a)) = ad_done a"
  by (simp_all add: look_def)

text \<open>What was accepted and what is still in the batch, in the order in which it was written.\<close>

definition written_series :: "adapter \<Rightarrow> series_v1 list" where
  "written_series a = concat (rm_accepted (ad_remote a)) @ ad_batch a"

lemma flush_attempts_keeps:
  "flush_attempts k a = (e, a') \<Longrightarrow> ad_batch a \<noteq> [] \<Longrightarrow>
     written_series a' = written_series a \<and> ad_batchSize a' = ad_batchSize a \<and> (ad_batch a' = [] \<longleftrightarrow> e = None) \<and>
     (e \<noteq> None \<longrightarrow> ad_batch a' = ad_batch a) \<and> rm_count (ad_remote a') \<le> rm_count (ad_remote a) + 3 * k"
proof (induction k arbitrary: a)
  case (Suc k)
  obtain d a1 where l: "look a = (d, a1)" by fastforce
  then have a1: "ad_remote a1 = ad_remote a" "ad_batch a1 = ad_batch a" "ad_batchSize a1 = ad_batchSize a"
    by (auto simp: look_def)
  obtain ok r where w: "remote_Write (ad_batch a1) (ad_remote a1) = (ok, r)" by fastforce
  have acc: "rm_accepted r = rm_accepted (ad_remote a) @ (if ok then [ad_batch a] else [])"
    "rm_count r \<le> rm_count (ad_remote a) + 3"
    using remote_Write_accepts [OF w] Suc.prems(2) a1 by simp_all
  obtain d2 a2 where l2: "look (a1\<lparr>ad_remote := r\<rparr>) = (d2, a2)" by fastforce
  then have a2: "ad_remote a2 = r" "ad_batch a2 = ad_batch a" "ad_batchSize a2 = ad_batchSize a"
    using a1 by (auto simp: look_def)
  consider "d" | "\<not> d" "ok" | "\<not> d" "\<not> ok" "d2" | "\<not> d" "\<not> ok" "\<not> d2" by blast
  then show ?case
  proof cases
    case 1
    then show ?thesis using Suc.prems l a1 by (auto simp: written_series_def)
  next
    case 2
    then show ?thesis using Suc.prems l w a1 acc by (auto simp: written_series_def)
  next
    case 3
    then show ?thesis using Suc.prems l w l2 a1 a2 acc by (auto simp: written_series_def)
  next
    case 4
    then have run: "flush_attempts k a2 = (e, a')" using Suc.prems l w l2 by simp
    have "written_series a2 = written_series a" using a2 acc 4 by (simp add: written_series_def)
    then show ?thesis using Suc.IH [OF run] a2 acc Suc.prems(2) by auto
  qed
qed (auto simp: written_series_def)

lemma adapter_flush_keeps:
  assumes "adapter_flush a = (e, a')"
  shows "written_series a' = written_series a" and "ad_batch a' = [] \<longleftrightarrow> e = None" and "ad_batchSize a' = ad_batchSize a"
    and "rm_count (ad_remote a') \<le> rm_count (ad_remote a) + 30"
proof -
  have "written_series a' = written_series a \<and> (ad_batch a' = [] \<longleftrightarrow> e = None) \<and> ad_batchSize a' = ad_batchSize a \<and>
    rm_count (ad_remote a') \<le> rm_count (ad_remote a) + 30"
  proof (cases "ad_batch a = []")
    case True
    then show ?thesis using assms by (auto simp: adapter_flush_def)
  next
    case False
    then have "flush_attempts regurgitator_maxRetries a = (e, a')" using assms by (simp add: adapter_flush_def)
    from flush_attempts_keeps [OF this False] show ?thesis by (simp add: regurgitator_maxRetries_def)
  qed
  then show "written_series a' = written_series a" "ad_batch a' = [] \<longleftrightarrow> e = None" "ad_batchSize a' = ad_batchSize a"
    "rm_count (ad_remote a') \<le> rm_count (ad_remote a) + 30" by simp_all
qed

lemma adapter_WriteOne_keeps:
  assumes "adapter_WriteOne L m a = (e, a')"
  shows "written_series a' = written_series a @ [MetricToTimeSeries L m]"
    and "rm_count (ad_remote a') \<le> rm_count (ad_remote a) + 30"
    and "e = None \<Longrightarrow> 0 < ad_batchSize a \<Longrightarrow> length (ad_batch a') < ad_batchSize a"
    and "ad_batchSize a' = ad_batchSize a"
proof -
  let ?b = "a\<lparr>ad_batch := ad_batch a @ [MetricToTimeSeries L m]\<rparr>"
  have b: "written_series ?b = written_series a @ [MetricToTimeSeries L m]" by (simp add: written_series_def)
  have "written_series a' = written_series a @ [MetricToTimeSeries L m] \<and> rm_count (ad_remote a') \<le> rm_count (ad_remote a) + 30 \<and>
    (e = None \<longrightarrow> 0 < ad_batchSize a \<longrightarrow> length (ad_batch a') < ad_batchSize a) \<and> ad_batchSize a' = ad_batchSize a"
  proof (cases "ad_batchSize ?b \<le> length (ad_batch ?b)")
    case True
    then have f: "adapter_flush ?b = (e, a')" using assms by (simp add: adapter_WriteOne_def Let_def)
    show ?thesis using adapter_flush_keeps [OF f] b by auto
  next
    case False
    then show ?thesis using assms b by (auto simp: adapter_WriteOne_def Let_def)
  qed
  then show "written_series a' = written_series a @ [MetricToTimeSeries L m]"
    "rm_count (ad_remote a') \<le> rm_count (ad_remote a) + 30"
    "e = None \<Longrightarrow> 0 < ad_batchSize a \<Longrightarrow> length (ad_batch a') < ad_batchSize a" "ad_batchSize a' = ad_batchSize a"
    by simp_all
qed

lemma writer_loop_written:
  "written_series (writer_loop (adapter_WriteOne L) ms a) = written_series a @ map (MetricToTimeSeries L) ms"
proof (induction ms arbitrary: a)
  case (Cons m ms)
  obtain e a' where w: "adapter_WriteOne L m a = (e, a')" by fastforce
  show ?case using Cons.IH [of a'] adapter_WriteOne_keeps(1) [OF w] w by simp
qed simp

section \<open>Writers that fail\<close>

context metric_writer
begin

text \<open>The goroutine of a writer stores, in order, the metrics that it could write, and nothing else.\<close>

lemma loop_stores:
  "\<not> is_closed w \<Longrightarrow> \<exists>ks. subseq ks ms \<and> length ks + length (writer_errors write_one ms w) = length ms \<and>
     stored (writer_loop write_one ms w) = stored w @ map piece ks \<and> \<not> is_closed (writer_loop write_one ms w)"
proof (induction ms arbitrary: w)
  case (Cons m ms)
  obtain e w' where w: "write_one m w = (e, w')" by fastforce
  show ?case
  proof (cases e)
    case None
    then have w': "stored w' = stored w @ [piece m]" "\<not> is_closed w'"
      using write_stores Cons.prems w by auto
    obtain ks where "subseq ks ms" "length ks + length (writer_errors write_one ms w') = length ms"
      "stored (writer_loop write_one ms w') = stored w' @ map piece ks"
      "\<not> is_closed (writer_loop write_one ms w')" using Cons.IH [OF w'(2)] by blast
    then show ?thesis using w w'(1) None by (intro exI [of _ "m # ks"]) simp
  next
    case (Some x)
    then have w': "stored w' = stored w" "is_closed w' = is_closed w" using write_fails w by auto
    obtain ks where "subseq ks ms" "length ks + length (writer_errors write_one ms w') = length ms"
      "stored (writer_loop write_one ms w') = stored w' @ map piece ks"
      "\<not> is_closed (writer_loop write_one ms w')" using Cons.IH [of w'] w'(2) Cons.prems by auto
    then show ?thesis using w w'(1) Some by (intro exI [of _ ks]) (simp add: list_emb_Cons)
  qed
qed (auto intro: exI [of _ "[]"])

lemma goroutine_stores:
  assumes "\<not> is_closed w"
  shows "\<exists>ks. subseq ks ms \<and> length ks + length (writer_errors write_one ms w) = length ms \<and>
    stored (writer_goroutine write_one close_it ms w) = stored w @ map piece ks \<and>
    is_closed (writer_goroutine write_one close_it ms w)"
proof -
  obtain ks where ks: "subseq ks ms" "length ks + length (writer_errors write_one ms w) = length ms"
    "stored (writer_loop write_one ms w) = stored w @ map piece ks"
    using loop_stores [OF assms] by blast
  obtain r w' where c: "close_it (writer_loop write_one ms w) = (r, w')" by fastforce
  from close_closes [OF this] ks c show ?thesis
    by (intro exI [of _ ks]) (simp add: writer_goroutine_def)
qed

end

section \<open>What the channels deliver\<close>

definition in_hand :: "'a pipe \<Rightarrow> 'a list" where
  "in_hand s = (case pi_hand s of None \<Rightarrow> [] | Some (x, _) \<Rightarrow> [x])"

definition given_to :: "nat \<Rightarrow> 'a pipe \<Rightarrow> 'a list" where
  "given_to i s = (case pi_hand s of None \<Rightarrow> [] | Some (x, j) \<Rightarrow> if i < j then [x] else [])"

text \<open>\<open>f\<close> is what \<open>FanOut\<close> has given to every output.\<close>

definition pipe_inv :: "nat \<Rightarrow> nat \<Rightarrow> 'a list \<Rightarrow> 'a pipe \<Rightarrow> bool" where
  "pipe_inv cap n f s \<longleftrightarrow>
     length (pi_outs s) = n \<and> length (pi_taken s) = n \<and> pi_arrived s = f @ in_hand s @ pi_input s \<and>
     (\<forall>i<n. pi_taken s ! i @ pi_outs s ! i = f @ given_to i s \<and> length (pi_outs s ! i) \<le> cap) \<and>
     (\<forall>x j. pi_hand s = Some (x, j) \<longrightarrow> j < n) \<and> length (pi_input s) \<le> cap \<and>
     (pi_done s \<and> \<not> pi_cancelled s \<longrightarrow> pi_hand s = None \<and> pi_input s = [] \<and> pi_closed s)"

lemma pipe_inv_new: "pipe_inv cap n [] (new_pipe n)"
  by (simp add: pipe_inv_def new_pipe_def in_hand_def given_to_def)

lemma pipe_take_inv:
  assumes "pipe_inv cap n f s" and "pipe_act cap Take_item s = Some s'"
  shows "\<exists>f'. pipe_inv cap n f' s'"
proof -
  from assms(2) obtain x xs where at: "\<not> pi_done s" "pi_hand s = None" "pi_input s = x # xs"
    and s': "s' = s\<lparr>pi_input := xs, pi_hand := give_next x 0 (length (pi_outs s))\<rparr>"
    by (auto split: bool.splits option.splits list.splits)
  show ?thesis
  proof (cases n)
    case 0
    then have "pipe_inv cap n (f @ [x]) s'"
      using assms(1) at by (simp add: s' pipe_inv_def in_hand_def given_to_def give_next_def)
    then show ?thesis by blast
  next
    case (Suc k)
    then have "pipe_inv cap n f s'"
      using assms(1) at by (simp add: s' pipe_inv_def in_hand_def given_to_def give_next_def)
    then show ?thesis by blast
  qed
qed

lemma pipe_give_inv:
  assumes "pipe_inv cap n f s" and "pipe_act cap Give_item s = Some s'"
  shows "\<exists>f'. pipe_inv cap n f' s'"
proof -
  from assms(2) obtain x j where at: "\<not> pi_done s" "pi_hand s = Some (x, j)" "length (pi_outs s ! j) < cap"
    and s': "s' = s\<lparr>pi_outs := (pi_outs s)[j := pi_outs s ! j @ [x]], pi_hand := give_next x (Suc j) (length (pi_outs s))\<rparr>"
    by (auto split: bool.splits option.splits prod.splits if_splits)
  have j: "j < n" using assms(1) at by (simp add: pipe_inv_def)
  have each: "pi_taken s ! i @ pi_outs s ! i = f @ (if i < j then [x] else [])" "length (pi_outs s ! i) \<le> cap"
    if "i < n" for i using assms(1) at that by (simp_all add: pipe_inv_def given_to_def)
  have given: "pi_taken s ! i @ (pi_outs s)[j := pi_outs s ! j @ [x]] ! i = f @ (if i < Suc j then [x] else [])"
    "length ((pi_outs s)[j := pi_outs s ! j @ [x]] ! i) \<le> cap" if "i < n" for i
  proof -
    have n: "length (pi_outs s) = n" using assms(1) by (simp add: pipe_inv_def)
    show "pi_taken s ! i @ (pi_outs s)[j := pi_outs s ! j @ [x]] ! i = f @ (if i < Suc j then [x] else [])"
      using each [OF that] n j by (cases "i = j") (simp_all flip: append_assoc)
    show "length ((pi_outs s)[j := pi_outs s ! j @ [x]] ! i) \<le> cap"
      using each [OF that] at(3) n j by (cases "i = j") simp_all
  qed
  show ?thesis
  proof (cases "Suc j < n")
    case True
    then have "pipe_inv cap n f s'" using assms(1) at given
      by (simp add: s' pipe_inv_def in_hand_def given_to_def give_next_def)
    then show ?thesis by blast
  next
    case False
    then have "pipe_inv cap n (f @ [x]) s'" using assms(1) at given j
      by (simp add: s' pipe_inv_def in_hand_def given_to_def give_next_def)
    then show ?thesis by blast
  qed
qed

lemma pipe_consume_inv:
  assumes "pipe_inv cap n f s" and "pipe_act cap (Consume k) s = Some s'"
  shows "pipe_inv cap n f s'"
proof -
  from assms(2) have k: "k < length (pi_outs s)" "pi_outs s ! k \<noteq> []"
    and s': "s' = s\<lparr>pi_outs := (pi_outs s)[k := tl (pi_outs s ! k)],
      pi_taken := (pi_taken s)[k := pi_taken s ! k @ [hd (pi_outs s ! k)]]\<rparr>"
    by (auto split: if_splits)
  have moved: "pi_taken s ! k @ [hd (pi_outs s ! k)] @ tl (pi_outs s ! k) = pi_taken s ! k @ pi_outs s ! k"
    using k by simp
  have "pi_taken s' ! i @ pi_outs s' ! i = pi_taken s ! i @ pi_outs s ! i \<and>
    length (pi_outs s' ! i) \<le> length (pi_outs s ! i)" if "i < n" for i
    using that assms(1) k moved by (cases "i = k") (simp_all add: s' pipe_inv_def)
  then show ?thesis using assms(1) by (auto simp: pipe_inv_def in_hand_def given_to_def s' dest: le_trans)
qed

lemma pipe_act_inv:
  assumes "pipe_inv cap n f s" and "pipe_act cap a s = Some s'"
  shows "\<exists>f'. pipe_inv cap n f' s'"
proof (cases a)
  case (Send x)
  then show ?thesis using assms
    by (intro exI [of _ f]) (auto simp: pipe_inv_def in_hand_def given_to_def split: if_splits)
next
  case Take_item
  then show ?thesis using pipe_take_inv assms by metis
next
  case Give_item
  then show ?thesis using pipe_give_inv assms by metis
next
  case (Consume k)
  then show ?thesis using pipe_consume_inv assms by metis
next
  case Stop_fan
  then show ?thesis using assms
    by (intro exI [of _ f]) (auto simp: pipe_inv_def in_hand_def given_to_def split: if_splits)
next
  case Finish_fan
  then show ?thesis using assms
    by (intro exI [of _ f]) (auto simp: pipe_inv_def in_hand_def given_to_def split: if_splits)
qed (use assms in \<open>auto simp: pipe_inv_def in_hand_def given_to_def split: if_splits\<close>)

lemma pipe_run_inv: "pipe_run cap as s = Some s' \<Longrightarrow> pipe_inv cap n f s \<Longrightarrow> \<exists>f'. pipe_inv cap n f' s'"
proof (induction as arbitrary: s f)
  case (Cons a as)
  from Cons.prems(1) obtain s1 where s1: "pipe_act cap a s = Some s1" "pipe_run cap as s1 = Some s'"
    by (auto split: option.splits)
  from pipe_act_inv [OF Cons.prems(2) s1(1)] Cons.IH [OF s1(2)] show ?case by blast
qed auto

lemma pipe_run_append:
  "pipe_run cap (as @ bs) s = (case pipe_run cap as s of None \<Rightarrow> None | Some s' \<Rightarrow> pipe_run cap bs s')"
  by (induction as arbitrary: s) (auto split: option.splits)

text \<open>The steps of \<open>FanOut\<close> and of the writers, as opposed to those of the readers and of the signal.\<close>

definition draining :: "'a pipe_action \<Rightarrow> bool" where
  "draining a = (case a of Send _ \<Rightarrow> False | Close_input \<Rightarrow> False | Cancel_context \<Rightarrow> False | _ \<Rightarrow> True)"

definition pipe_left :: "'a pipe \<Rightarrow> nat" where
  "pipe_left s =
     (2 * length (pi_outs s) + 1) * length (pi_input s) +
     (case pi_hand s of None \<Rightarrow> 0 | Some (_, j) \<Rightarrow> 2 * (length (pi_outs s) - j)) +
     sum_list (map length (pi_outs s)) + of_bool (\<not> pi_done s)"

lemma sum_lengths_update:
  "i < length xss \<Longrightarrow> sum_list (map length (xss[i := ys])) + length (xss ! i) = sum_list (map length xss) + length ys"
  by (induction xss arbitrary: i) (auto split: nat.splits)

lemma pipe_act_falls:
  assumes "pipe_act cap a s = Some s'" and "draining a" and "pipe_inv cap n f s"
  shows "pipe_left s' < pipe_left s"
proof (cases a)
  case Take_item
  then show ?thesis using assms(1)
    by (auto simp: pipe_left_def give_next_def split: bool.splits option.splits list.splits)
next
  case Give_item
  with assms(1) obtain x j where at: "\<not> pi_done s" "pi_hand s = Some (x, j)"
    and s': "s' = s\<lparr>pi_outs := (pi_outs s)[j := pi_outs s ! j @ [x]], pi_hand := give_next x (Suc j) (length (pi_outs s))\<rparr>"
    by (auto split: bool.splits option.splits prod.splits if_splits)
  have j: "j < length (pi_outs s)" using assms(3) at by (simp add: pipe_inv_def)
  show ?thesis using sum_lengths_update [OF j, of "pi_outs s ! j @ [x]"] at j
    by (auto simp: pipe_left_def s' give_next_def)
next
  case (Consume i)
  then have i: "i < length (pi_outs s)" "pi_outs s ! i \<noteq> []"
    and s': "s' = s\<lparr>pi_outs := (pi_outs s)[i := tl (pi_outs s ! i)],
      pi_taken := (pi_taken s)[i := pi_taken s ! i @ [hd (pi_outs s ! i)]]\<rparr>"
    using assms(1) by (auto split: if_splits)
  have "length (tl (pi_outs s ! i)) < length (pi_outs s ! i)" using i by simp
  then have "sum_list (map length ((pi_outs s)[i := tl (pi_outs s ! i)])) < sum_list (map length (pi_outs s))"
    using sum_lengths_update [OF i(1), of "tl (pi_outs s ! i)"] by linarith
  then show ?thesis by (cases "pi_hand s") (auto simp: pipe_left_def s')
next
  case Stop_fan
  then show ?thesis using assms(1) by (cases "pi_hand s") (auto simp: pipe_left_def split: if_splits)
qed (use assms(1,2) in \<open>auto simp: pipe_left_def draining_def split: if_splits\<close>)

lemma pipe_run_length:
  "pipe_run cap bs s = Some t \<Longrightarrow> list_all draining bs \<Longrightarrow> pipe_inv cap n f s \<Longrightarrow> length bs + pipe_left t \<le> pipe_left s"
proof (induction bs arbitrary: s f)
  case (Cons b bs)
  from Cons.prems(1) obtain s1 where s1: "pipe_act cap b s = Some s1" "pipe_run cap bs s1 = Some t"
    by (auto split: option.splits)
  have d: "draining b" "list_all draining bs" using Cons.prems(2) by auto
  obtain f' where f': "pipe_inv cap n f' s1" using pipe_act_inv [OF Cons.prems(3) s1(1)] by blast
  show ?case using Cons.IH [OF s1(2) d(2) f'] pipe_act_falls [OF s1(1) d(1) Cons.prems(3)] by simp
qed simp

lemma pipe_run_closed: "pipe_run cap bs s = Some t \<Longrightarrow> pi_closed s \<Longrightarrow> pi_closed t"
proof (induction bs arbitrary: s)
  case (Cons b bs)
  from Cons.prems(1) obtain s1 where s1: "pipe_act cap b s = Some s1" "pipe_run cap bs s1 = Some t"
    by (auto split: option.splits)
  have "pi_closed s1" using s1(1) Cons.prems(2)
    by (cases b) (auto split: if_splits bool.splits option.splits list.splits prod.splits)
  then show ?case using Cons.IH [OF s1(2)] by simp
qed simp

text \<open>A pipeline whose input is closed can make a step until it is empty and \<open>FanOut\<close> has ended.\<close>

lemma pipe_not_stuck:
  assumes inv: "pipe_inv cap n f s" and closed: "pi_closed s" and cap: "0 < cap"
    and open_: "\<not> (pi_done s \<and> (\<forall>i<n. pi_outs s ! i = []))"
  shows "\<exists>a s'. draining a \<and> pipe_act cap a s = Some s'"
proof (cases "\<exists>i<n. pi_outs s ! i \<noteq> []")
  case True
  then obtain i where "i < n" "pi_outs s ! i \<noteq> []" by blast
  then have "pipe_act cap (Consume i) s \<noteq> None" using inv by (simp add: pipe_inv_def)
  then show ?thesis by (intro exI [of _ "Consume i"]) (auto simp: draining_def)
next
  case False
  then have nd: "\<not> pi_done s" using open_ by blast
  show ?thesis
  proof (cases "pi_hand s")
    case None
    show ?thesis
    proof (cases "pi_input s")
      case Nil
      then show ?thesis using nd None closed by (intro exI [of _ Finish_fan]) (simp add: draining_def)
    next
      case (Cons x xs)
      then show ?thesis using nd None by (intro exI [of _ Take_item]) (simp add: draining_def)
    qed
  next
    case (Some p)
    obtain x j where p: "p = (x, j)" by fastforce
    then have "j < n" using inv Some by (simp add: pipe_inv_def)
    then have "pi_outs s ! j = []" using False by blast
    then show ?thesis using nd Some p cap by (intro exI [of _ Give_item]) (simp add: draining_def)
  qed
qed

lemma writer_loop_requests:
  "rm_count (ad_remote (writer_loop (adapter_WriteOne L) ms a)) \<le> rm_count (ad_remote a) + 30 * length ms"
proof (induction ms arbitrary: a)
  case (Cons m ms)
  obtain e a' where w: "adapter_WriteOne L m a = (e, a')" by fastforce
  show ?case using Cons.IH [of a'] adapter_WriteOne_keeps(2) [OF w] w by simp
qed simp

section \<open>Properties\<close>

text \<open>C24: The adapter of a remote writer, given any metrics and then closed, whatever its server answers and
  whenever its context ends: the series that the server accepted and then those still in the batch are
  exactly the series of the metrics, in order and each once; closing reports no error if and only if nothing is
  left in the batch; and the server was asked at most thirty times for each metric and for the end.\<close>

theorem remote_adapter_conserves:
  "case adapter_Close (writer_loop (adapter_WriteOne L) ms (newRemoteWriterAdapter r ctx)) of
     (e, a) \<Rightarrow>
       concat (rm_accepted (ad_remote a)) @ ad_batch a = concat (rm_accepted r) @ map (MetricToTimeSeries L) ms \<and>
       (ad_batch a = [] \<longleftrightarrow> e = None) \<and> rm_count (ad_remote a) \<le> rm_count r + 30 * (length ms + 1)"
proof -
  let ?new = "newRemoteWriterAdapter r ctx"
  let ?a = "writer_loop (adapter_WriteOne L) ms ?new"
  obtain e a where f: "adapter_flush ?a = (e, a)" by fastforce
  have w: "written_series ?a = concat (rm_accepted r) @ map (MetricToTimeSeries L) ms"
    by (simp add: writer_loop_written) (simp add: written_series_def newRemoteWriterAdapter_def)
  have c: "rm_count (ad_remote ?a) \<le> rm_count r + 30 * length ms"
    using writer_loop_requests [of L ms ?new] by (simp add: newRemoteWriterAdapter_def)
  show ?thesis using adapter_flush_keeps [OF f] f w c by (simp add: adapter_Close_def written_series_def)
qed

text \<open>C22: Whatever the readers, \<open>FanOut\<close>, the writers of the \<open>n\<close> outputs and a signal do, in any order: the
  writers of each output have taken, in order, a beginning of what was sent into the pipeline, so nothing is
  duplicated, reordered or made up; no channel holds more than its capacity; and once \<open>FanOut\<close> has ended
  without a cancelled context, every output was given everything.\<close>

theorem fan_out_delivers:
  assumes "pipe_run cap as (new_pipe n) = Some s" and "i < n"
  shows "prefix (pi_taken s ! i) (pi_arrived s) \<and> length (pi_input s) \<le> cap \<and> length (pi_outs s ! i) \<le> cap \<and>
    (pi_done s \<and> \<not> pi_cancelled s \<longrightarrow> pi_closed s \<and> pi_taken s ! i @ pi_outs s ! i = pi_arrived s)"
proof -
  obtain f where inv: "pipe_inv cap n f s" using pipe_run_inv [OF assms(1) pipe_inv_new] by blast
  have each: "pi_taken s ! i @ pi_outs s ! i = f @ given_to i s" "length (pi_outs s ! i) \<le> cap"
    using inv assms(2) by (simp_all add: pipe_inv_def)
  have arrived: "pi_arrived s = f @ in_hand s @ pi_input s" "length (pi_input s) \<le> cap"
    using inv by (simp_all add: pipe_inv_def)
  have "prefix (given_to i s) (in_hand s @ pi_input s)"
    by (cases "pi_hand s") (auto simp: given_to_def in_hand_def)
  then have "prefix (pi_taken s ! i @ pi_outs s ! i) (pi_arrived s)" using each arrived by simp
  then have pre: "prefix (pi_taken s ! i) (pi_arrived s)" by (rule append_prefixD)
  have "pi_closed s \<and> pi_taken s ! i @ pi_outs s ! i = pi_arrived s" if "pi_done s" "\<not> pi_cancelled s"
    using inv that each arrived by (simp add: pipe_inv_def given_to_def in_hand_def)
  then show ?thesis using pre each arrived by blast
qed

definition sample_transfer :: "nat pipe_action list" where
  "sample_transfer = [Send 1, Send 2, Take_item, Give_item, Close_input, Consume 0, Give_item, Take_item,
     Give_item, Give_item, Finish_fan, Consume 1]"

theorem fan_out_delivers_witness:
  "\<exists>s :: nat pipe. pipe_run 2 sample_transfer (new_pipe 2) = Some s \<and> pi_done s \<and>
     pi_taken s ! 1 @ pi_outs s ! 1 = [1, 2] \<and> prefix (pi_taken s ! 1) (pi_arrived s)"
proof -
  obtain s :: "nat pipe" where run: "pipe_run 2 sample_transfer (new_pipe 2) = Some s"
    and s: "pi_done s" "\<not> pi_cancelled s" "pi_arrived s = [1, 2]"
    by (simp add: sample_transfer_def new_pipe_def give_next_def)
  from fan_out_delivers [OF run, of 1] s show ?thesis using run by auto
qed

text \<open>C23: Once the input of the pipeline is closed, it drains: every sequence of steps of \<open>FanOut\<close> and the
  writers is shorter than a bound that the state gives, and while \<open>FanOut\<close> has not ended or a channel of an
  output is not empty, one of them can make a step; so they end, and then every output has had everything
  that was sent, if the context was not cancelled.\<close>

theorem fan_out_drains:
  assumes "pipe_run cap as (new_pipe n) = Some s" and "pi_closed s" and "0 < cap"
    and "pipe_run cap bs s = Some t" and "list_all draining bs"
  shows "length bs \<le> pipe_left s \<and>
    ((\<exists>a t'. draining a \<and> pipe_act cap a t = Some t') \<or>
     (pi_done t \<and> (\<forall>i<n. pi_outs t ! i = []) \<and> (\<not> pi_cancelled t \<longrightarrow> (\<forall>i<n. pi_taken t ! i = pi_arrived t))))"
proof -
  obtain f where s: "pipe_inv cap n f s" using pipe_run_inv [OF assms(1) pipe_inv_new] by blast
  obtain g where t: "pipe_inv cap n g t" using pipe_run_inv [OF assms(4) s] by blast
  have closed: "pi_closed t" using pipe_run_closed [OF assms(4,2)] .
  have "length bs \<le> pipe_left s" using pipe_run_length [OF assms(4,5) s] by simp
  moreover have "pi_taken t ! i = pi_arrived t"
    if "pi_done t" "\<forall>i<n. pi_outs t ! i = []" "\<not> pi_cancelled t" "i < n" for i
    using t that by (simp add: pipe_inv_def given_to_def in_hand_def)
  ultimately show ?thesis using pipe_not_stuck [OF t closed assms(3)] by blast
qed

theorem fan_out_drains_witness:
  "\<exists>s :: nat pipe. pipe_run 1 [Send 1, Close_input] (new_pipe 2) = Some s \<and> length [Take_item, Give_item :: nat pipe_action] \<le> pipe_left s"
proof -
  obtain s :: "nat pipe" where run: "pipe_run 1 [Send 1, Close_input] (new_pipe 2) = Some s" "pi_closed s"
    and more: "\<exists>t. pipe_run 1 [Take_item, Give_item] s = Some t"
    by (simp add: new_pipe_def give_next_def)
  then obtain t where t: "pipe_run 1 [Take_item, Give_item] s = Some t" by blast
  have "list_all draining [Take_item, Give_item :: nat pipe_action]" by (simp add: draining_def)
  from fan_out_drains [OF run(1,2) zero_less_one t this] run show ?thesis by blast
qed

end
