(* ===== verification/File_Lock.thy ===== *)
theory File_Lock
  imports Go_Prelude
begin

text \<open>
  The lock file of \<open>app/utils/lock/filelock.go\<close> as a step relation over the processes that
  contend for it.  One step is one operating system call on the lock path; the program
  counter of a process says which call comes next.  A file is an inode, so that a write goes
  to the file a process created even when another one has taken its place at the path.

  A lock is held from the return of \<open>Acquire\<close> to the call of \<open>Release\<close>; the refresher goroutine
  of the holder runs in between, and \<open>Release\<close> waits for the update it is in.
\<close>

section \<open>State\<close>

datatype lock_error =
    ErrMaxRetryExceeded | ErrLockContextCancelled | ErrLockAcquire | LockWriteFailed

datatype lock_pc =
    L_idle
  | L_try (retry: nat)
  | L_write nat nat
  | L_undo
  | L_read nat
  | L_stale nat
  | L_hold
  | L_check int
  | L_rename int
  | L_lost
  | L_orphan
  | L_release
  | L_failed lock_error
  | L_crashed

datatype lock_data = D_empty | D_owner nat int

record lock_world =
  lw_path :: "nat option"
  lw_data :: "nat \<Rightarrow> lock_data"
  lw_next :: nat
  lw_now :: int
  lw_pc :: "nat \<Rightarrow> lock_pc"

text \<open>The configuration; \<open>lc_owner\<close> is the host name and process id a process writes.\<close>

record lock_config =
  staleTimeout :: int
  maxRetry :: nat
  lc_owner :: "nat \<Rightarrow> nat"

datatype lock_action =
    A_start | A_cancel | A_exceeded | A_open | A_write_ok | A_write_fail | A_undo
  | A_read | A_read_error | A_remove_stale | A_remove_error
  | A_update | A_update_fail | A_check | A_rename | A_rename_fail | A_drop
  | A_release | A_remove | A_crash | A_tick int

definition goto :: "nat \<Rightarrow> lock_pc \<Rightarrow> lock_world \<Rightarrow> lock_world" where
  "goto p c w = w\<lparr>lw_pc := (lw_pc w)(p := c)\<rparr>"

definition unlink :: "lock_world \<Rightarrow> lock_world" where
  "unlink w = w\<lparr>lw_path := None\<rparr>"

text \<open>A new file with the given content at the path.\<close>

definition place :: "lock_data \<Rightarrow> lock_world \<Rightarrow> lock_world" where
  "place d w = w\<lparr>lw_path := Some (lw_next w), lw_data := (lw_data w)(lw_next w := d), lw_next := Suc (lw_next w)\<rparr>"

section \<open>Steps\<close>

text \<open>Opening with \<open>O_EXCL\<close>, one round of the loop of \<open>Acquire\<close>.\<close>

definition open_step :: "lock_config \<Rightarrow> nat \<Rightarrow> nat \<Rightarrow> lock_world \<Rightarrow> lock_world" where
  "open_step cfg p r w =
     (case lw_path w of
        None \<Rightarrow> goto p (L_write (lw_next w) r) (place D_empty w)
      | Some i \<Rightarrow> goto p (L_read r) w)"

text \<open>Reading the lock that is in the way: gone, corrupt, fresh or stale.\<close>

definition read_step :: "lock_config \<Rightarrow> nat \<Rightarrow> nat \<Rightarrow> lock_world \<Rightarrow> lock_world" where
  "read_step cfg p r w =
     (case lw_path w of
        None \<Rightarrow> goto p (L_try r) w
      | Some i \<Rightarrow>
          (case lw_data w i of
             D_empty \<Rightarrow> goto p (L_try (Suc r)) w
           | D_owner o' t \<Rightarrow>
               if lw_now w - t < staleTimeout cfg then goto p (L_try (Suc r)) w
               else goto p (L_stale r) w))"

definition remove_stale_step :: "nat \<Rightarrow> nat \<Rightarrow> lock_world \<Rightarrow> lock_world" where
  "remove_stale_step p r w = goto p (L_try r) (unlink w)"

text \<open>\<open>updateLock\<close> after its temporary file is written: still the owner?\<close>

definition check_step :: "lock_config \<Rightarrow> nat \<Rightarrow> int \<Rightarrow> lock_world \<Rightarrow> lock_world" where
  "check_step cfg p t w =
     (case lw_path w of
        None \<Rightarrow> goto p L_lost w
      | Some i \<Rightarrow>
          (case lw_data w i of
             D_empty \<Rightarrow> goto p L_lost w
           | D_owner o' t' \<Rightarrow> if o' = lc_owner cfg p then goto p (L_rename t) w else goto p L_lost w))"

fun lock_act :: "lock_config \<Rightarrow> lock_action \<Rightarrow> nat \<Rightarrow> lock_world \<Rightarrow> lock_world option" where
  "lock_act cfg a p w =
     (case (a, lw_pc w p) of
        (A_start, L_idle) \<Rightarrow> Some (goto p (L_try 0) w)
      | (A_cancel, L_try r) \<Rightarrow> Some (goto p (L_failed ErrLockContextCancelled) w)
      | (A_exceeded, L_try r) \<Rightarrow>
          if maxRetry cfg < r then Some (goto p (L_failed ErrMaxRetryExceeded) w) else None
      | (A_open, L_try r) \<Rightarrow> if maxRetry cfg < r then None else Some (open_step cfg p r w)
      | (A_write_ok, L_write i r) \<Rightarrow>
          Some (goto p L_hold (w\<lparr>lw_data := (lw_data w)(i := D_owner (lc_owner cfg p) (lw_now w))\<rparr>))
      | (A_write_fail, L_write i r) \<Rightarrow> Some (goto p L_undo w)
      | (A_undo, L_undo) \<Rightarrow> Some (goto p (L_failed LockWriteFailed) (unlink w))
      | (A_read, L_read r) \<Rightarrow> Some (read_step cfg p r w)
      | (A_read_error, L_read r) \<Rightarrow> Some (goto p (L_failed ErrLockAcquire) w)
      | (A_remove_stale, L_stale r) \<Rightarrow> Some (remove_stale_step p r w)
      | (A_remove_error, L_stale r) \<Rightarrow> Some (goto p (L_failed ErrLockAcquire) w)
      | (A_update, L_hold) \<Rightarrow> Some (goto p (L_check (lw_now w)) w)
      | (A_update_fail, L_hold) \<Rightarrow> Some (goto p L_lost w)
      | (A_check, L_check t) \<Rightarrow> Some (check_step cfg p t w)
      | (A_rename, L_rename t) \<Rightarrow> Some (goto p L_hold (place (D_owner (lc_owner cfg p) t) w))
      | (A_rename_fail, L_rename t) \<Rightarrow> Some (goto p L_lost w)
      | (A_drop, L_lost) \<Rightarrow> Some (goto p L_orphan (unlink w))
      | (A_release, L_hold) \<Rightarrow> Some (goto p L_release w)
      | (A_release, L_orphan) \<Rightarrow> Some (goto p L_release w)
      | (A_remove, L_release) \<Rightarrow> Some (goto p L_idle (unlink w))
      | (A_crash, _) \<Rightarrow> Some (goto p L_crashed w)
      | (A_tick d, _) \<Rightarrow> if 0 \<le> d then Some (w\<lparr>lw_now := lw_now w + d\<rparr>) else None
      | _ \<Rightarrow> None)"

declare lock_act.simps [simp del]

text \<open>The worlds reachable with the actions that \<open>ok\<close> admits, from a start without a lock file.\<close>

inductive lock_reach :: "lock_config \<Rightarrow> (lock_action \<Rightarrow> nat \<Rightarrow> lock_world \<Rightarrow> bool) \<Rightarrow> lock_world \<Rightarrow> bool"
  for cfg ok
where
  start: "lw_path w = None \<Longrightarrow> \<forall>p. lw_pc w p = L_idle \<Longrightarrow> lock_reach cfg ok w"
| step: "lock_reach cfg ok w \<Longrightarrow> ok a p w \<Longrightarrow> lock_act cfg a p w = Some w' \<Longrightarrow> lock_reach cfg ok w'"

inductive_cases lock_reach_cases: "lock_reach cfg ok w"

definition holds :: "lock_pc \<Rightarrow> bool" where
  "holds c \<longleftrightarrow> c = L_hold \<or> (\<exists>t. c = L_check t) \<or> (\<exists>t. c = L_rename t) \<or> c = L_lost \<or> c = L_orphan"

text \<open>A process that has the file at the path to itself.\<close>

fun owning :: "lock_pc \<Rightarrow> bool" where
  "owning (L_write i r) = True"
| "owning L_undo = True"
| "owning L_hold = True"
| "owning (L_check t) = True"
| "owning (L_rename t) = True"
| "owning L_release = True"
| "owning _ = False"

fun labelled :: "lock_pc \<Rightarrow> bool" where
  "labelled L_hold = True"
| "labelled (L_check t) = True"
| "labelled (L_rename t) = True"
| "labelled L_release = True"
| "labelled _ = False"

text \<open>Actions without the detection of a stale lock and without failing updates.\<close>

definition undisturbed :: "lock_config \<Rightarrow> lock_action \<Rightarrow> nat \<Rightarrow> lock_world \<Rightarrow> bool" where
  "undisturbed cfg a p w \<longleftrightarrow> a \<noteq> A_update_fail \<and> a \<noteq> A_rename_fail \<and>
     (a = A_read \<longrightarrow> (\<forall>i o' t. lw_path w = Some i \<and> lw_data w i = D_owner o' t \<longrightarrow>
        lw_now w - t < staleTimeout cfg))"

definition lock_inv :: "lock_config \<Rightarrow> lock_world \<Rightarrow> bool" where
  "lock_inv cfg w \<longleftrightarrow>
     (\<forall>p q. owning (lw_pc w p) \<and> owning (lw_pc w q) \<longrightarrow> p = q) \<and>
     (\<forall>p. owning (lw_pc w p) \<longrightarrow> lw_path w \<noteq> None) \<and>
     (\<forall>p i r. lw_pc w p = L_write i r \<longrightarrow> lw_path w = Some i) \<and>
     (\<forall>p. labelled (lw_pc w p) \<longrightarrow>
        (\<exists>i t. lw_path w = Some i \<and> lw_data w i = D_owner (lc_owner cfg p) t)) \<and>
     (\<forall>p. lw_pc w p \<noteq> L_lost \<and> lw_pc w p \<noteq> L_orphan \<and> (\<forall>r. lw_pc w p \<noteq> L_stale r))"

lemmas lock_steps = lock_act.simps goto_def unlink_def place_def open_step_def read_step_def
  remove_stale_step_def check_step_def

text \<open>The program counters a process may be in while nothing is disturbed and it does not own.\<close>

definition outside :: "lock_pc \<Rightarrow> bool" where
  "outside c \<longleftrightarrow> \<not> owning c \<and> c \<noteq> L_lost \<and> c \<noteq> L_orphan \<and> (\<forall>r. c \<noteq> L_stale r)"

lemma labelled_owning: "labelled c \<Longrightarrow> owning c"
  by (cases c) auto

lemma lock_inv_label:
  "lock_inv cfg w \<Longrightarrow> labelled (lw_pc w p) \<Longrightarrow>
   \<exists>i t. lw_path w = Some i \<and> lw_data w i = D_owner (lc_owner cfg p) t"
  unfolding lock_inv_def by blast

lemma lock_inv_cong:
  "lw_pc w' = lw_pc w \<Longrightarrow> lw_path w' = lw_path w \<Longrightarrow> lw_data w' = lw_data w \<Longrightarrow>
   lock_inv cfg w' = lock_inv cfg w"
  by (simp only: lock_inv_def)

lemma outside_labelled: "outside c \<Longrightarrow> \<not> labelled c"
  using labelled_owning by (auto simp: outside_def)

lemma lock_inv_leave: "lock_inv cfg w \<Longrightarrow> outside c \<Longrightarrow> lock_inv cfg (goto p c w)"
  using outside_labelled [of c] unfolding lock_inv_def goto_def outside_def by (auto; fastforce)

lemma lock_inv_move:
  "lock_inv cfg w \<Longrightarrow> labelled (lw_pc w p) \<Longrightarrow> labelled c \<Longrightarrow> lock_inv cfg (goto p c w)"
  using labelled_owning [of c] labelled_owning [of "lw_pc w p"]
  unfolding lock_inv_def goto_def by (cases c; simp; metis)

lemma lock_inv_unlink:
  assumes "lock_inv cfg w" and "owning (lw_pc w p)" and "outside c"
  shows "lock_inv cfg (goto p c (unlink w))"
proof -
  have "\<not> owning (lw_pc w q)" if "q \<noteq> p" for q
    using assms(1,2) that unfolding lock_inv_def by blast
  then show ?thesis
    using assms labelled_owning outside_labelled [of c]
    unfolding lock_inv_def goto_def unlink_def outside_def by (auto; fastforce)
qed

lemma lock_inv_sole:
  assumes "lock_inv cfg w" and "\<And>q. q \<noteq> p \<Longrightarrow> \<not> owning (lw_pc w q)"
    and "owning c" and "lw_path w' \<noteq> None" and "lw_pc w' = (lw_pc w)(p := c)"
    and "\<And>i r. c = L_write i r \<Longrightarrow> lw_path w' = Some i"
    and "labelled c \<Longrightarrow> \<exists>i t. lw_path w' = Some i \<and> lw_data w' i = D_owner (lc_owner cfg p) t"
  shows "lock_inv cfg w'"
proof -
  have "\<not> labelled (lw_pc w q)" "\<And>i r. lw_pc w q \<noteq> L_write i r" if "q \<noteq> p" for q
    using assms(2) [OF that] labelled_owning by auto
  then show ?thesis
    using assms unfolding lock_inv_def by (cases c) auto
qed

lemma lock_inv_step:
  assumes inv: "lock_inv cfg w" and u: "undisturbed cfg a p w" and act: "lock_act cfg a p w = Some w'"
  shows "lock_inv cfg w'"
proof -
  have others: "\<not> owning (lw_pc w q)" if "owning (lw_pc w p)" "q \<noteq> p" for q
    using inv that unfolding lock_inv_def by blast
  have none: "\<not> owning (lw_pc w q)" if "lw_path w = None" for q
    using inv that unfolding lock_inv_def by blast
  have pcs: "lw_pc w p \<noteq> L_lost" "lw_pc w p \<noteq> L_orphan" "\<And>r. lw_pc w p \<noteq> L_stale r"
    using inv unfolding lock_inv_def by blast+
  have leave: "lock_inv cfg (goto p c w)" if "outside c" for c
    by (rule lock_inv_leave [OF inv that])
  have move: "lock_inv cfg (goto p c w)" if "labelled (lw_pc w p)" "labelled c" for c
    by (rule lock_inv_move [OF inv that])
  have away: "lock_inv cfg (goto p c (unlink w))" if "owning (lw_pc w p)" "outside c" for c
    by (rule lock_inv_unlink [OF inv that])
  note sole = lock_inv_sole [OF inv, where p = p]
  note eval = lock_act.simps outside_def
  show ?thesis
  proof (cases a)
    case A_start
    then show ?thesis using act leave pcs by (auto simp: eval split: lock_pc.splits if_splits)
  next
    case A_cancel
    then show ?thesis using act leave pcs by (auto simp: eval split: lock_pc.splits if_splits)
  next
    case A_exceeded
    then show ?thesis using act leave pcs by (auto simp: eval split: lock_pc.splits if_splits)
  next
    case A_read_error
    then show ?thesis using act leave pcs by (auto simp: eval split: lock_pc.splits if_splits)
  next
    case A_remove_error
    then show ?thesis using act leave pcs by (auto simp: eval split: lock_pc.splits if_splits)
  next
    case A_crash
    then show ?thesis using act leave pcs by (auto simp: eval split: lock_pc.splits if_splits)
  next
    case A_update
    then show ?thesis using act move pcs by (auto simp: eval split: lock_pc.splits if_splits)
  next
    case A_release
    then show ?thesis using act move pcs by (auto simp: eval split: lock_pc.splits if_splits)
  next
    case A_undo
    then show ?thesis using act away pcs by (auto simp: eval split: lock_pc.splits if_splits)
  next
    case A_remove
    then show ?thesis using act away pcs by (auto simp: eval split: lock_pc.splits if_splits)
  next
    case A_open
    then obtain r where "w' = open_step cfg p r w"
      using act by (auto simp: eval split: lock_pc.splits if_splits)
    then show ?thesis
      using leave none by (cases "lw_path w")
        (auto simp: open_step_def outside_def place_def goto_def intro!: sole [of "L_write (lw_next w) r"])
  next
    case A_write_ok
    then obtain i r where w: "lw_pc w p = L_write i r"
      "w' = goto p L_hold (w\<lparr>lw_data := (lw_data w)(i := D_owner (lc_owner cfg p) (lw_now w))\<rparr>)"
      using act by (auto simp: eval split: lock_pc.splits)
    then have "lw_path w = Some i" using inv unfolding lock_inv_def by blast
    then show ?thesis using w others by (auto simp: goto_def intro!: sole [of L_hold])
  next
    case A_write_fail
    then obtain i r where w: "lw_pc w p = L_write i r" "w' = goto p L_undo w"
      using act by (auto simp: eval split: lock_pc.splits)
    then have "lw_path w = Some i" using inv unfolding lock_inv_def by blast
    then show ?thesis using w others by (auto simp: goto_def intro!: sole [of L_undo])
  next
    case A_read
    then obtain r where "w' = read_step cfg p r w"
      using act by (auto simp: eval split: lock_pc.splits)
    moreover have "lw_now w - t < staleTimeout cfg" if "lw_path w = Some i" "lw_data w i = D_owner o' t" for i o' t
      using u A_read that by (auto simp: undisturbed_def)
    ultimately show ?thesis
      using leave by (auto simp: read_step_def outside_def split: option.splits lock_data.splits)
  next
    case A_check
    then obtain t where w: "lw_pc w p = L_check t" "w' = check_step cfg p t w"
      using act by (auto simp: eval split: lock_pc.splits)
    then obtain i t' where "lw_path w = Some i" "lw_data w i = D_owner (lc_owner cfg p) t'"
      using lock_inv_label [OF inv, of p] by auto
    then show ?thesis using w move [of "L_rename t"] by (simp add: check_step_def)
  next
    case A_rename
    then obtain t where "lw_pc w p = L_rename t" "w' = goto p L_hold (place (D_owner (lc_owner cfg p) t) w)"
      using act by (auto simp: eval split: lock_pc.splits)
    then show ?thesis using others by (auto simp: goto_def place_def intro!: sole [of L_hold])
  next
    case (A_tick d)
    then have "w' = w\<lparr>lw_now := lw_now w + d\<rparr>"
      using act by (simp add: lock_act.simps split: if_splits)
    then show ?thesis using inv lock_inv_cong [of w' w cfg] by simp
  next
    case A_remove_stale
    then show ?thesis using act pcs by (auto simp: eval split: lock_pc.splits)
  next
    case A_drop
    then show ?thesis using act pcs by (auto simp: eval split: lock_pc.splits)
  qed (use act u in \<open>auto simp: undisturbed_def\<close>)
qed

lemma lock_inv_reach: "lock_reach cfg (undisturbed cfg) w \<Longrightarrow> lock_inv cfg w"
proof (induction rule: lock_reach.induct)
  case (start w)
  then show ?case by (simp add: lock_inv_def)
next
  case (step w a p w')
  then show ?case by (blast intro: lock_inv_step)
qed

lemma lock_inv_holder: "lock_inv cfg w \<Longrightarrow> holds (lw_pc w p) \<Longrightarrow> owning (lw_pc w p) \<and> labelled (lw_pc w p)"
  by (auto simp: lock_inv_def holds_def)

section \<open>The retry budget\<close>

fun retries :: "lock_pc \<Rightarrow> nat" where
  "retries (L_try r) = r"
| "retries (L_read r) = r"
| "retries (L_stale r) = r"
| "retries (L_write i r) = r"
| "retries _ = 0"

definition retry_inv :: "lock_config \<Rightarrow> lock_world \<Rightarrow> bool" where
  "retry_inv cfg w \<longleftrightarrow>
     (\<forall>p. retries (lw_pc w p) \<le> Suc (maxRetry cfg) \<and> 
       (\<forall>i r. lw_pc w p = L_read r \<or> lw_pc w p = L_stale r \<or> lw_pc w p = L_write i r \<longrightarrow> r \<le> maxRetry cfg))"

lemma retry_inv_step: "retry_inv cfg w \<Longrightarrow> lock_act cfg a p w = Some w' \<Longrightarrow> retry_inv cfg w'"
  by (cases a; cases "lw_pc w p";
      force simp: retry_inv_def lock_steps split: option.splits lock_data.splits if_splits)

lemma retry_inv_reach: "lock_reach cfg ok w \<Longrightarrow> retry_inv cfg w"
proof (induction rule: lock_reach.induct)
  case (start w)
  then show ?case by (simp add: retry_inv_def)
next
  case (step w a p w')
  then show ?case by (blast intro: retry_inv_step)
qed

section \<open>Runs\<close>

fun lock_run :: "lock_config \<Rightarrow> (lock_action \<times> nat) list \<Rightarrow> lock_world \<Rightarrow> lock_world option" where
  "lock_run cfg [] w = Some w"
| "lock_run cfg ((a, p) # as) w =
     (case lock_act cfg a p w of None \<Rightarrow> None | Some w' \<Rightarrow> lock_run cfg as w')"

lemma lock_run_reach:
  "lock_run cfg as w = Some w' \<Longrightarrow> lock_reach cfg (\<lambda>_ _ _. True) w \<Longrightarrow> lock_reach cfg (\<lambda>_ _ _. True) w'"
proof (induction as arbitrary: w)
  case Nil
  then show ?case by simp
next
  case (Cons ap as)
  obtain a p where ap: "ap = (a, p)" by (cases ap)
  with Cons.prems obtain w1 where "lock_act cfg a p w = Some w1" "lock_run cfg as w1 = Some w'"
    by (auto split: option.splits)
  then show ?case using Cons.IH Cons.prems(2) lock_reach.step [of cfg _ w a p w1] by blast
qed

definition empty_world :: lock_world where
  "empty_world = \<lparr>lw_path = None, lw_data = (\<lambda>_. D_empty), lw_next = 0, lw_now = 0, lw_pc = (\<lambda>_. L_idle)\<rparr>"

lemma empty_world_reach: "lock_reach cfg ok empty_world"
  by (rule lock_reach.start) (simp_all add: empty_world_def)

definition default_lock :: lock_config where
  "default_lock = \<lparr>staleTimeout = 500, maxRetry = 5, lc_owner = id\<rparr>"

text \<open>Process 0 dies with the lock; 1 and 2 both find it stale; 1 removes it and acquires; 2
  removes the lock of 1 and acquires.\<close>

definition stale_race :: "(lock_action \<times> nat) list" where
  "stale_race =
     [(A_start, 0), (A_open, 0), (A_write_ok, 0), (A_crash, 0), (A_tick 600, 0),
      (A_start, 1), (A_open, 1), (A_read, 1), (A_start, 2), (A_open, 2), (A_read, 2),
      (A_remove_stale, 1), (A_open, 1), (A_write_ok, 1),
      (A_remove_stale, 2), (A_open, 2), (A_write_ok, 2)]"

text \<open>Then the refresher of 1 finds the lock of 2 and deletes it, and 3 acquires beside 2.\<close>

definition lost_lock_deletes :: "(lock_action \<times> nat) list" where
  "lost_lock_deletes =
     [(A_update, 1), (A_check, 1), (A_drop, 1), (A_start, 3), (A_open, 3), (A_write_ok, 3)]"

section \<open>Properties\<close>

text \<open>C18: The file lock excludes: as long as no process takes a lock for stale and no refresh
  fails, at most one process is between \<open>Acquire\<close> and \<open>Release\<close>, and the lock file names it
  as its owner.  Crashes, cancellations, failing writes and any interleaving are allowed.\<close>

theorem file_lock_excludes:
  assumes "lock_reach cfg (undisturbed cfg) w" and "holds (lw_pc w p)"
  shows "(\<forall>q. holds (lw_pc w q) = (q = p)) \<and>
         (\<exists>i t. lw_path w = Some i \<and> lw_data w i = D_owner (lc_owner cfg p) t)"
proof -
  note inv = lock_inv_reach [OF assms(1)]
  then show ?thesis
    using lock_inv_holder [OF inv] assms(2) unfolding lock_inv_def by metis
qed

theorem file_lock_excludes_witness:
  "\<exists>w. lock_reach default_lock (undisturbed default_lock) w \<and> lw_pc w 0 = L_hold \<and>
       (\<forall>q. holds (lw_pc w q) = (q = 0))"
proof -
  let ?R = "lock_reach default_lock (undisturbed default_lock)"
  obtain w1 w2 w3 where w: "lock_act default_lock A_start 0 empty_world = Some w1"
    "lock_act default_lock A_open 0 w1 = Some w2" "lock_act default_lock A_write_ok 0 w2 = Some w3"
    "lw_pc w3 0 = L_hold"
    by (simp add: lock_steps empty_world_def default_lock_def)
  have "?R w3"
    by (rule lock_reach.step [OF lock_reach.step [OF lock_reach.step [OF empty_world_reach _ w(1)] _ w(2)] _ w(3)])
      (simp_all add: undisturbed_def)
  with file_lock_excludes [OF this, of 0] w(4) show ?thesis by (auto simp: holds_def)
qed

text \<open>A stale lock breaks the exclusion although every live process is on time: two
  processes that both read the stale lock of a crashed one remove it in turn, the second
  removing the lock the first has acquired, and both hold.  The refresher of the first then
  finds the lock lost and deletes the file of the second, so that a third acquires too.\<close>

theorem stale_removal_breaks_exclusion:
  "\<exists>w1 w2. lock_run default_lock stale_race empty_world = Some w1 \<and>
     holds (lw_pc w1 1) \<and> holds (lw_pc w1 2) \<and>
     lock_run default_lock lost_lock_deletes w1 = Some w2 \<and>
     holds (lw_pc w2 2) \<and> holds (lw_pc w2 3) \<and> lock_reach default_lock (\<lambda>_ _ _. True) w2"
proof -
  have r1: "\<exists>w1. lock_run default_lock stale_race empty_world = Some w1 \<and> holds (lw_pc w1 1) \<and> holds (lw_pc w1 2) \<and>
      (\<exists>w2. lock_run default_lock lost_lock_deletes w1 = Some w2 \<and> holds (lw_pc w2 2) \<and> holds (lw_pc w2 3))"
    by (simp add: stale_race_def lost_lock_deletes_def lock_steps default_lock_def empty_world_def holds_def)
  then show ?thesis
    using lock_run_reach empty_world_reach by blast
qed

text \<open>The retry budget: a process never counts more than one retry beyond the maximum, and
  whenever it does it can only give up with \<open>ErrMaxRetryExceeded\<close>, be cancelled or crash, not
  try to open the lock again.\<close>

theorem lock_retries_bounded:
  assumes "lock_reach cfg ok w"
  shows "retries (lw_pc w p) \<le> Suc (maxRetry cfg) \<and>
         (retries (lw_pc w p) \<le> maxRetry cfg \<or>
            lw_pc w p = L_try (Suc (maxRetry cfg)) \<and> lock_act cfg A_open p w = None \<and>
            lock_act cfg A_exceeded p w = Some (goto p (L_failed ErrMaxRetryExceeded) w))"
proof -
  have "retries (lw_pc w p) \<le> maxRetry cfg \<or> lw_pc w p = L_try (Suc (maxRetry cfg))"
    using retry_inv_reach [OF assms] by (cases "lw_pc w p") (auto simp: retry_inv_def dest: spec [of _ p])
  with retry_inv_reach [OF assms] show ?thesis by (auto simp: retry_inv_def lock_act.simps)
qed

theorem lock_retries_bounded_witness: "retries (lw_pc empty_world 4) \<le> Suc (maxRetry default_lock)"
  using lock_retries_bounded [OF empty_world_reach] by blast

end
