(* ===== verification/Parallel_Tasks.thy ===== *)
theory Parallel_Tasks
  imports Go_Prelude
begin

text \<open>
  The bounded task runner of \<open>app/utils/parallel/parallel.go\<close> as a step relation.  A caller
  submits its tasks in order with \<open>Run\<close>, which blocks while all workers are taken, and then
  calls \<open>Wait\<close>; only afterwards does it read the errors.  A task is known by whether it fails.
  A failing task sends its error on a channel of fixed capacity before it gives its worker
  back, so it blocks while the channel is full.
\<close>

definition minNumWorkers :: int where "minNumWorkers = 2"
definition errChannelBuffer :: nat where "errChannelBuffer = 100"

text \<open>\<open>New\<close>: the number of workers, a negative count being a multiple of the processors.\<close>

definition new_manager :: "int \<Rightarrow> int \<Rightarrow> nat" where
  "new_manager num_cpu workercount =
     (let w = (if workercount < 0 then num_cpu * (- workercount) else workercount)
      in nat (if w < minNumWorkers then minNumWorkers else w))"

record par_state =
  pq_todo :: "bool list"
  pq_ok :: nat
  pq_failing :: nat
  pq_errors :: nat
  pq_returned :: bool

definition par_start :: "bool list \<Rightarrow> par_state" where
  "par_start tasks = \<lparr>pq_todo = tasks, pq_ok = 0, pq_failing = 0, pq_errors = 0, pq_returned = False\<rparr>"

definition par_acquire :: "nat \<Rightarrow> par_state \<Rightarrow> bool" where
  "par_acquire workers s = (pq_ok s + pq_failing s < workers)"

inductive par_step :: "nat \<Rightarrow> par_state \<Rightarrow> par_state \<Rightarrow> bool" for workers where
  run_ok: "pq_todo s = False # ts \<Longrightarrow> par_acquire workers s \<Longrightarrow>
     par_step workers s (s\<lparr>pq_todo := ts, pq_ok := Suc (pq_ok s)\<rparr>)"
| run_failing: "pq_todo s = True # ts \<Longrightarrow> par_acquire workers s \<Longrightarrow>
     par_step workers s (s\<lparr>pq_todo := ts, pq_failing := Suc (pq_failing s)\<rparr>)"
| done_ok: "pq_ok s = Suc k \<Longrightarrow> par_step workers s (s\<lparr>pq_ok := k\<rparr>)"
| done_failing: "pq_failing s = Suc k \<Longrightarrow> pq_errors s < errChannelBuffer \<Longrightarrow>
     par_step workers s (s\<lparr>pq_failing := k, pq_errors := Suc (pq_errors s)\<rparr>)"
| wait_returns: "pq_todo s = [] \<Longrightarrow> pq_ok s = 0 \<Longrightarrow> pq_failing s = 0 \<Longrightarrow> \<not> pq_returned s \<Longrightarrow>
     par_step workers s (s\<lparr>pq_returned := True\<rparr>)"

inductive_cases par_step_elim: "par_step workers s s'"

inductive_simps par_step_iff: "par_step workers s s'"

inductive par_reach :: "nat \<Rightarrow> bool list \<Rightarrow> par_state \<Rightarrow> nat \<Rightarrow> bool" for workers tasks where
  par_init: "par_reach workers tasks (par_start tasks) 0"
| par_more: "par_reach workers tasks s n \<Longrightarrow> par_step workers s s' \<Longrightarrow> par_reach workers tasks s' (Suc n)"

definition failing_tasks :: "bool list \<Rightarrow> nat" where
  "failing_tasks ts = length (filter id ts)"

definition par_inv :: "nat \<Rightarrow> bool list \<Rightarrow> par_state \<Rightarrow> nat \<Rightarrow> bool" where
  "par_inv workers tasks s n \<longleftrightarrow>
     failing_tasks (pq_todo s) + pq_failing s + pq_errors s = failing_tasks tasks \<and>
     pq_errors s \<le> errChannelBuffer \<and> pq_ok s + pq_failing s \<le> workers \<and>
     n + 2 * length (pq_todo s) + pq_ok s + pq_failing s + (if pq_returned s then 0 else 1) = 2 * length tasks + 1 \<and>
     (pq_returned s \<longrightarrow> pq_todo s = [] \<and> pq_ok s = 0 \<and> pq_failing s = 0)"

lemma failing_tasks_simps [simp]:
  "failing_tasks [] = 0" "failing_tasks (True # ts) = Suc (failing_tasks ts)"
  "failing_tasks (False # ts) = failing_tasks ts"
  by (simp_all add: failing_tasks_def)

lemma par_inv_reach: "par_reach workers tasks s n \<Longrightarrow> par_inv workers tasks s n"
proof (induction rule: par_reach.induct)
  case par_init
  then show ?case by (simp add: par_inv_def par_start_def)
next
  case (par_more s n s')
  from par_more.hyps(2) par_more.IH show ?case
    by (cases rule: par_step.cases) (auto simp: par_inv_def par_acquire_def split: if_splits)
qed

text \<open>With room for every error, a run that has not returned can always go on.\<close>

lemma par_progress:
  assumes inv: "par_inv workers tasks s n" and w: "0 < workers"
    and few: "failing_tasks tasks \<le> errChannelBuffer" and "\<not> pq_returned s"
  shows "\<exists>s'. par_step workers s s'"
proof (cases "pq_ok s")
  case (Suc k)
  then show ?thesis using par_step.done_ok by blast
next
  case ok: 0
  show ?thesis
  proof (cases "pq_failing s")
    case (Suc k)
    moreover have "pq_errors s < errChannelBuffer"
      using inv few Suc by (auto simp: par_inv_def)
    ultimately show ?thesis using par_step.done_failing by blast
  next
    case 0
    with ok w have a: "par_acquire workers s" by (simp add: par_acquire_def)
    show ?thesis
    proof (cases "pq_todo s")
      case Nil
      then show ?thesis using ok 0 assms(4) par_step.wait_returns by blast
    next
      case (Cons t ts)
      then show ?thesis
        using a par_step.run_ok [of s ts workers] par_step.run_failing [of s ts workers]
        by (cases t) auto
    qed
  qed
qed

lemma par_returns:
  assumes w: "0 < workers" and few: "failing_tasks tasks \<le> errChannelBuffer"
  shows "par_reach workers tasks s n \<Longrightarrow> \<exists>s' n'. par_reach workers tasks s' n' \<and> pq_returned s'"
proof (induction "2 * length tasks + 1 - n" arbitrary: s n rule: less_induct)
  case less
  note inv = par_inv_reach [OF less.prems]
  show ?case
  proof (cases "pq_returned s")
    case True
    then show ?thesis using less.prems by blast
  next
    case False
    then obtain s' where s': "par_step workers s s'" using par_progress [OF inv w few] by blast
    have "n < 2 * length tasks + 1" using inv False by (auto simp: par_inv_def)
    then show ?thesis
      using less.hyps [of "Suc n" s'] par_reach.par_more [OF less.prems s'] by simp
  qed
qed

lemma new_manager_pos: "2 \<le> new_manager num_cpu workercount"
  by (auto simp: new_manager_def minNumWorkers_def Let_def)

section \<open>Properties\<close>

text \<open>C35: With at most 100 failing tasks the runner neither deadlocks nor loops: whatever the
  interleaving, a state in which \<open>Wait\<close> has not returned has a next step, no run is longer
  than twice the number of tasks plus one, never more tasks run than there are workers, and
  when \<open>Wait\<close> returns every error is in the channel.\<close>

theorem wait_returns_with_all_errors:
  assumes "failing_tasks tasks \<le> errChannelBuffer"
    and "par_reach (new_manager num_cpu workercount) tasks s n"
  shows "n \<le> 2 * length tasks + 1 \<and> pq_ok s + pq_failing s \<le> new_manager num_cpu workercount \<and>
         (if pq_returned s then pq_errors s = failing_tasks tasks
          else \<exists>s'. par_step (new_manager num_cpu workercount) s s') \<and>
         (\<exists>s' n'. par_reach (new_manager num_cpu workercount) tasks s' n' \<and> pq_returned s')"
proof -
  note inv = par_inv_reach [OF assms(2)]
  moreover have "0 < new_manager num_cpu workercount"
    using new_manager_pos [of num_cpu workercount] by linarith
  ultimately show ?thesis
    using par_progress [OF inv _ assms(1)] par_returns [OF _ assms]
    by (auto simp: par_inv_def split: if_splits)
qed

theorem wait_returns_with_all_errors_witness:
  "\<exists>s'. par_step (new_manager 4 (-2)) (par_start [True, False]) s'"
  using wait_returns_with_all_errors [OF _ par_reach.par_init, of "[True, False]" 4 "-2"]
  by (simp add: par_start_def errChannelBuffer_def)

text \<open>With more than 100 failing tasks \<open>Wait\<close> never returns: nobody drains the error
  channel before \<open>Wait\<close>, so the tasks after the hundredth error keep their workers for
  ever.\<close>

theorem too_many_errors_block_forever:
  assumes "errChannelBuffer < failing_tasks tasks" and "par_reach workers tasks s n"
  shows "\<not> pq_returned s"
  using par_inv_reach [OF assms(2)] assms(1) by (auto simp: par_inv_def)

theorem too_many_errors_block_forever_witness:
  "\<not> pq_returned (par_start (replicate 101 True))"
  by (rule too_many_errors_block_forever [OF _ par_reach.par_init [where workers = 10]])
    (simp add: failing_tasks_def errChannelBuffer_def)

end
