(* ===== verification/Metric_Shipper.thy ===== *)
theory Metric_Shipper
  imports Disk_Store Parallel_Tasks
begin

text \<open>
  Shipping finished files to the CloudZero API: \<open>app/domain/shipper/\<close> (\<open>shipper.go\<close>,
  \<open>allocate_url.go\<close>, \<open>upload.go\<close>, \<open>abandon.go\<close>, \<open>utils.go\<close>, \<open>http.go\<close>, \<open>errors.go\<close>).

  The remote API is an input: what the HTTP client returns for each request, and whether each
  operating system call succeeds.  The upload tasks of a chunk run concurrently; each works on
  its own file, and the model runs them in an order that the parameter \<open>sched\<close> chooses.  When
  more tasks fail than the error channel of the runner holds, the call never returns
  (\<open>Parallel_Tasks\<close>), which is the value \<open>None\<close>.
\<close>

section \<open>Errors\<close>

datatype shipper_code =
    ErrUnauthorized | ErrNoURLs | ErrInvalidShipperID | ErrEncodeBody | ErrGetRemoteBase
  | ErrHTTPRequestFailed | ErrHTTPUnknown | ErrInvalidBody | ErrExpiredURL
  | ErrCreateDirectory | ErrCreateLock | ErrReleaseLock | ErrFilesList | ErrFileRemove
  | ErrFileCreate | ErrFileRead | ErrStorageCleanup | ErrGetDiskUsage

fun shipper_code_str :: "shipper_code \<Rightarrow> string" where
  "shipper_code_str ErrUnauthorized = ''err-unauthorized''"
| "shipper_code_str ErrNoURLs = ''err-no-urls''"
| "shipper_code_str ErrInvalidShipperID = ''err-invalid-shipper-id''"
| "shipper_code_str ErrEncodeBody = ''err-encode-body''"
| "shipper_code_str ErrGetRemoteBase = ''err-get-remote-base''"
| "shipper_code_str ErrHTTPRequestFailed = ''err-http-request-failed''"
| "shipper_code_str ErrHTTPUnknown = ''err-http-unknown''"
| "shipper_code_str ErrInvalidBody = ''err-invalid-body''"
| "shipper_code_str ErrExpiredURL = ''err-expired-url''"
| "shipper_code_str ErrCreateDirectory = ''err-dir-create''"
| "shipper_code_str ErrCreateLock = ''err-lock-create''"
| "shipper_code_str ErrReleaseLock = ''err-lock-release''"
| "shipper_code_str ErrFilesList = ''err-files-walk''"
| "shipper_code_str ErrFileRemove = ''err-file-remove''"
| "shipper_code_str ErrFileCreate = ''err-file-create''"
| "shipper_code_str ErrFileRead = ''err-file-read''"
| "shipper_code_str ErrStorageCleanup = ''err-storage-cleanup''"
| "shipper_code_str ErrGetDiskUsage = ''err-get-disk-usage''"

text \<open>An error is the list of what is joined or wrapped in it, outermost first; the empty list
  is nil.  \<open>None\<close> is an error without a code.\<close>

type_synonym go_error = "shipper_code option list"

definition ShipperErrorDefault :: string where "ShipperErrorDefault = ''unknown error''"

fun GetErrStatusCode :: "go_error \<Rightarrow> string" where
  "GetErrStatusCode [] = ShipperErrorDefault"
| "GetErrStatusCode (Some c # es) = shipper_code_str c"
| "GetErrStatusCode (None # es) = GetErrStatusCode es"

section \<open>Identifiers and chunks\<close>

definition remoteFileExtension :: string where "remoteFileExtension = ''.parquet''"
definition UploadedSubDirectory :: string where "UploadedSubDirectory = ''uploaded''"
definition CostContentIdentifier :: string where "CostContentIdentifier = ''metrics''"
definition filesChunkSize :: int where "filesChunkSize = 200"
definition shipperWorkerCount :: int where "shipperWorkerCount = 3"

definition GetRemoteFileID :: "string \<Rightarrow> string" where
  "GetRemoteFileID location = UniqueID location @ remoteFileExtension"

definition GetRootFileID :: "string \<Rightarrow> string" where
  "GetRootFileID file = before_char (CHR ''.'') (path_base file)"

function chunks_of :: "nat \<Rightarrow> 'a list \<Rightarrow> 'a list list" where
  "chunks_of n xs = (if xs = [] \<or> n = 0 then [] else take n xs # chunks_of n (drop n xs))"
  by pat_completeness auto
termination by (relation "measure (\<lambda>(n, xs). length xs)") auto

declare chunks_of.simps [simp del]

definition Chunk :: "'a list \<Rightarrow> int \<Rightarrow> 'a list list" where
  "Chunk xs n = (if n \<le> 0 then [xs] else chunks_of (nat n) xs)"

section \<open>HTTP\<close>

text \<open>\<open>hr_inspect_fails\<close> says that the inspector could not decode the body of a 403 response, the
  only way in which it fails.\<close>

record http_resp =
  hr_status :: nat
  hr_body :: string
  hr_body_ok :: bool
  hr_inspect_fails :: bool

definition InspectHTTPResponse :: "http_resp \<Rightarrow> go_error" where
  "InspectHTTPResponse r =
     (let err = (if hr_status r < 300 then []
                 else if hr_status r = 403 \<or> hr_status r = 401 then [Some ErrUnauthorized]
                 else [Some ErrHTTPUnknown])
      in if hr_status r = 403 \<and> hr_inspect_fails r then err @ [None] else err)"

text \<open>The error handler of the client once its retries are used up; \<open>cause\<close> is its last error.\<close>

definition give_up :: "nat option \<Rightarrow> go_error \<Rightarrow> go_error" where
  "give_up status cause =
     (case status of
        None \<Rightarrow> None # cause @ [Some ErrHTTPRequestFailed]
      | Some s \<Rightarrow> if s = 403 \<or> s = 401 then cause @ [Some ErrUnauthorized]
                  else None # cause @ [Some ErrHTTPRequestFailed])"

section \<open>Uploading one file\<close>

record upload_env =
  ue_read_ok :: bool
  ue_request_ok :: bool
  ue_resp :: "(go_error, http_resp) result"
  ue_mkdir_ok :: bool
  ue_rename_ok :: bool
  ue_remove_ok :: bool

definition UploadFile :: "upload_env \<Rightarrow> go_error" where
  "UploadFile v =
     (if \<not> ue_read_ok v then [Some ErrFileRead, None]
      else if \<not> ue_request_ok v then [Some ErrHTTPUnknown, None]
      else (case ue_resp v of
              Inl e \<Rightarrow> e
            | Inr resp \<Rightarrow>
                if hr_status resp = 403 \<and> \<not> hr_body_ok resp \<and>
                   go_contains (hr_body resp) ''Request has expired''
                then [Some ErrExpiredURL]
                else InspectHTTPResponse resp))"

definition uploaded_dir :: "string \<Rightarrow> string" where
  "uploaded_dir base = path_join base UploadedSubDirectory"

definition MarkFileUploaded ::
  "string \<Rightarrow> upload_env \<Rightarrow> string \<Rightarrow> file_system \<Rightarrow> go_error \<times> file_system"
where
  "MarkFileUploaded base v location fs =
     (if \<not> ue_mkdir_ok v then ([Some ErrCreateDirectory, None], fs)
      else if go_contains location UploadedSubDirectory then ([], fs)
      else if \<not> ue_rename_ok v \<or> \<not> fs_exists location fs then ([None], fs)
      else ([], fs_rename location (path_join (uploaded_dir base) (path_base location)) fs))"

type_synonym upload_request = "string \<times> string"

text \<open>One upload task: whether it failed, and the directory after it.\<close>

definition upload_task ::
  "string \<Rightarrow> upload_env \<Rightarrow> upload_request \<Rightarrow> file_system \<Rightarrow> bool \<times> file_system"
where
  "upload_task base v req fs =
     (let location = fst req
      in if UploadFile v \<noteq> [] then (True, fs)
         else if \<not> prefix CostContentIdentifier (UniqueID location) then
           (False, if ue_remove_ok v then fs_remove location fs else fs)
         else (case MarkFileUploaded base v location fs of (e, fs') \<Rightarrow> (e \<noteq> [], fs')))"

fun run_tasks ::
  "string \<Rightarrow> (upload_request \<Rightarrow> upload_env) \<Rightarrow> upload_request list \<Rightarrow> file_system \<Rightarrow> bool list \<times> file_system"
where
  "run_tasks base env [] fs = ([], fs)"
| "run_tasks base env (r # rs) fs =
     (let (failed, fs1) = upload_task base (env r) r fs;
          (fails, fs2) = run_tasks base env rs fs1
      in (failed # fails, fs2))"

section \<open>Allocating URLs\<close>

record alloc_env =
  ae_shipper_id :: "string option"
  ae_base_ok :: bool
  ae_request_ok :: bool
  ae_resp :: "(go_error, http_resp) result"
  ae_allocation :: "string \<Rightarrow> str_map option"
  ae_replay :: "(string \<times> string) list option"

text \<open>The request that is posted: the shipper id and the reference ids of the files.\<close>

record alloc_request =
  ar_shipper :: string
  ar_files :: "string list"
  ar_count :: nat

definition allocation_request :: "string \<Rightarrow> string list \<Rightarrow> alloc_request" where
  "allocation_request shipper files =
     \<lparr>ar_shipper = shipper, ar_files = map GetRemoteFileID files, ar_count = length files\<rparr>"

definition AllocatePresignedURLs ::
  "(alloc_request \<Rightarrow> alloc_env) \<Rightarrow> string option \<Rightarrow> string list \<Rightarrow> (go_error, str_map \<times> str_map) result"
where
  "AllocatePresignedURLs remote shipper files =
     (case shipper of
        None \<Rightarrow> Inl [Some ErrInvalidShipperID]
      | Some sid \<Rightarrow>
          (let v = remote (allocation_request sid files)
           in if \<not> ae_base_ok v then Inl [Some ErrGetRemoteBase]
              else if \<not> ae_request_ok v then Inl [Some ErrHTTPUnknown, None]
              else (case ae_resp v of
                      Inl e \<Rightarrow> Inl e
                    | Inr resp \<Rightarrow>
                        if InspectHTTPResponse resp \<noteq> [] then Inl (InspectHTTPResponse resp)
                        else (case ae_allocation v (hr_body resp) of
                                None \<Rightarrow> Inl [Some ErrInvalidBody, None]
                              | Some alloc \<Rightarrow>
                                  Inr (alloc, (case ae_replay v of
                                                 None \<Rightarrow> fmempty
                                               | Some rr \<Rightarrow> fold (\<lambda>(k, u) m. fmupd k u m) rr fmempty))))))"

section \<open>Handling a request\<close>

definition allocated_requests :: "str_map \<Rightarrow> string list \<Rightarrow> upload_request list" where
  "allocated_requests alloc chunk =
     List.map_filter (\<lambda>p. map_option (\<lambda>u. (p, u)) (fmlookup alloc (GetRemoteFileID p))) chunk"

definition replay_requests ::
  "(string \<Rightarrow> bool) \<Rightarrow> disk_store \<Rightarrow> file_system \<Rightarrow> str_map \<Rightarrow> upload_request list"
where
  "replay_requests open_ok d fs replay =
     concat (map (\<lambda>(ref, url). map (\<lambda>p. (p, url))
        (filter open_ok (Find_files d fs (GetRootFileID ref) ''.json.br''))) (sorted_list_of_fmap replay))"

definition abandon_refs :: "str_map \<Rightarrow> upload_request list \<Rightarrow> string list" where
  "abandon_refs replay requests =
     filter (\<lambda>ref. ref \<notin> set (map (GetRemoteFileID \<circ> fst) requests)) (map fst (sorted_list_of_fmap replay))"

record ship_env =
  se_remote :: "alloc_request \<Rightarrow> alloc_env"
  se_shipper_id :: "string option"
  se_open_ok :: "string \<Rightarrow> bool"
  se_upload :: "upload_request \<Rightarrow> upload_env"
  se_sched :: "upload_request list \<Rightarrow> upload_request list"

text \<open>What a pass leaves: the directory and the references it reported as abandoned, whose
  reply is only logged.\<close>

type_synonym ship_result = "((go_error, unit) result \<times> file_system \<times> string list) option"

fun handle_chunks :: "ship_env \<Rightarrow> disk_store \<Rightarrow> string list list \<Rightarrow> file_system \<Rightarrow> string list \<Rightarrow> ship_result"
where
  "handle_chunks E d [] fs ab = Some (Inr (), fs, ab)"
| "handle_chunks E d (chunk # chunks) fs ab =
     (case AllocatePresignedURLs (se_remote E) (se_shipper_id E) chunk of
        Inl e \<Rightarrow> Some (Inl e, fs, ab)
      | Inr (alloc, replay) \<Rightarrow>
          if alloc = fmempty \<and> replay = fmempty then Some (Inr (), fs, ab)
          else
            (let requests = allocated_requests alloc chunk @ replay_requests (se_open_ok E) d fs replay;
                 (fails, fs') = run_tasks (dirPath d) (se_upload E) (se_sched E requests) fs
             in if errChannelBuffer < failing_tasks fails then None
                else handle_chunks E d chunks fs' (ab @ abandon_refs replay requests)))"

definition HandleRequest :: "ship_env \<Rightarrow> disk_store \<Rightarrow> string list \<Rightarrow> file_system \<Rightarrow> ship_result" where
  "HandleRequest E d files fs =
     (if files = [] then Some (Inr (), fs, []) else handle_chunks E d (Chunk files filesChunkSize) fs [])"

datatype lock_outcome = Lock_taken | Lock_cancelled | Lock_failed

definition ProcessFiles :: "lock_outcome \<Rightarrow> ship_env \<Rightarrow> disk_store \<Rightarrow> file_system \<Rightarrow> ship_result" where
  "ProcessFiles lo E d fs =
     (case lo of
        Lock_cancelled \<Rightarrow> Some (Inr (), fs, [])
      | Lock_failed \<Rightarrow> Some (Inl [Some ErrCreateLock, None], fs, [])
      | Lock_taken \<Rightarrow>
          (let paths = GetFiles d fs []
           in if paths = [] then Some (Inr (), fs, [])
              else if \<not> list_all (se_open_ok E) paths then Some (Inl [None], fs, [])
              else HandleRequest E d paths fs))"

text \<open>Telling the API which references have no local file.\<close>

definition AbandonFiles ::
  "string option \<Rightarrow> bool \<Rightarrow> bool \<Rightarrow> (go_error, http_resp) result \<Rightarrow> string list \<Rightarrow> go_error"
where
  "AbandonFiles shipper base_ok request_ok resp payload =
     (if payload = [] then []
      else if shipper = None then [Some ErrInvalidShipperID, None]
      else if \<not> base_ok then [Some ErrGetRemoteBase, None]
      else if \<not> request_ok then [Some ErrHTTPUnknown, None]
      else (case resp of Inl e \<Rightarrow> e | Inr r \<Rightarrow> InspectHTTPResponse r))"

section \<open>The shipper id\<close>

text \<open>\<open>read\<close> is the outcome of reading the id file: its text, missing, or another error.\<close>

datatype id_file = Id_text string | Id_missing | Id_error

definition GetShipperID ::
  "id_file \<Rightarrow> bool \<Rightarrow> bool \<Rightarrow> string option \<Rightarrow> string \<Rightarrow> string \<Rightarrow> (go_error, string) result \<times> string"
where
  "GetShipperID read create_ok write_ok hostname uuid cached =
     (if cached \<noteq> [] then (Inr cached, cached)
      else (case read of
              Id_text t \<Rightarrow> (Inr (trim_space t), trim_space t)
            | Id_error \<Rightarrow> (Inl [None], cached)
            | Id_missing \<Rightarrow>
                if \<not> create_ok then (Inl [None], cached)
                else (let i = (case hostname of None \<Rightarrow> uuid | Some h \<Rightarrow> h)
                      in if \<not> write_ok then (Inl [None], cached) else (Inr i, i))))"

section \<open>Facts about chunks and identifiers\<close>

lemma chunks_of_concat: "0 < n \<Longrightarrow> concat (chunks_of n xs) = xs"
  by (induction n xs rule: chunks_of.induct) (subst chunks_of.simps, auto)

lemma chunks_of_length: "c \<in> set (chunks_of n xs) \<Longrightarrow> 0 < length c \<and> length c \<le> n"
proof (induction n xs rule: chunks_of.induct)
  case (1 n xs)
  then show ?case by (subst (asm) (2) chunks_of.simps) (auto split: if_splits)
qed

lemma path_base_plain:
  assumes "path_base p \<noteq> ''/''"
  shows "CHR ''/'' \<notin> set (path_base p)"
  using assms by (auto simp: path_base_def Let_def dest: set_takeWhileD split: if_splits)

definition cost_file :: "string \<Rightarrow> bool" where
  "cost_file p = prefix CostContentIdentifier (UniqueID p)"

definition upload_target :: "string \<Rightarrow> string \<Rightarrow> string" where
  "upload_target base p = path_join (uploaded_dir base) (path_base p)"

lemma cost_file_base:
  assumes "cost_file p"
  shows "path_base p \<noteq> []" "CHR ''/'' \<notin> set (path_base p)"
proof -
  have "path_base p \<noteq> [] \<and> path_base p \<noteq> ''/''"
    using assms by (auto simp: cost_file_def UniqueID_def CostContentIdentifier_def before_char_def)
  then show "path_base p \<noteq> []" "CHR ''/'' \<notin> set (path_base p)"
    using path_base_plain by blast+
qed

lemma upload_target_cost: "cost_file p \<Longrightarrow> cost_file (upload_target base p)"
  using path_base_join [OF cost_file_base] by (simp add: cost_file_def UniqueID_def upload_target_def)

lemma upload_target_uploaded [simp]: "go_contains (upload_target base p) UploadedSubDirectory"
  unfolding go_contains_iff upload_target_def uploaded_dir_def path_join_def
  by (intro exI [of _ "base @ ''/''"] exI [of _ "''/'' @ path_base p"]) simp

section \<open>A file goes only after it is uploaded\<close>

lemma upload_task_effect:
  assumes "upload_task base v r fs = (failed, fs')"
  shows "fs' = fs \<or>
    (UploadFile v = [] \<and>
      (\<not> cost_file (fst r) \<and> fs' = fs_remove (fst r) fs \<or>
       cost_file (fst r) \<and> \<not> go_contains (fst r) UploadedSubDirectory \<and> fs_exists (fst r) fs \<and>
         fs' = fs_rename (fst r) (upload_target base (fst r)) fs))"
  using assms
  by (auto simp: upload_task_def MarkFileUploaded_def cost_file_def upload_target_def Let_def split: if_splits)

text \<open>What is left of every file that was there before.\<close>

definition accounted :: "string \<Rightarrow> (upload_request \<Rightarrow> upload_env) \<Rightarrow> file_system \<Rightarrow> file_system \<Rightarrow> bool" where
  "accounted base env fs0 fs \<longleftrightarrow>
     (\<forall>q. fs_exists q fs0 \<longrightarrow>
        fmlookup fs q = fmlookup fs0 q \<or>
        fs_exists q fs \<and> go_contains q UploadedSubDirectory \<or>
        (\<exists>url. UploadFile (env (q, url)) = []) \<and> (cost_file q \<longrightarrow> fs_exists (upload_target base q) fs))"

lemma accounted_refl: "accounted base env fs fs"
  by (simp add: accounted_def)

lemma upload_task_accounted:
  assumes "accounted base env fs0 fs" and t: "upload_task base (env r) r fs = (failed, fs')"
  shows "accounted base env fs0 fs'"
proof -
  obtain p url where r: "r = (p, url)" by (cases r)
  from upload_task_effect [OF t] consider "fs' = fs"
    | (removed) "UploadFile (env r) = []" "\<not> cost_file p" "fs' = fs_remove p fs"
    | (moved) "UploadFile (env r) = []" "cost_file p" "\<not> go_contains p UploadedSubDirectory"
        "fs_exists p fs" "fs' = fs_rename p (upload_target base p) fs"
    by (auto simp: r)
  then show ?thesis
  proof cases
    case 1
    then show ?thesis using assms(1) by simp
  next
    case removed
    then show ?thesis
      using assms(1) upload_target_cost [of _ base]
      unfolding accounted_def r fs_exists_def by (auto; metis)
  next
    case moved
    have l: "fmlookup fs' q = (if q = upload_target base p then fmlookup fs p else if q = p then None else fmlookup fs q)" for q
      using moved(4,5) by (auto simp: fs_exists_def fs_rename_lookup)
    have ne: "upload_target base q \<noteq> p" for q
      using moved(3) upload_target_uploaded [of base q] by metis
    show ?thesis
      using assms(1) moved(1,2,4) ne upload_target_uploaded [of base p]
      unfolding accounted_def r fs_exists_def l by (auto; metis)
  qed
qed

lemma run_tasks_accounted:
  "accounted base env fs0 fs \<Longrightarrow> run_tasks base env rs fs = (fails, fs') \<Longrightarrow> accounted base env fs0 fs'"
proof (induction rs arbitrary: fs fails)
  case Nil
  then show ?case by simp
next
  case (Cons r rs)
  obtain b fs1 where t: "upload_task base (env r) r fs = (b, fs1)" by (cases "upload_task base (env r) r fs")
  obtain bs fs2 where u: "run_tasks base env rs fs1 = (bs, fs2)" by (cases "run_tasks base env rs fs1")
  then have "fs' = fs2" using Cons.prems(2) t by simp
  with u have "run_tasks base env rs fs1 = (bs, fs')" by simp
  then show ?case using Cons.IH [OF upload_task_accounted [OF Cons.prems(1) t]] by blast
qed

lemma handle_chunks_accounted:
  "accounted (dirPath d) (se_upload E) fs0 fs \<Longrightarrow> handle_chunks E d chunks fs ab = Some (r, fs', ab') \<Longrightarrow>
   accounted (dirPath d) (se_upload E) fs0 fs'"
proof (induction chunks arbitrary: fs ab)
  case Nil
  then show ?case by simp
next
  case (Cons c cs)
  then show ?case
    by (auto simp: Let_def split: sum.splits prod.splits if_splits dest: run_tasks_accounted)
qed

lemma ProcessFiles_accounted:
  "ProcessFiles lo E d fs = Some (r, fs', ab) \<Longrightarrow> accounted (dirPath d) (se_upload E) fs fs'"
  by (auto simp: ProcessFiles_def HandleRequest_def Let_def accounted_refl
      split: lock_outcome.splits if_splits dest: handle_chunks_accounted [OF accounted_refl])

section \<open>A cooperating API gets every file\<close>

definition all_good :: "upload_env \<Rightarrow> bool" where
  "all_good v \<longleftrightarrow> UploadFile v = [] \<and> ue_mkdir_ok v \<and> ue_rename_ok v \<and> ue_remove_ok v"

text \<open>The API hands out a URL for every file it is asked about and replays nothing.\<close>

definition grants :: "ship_env \<Rightarrow> bool" where
  "grants E \<longleftrightarrow>
     (\<forall>files. \<exists>alloc. AllocatePresignedURLs (se_remote E) (se_shipper_id E) files = Inr (alloc, fmempty) \<and>
        (\<forall>p \<in> set files. fmlookup alloc (GetRemoteFileID p) \<noteq> None)) \<and>
     (\<forall>rs. mset (se_sched E rs) = mset rs) \<and> (\<forall>r. all_good (se_upload E r)) \<and> (\<forall>p. se_open_ok E p)"

definition good_effect :: "string \<Rightarrow> string \<Rightarrow> file_system \<Rightarrow> file_system" where
  "good_effect base p fs =
     (if cost_file p then fs_rename p (upload_target base p) fs else fs_remove p fs)"

lemma good_task:
  "all_good v \<Longrightarrow> fs_exists (fst r) fs \<Longrightarrow> \<not> go_contains (fst r) UploadedSubDirectory \<Longrightarrow>
   upload_task base v r fs = (False, good_effect base (fst r) fs)"
  by (simp add: upload_task_def MarkFileUploaded_def all_good_def good_effect_def upload_target_def cost_file_def Let_def)

lemma good_effect_exists:
  assumes "fs_exists p fs" and "\<not> go_contains p UploadedSubDirectory"
  shows "fs_exists q (good_effect base p fs) \<longleftrightarrow>
         q \<noteq> p \<and> (fs_exists q fs \<or> (cost_file p \<and> q = upload_target base p))"
proof -
  have ne: "upload_target base p \<noteq> p"
    using assms(2) upload_target_uploaded [of base p] by metis
  obtain c where c: "fmlookup fs p = Some c" using assms(1) by (auto simp: fs_exists_def)
  show ?thesis
    using ne by (auto simp: good_effect_def fs_exists_def fs_rename_lookup [OF c])
qed

definition cleared :: "string \<Rightarrow> string set \<Rightarrow> file_system \<Rightarrow> file_system \<Rightarrow> bool" where
  "cleared base P fs fs' \<longleftrightarrow>
     (\<forall>q. fs_exists q fs' \<longrightarrow> q \<notin> P \<and> (fs_exists q fs \<or> (\<exists>p. q = upload_target base p))) \<and>
     (\<forall>q. q \<notin> P \<longrightarrow> fs_exists q fs \<longrightarrow> fs_exists q fs')"

lemma cleared_trans:
  assumes "cleared base P fs fs1" and "cleared base Q fs1 fs2"
    and "\<And>p. upload_target base p \<notin> P"
  shows "cleared base (P \<union> Q) fs fs2"
  using assms unfolding cleared_def by blast

lemma good_tasks:
  "\<forall>r. all_good (env r) \<Longrightarrow> distinct (map fst rs) \<Longrightarrow>
   \<forall>r \<in> set rs. fs_exists (fst r) fs \<and> \<not> go_contains (fst r) UploadedSubDirectory \<Longrightarrow>
   \<exists>fails fs'. run_tasks base env rs fs = (fails, fs') \<and> failing_tasks fails = 0 \<and>
     cleared base (fst ` set rs) fs fs'"
proof (induction rs arbitrary: fs)
  case Nil
  then show ?case by (simp add: cleared_def)
next
  case (Cons r rs)
  let ?fs1 = "good_effect base (fst r) fs"
  have r: "all_good (env r)" "fs_exists (fst r) fs" "\<not> go_contains (fst r) UploadedSubDirectory"
    using Cons.prems(3) spec [OF Cons.prems(1), of r] by simp_all
  note t = good_task [OF r, of base] and ex = good_effect_exists [OF r(2,3)]
  have "\<forall>x \<in> set rs. fs_exists (fst x) ?fs1 \<and> \<not> go_contains (fst x) UploadedSubDirectory"
  proof
    fix x
    assume x: "x \<in> set rs"
    with Cons.prems(2) have "fst x \<noteq> fst r" by (metis distinct.simps(2) image_eqI list.set_map list.simps(9))
    with x Cons.prems(3) show "fs_exists (fst x) ?fs1 \<and> \<not> go_contains (fst x) UploadedSubDirectory"
      by (simp add: ex)
  qed
  from Cons.IH [OF Cons.prems(1) _ this] obtain fails fs' where
    u: "run_tasks base env rs ?fs1 = (fails, fs')" "failing_tasks fails = 0" "cleared base (fst ` set rs) ?fs1 fs'"
    using Cons.prems(2) by auto
  have "cleared base {fst r} fs ?fs1"
    by (auto simp: cleared_def ex)
  moreover have "upload_target base p \<notin> {fst r}" for p
    using r(3) upload_target_uploaded [of base p] by (metis singletonD)
  ultimately have "cleared base ({fst r} \<union> fst ` set rs) fs fs'"
    using cleared_trans [OF _ u(3)] by blast
  then show ?case by (simp add: t u)
qed

lemma granted_chunk:
  assumes g: "grants E" and c: "chunk \<noteq> []" "distinct chunk"
    and ex: "\<forall>p \<in> set chunk. fs_exists p fs \<and> \<not> go_contains p UploadedSubDirectory"
  shows "\<exists>fs'. handle_chunks E d (chunk # chunks) fs ab = handle_chunks E d chunks fs' ab \<and>
    cleared (dirPath d) (set chunk) fs fs'"
proof -
  obtain alloc where al: "AllocatePresignedURLs (se_remote E) (se_shipper_id E) chunk = Inr (alloc, fmempty)"
    "\<forall>p \<in> set chunk. fmlookup alloc (GetRemoteFileID p) \<noteq> None"
    using g unfolding grants_def by blast
  obtain p where "p \<in> set chunk" using c(1) by (cases chunk) auto
  then have "fmlookup alloc (GetRemoteFileID p) \<noteq> None" using al(2) by blast
  then have ne: "alloc \<noteq> fmempty" by auto
  define rs where "rs = allocated_requests alloc chunk"
  have fst: "map fst rs = chunk"
    using al(2) unfolding rs_def allocated_requests_def
    by (induction chunk) (auto simp: List.map_filter_simps)
  have m: "mset (se_sched E rs) = mset rs" using g by (simp add: grants_def)
  have "mset (map fst (se_sched E rs)) = mset (map fst rs)" using m by (metis mset_map)
  then have "mset (map fst (se_sched E rs)) = mset chunk" by (simp add: fst)
  then have d: "distinct (map fst (se_sched E rs))" and s: "fst ` set (se_sched E rs) = set chunk"
    using c(2) mset_eq_imp_distinct_iff mset_eq_setD by (blast, metis list.set_map)
  then have "\<forall>r \<in> set (se_sched E rs). fs_exists (fst r) fs \<and> \<not> go_contains (fst r) UploadedSubDirectory"
    using ex by force
  from good_tasks [OF _ d this, of "se_upload E" "dirPath d"] g obtain fails fs' where
    u: "run_tasks (dirPath d) (se_upload E) (se_sched E rs) fs = (fails, fs')" "failing_tasks fails = 0"
      "cleared (dirPath d) (set chunk) fs fs'"
    by (auto simp: grants_def s)
  have "replay_requests (se_open_ok E) d fs fmempty = []" "abandon_refs fmempty rs' = []" for rs'
    by (simp_all add: replay_requests_def abandon_refs_def sorted_list_of_fmap_def sorted_list_of_fset.rep_eq)
  then have "handle_chunks E d (chunk # chunks) fs ab = handle_chunks E d chunks fs' ab"
    using u(1,2) ne by (simp add: al(1) rs_def)
  with u(3) show ?thesis by blast
qed

lemma granted_chunks:
  assumes g: "grants E"
  shows "\<forall>c \<in> set chunks. c \<noteq> [] \<Longrightarrow> distinct (concat chunks) \<Longrightarrow>
   \<forall>p \<in> set (concat chunks). fs_exists p fs \<and> \<not> go_contains p UploadedSubDirectory \<Longrightarrow>
   \<exists>fs'. handle_chunks E d chunks fs ab = Some (Inr (), fs', ab) \<and>
         cleared (dirPath d) (set (concat chunks)) fs fs'"
proof (induction chunks arbitrary: fs)
  case Nil
  then show ?case by (simp add: cleared_def)
next
  case (Cons c cs)
  have "\<exists>fs1. handle_chunks E d (c # cs) fs ab = handle_chunks E d cs fs1 ab \<and> cleared (dirPath d) (set c) fs fs1"
    using Cons.prems by (intro granted_chunk [OF g]) auto
  then obtain fs1 where h: "handle_chunks E d (c # cs) fs ab = handle_chunks E d cs fs1 ab"
    and c1: "cleared (dirPath d) (set c) fs fs1" by blast
  have "\<forall>p \<in> set (concat cs). fs_exists p fs1 \<and> \<not> go_contains p UploadedSubDirectory"
  proof
    fix p
    assume p: "p \<in> set (concat cs)"
    with Cons.prems(2) have "p \<notin> set c" by auto
    with p Cons.prems(3) c1 show "fs_exists p fs1 \<and> \<not> go_contains p UploadedSubDirectory"
      unfolding cleared_def by (metis UnCI concat.simps(2) set_append)
  qed
  then obtain fs' where "handle_chunks E d cs fs1 ab = Some (Inr (), fs', ab)"
    "cleared (dirPath d) (set (concat cs)) fs1 fs'"
    using Cons.IH [of fs1] Cons.prems by auto
  moreover have "upload_target (dirPath d) p \<notin> set c" for p
  proof
    assume "upload_target (dirPath d) p \<in> set c"
    then have "\<not> go_contains (upload_target (dirPath d) p) UploadedSubDirectory"
      using Cons.prems(3) by (metis UnCI concat.simps(2) set_append)
    then show False by simp
  qed
  ultimately show ?case using h cleared_trans [OF c1] by auto
qed

lemma GetFiles_in_dir:
  assumes "naming_ok d" and "p \<in> set (GetFiles d fs [])"
  obtains n where "p = path_join (dirPath d) n" "CHR ''/'' \<notin> set n" "fs_exists p fs"
proof -
  have "CHR ''/'' \<notin> set (finished_pattern (if contentIdentifier d = [] then ''*'' else contentIdentifier d) content_ext)"
    using assms(1) by (auto simp: finished_pattern_def content_ext_def naming_ok_def content_base_def split: if_splits)
  then show thesis
    using assms(2) that by (auto simp: GetFiles_def elim: in_globD)
qed

lemma granted_ProcessFiles:
  assumes g: "grants E" and n: "naming_ok d"
    and u: "\<forall>p \<in> set (GetFiles d fs []). \<not> go_contains p UploadedSubDirectory"
  shows "\<exists>fs'. ProcessFiles Lock_taken E d fs = Some (Inr (), fs', []) \<and> GetFiles d fs' [] = [] \<and>
    (\<forall>q. q \<notin> set (GetFiles d fs []) \<longrightarrow> fs_exists q fs \<longrightarrow> fs_exists q fs')"
proof (cases "GetFiles d fs [] = []")
  case True
  then show ?thesis by (simp add: ProcessFiles_def)
next
  case False
  let ?P = "GetFiles d fs []"
  let ?C = "Chunk ?P filesChunkSize"
  have c: "concat ?C = ?P" "\<forall>c \<in> set ?C. c \<noteq> []"
    using chunks_of_concat [of 200 ?P] chunks_of_length [of _ 200 ?P]
    by (auto simp: Chunk_def filesChunkSize_def)
  have ex: "\<forall>p \<in> set (concat ?C). fs_exists p fs \<and> \<not> go_contains p UploadedSubDirectory"
    using u GetFiles_in_dir [OF n] unfolding c(1) by metis
  have "distinct (concat ?C)" unfolding c(1) by (simp add: GetFiles_def distinct_glob)
  from granted_chunks [OF g c(2) this ex, of d "[]"] obtain fs' where
    h: "handle_chunks E d ?C fs [] = Some (Inr (), fs', [])" and cl: "cleared (dirPath d) (set ?P) fs fs'"
    unfolding c(1) by blast
  have "p \<notin> set (GetFiles d fs' [])" for p
  proof
    assume p: "p \<in> set (GetFiles d fs' [])"
    then obtain m where m: "p = path_join (dirPath d) m" "CHR ''/'' \<notin> set m" "fs_exists p fs'"
      by (rule GetFiles_in_dir [OF n])
    have "p \<noteq> upload_target (dirPath d) q" for q
      using m(1,2) by (auto simp: upload_target_def uploaded_dir_def path_join_def)
    then have old: "fs_exists p fs" "p \<notin> set ?P" using cl m(3) by (auto simp: cleared_def)
    moreover have "p \<in> set ?P"
      using p old(1) m(1,2) by (simp add: GetFiles_def glob_iff)
    ultimately show False by blast
  qed
  then have "GetFiles d fs' [] = []" by (metis list.set_intros(1) neq_Nil_conv)
  moreover have "ProcessFiles Lock_taken E d fs = Some (Inr (), fs', [])"
    using False h g by (simp add: ProcessFiles_def HandleRequest_def grants_def list_all_iff)
  ultimately show ?thesis using cl by (auto simp: cleared_def)
qed

lemma UploadFile_expired: "\<forall>r. ue_resp v = Inr r \<longrightarrow> hr_body_ok r \<Longrightarrow> \<forall>e. ue_resp v = Inl e \<longrightarrow> Some ErrExpiredURL \<notin> set e \<Longrightarrow>
  Some ErrExpiredURL \<notin> set (UploadFile v)"
  by (auto simp: UploadFile_def InspectHTTPResponse_def Let_def split: sum.splits)

lemma GetErrStatusCode_first:
  "GetErrStatusCode e =
     (case find (\<lambda>c. c \<noteq> None) e of Some (Some c) \<Rightarrow> shipper_code_str c | _ \<Rightarrow> ShipperErrorDefault)"
  by (induction e rule: GetErrStatusCode.induct) auto

section \<open>Properties\<close>

definition ok_upload :: upload_env where
  "ok_upload = \<lparr>ue_read_ok = True, ue_request_ok = True,
     ue_resp = Inr \<lparr>hr_status = 200, hr_body = [], hr_body_ok = True, hr_inspect_fails = False\<rparr>,
     ue_mkdir_ok = True, ue_rename_ok = True, ue_remove_ok = True\<rparr>"

definition granting_env :: ship_env where
  "granting_env = \<lparr>se_remote = (\<lambda>req. \<lparr>ae_shipper_id = Some ''s'', ae_base_ok = True, ae_request_ok = True,
       ae_resp = Inr \<lparr>hr_status = 200, hr_body = [], hr_body_ok = True, hr_inspect_fails = False\<rparr>,
       ae_allocation = (\<lambda>_. Some (fmap_of_list (map (\<lambda>i. (i, ''url'')) (ar_files req)))), ae_replay = None\<rparr>),
     se_shipper_id = Some ''s'', se_open_ok = (\<lambda>_. True), se_upload = (\<lambda>_. ok_upload), se_sched = rev\<rparr>"

lemma ok_upload_good: "all_good ok_upload"
  by (simp add: all_good_def ok_upload_def UploadFile_def InspectHTTPResponse_def)

lemma granting_env_grants: "grants granting_env"
proof -
  have "fmlookup (fmap_of_list (map (\<lambda>i. (i, ''url'')) ids)) i = Some ''url''" if "i \<in> set ids" for i ids
    using that by (induction ids) (auto simp: fmlookup_of_list)
  note look = this
  let ?alloc = "\<lambda>files. fmap_of_list (map (\<lambda>i. (i, ''url'')) (map GetRemoteFileID files))"
  have "AllocatePresignedURLs (se_remote granting_env) (se_shipper_id granting_env) files =
      Inr (?alloc files, fmempty)" for files
    by (simp add: granting_env_def AllocatePresignedURLs_def allocation_request_def InspectHTTPResponse_def)
  moreover have "fmlookup (?alloc files) (GetRemoteFileID p) \<noteq> None" if "p \<in> set files" for p files
    using look [of "GetRemoteFileID p" "map GetRemoteFileID files"] that by simp
  ultimately have "\<exists>alloc. AllocatePresignedURLs (se_remote granting_env) (se_shipper_id granting_env) files =
      Inr (alloc, fmempty) \<and> (\<forall>p \<in> set files. fmlookup alloc (GetRemoteFileID p) \<noteq> None)" for files
    by blast
  then show ?thesis
    unfolding grants_def by (simp add: granting_env_def ok_upload_good)
qed

definition one_cost_file :: file_system where
  "one_cost_file = fmupd (path_join ''/d'' (finished_name ''metrics'' 3 4)) (F_rows []) fmempty"

lemma one_cost_file_plain:
  "\<forall>p \<in> set (GetFiles (sample_store 10) one_cost_file []). \<not> go_contains p UploadedSubDirectory"
proof
  fix p
  assume "p \<in> set (GetFiles (sample_store 10) one_cost_file [])"
  then have "fs_exists p one_cost_file" by (rule GetFiles_in_dir [OF sample_naming])
  then have p: "p = path_join ''/d'' (finished_name ''metrics'' 3 4)"
    by (simp add: one_cost_file_def fs_exists_def split: if_splits)
  have d: "int_str 3 = ''3''" "int_str 4 = ''4''"
    by (simp_all add: int_str_def dec_nat.simps digit_char_def char_of_eq_iff)
  show "\<not> go_contains p UploadedSubDirectory"
    by (simp add: p path_join_def finished_name_def content_ext_def d UploadedSubDirectory_def)
qed

text \<open>C4: A shipping pass never loses a file, whatever the API answers and whatever fails: every
  file that was there is still there unchanged, or it is in the uploaded directory, or an
  upload of it succeeded in this pass, and then a cost file is kept in the uploaded
  directory.\<close>

theorem process_files_never_loses:
  assumes "ProcessFiles lo E d fs = Some (r, fs', ab)" and "fs_exists q fs"
  shows "fmlookup fs' q = fmlookup fs q \<or>
         fs_exists q fs' \<and> go_contains q UploadedSubDirectory \<or>
         (\<exists>url. UploadFile (se_upload E (q, url)) = []) \<and>
         (cost_file q \<longrightarrow> fs_exists (upload_target (dirPath d) q) fs')"
  using ProcessFiles_accounted [OF assms(1)] assms(2) unfolding accounted_def by blast

theorem process_files_never_loses_witness:
  "\<exists>fs' ab. ProcessFiles Lock_taken granting_env (sample_store 10) one_cost_file = Some (Inr (), fs', ab) \<and>
     (let q = path_join ''/d'' (finished_name ''metrics'' 3 4)
      in fmlookup fs' q = fmlookup one_cost_file q \<or>
         fs_exists q fs' \<and> go_contains q UploadedSubDirectory \<or>
         (\<exists>url. UploadFile (se_upload granting_env (q, url)) = []) \<and>
         (cost_file q \<longrightarrow> fs_exists (upload_target (dirPath (sample_store 10)) q) fs'))"
proof -
  obtain fs' where p: "ProcessFiles Lock_taken granting_env (sample_store 10) one_cost_file = Some (Inr (), fs', [])"
    using granted_ProcessFiles [OF granting_env_grants sample_naming one_cost_file_plain] by blast
  have "fs_exists (path_join ''/d'' (finished_name ''metrics'' 3 4)) one_cost_file"
    by (simp add: one_cost_file_def fs_exists_def)
  from process_files_never_loses [OF p this] p show ?thesis by (auto simp: Let_def)
qed



text \<open>The expiry of a pre-signed URL is never recognised: whenever the body of the response
  is read without error, the upload does not report \<open>ErrExpiredURL\<close>, whatever the body says;
  a 403 reply saying that the request has expired is reported as unauthorised.\<close>

theorem expired_url_not_recognised:
  assumes "ue_resp v = Inr resp" and "hr_body_ok resp"
  shows "Some ErrExpiredURL \<notin> set (UploadFile v) \<and>
    (if ue_read_ok v \<and> ue_request_ok v \<and> hr_status resp = 403
     then GetErrStatusCode (UploadFile v) = shipper_code_str ErrUnauthorized else True)"
  using assms by (auto simp: UploadFile_def InspectHTTPResponse_def Let_def)

theorem expired_url_not_recognised_witness:
  "GetErrStatusCode (UploadFile (ok_upload\<lparr>ue_resp := Inr \<lparr>hr_status = 403, hr_body = ''Request has expired'',
      hr_body_ok = True, hr_inspect_fails = False\<rparr>\<rparr>)) = ''err-unauthorized''"
  using expired_url_not_recognised [of "ok_upload\<lparr>ue_resp := Inr \<lparr>hr_status = 403, hr_body = ''Request has expired'',
      hr_body_ok = True, hr_inspect_fails = False\<rparr>\<rparr>"]
  by (simp add: ok_upload_def)

text \<open>An empty answer for one chunk ends the pass: no later chunk is asked for, and the pass
  reports success with the directory as it was.\<close>

theorem empty_answer_skips_rest:
  assumes "files \<noteq> []"
    and "AllocatePresignedURLs (se_remote E) (se_shipper_id E) (take 200 files) = Inr (fmempty, fmempty)"
  shows "HandleRequest E d files fs = Some (Inr (), fs, [])"
proof -
  have "chunks_of 200 files = take 200 files # chunks_of 200 (drop 200 files)"
    using assms(1) by (subst chunks_of.simps) simp
  then show ?thesis using assms by (simp add: HandleRequest_def Chunk_def filesChunkSize_def)
qed

theorem empty_answer_skips_rest_witness:
  "HandleRequest (granting_env\<lparr>se_remote := (\<lambda>req. (se_remote granting_env req)\<lparr>ae_allocation := (\<lambda>_. Some fmempty)\<rparr>)\<rparr>)
     (sample_store 10) (replicate 300 ''/d/metrics_1_2.json.br'') one_cost_file = Some (Inr (), one_cost_file, [])"
  by (rule empty_answer_skips_rest)
    (simp_all add: granting_env_def AllocatePresignedURLs_def allocation_request_def InspectHTTPResponse_def)

text \<open>A storage path that contains the word uploaded defeats the marking: the file stays
  where it is although marking it reports success, so it is shipped again on every pass.\<close>

theorem uploaded_in_path_never_marked:
  assumes "go_contains base UploadedSubDirectory" and "ue_mkdir_ok v"
  shows "MarkFileUploaded base v (path_join base n) fs = ([], fs)"
proof -
  obtain a b where "base = a @ UploadedSubDirectory @ b"
    using assms(1) by (auto simp: go_contains_iff)
  then have "path_join base n = a @ UploadedSubDirectory @ (b @ ''/'' @ n)" by (simp add: path_join_def)
  then have "go_contains (path_join base n) UploadedSubDirectory"
    unfolding go_contains_iff by blast
  with assms(2) show ?thesis by (simp add: MarkFileUploaded_def)
qed

theorem uploaded_in_path_never_marked_witness:
  "MarkFileUploaded ''/uploaded-metrics'' ok_upload (path_join ''/uploaded-metrics'' ''metrics_3_4.json.br'') one_cost_file =
     ([], one_cost_file)"
  by (rule uploaded_in_path_never_marked) (simp_all add: UploadedSubDirectory_def ok_upload_def)

text \<open>Chunking splits a list into its pieces in order, none empty and none longer than the
  limit, and keeps a list whole for a limit that is not positive.\<close>

theorem chunk_partitions:
  "concat (Chunk xs n) = xs \<and>
   (if n \<le> 0 then Chunk xs n = [xs] else list_all (\<lambda>c. 0 < length c \<and> int (length c) \<le> n) (Chunk xs n))"
  using chunks_of_concat [of "nat n" xs] chunks_of_length [of _ "nat n" xs]
  by (fastforce simp: Chunk_def list_all_iff)

end
