(* ===== verification/Disk_Manager.thy ===== *)
theory Disk_Manager
  imports Metric_Shipper
begin

text \<open>
  The disk manager of \<open>app/domain/shipper/disk.go\<close>: pressure levels, and the purge of uploaded
  files by age and by share.  The uploaded directory is the list of its files with their
  modification times in the order of the walk; \<open>rm\<close> says which removals succeed, and
  \<open>usage\<close> gives the percentage that the store reports for a directory, \<open>None\<close> where it fails.
  \<open>sort.Slice\<close> is not stable, so the sort is a parameter of which only what Go documents is used.
\<close>

section \<open>Pressure\<close>

datatype pressure_level = PressureNone | PressureLow | PressureMedium | PressureHigh | PressureCritical

fun level_rank :: "pressure_level \<Rightarrow> nat" where
  "level_rank PressureNone = 0"
| "level_rank PressureLow = 1"
| "level_rank PressureMedium = 2"
| "level_rank PressureHigh = 3"
| "level_rank PressureCritical = 4"

lemma level_rank_inj: "level_rank a = level_rank b \<Longrightarrow> a = b"
  by (cases a; cases b) simp_all

instantiation pressure_level :: linorder
begin

definition less_eq_pressure_level :: "pressure_level \<Rightarrow> pressure_level \<Rightarrow> bool" where
  "less_eq_pressure_level a b = (level_rank a \<le> level_rank b)"

definition less_pressure_level :: "pressure_level \<Rightarrow> pressure_level \<Rightarrow> bool" where
  "less_pressure_level a b = (level_rank a < level_rank b)"

instance
  by standard (auto simp: less_eq_pressure_level_def less_pressure_level_def level_rank_inj)

end

record pressure_thresholds =
  pt_critical :: f64
  pt_high :: f64
  pt_medium :: f64
  pt_low :: f64

definition getThresholds :: "bool \<Rightarrow> pressure_thresholds" where
  "getThresholds isMemory =
     (if isMemory then \<lparr>pt_critical = Fin 80, pt_high = Fin 60, pt_medium = Fin 40, pt_low = Fin 20\<rparr>
      else \<lparr>pt_critical = Fin 95, pt_high = Fin 85, pt_medium = Fin 70, pt_low = Fin 50\<rparr>)"

definition CalculatePressureLevel :: "bool \<Rightarrow> f64 \<Rightarrow> pressure_level" where
  "CalculatePressureLevel isMemory percentUsed =
     (let t = getThresholds isMemory
      in if f_le (pt_critical t) percentUsed then PressureCritical
         else if f_le (pt_high t) percentUsed then PressureHigh
         else if f_le (pt_medium t) percentUsed then PressureMedium
         else if f_le (pt_low t) percentUsed then PressureLow
         else PressureNone)"

definition GetCleanupPercentage :: "bool \<Rightarrow> pressure_level \<Rightarrow> int" where
  "GetCleanupPercentage isMemory p =
     (case p of
        PressureCritical \<Rightarrow> if isMemory then 70 else 50
      | PressureHigh \<Rightarrow> if isMemory then 50 else 25
      | _ \<Rightarrow> if isMemory then 30 else 10)"

section \<open>The storage backend\<close>

text \<open>\<open>strings.Fields\<close>: the maximal runs without white space.\<close>

function go_fields :: "string \<Rightarrow> string list" where
  "go_fields s =
     (let t = dropWhile go_space s
      in if t = [] then [] else takeWhile (\<lambda>c. \<not> go_space c) t # go_fields (dropWhile (\<lambda>c. \<not> go_space c) t))"
  by pat_completeness auto
termination
proof (relation "measure length")
  fix s t :: string
  assume t: "t = dropWhile go_space s" "t \<noteq> []"
  then have "\<not> go_space (hd t)" using hd_dropWhile by metis
  then have "length (dropWhile (\<lambda>c. \<not> go_space c) t) < length t"
    using t(2) by (cases t) (auto simp: less_Suc_eq_le length_dropWhile_le)
  then show "(dropWhile (\<lambda>c. \<not> go_space c) t, s) \<in> measure length"
    using t(1) length_dropWhile_le [of go_space s] by simp
qed simp

declare go_fields.simps [simp del]

definition TmpfsMagic :: int where "TmpfsMagic = 0x01021994"

fun proc_mounts_memory :: "string \<Rightarrow> string list \<Rightarrow> bool" where
  "proc_mounts_memory absPath [] = False"
| "proc_mounts_memory absPath (line # ls) =
     (case go_fields line of
        dev # mountPoint # fsType # rest \<Rightarrow>
          (prefix mountPoint absPath \<and> fsType = ''tmpfs'') \<or> proc_mounts_memory absPath ls
      | _ \<Rightarrow> proc_mounts_memory absPath ls)"

text \<open>\<open>statfs\<close> is the file system type, \<open>mounts\<close> the lines scanned of the mount table (\<open>None\<close>
  where it cannot be opened); an error of the scan after them ends, like no match, in false.\<close>

definition IsMemoryBacked :: "int option \<Rightarrow> string option \<Rightarrow> string list option \<Rightarrow> bool" where
  "IsMemoryBacked statfs absPath mounts =
     (case statfs of
        Some fsType \<Rightarrow> fsType = TmpfsMagic
      | None \<Rightarrow>
          (case (mounts, absPath) of
             (Some ls, Some p) \<Rightarrow> proc_mounts_memory p ls
           | _ \<Rightarrow> False))"

section \<open>Purging\<close>

type_synonym uploaded_files = "(string \<times> int) list"

fun remove_each :: "(string \<Rightarrow> bool) \<Rightarrow> string list \<Rightarrow> uploaded_files \<Rightarrow> int \<times> uploaded_files" where
  "remove_each rm [] fs = (0, fs)"
| "remove_each rm (p # ps) fs =
     (if rm p then (let (n, fs') = remove_each rm ps (filter (\<lambda>f. fst f \<noteq> p) fs) in (n + 1, fs'))
      else remove_each rm ps fs)"

text \<open>\<open>walk_ok\<close>: the walk of the uploaded directory meets no error.\<close>

definition PurgeFilesBefore ::
  "bool \<Rightarrow> (string \<Rightarrow> bool) \<Rightarrow> int \<Rightarrow> uploaded_files \<Rightarrow> (string, int) result \<times> uploaded_files"
where
  "PurgeFilesBefore walk_ok rm before fs =
     (if \<not> walk_ok then (Inl ''failed to walk directory'', fs)
      else (let (n, fs') = remove_each rm (map fst (filter (\<lambda>f. snd f < before) fs)) fs in (Inr n, fs')))"

definition num_to_remove :: "nat \<Rightarrow> int \<Rightarrow> int" where
  "num_to_remove len percent =
     (let n = (int len * percent) div 100 in if n = 0 \<and> 0 < percent then 1 else n)"

definition PurgeOldestPercentage ::
  "bool \<Rightarrow> (uploaded_files \<Rightarrow> uploaded_files) \<Rightarrow> (string \<Rightarrow> bool) \<Rightarrow> int \<Rightarrow> uploaded_files \<Rightarrow>
   (string, int) result \<times> uploaded_files"
where
  "PurgeOldestPercentage walk_ok srt rm percent fs =
     (if percent < 0 \<or> 100 < percent then (Inl ''invalid percentage'', fs)
      else if \<not> walk_ok then (Inl ''failed to walk directory'', fs)
      else if fs = [] then (Inr 0, fs)
      else (let (n, fs') = remove_each rm
                  (map fst (take (nat (num_to_remove (length fs) percent)) (srt fs))) fs
            in (Inr n, fs')))"

record cleanup_result =
  FilesRemoved :: int
  BytesFreed :: nat
  PressureBefore :: pressure_level
  PressureAfter :: pressure_level

record disk_env =
  dv_memory :: bool
  dv_usage :: "uploaded_files \<Rightarrow> f64 option"
  dv_walk_ok :: bool
  dv_sort :: "uploaded_files \<Rightarrow> uploaded_files"
  dv_rm :: "string \<Rightarrow> bool"

definition executeCleanupStrategy ::
  "disk_env \<Rightarrow> pressure_level \<Rightarrow> int \<Rightarrow> uploaded_files \<Rightarrow> (string, cleanup_result) result \<times> uploaded_files"
where
  "executeCleanupStrategy D initial cutoff fs =
     (case (if PressureMedium \<le> initial then PurgeFilesBefore (dv_walk_ok D) (dv_rm D) cutoff fs
            else (Inr 0, fs)) of
        (Inl e, fs1) \<Rightarrow> (Inl (''time-based purge failed: '' @ e), fs1)
      | (Inr n1, fs1) \<Rightarrow>
     (case dv_usage D fs1 of
        None \<Rightarrow> (Inl ''failed to get usage after cleanup'', fs1)
      | Some u1 \<Rightarrow>
          (let current = CalculatePressureLevel (dv_memory D) u1
           in if PressureHigh \<le> current then
                (case PurgeOldestPercentage (dv_walk_ok D) (dv_sort D) (dv_rm D)
                        (GetCleanupPercentage (dv_memory D) current) fs1 of
                   (Inl e, fs2) \<Rightarrow> (Inl (''percentage-based purge failed: '' @ e), fs2)
                 | (Inr n2, fs2) \<Rightarrow>
                     (case dv_usage D fs2 of
                        None \<Rightarrow> (Inl ''failed to get final usage'', fs2)
                      | Some u2 \<Rightarrow>
                          (Inr \<lparr>FilesRemoved = n1 + n2, BytesFreed = 0, PressureBefore = initial,
                                PressureAfter = CalculatePressureLevel (dv_memory D) u2\<rparr>, fs2)))
              else (Inr \<lparr>FilesRemoved = n1, BytesFreed = 0, PressureBefore = initial,
                         PressureAfter = current\<rparr>, fs1))))"

definition ManageDiskUsage ::
  "disk_env \<Rightarrow> int \<Rightarrow> uploaded_files \<Rightarrow> (string, unit) result \<times> uploaded_files"
where
  "ManageDiskUsage D cutoff fs =
     (case dv_usage D fs of
        None \<Rightarrow> (Inl ''failed to get disk usage'', fs)
      | Some u \<Rightarrow>
          (let pressure = CalculatePressureLevel (dv_memory D) u
           in if pressure = PressureNone \<or> pressure = PressureLow then (Inr (), fs)
              else (case executeCleanupStrategy D pressure cutoff fs of
                      (Inl e, fs') \<Rightarrow> (Inl (''cleanup failed: '' @ e), fs')
                    | (Inr res, fs') \<Rightarrow> (Inr (), fs'))))"

section \<open>What a purge removes\<close>

lemma remove_each_files: "snd (remove_each rm ps fs) = filter (\<lambda>f. \<not> (fst f \<in> set ps \<and> rm (fst f))) fs"
  by (induction ps arbitrary: fs) (auto simp: Let_def case_prod_beta intro!: filter_cong)

lemma remove_each_count: "fst (remove_each rm ps fs) = int (length (filter rm ps))"
  by (induction ps arbitrary: fs) (auto simp: Let_def case_prod_beta)

lemma PurgeFilesBefore_files:
  "snd (PurgeFilesBefore walk_ok rm before fs) =
     (if walk_ok then filter (\<lambda>f. \<not> (fst f \<in> fst ` {g \<in> set fs. snd g < before} \<and> rm (fst f))) fs else fs)"
  by (simp add: PurgeFilesBefore_def case_prod_beta remove_each_files)

definition sorts_by_time :: "(uploaded_files \<Rightarrow> uploaded_files) \<Rightarrow> bool" where
  "sorts_by_time srt \<longleftrightarrow> (\<forall>fs. mset (srt fs) = mset fs \<and> sorted (map snd (srt fs)))"

lemma take_oldest:
  assumes "sorted (map snd xs)" and "f \<in> set (take n xs)" and "g \<in> set (drop n xs)"
  shows "snd f \<le> snd g"
proof -
  have "sorted (map snd (take n xs @ drop n xs))" using assms(1) by simp
  then show ?thesis using assms(2,3) unfolding map_append sorted_append by auto
qed

lemma num_to_remove_bounds:
  assumes "0 < len" and "0 \<le> percent" "percent \<le> 100"
  shows "0 \<le> num_to_remove len percent \<and> num_to_remove len percent \<le> int len \<and>
         (0 < percent \<longrightarrow> 1 \<le> num_to_remove len percent)"
proof -
  have "int len * percent \<le> int len * 100" using assms(3) by (intro mult_left_mono) simp_all
  then have "(int len * percent) div 100 \<le> int len" by linarith
  moreover have "0 \<le> (int len * percent) div 100" using assms by (simp add: pos_imp_zdiv_nonneg_iff)
  ultimately show ?thesis using assms(1) by (auto simp: num_to_remove_def Let_def)
qed

text \<open>The purge by share, on a directory with distinct paths from which every removal succeeds.\<close>

lemma PurgeOldest_spec:
  assumes s: "sorts_by_time srt" and d: "distinct (map fst fs)" and ne: "fs \<noteq> []"
    and p: "0 \<le> percent" "percent \<le> 100" and rm: "\<And>q. rm q"
  shows "\<exists>gone kept. PurgeOldestPercentage True srt rm percent fs = (Inr (int (length gone)), kept) \<and>
    mset fs = mset gone + mset kept \<and> int (length gone) = num_to_remove (length fs) percent \<and>
    (\<forall>f \<in> set gone. \<forall>g \<in> set kept. snd f \<le> snd g)"
proof -
  let ?n = "nat (num_to_remove (length fs) percent)"
  let ?gone = "take ?n (srt fs)" and ?kept = "filter (\<lambda>f. fst f \<notin> fst ` set (take ?n (srt fs))) fs"
  have m: "mset (srt fs) = mset fs" and so: "sorted (map snd (srt fs))"
    using s by (simp_all add: sorts_by_time_def)
  have b: "0 \<le> num_to_remove (length fs) percent" "num_to_remove (length fs) percent \<le> int (length fs)"
    using num_to_remove_bounds [of "length fs" percent] ne p by simp_all
  have len: "length (srt fs) = length fs" using m by (metis size_mset)
  have dd: "distinct (map fst (srt fs))"
    using d m by (metis mset_eq_imp_distinct_iff mset_map)
  have out: "fst ` set (take ?n (srt fs)) \<inter> fst ` set (drop ?n (srt fs)) = {}"
    using dd append_take_drop_id [of ?n "srt fs"] by (metis distinct_append list.set_map map_append)
  have "mset ?kept = filter_mset (\<lambda>f. fst f \<notin> fst ` set ?gone) (mset (srt fs))"
    by (simp add: m)
  also have "\<dots> = filter_mset (\<lambda>f. fst f \<notin> fst ` set ?gone) (mset ?gone + mset (drop ?n (srt fs)))"
    by (metis append_take_drop_id mset_append)
  also have "\<dots> = mset (drop ?n (srt fs))"
  proof -
    have "filter (\<lambda>f. fst f \<notin> fst ` set ?gone) ?gone = []" by (auto simp: filter_empty_conv)
    moreover have "filter (\<lambda>f. fst f \<notin> fst ` set ?gone) (drop ?n (srt fs)) = drop ?n (srt fs)"
      using out by (intro filter_True) auto
    ultimately show ?thesis by (metis filter_union_mset mset_filter mset.simps(1) add_0)
  qed
  finally have kept: "mset ?kept = mset (drop ?n (srt fs))" .
  have "mset fs = mset ?gone + mset ?kept"
    unfolding kept by (metis append_take_drop_id m mset_append)
  moreover have "\<forall>f \<in> set ?gone. \<forall>g \<in> set ?kept. snd f \<le> snd g"
    using take_oldest [OF so] kept mset_eq_setD by blast
  moreover have "int (length ?gone) = num_to_remove (length fs) percent"
    using b len by simp
  moreover have "PurgeOldestPercentage True srt rm percent fs = (Inr (int (length ?gone)), ?kept)"
    using p ne by (simp add: PurgeOldestPercentage_def case_prod_beta remove_each_files remove_each_count rm)
  ultimately show ?thesis by blast
qed

lemma f_le_trans: "f_le a b \<Longrightarrow> f_le b c \<Longrightarrow> f_le a c"
  by (cases a; cases b; cases c) auto

lemma CalculatePressureLevel_mono:
  assumes "f_le a b"
  shows "CalculatePressureLevel isMemory a \<le> CalculatePressureLevel isMemory b"
  using f_le_trans [OF _ assms]
  by (auto simp: CalculatePressureLevel_def Let_def less_eq_pressure_level_def)

lemma ManageDiskUsage_removes:
  assumes u: "dv_usage D fs = Some u"
  shows "set (snd (ManageDiskUsage D cutoff fs)) \<subseteq> set fs \<and>
    (CalculatePressureLevel (dv_memory D) u < PressureMedium \<longrightarrow> snd (ManageDiskUsage D cutoff fs) = fs) \<and>
    ((\<forall>v. dv_usage D (snd (PurgeFilesBefore (dv_walk_ok D) (dv_rm D) cutoff fs)) = Some v \<longrightarrow>
        CalculatePressureLevel (dv_memory D) v < PressureHigh) \<longrightarrow>
     set fs - set (snd (ManageDiskUsage D cutoff fs)) \<subseteq> {f. snd f < cutoff \<or> (\<exists>g \<in> set fs. fst g = fst f \<and> snd g < cutoff)})"
proof -
  have sub1: "set (snd (PurgeFilesBefore w rm c xs)) \<subseteq> set xs" for w rm c xs
    by (auto simp: PurgeFilesBefore_files)
  have sub2: "set (snd (PurgeOldestPercentage w srt rm p xs)) \<subseteq> set xs" for w srt rm p xs
    by (auto simp: PurgeOldestPercentage_def case_prod_beta remove_each_files Let_def)
  have low: "p = PressureNone \<or> p = PressureLow \<longleftrightarrow> p < PressureMedium" for p
    by (cases p) (simp_all add: less_pressure_level_def)
  let ?p = "CalculatePressureLevel (dv_memory D) u"
  show ?thesis
  proof (cases "?p < PressureMedium")
    case True
    then show ?thesis using low [of ?p] by (simp add: ManageDiskUsage_def u Let_def)
  next
    case False
    obtain r1 fs1 where p1: "PurgeFilesBefore (dv_walk_ok D) (dv_rm D) cutoff fs = (r1, fs1)"
      by (cases "PurgeFilesBefore (dv_walk_ok D) (dv_rm D) cutoff fs")
    have s1: "set fs1 \<subseteq> set fs" using sub1 [of "dv_walk_ok D" "dv_rm D" cutoff fs] p1 by simp
    have old: "set fs - set fs1 \<subseteq> {f. snd f < cutoff \<or> (\<exists>g \<in> set fs. fst g = fst f \<and> snd g < cutoff)}"
    proof
      fix f assume f: "f \<in> set fs - set fs1"
      then have "f \<notin> set (snd (PurgeFilesBefore (dv_walk_ok D) (dv_rm D) cutoff fs))" using p1 by simp
      with f have "fst f \<in> fst ` {g \<in> set fs. snd g < cutoff}"
        by (auto simp: PurgeFilesBefore_files image_iff split: if_splits)
      then show "f \<in> {f. snd f < cutoff \<or> (\<exists>g \<in> set fs. fst g = fst f \<and> snd g < cutoff)}"
        by force
    qed
    have e: "snd (ManageDiskUsage D cutoff fs) = snd (executeCleanupStrategy D ?p cutoff fs)"
      using False low [of ?p] by (simp add: ManageDiskUsage_def u Let_def split: prod.splits sum.splits)
    have f: "executeCleanupStrategy D ?p cutoff fs =
        (case (r1, fs1) of
        (Inl e, fs1) \<Rightarrow> (Inl (''time-based purge failed: '' @ e), fs1)
      | (Inr n1, fs1) \<Rightarrow>
     (case dv_usage D fs1 of
        None \<Rightarrow> (Inl ''failed to get usage after cleanup'', fs1)
      | Some u1 \<Rightarrow>
          (let current = CalculatePressureLevel (dv_memory D) u1
           in if PressureHigh \<le> current then
                (case PurgeOldestPercentage (dv_walk_ok D) (dv_sort D) (dv_rm D)
                        (GetCleanupPercentage (dv_memory D) current) fs1 of
                   (Inl e, fs2) \<Rightarrow> (Inl (''percentage-based purge failed: '' @ e), fs2)
                 | (Inr n2, fs2) \<Rightarrow>
                     (case dv_usage D fs2 of
                        None \<Rightarrow> (Inl ''failed to get final usage'', fs2)
                      | Some u2 \<Rightarrow>
                          (Inr \<lparr>FilesRemoved = n1 + n2, BytesFreed = 0, PressureBefore = ?p,
                                PressureAfter = CalculatePressureLevel (dv_memory D) u2\<rparr>, fs2)))
              else (Inr \<lparr>FilesRemoved = n1, BytesFreed = 0, PressureBefore = ?p,
                         PressureAfter = current\<rparr>, fs1))))"
      unfolding executeCleanupStrategy_def p1 [symmetric] using False by (simp add: not_less)
    show ?thesis
    proof (cases "\<exists>n v. r1 = Inr n \<and> dv_usage D fs1 = Some v \<and> PressureHigh \<le> CalculatePressureLevel (dv_memory D) v")
      case True
      then obtain n v where v: "r1 = Inr n" "dv_usage D fs1 = Some v" "PressureHigh \<le> CalculatePressureLevel (dv_memory D) v"
        by blast
      obtain r2 fs2 where p2: "PurgeOldestPercentage (dv_walk_ok D) (dv_sort D) (dv_rm D)
          (GetCleanupPercentage (dv_memory D) (CalculatePressureLevel (dv_memory D) v)) fs1 = (r2, fs2)"
        by (cases "PurgeOldestPercentage (dv_walk_ok D) (dv_sort D) (dv_rm D)
          (GetCleanupPercentage (dv_memory D) (CalculatePressureLevel (dv_memory D) v)) fs1")
      have "snd (ManageDiskUsage D cutoff fs) = fs2"
        unfolding e f using v p2 by (simp add: Let_def split: sum.splits option.splits)
      moreover have "set fs2 \<subseteq> set fs1"
        using sub2 [of "dv_walk_ok D" "dv_sort D" "dv_rm D"
          "GetCleanupPercentage (dv_memory D) (CalculatePressureLevel (dv_memory D) v)" fs1] p2 by simp
      moreover have "\<not> CalculatePressureLevel (dv_memory D) v < PressureHigh" using v(3) by simp
      ultimately show ?thesis using s1 False v p1 by auto
    next
      case other: False
      then have "snd (ManageDiskUsage D cutoff fs) = fs1"
        unfolding e f by (cases r1) (auto simp: Let_def split: option.splits)
      then show ?thesis using s1 old False by auto
    qed
  qed
qed

section \<open>Properties\<close>

definition small_disk :: disk_env where
  "small_disk = \<lparr>dv_memory = False, dv_usage = (\<lambda>fs. Some (Fin (of_nat (30 * length fs)))), dv_walk_ok = True,
     dv_sort = sort_key snd, dv_rm = (\<lambda>_. True)\<rparr>"

text \<open>The purge by share removes exactly the oldest files: where removals succeed, the
  removed files are at least as old as every file kept, their number is the requested share
  of the directory, rounded down but at least one for a positive share, and no file is
  touched besides.\<close>

theorem purge_oldest_removes_oldest:
  assumes "sorts_by_time srt" and "distinct (map fst fs)" and "fs \<noteq> []"
    and "0 \<le> percent" "percent \<le> 100" and "\<And>q. rm q"
  shows "\<exists>gone kept. PurgeOldestPercentage True srt rm percent fs = (Inr (int (length gone)), kept) \<and>
    mset fs = mset gone + mset kept \<and> int (length gone) = num_to_remove (length fs) percent \<and>
    (\<forall>f \<in> set gone. \<forall>g \<in> set kept. snd f \<le> snd g)"
  by (rule PurgeOldest_spec [OF assms])

theorem purge_oldest_removes_oldest_witness:
  "\<exists>(gone :: uploaded_files) kept. PurgeOldestPercentage True (sort_key snd) (\<lambda>_. True) 25 [(''a'', 3), (''b'', 1), (''c'', 2)] =
      (Inr (int (length gone)), kept) \<and> length gone = 1"
proof -
  have "\<exists>gone kept. PurgeOldestPercentage True (sort_key snd) (\<lambda>_. True) 25 [(''a'', 3), (''b'', 1), (''c'', 2)] =
      (Inr (int (length gone)), kept) \<and>
    mset [(''a'', 3), (''b'', 1), (''c'', 2)] = mset gone + mset kept \<and>
    int (length gone) = num_to_remove (length [(''a'', 3 :: int), (''b'', 1), (''c'', 2)]) 25 \<and>
    (\<forall>f \<in> set gone. \<forall>g \<in> set kept. snd f \<le> snd g)"
    by (rule purge_oldest_removes_oldest) (simp_all add: sorts_by_time_def)
  then obtain gone :: uploaded_files and kept where
    "PurgeOldestPercentage True (sort_key snd) (\<lambda>_. True) 25 [(''a'', 3), (''b'', 1), (''c'', 2)] =
      (Inr (int (length gone)), kept)"
    "int (length gone) = num_to_remove (length [(''a'', 3 :: int), (''b'', 1), (''c'', 2)]) 25" by (elim exE conjE) (rule that)
  then show ?thesis by (intro exI [of _ gone] exI [of _ kept]) (simp add: num_to_remove_def)
qed

text \<open>C25: Cleaning up respects the pressure: below medium pressure nothing is removed, nothing is
  ever added, and unless the pressure is high after the purge by age, only files older than
  the cutoff are removed.\<close>

theorem manage_disk_respects_pressure:
  assumes "dv_usage D fs = Some u"
  shows "set (snd (ManageDiskUsage D cutoff fs)) \<subseteq> set fs \<and>
    (CalculatePressureLevel (dv_memory D) u < PressureMedium \<longrightarrow> snd (ManageDiskUsage D cutoff fs) = fs) \<and>
    ((\<forall>v. dv_usage D (snd (PurgeFilesBefore (dv_walk_ok D) (dv_rm D) cutoff fs)) = Some v \<longrightarrow>
        CalculatePressureLevel (dv_memory D) v < PressureHigh) \<longrightarrow>
     set fs - set (snd (ManageDiskUsage D cutoff fs)) \<subseteq> {f. snd f < cutoff \<or> (\<exists>g \<in> set fs. fst g = fst f \<and> snd g < cutoff)})"
  by (rule ManageDiskUsage_removes [OF assms])

theorem manage_disk_respects_pressure_witness:
  "snd (ManageDiskUsage small_disk 100 [(''a'', 3)]) = [(''a'', 3)]"
  using manage_disk_respects_pressure [of small_disk "[(''a'', 3)]" "Fin 30" 100]
  by (simp add: small_disk_def CalculatePressureLevel_def getThresholds_def less_pressure_level_def)

text \<open>The pressure level never falls when the reported usage rises, on either kind of
  storage; a usage that is not a number counts as no pressure.\<close>

theorem pressure_monotone:
  assumes "f_le a b"
  shows "CalculatePressureLevel isMemory a \<le> CalculatePressureLevel isMemory b \<and>
         CalculatePressureLevel isMemory F_NaN = PressureNone"
  using CalculatePressureLevel_mono [OF assms]
  by (simp add: CalculatePressureLevel_def getThresholds_def)

theorem pressure_monotone_witness:
  "CalculatePressureLevel True (Fin 61) \<le> CalculatePressureLevel True (Fin 79)"
  using pressure_monotone [of "Fin 61" "Fin 79" True] by simp

text \<open>Where \<open>statfs\<close> fails, a tmpfs mount whose path is only a textual prefix of the storage
  path makes the storage count as memory-backed: storage below \<open>/database\<close> is taken to be
  on the tmpfs at \<open>/data\<close>, and the share removed at high pressure doubles.\<close>

theorem tmpfs_prefix_misread:
  "IsMemoryBacked None (Some ''/database/metrics'') (Some [''tmpfs /data tmpfs rw 0 0'', ''/dev/sda1 / ext4 rw 0 0'']) \<and>
   GetCleanupPercentage True PressureHigh = 2 * GetCleanupPercentage False PressureHigh"
  by (simp add: IsMemoryBacked_def GetCleanupPercentage_def go_fields.simps go_space_def)

end
