(* ===== verification/Shipper_Service.thy ===== *)
theory Shipper_Service
  imports Metric_Shipper Disk_Manager Gator_Settings
begin

text \<open>
  The shipper as a service (\<open>Run\<close>, \<open>runShipper\<close>, \<open>Flush\<close> and \<open>Shutdown\<close> of
  \<open>app/domain/shipper/shipper.go\<close>, \<open>HandleDisk\<close> and \<open>getCurrentUsage\<close> of \<open>disk.go\<close>) and the shutdown
  protocol between the two programs of the agent (\<open>HandleShutdownEvents\<close> of
  \<open>app/functions/collector/main.go\<close> and \<open>app/functions/shipper/main.go\<close>).

  A run is a sequence of events, each with the environment of its cycle; between two events the
  directory changes in ways the shipper does not control, as the collector writes to it.
\<close>

section \<open>Disk usage\<close>

record cycle_env =
  cy_lock :: lock_outcome
  cy_ship :: ship_env
  cy_available :: "64 word option"
  cy_mtime :: "string \<Rightarrow> int"
  cy_stat :: "uploaded_files \<Rightarrow> store_usage option"
  cy_memory :: bool
  cy_walk_ok :: bool
  cy_sort :: "uploaded_files \<Rightarrow> uploaded_files"
  cy_rm :: "string \<Rightarrow> bool"
  cy_now :: int

definition getCurrentUsage :: "float_lib \<Rightarrow> 64 word \<Rightarrow> store_usage option \<Rightarrow> f64 option" where
  "getCurrentUsage L limit stat =
     (case GetUsage L limit stat of Inl e \<Rightarrow> None | Inr usage \<Rightarrow> Some (PercentUsed usage))"

text \<open>The files below the uploaded directory, as a walk lists them.\<close>

definition below_uploaded :: "string \<Rightarrow> string \<Rightarrow> bool" where
  "below_uploaded base p = prefix (path_join (uploaded_dir base) []) p"

definition uploaded_walk :: "string \<Rightarrow> (string \<Rightarrow> int) \<Rightarrow> file_system \<Rightarrow> uploaded_files" where
  "uploaded_walk base mtime fs =
     map (\<lambda>p. (p, mtime p)) (filter (below_uploaded base) (map fst (sorted_list_of_fmap fs)))"

text \<open>What the disk manager kept of the walked files stays in the directory.\<close>

definition kept_files :: "string \<Rightarrow> uploaded_files \<Rightarrow> file_system \<Rightarrow> file_system" where
  "kept_files base kept fs = fmfilter (\<lambda>p. \<not> below_uploaded base p \<or> p \<in> fst ` set kept) fs"

text \<open>The result is none where reading the available size panics.\<close>

definition HandleDisk ::
  "float_lib \<Rightarrow> cycle_env \<Rightarrow> disk_store \<Rightarrow> int \<Rightarrow> file_system \<Rightarrow> (string, unit) result option \<times> file_system"
where
  "HandleDisk L cy d cutoff fs =
     (case cy_available cy of
        None \<Rightarrow> (None, fs)
      | Some limit \<Rightarrow>
          (let dm = \<lparr>dv_memory = cy_memory cy, dv_usage = (\<lambda>files. getCurrentUsage L limit (cy_stat cy files)),
                     dv_walk_ok = cy_walk_ok cy, dv_sort = cy_sort cy, dv_rm = cy_rm cy\<rparr>
           in (case ManageDiskUsage dm cutoff (uploaded_walk (dirPath d) (cy_mtime cy) fs) of
                 (r, kept) \<Rightarrow> (Some r, kept_files (dirPath d) kept fs))))"

section \<open>Cycles\<close>

datatype cycle_end = Cycle_ok | Ship_failed go_error | Disk_failed string | Cycle_panicked

text \<open>None where the uploads never come back.\<close>

definition runShipper ::
  "float_lib \<Rightarrow> int \<Rightarrow> cycle_env \<Rightarrow> disk_store \<Rightarrow> file_system \<Rightarrow> (cycle_end \<times> file_system) option"
where
  "runShipper L olderThan cy d fs =
     (case ProcessFiles (cy_lock cy) (cy_ship cy) d fs of
        None \<Rightarrow> None
      | Some (Inl e, fs1, ab) \<Rightarrow> Some (Ship_failed e, fs1)
      | Some (Inr _, fs1, ab) \<Rightarrow>
          (case HandleDisk L cy d (cy_now cy - olderThan) fs1 of
             (None, fs2) \<Rightarrow> Some (Cycle_panicked, fs2)
           | (Some (Inl e), fs2) \<Rightarrow> Some (Disk_failed e, fs2)
           | (Some (Inr _), fs2) \<Rightarrow> Some (Cycle_ok, fs2)))"

definition shipper_Flush :: "cycle_env \<Rightarrow> disk_store \<Rightarrow> file_system \<Rightarrow> file_system option" where
  "shipper_Flush cy d fs =
     map_option (\<lambda>(r, fs', ab). fs') (ProcessFiles (cy_lock cy) (cy_ship cy) d fs)"

text \<open>The events of the loop; a shutdown by signal only cancels the context.\<close>

datatype run_event = Context_done cycle_env | Signal_received | Tick cycle_env

fun event_env :: "run_event \<Rightarrow> cycle_env option" where
  "event_env (Context_done cy) = Some cy"
| "event_env Signal_received = None"
| "event_env (Tick cy) = Some cy"

datatype run_end = Create_failed | Still_running | Stopped_flushed | Stopped_signal

type_synonym outside_change = "file_system \<Rightarrow> file_system"

fun run_loop ::
  "float_lib \<Rightarrow> int \<Rightarrow> disk_store \<Rightarrow> (outside_change \<times> run_event) list \<Rightarrow> file_system \<Rightarrow>
   (run_end \<times> file_system) option"
where
  "run_loop L older d [] fs = Some (Still_running, fs)"
| "run_loop L older d ((g, Context_done cy) # evs) fs =
     map_option (\<lambda>fs'. (Stopped_flushed, fs')) (shipper_Flush cy d (g fs))"
| "run_loop L older d ((g, Signal_received) # evs) fs = Some (Stopped_signal, g fs)"
| "run_loop L older d ((g, Tick cy) # evs) fs =
     (case runShipper L older cy d (g fs) of
        None \<Rightarrow> None
      | Some (_, fs') \<Rightarrow> run_loop L older d evs fs')"

definition Run ::
  "float_lib \<Rightarrow> int \<Rightarrow> disk_store \<Rightarrow> bool \<Rightarrow> cycle_env \<Rightarrow> (outside_change \<times> run_event) list \<Rightarrow> file_system \<Rightarrow>
   (run_end \<times> file_system) option"
where
  "Run L older d mkdir_ok first evs fs =
     (if \<not> mkdir_ok then Some (Create_failed, fs)
      else (case runShipper L older first d fs of
              None \<Rightarrow> None
            | Some (_, fs') \<Rightarrow> run_loop L older d evs fs'))"

section \<open>The shutdown protocol\<close>

definition ShutdownMarkerFilename :: string where
  "ShutdownMarkerFilename = ''collector-shutdown-complete''"

definition marker_path :: "string \<Rightarrow> string" where
  "marker_path base = path_join base ShutdownMarkerFilename"

text \<open>The collector flushes its stores one after the other, whatever comes of it, and leaves a marker.\<close>

definition collector_shutdown :: "store_env \<Rightarrow> store_env \<Rightarrow> bool \<Rightarrow> pair_world \<Rightarrow> pair_world" where
  "collector_shutdown v1 v2 write_ok w =
     (case snd (flush2 v2 (snd (flush1 v1 w))) of
        (d1, d2, fs) \<Rightarrow> (d1, d2, if write_ok then fmupd (marker_path (dirPath d1)) (F_text ''done'') fs else fs))"

text \<open>The shipper polls for the marker: \<open>seen i\<close> is the outcome of the \<open>i\<close>th look, \<open>now i\<close> the time after
  it, a hundred milliseconds of sleep lying between two of them.\<close>

definition ShutdownGracePeriod :: int where "ShutdownGracePeriod = 10000"

partial_function (option) poll_marker ::
  "(nat \<Rightarrow> bool) \<Rightarrow> (nat \<Rightarrow> int) \<Rightarrow> int \<Rightarrow> nat \<Rightarrow> (bool \<times> nat) option"
where
  "poll_marker seen now deadline i =
     (if seen i then Some (True, i)
      else if deadline < now i then Some (False, i)
      else poll_marker seen now deadline (Suc i))"

definition waitForCollectorShutdown ::
  "(nat \<Rightarrow> bool) \<Rightarrow> (nat \<Rightarrow> int) \<Rightarrow> int \<Rightarrow> int \<Rightarrow> (bool \<times> nat) option"
where
  "waitForCollectorShutdown seen now start maxWait = poll_marker seen now (start + maxWait) 0"

section \<open>Facts about cycles\<close>

lemma below_uploaded_contains: "below_uploaded base p \<Longrightarrow> go_contains p UploadedSubDirectory"
proof -
  assume "below_uploaded base p"
  then obtain zs where "p = path_join (uploaded_dir base) [] @ zs" by (auto simp: below_uploaded_def prefix_def)
  then have "p = (base @ ''/'') @ UploadedSubDirectory @ (''/'' @ zs)" by (simp add: path_join_def uploaded_dir_def)
  then show ?thesis unfolding go_contains_iff by blast
qed

lemma kept_files_lookup:
  "\<not> below_uploaded base q \<Longrightarrow> fmlookup (kept_files base kept fs) q = fmlookup fs q"
  by (auto simp: kept_files_def)

lemma HandleDisk_lookup:
  "\<not> below_uploaded (dirPath d) q \<Longrightarrow> fmlookup (snd (HandleDisk L cy d cutoff fs)) q = fmlookup fs q"
  by (auto simp: HandleDisk_def Let_def kept_files_lookup split: option.splits prod.splits)

text \<open>What a cycle, or a flush, can have done to a file outside the uploaded directory.\<close>

definition shipped_by :: "cycle_env \<Rightarrow> string \<Rightarrow> bool" where
  "shipped_by cy q \<longleftrightarrow> (\<exists>url. UploadFile (se_upload (cy_ship cy) (q, url)) = [])"

lemma ProcessFiles_keeps:
  assumes "ProcessFiles lo E d fs = Some (r, fs', ab)" and "\<not> go_contains q UploadedSubDirectory"
    and "fs_exists q fs" and "\<not> (\<exists>url. UploadFile (se_upload E (q, url)) = [])"
  shows "fmlookup fs' q = fmlookup fs q"
  using ProcessFiles_accounted [OF assms(1)] assms(2-4) unfolding accounted_def by blast

lemma runShipper_keeps:
  assumes "runShipper L older cy d fs = Some (e, fs')" and "\<not> go_contains q UploadedSubDirectory"
    and "fs_exists q fs" and "\<not> shipped_by cy q"
  shows "fmlookup fs' q = fmlookup fs q"
proof -
  obtain r fs1 ab where p: "ProcessFiles (cy_lock cy) (cy_ship cy) d fs = Some (r, fs1, ab)"
    using assms(1) by (auto simp: runShipper_def split: option.splits)
  have "fmlookup fs1 q = fmlookup fs q"
    using ProcessFiles_keeps [OF p assms(2,3)] assms(4) by (simp add: shipped_by_def)
  moreover have "\<not> below_uploaded (dirPath d) q" using below_uploaded_contains assms(2) by blast
  ultimately show ?thesis
    using assms(1) p HandleDisk_lookup [of d q L cy "cy_now cy - older" fs1]
    by (auto simp: runShipper_def split: sum.splits prod.splits option.splits)
qed

definition event_keeps :: "string \<Rightarrow> outside_change \<times> run_event \<Rightarrow> bool" where
  "event_keeps q ev \<longleftrightarrow> (\<forall>fs. fmlookup (fst ev fs) q = fmlookup fs q)"

definition event_ships :: "string \<Rightarrow> outside_change \<times> run_event \<Rightarrow> bool" where
  "event_ships q ev \<longleftrightarrow> (case event_env (snd ev) of None \<Rightarrow> False | Some cy \<Rightarrow> shipped_by cy q)"

lemma run_loop_keeps:
  assumes "run_loop L older d evs fs = Some (e, fs')" and "\<not> go_contains q UploadedSubDirectory"
    and "fs_exists q fs" and "list_all (event_keeps q) evs" and "\<not> list_ex (event_ships q) evs"
  shows "fmlookup fs' q = fmlookup fs q"
  using assms(1,3-5)
proof (induction L older d evs fs rule: run_loop.induct)
  case (2 L older d g cy evs fs)
  then obtain r ab where "ProcessFiles (cy_lock cy) (cy_ship cy) d (g fs) = Some (r, fs', ab)"
    by (auto simp: shipper_Flush_def)
  from ProcessFiles_keeps [OF this assms(2)] 2 show ?case
    by (simp add: event_keeps_def event_ships_def shipped_by_def fs_exists_def)
next
  case (4 L older d g cy evs fs)
  then obtain e1 fs1 where r: "runShipper L older cy d (g fs) = Some (e1, fs1)"
    by (auto split: option.splits)
  have k: "fmlookup fs1 q = fmlookup (g fs) q"
    using runShipper_keeps [OF r assms(2)] 4
    by (simp add: event_keeps_def event_ships_def fs_exists_def)
  then show ?case
    using 4 r by (simp add: event_keeps_def fs_exists_def)
qed (auto simp: event_keeps_def)

lemma Run_keeps:
  assumes "Run L older d ok first evs fs = Some (e, fs')" and "\<not> go_contains q UploadedSubDirectory"
    and "fs_exists q fs" and "list_all (event_keeps q) evs"
    and "\<not> shipped_by first q" and "\<not> list_ex (event_ships q) evs"
  shows "fmlookup fs' q = fmlookup fs q"
proof (cases ok)
  case True
  then obtain e1 fs1 where r: "runShipper L older first d fs = Some (e1, fs1)"
    and l: "run_loop L older d evs fs1 = Some (e, fs')"
    using assms(1) by (auto simp: Run_def split: option.splits)
  have "fmlookup fs1 q = fmlookup fs q" by (rule runShipper_keeps [OF r assms(2,3,5)])
  with run_loop_keeps [OF l assms(2) _ assms(4,6)] assms(3) show ?thesis by (simp add: fs_exists_def)
qed (use assms in \<open>simp add: Run_def\<close>)

lemma poll_marker_ends:
  assumes "\<And>i. start + 100 * int i \<le> now i" and "0 \<le> maxWait"
  shows "i \<le> nat (maxWait div 100) + 1 \<Longrightarrow>
    \<exists>b k. poll_marker seen now (start + maxWait) i = Some (b, k) \<and> k \<le> nat (maxWait div 100) + 1 \<and>
      (b \<longrightarrow> seen k) \<and> (\<not> b \<longrightarrow> (\<forall>j. i \<le> j \<and> j \<le> k \<longrightarrow> \<not> seen j))"
proof (induction "nat (maxWait div 100) + 1 - i" arbitrary: i)
  case 0
  then have i: "i = nat (maxWait div 100) + 1" by simp
  then have "start + maxWait < now i" using assms(1) [of i] assms(2) by linarith
  then show ?case using i by (subst poll_marker.simps) (auto dest: antisym)
next
  case (Suc n)
  show ?case
  proof (cases "seen i \<or> start + maxWait < now i")
    case True
    then show ?thesis using Suc.prems by (subst poll_marker.simps) (auto dest: antisym)
  next
    case False
    have "n = nat (maxWait div 100) + 1 - Suc i" "Suc i \<le> nat (maxWait div 100) + 1"
      using Suc.hyps(2) by simp_all
    from Suc.hyps(1) [OF this] obtain b k where
      "poll_marker seen now (start + maxWait) (Suc i) = Some (b, k)" "k \<le> nat (maxWait div 100) + 1"
      "b \<longrightarrow> seen k" "\<not> b \<longrightarrow> (\<forall>j. Suc i \<le> j \<and> j \<le> k \<longrightarrow> \<not> seen j)" by blast
    moreover from this(4) have "\<not> b \<longrightarrow> (\<forall>j. i \<le> j \<and> j \<le> k \<longrightarrow> \<not> seen j)"
      using False by (metis Suc_leI le_neq_implies_less)
    ultimately show ?thesis using False by (subst poll_marker.simps) auto
  qed
qed

lemma marker_not_finished: "\<not> finished_path d (marker_path base)"
proof
  assume "finished_path d (marker_path base)"
  then obtain a b where "marker_path base = path_join (dirPath d) (finished_name (content_base d) a b)"
    by (auto simp: finished_path_def)
  then have "last (marker_path base) = last (path_join (dirPath d) (finished_name (content_base d) a b))" by simp
  then show False
    by (simp add: marker_path_def path_join_def ShutdownMarkerFilename_def finished_name_def content_ext_def)
qed

lemma marker_durable:
  "disk_durable (d, fmupd (marker_path base) c fs) = disk_durable (d, fs)"
  using rows_finished [of d] marker_not_finished [of d base]
  by (simp add: disk_durable_def)

lemma collector_shutdown_durable:
  assumes I: "pair_I w" and a1: "disk_admissible v1 (first_view w)"
    and a2: "disk_admissible v2 (second_view (snd (flush1 v1 w)))"
    and ok: "is_ok (fst (flush1 v1 w))" "is_ok (fst (flush2 v2 (snd (flush1 v1 w))))"
  shows "disk_durable (first_view (collector_shutdown v1 v2 write_ok w)) =
      disk_durable (first_view w) + disk_buffered (first_view w) \<and>
    disk_durable (second_view (collector_shutdown v1 v2 write_ok w)) =
      disk_durable (second_view w) + disk_buffered (second_view w)"
proof -
  let ?w1 = "snd (flush1 v1 w)" and ?w2 = "snd (flush2 v2 (snd (flush1 v1 w)))"
  have f1: "flush1 v1 w = (Inr (), ?w1)" using ok(1) by (cases "flush1 v1 w") (auto simp: is_ok_iff)
  have f2: "flush2 v2 ?w1 = (Inr (), ?w2)" using ok(2) by (cases "flush2 v2 ?w1") (auto simp: is_ok_iff)
  have I1: "pair_I ?w1" using stores.cost.flush_I [OF I] .
  have one: "disk_durable (first_view ?w1) = disk_durable (first_view w) + disk_buffered (first_view w)"
    using stores.cost.flush_ok [OF I a1 f1] by blast
  have two: "disk_durable (second_view ?w2) = disk_durable (second_view ?w1) + disk_buffered (second_view ?w1)"
    using stores.obs.flush_ok [OF I1 a2 f2] by blast
  have keep: "disk_durable (first_view ?w2) = disk_durable (first_view ?w1)"
    "disk_durable (second_view ?w1) = disk_durable (second_view w)"
    "disk_buffered (second_view ?w1) = disk_buffered (second_view w)"
    using stores.frame2_flush [OF I1] stores.frame1_flush [OF I] by blast+
  obtain d1 d2 fs where e: "?w2 = (d1, d2, fs)" by (cases ?w2)
  have "disk_durable (first_view (collector_shutdown v1 v2 write_ok w)) = disk_durable (first_view ?w2)"
    "disk_durable (second_view (collector_shutdown v1 v2 write_ok w)) = disk_durable (second_view ?w2)"
    by (simp_all add: collector_shutdown_def e first_view_def second_view_def marker_durable)
  with one two keep show ?thesis by simp
qed

section \<open>Properties\<close>

definition sample_cycle :: cycle_env where
  "sample_cycle = \<lparr>cy_lock = Lock_taken, cy_ship = granting_env, cy_available = Some 0, cy_mtime = (\<lambda>_. 0),
     cy_stat = (\<lambda>_. Some \<lparr>Total = 100, Available = 90, Used = 10, PercentUsed = Fin 10, BlockSize = 1\<rparr>),
     cy_memory = False, cy_walk_ok = True, cy_sort = sort_key snd, cy_rm = (\<lambda>_. True), cy_now = 0\<rparr>"

definition refused_cycle :: cycle_env where
  "refused_cycle = sample_cycle\<lparr>cy_ship := granting_env\<lparr>se_shipper_id := None,
     se_upload := (\<lambda>_. ok_upload\<lparr>ue_read_ok := False\<rparr>)\<rparr>\<rparr>"

lemma refused_cycle_ships_nothing: "\<not> shipped_by refused_cycle q"
  by (simp add: shipped_by_def refused_cycle_def granting_env_def ok_upload_def UploadFile_def)

lemma refused_ProcessFiles:
  assumes "GetFiles d fs [] \<noteq> []"
  shows "ProcessFiles Lock_taken (cy_ship refused_cycle) d fs = Some (Inl [Some ErrInvalidShipperID], fs, [])"
proof -
  have "Chunk (GetFiles d fs []) filesChunkSize = take 200 (GetFiles d fs []) # chunks_of 200 (drop 200 (GetFiles d fs []))"
    using assms by (simp add: Chunk_def filesChunkSize_def) (subst chunks_of.simps, simp)
  with assms show ?thesis
    by (simp add: ProcessFiles_def HandleRequest_def AllocatePresignedURLs_def refused_cycle_def granting_env_def list_all_iff)
qed

lemma one_cost_file_listed: "GetFiles (sample_store 10) one_cost_file [] \<noteq> []"
proof -
  have "path_join (dirPath (sample_store 10)) (finished_name (content_base (sample_store 10)) 3 4)
      \<in> set (GetFiles (sample_store 10) one_cost_file [])"
    unfolding GetFiles_finished [OF sample_naming]
    by (simp add: one_cost_file_def fs_exists_def sample_store_def content_base_def)
  then show ?thesis by auto
qed

text \<open>C5: Over a whole run of the shipper, with its cycles, cleanups, the flush at the end and whatever the
  collector writes in between, a file outside the uploaded directory that nobody else touches is at
  the end as it was at the start, unless one of the cycles uploaded it successfully.\<close>

theorem service_never_loses:
  assumes "Run L older d mkdir_ok first evs fs = Some (e, fs')"
    and "fs_exists q fs" and "\<not> go_contains q UploadedSubDirectory" and "list_all (event_keeps q) evs"
  shows "fmlookup fs' q = fmlookup fs q \<or> shipped_by first q \<or> list_ex (event_ships q) evs"
  using Run_keeps [OF assms(1,3,2,4)] by blast

theorem service_never_loses_witness:
  "\<exists>e fs'. Run exact_disk 0 (sample_store 10) True refused_cycle [((\<lambda>fs. fs), Tick refused_cycle), ((\<lambda>fs. fs), Signal_received)]
      one_cost_file = Some (e, fs') \<and>
    fmlookup fs' (path_join ''/d'' (finished_name ''metrics'' 3 4)) = Some (F_rows [])"
proof -
  let ?q = "path_join ''/d'' (finished_name ''metrics'' 3 4)"
  let ?evs = "[((\<lambda>fs. fs), Tick refused_cycle), ((\<lambda>fs. fs), Signal_received)] :: (outside_change \<times> run_event) list"
  have r: "runShipper exact_disk 0 refused_cycle (sample_store 10) one_cost_file =
      Some (Ship_failed [Some ErrInvalidShipperID], one_cost_file)"
    using refused_ProcessFiles [OF one_cost_file_listed]
    by (simp add: runShipper_def refused_cycle_def sample_cycle_def)
  have run: "Run exact_disk 0 (sample_store 10) True refused_cycle ?evs one_cost_file = Some (Stopped_signal, one_cost_file)"
    by (simp add: Run_def r)
  have ex: "fs_exists ?q one_cost_file" by (simp add: one_cost_file_def fs_exists_def)
  have plain: "\<not> go_contains ?q UploadedSubDirectory"
  proof -
    have "?q \<in> set (GetFiles (sample_store 10) one_cost_file [])"
      using GetFiles_finished [OF sample_naming, of 10 3 4 one_cost_file] ex
      by (simp add: sample_store_def content_base_def)
    with one_cost_file_plain show ?thesis by blast
  qed
  have "fmlookup one_cost_file ?q = fmlookup one_cost_file ?q \<or> shipped_by refused_cycle ?q \<or> list_ex (event_ships ?q) ?evs"
    by (rule service_never_loses [OF run ex plain]) (simp add: event_keeps_def)
  with run show ?thesis by (auto simp: one_cost_file_def)
qed

text \<open>Nothing is cleaned up while shipping fails: a cycle whose uploads report an error leaves the
  uploaded directory to grow, whatever its size and the pressure on the disk, and so does every
  cycle under a negative amount of available storage, which ends in a recovered panic.\<close>

theorem failed_shipping_skips_cleanup:
  assumes "ProcessFiles (cy_lock cy) (cy_ship cy) d fs = Some (r, fs1, ab)"
  shows "(\<forall>e. r = Inl e \<longrightarrow> runShipper L older cy d fs = Some (Ship_failed e, fs1)) \<and>
    (\<forall>v s. cy_available cy = GetAvailableSizeBytes v s \<and> AvailableStorage (st_database s) \<noteq> [] \<and>
        (\<exists>q. gv_quantity v (AvailableStorage (st_database s)) = Some q \<and> q < 0) \<and> r = Inr () \<longrightarrow>
      runShipper L older cy d fs = Some (Cycle_panicked, fs1))"
  using assms by (auto simp: runShipper_def HandleDisk_def GetAvailableSizeBytes_def)

theorem failed_shipping_skips_cleanup_witness:
  "runShipper L older (refused_cycle\<lparr>cy_stat := (\<lambda>_. Some \<lparr>Total = 100, Available = 0, Used = 100, PercentUsed = Fin 100, BlockSize = 1\<rparr>)\<rparr>)
     (sample_store 10) one_cost_file = Some (Ship_failed [Some ErrInvalidShipperID], one_cost_file)"
  using failed_shipping_skips_cleanup [of "refused_cycle\<lparr>cy_stat := (\<lambda>_. Some \<lparr>Total = 100, Available = 0, Used = 100,
      PercentUsed = Fin 100, BlockSize = 1\<rparr>)\<rparr>" "sample_store 10" one_cost_file] refused_ProcessFiles [OF one_cost_file_listed]
  by (simp add: refused_cycle_def sample_cycle_def)

definition shutdown_world :: pair_world where
  "shutdown_world = ((sample_store 10)\<lparr>writer := Some [JNull], rowCount := 1\<rparr>,
     (sample_store 10)\<lparr>contentIdentifier := ''observability''\<rparr>, fmempty)"

lemma shutdown_world_I: "pair_I shutdown_world"
proof -
  have "disk_I ((sample_store 10)\<lparr>writer := Some [JNull], rowCount := 1\<rparr>, fmempty)"
    "disk_I ((sample_store 10)\<lparr>contentIdentifier := ''observability''\<rparr>, fmempty)"
    by (auto simp: disk_I_def sample_store_def naming_ok_def content_base_def makeFileName_def)
  then show ?thesis
    by (simp add: pair_I_def shutdown_world_def first_view_def second_view_def)
      (simp add: content_base_def sample_store_def)
qed

lemma shutdown_world_flush:
  "is_ok (fst (flush1 (sample_env 9) shutdown_world))"
  "is_ok (fst (flush2 (sample_env 9) (snd (flush1 (sample_env 9) shutdown_world))))"
  "disk_admissible (sample_env 9) (second_view (snd (flush1 (sample_env 9) shutdown_world)))"
  by (simp_all add: flush1_def flush2_def on_first_def on_second_def disk_flush_def flushUnlocked_def newFileWriter_def
      shutdown_world_def sample_store_def sample_env_def sample_create_def fs_create_def fs_rename_def fs_exists_def
      disk_admissible_def second_view_def finished_name_def makeFileName_def content_base_def Let_def
      path_join_def split: option.splits)

text \<open>C14: Shutting the agent down loses no metric and ships none: when the collector's two flushes succeed
  and neither finishes its file under a name that is already taken (such a file would be replaced, see
  \<open>same_millisecond_overwrites\<close>), every row that its stores had buffered is in a finished file beside those
  that were there, the marker adds nothing to them, and the shipper, which stops at the signal without a last
  flush, leaves those files where they are.\<close>

theorem shutdown_keeps_metrics:
  assumes "pair_I w" and "disk_admissible v1 (first_view w)"
    and "disk_admissible v2 (second_view (snd (flush1 v1 w)))"
    and "is_ok (fst (flush1 v1 w))" "is_ok (fst (flush2 v2 (snd (flush1 v1 w))))"
    and "collector_shutdown v1 v2 write_ok w = (d1, d2, fs)"
  shows "\<exists>fs'. run_loop L older d ((\<lambda>_. fs, Signal_received) # evs) fs0 = Some (Stopped_signal, fs') \<and>
    disk_durable (d1, fs') = disk_durable (first_view w) + disk_buffered (first_view w) \<and>
    disk_durable (d2, fs') = disk_durable (second_view w) + disk_buffered (second_view w)"
  using collector_shutdown_durable [OF assms(1-5), of write_ok] assms(6)
  by (simp add: first_view_def second_view_def)

theorem shutdown_keeps_metrics_witness:
  "\<exists>d1 d2 fs. collector_shutdown (sample_env 9) (sample_env 9) True shutdown_world = (d1, d2, fs) \<and>
     run_loop exact_disk 0 (sample_store 10) [(\<lambda>_. fs, Signal_received)] fmempty = Some (Stopped_signal, fs) \<and> disk_durable (d1, fs) = {#JNull#}"
proof -
  obtain d1 d2 fs where c: "collector_shutdown (sample_env 9) (sample_env 9) True shutdown_world = (d1, d2, fs)"
    by (cases "collector_shutdown (sample_env 9) (sample_env 9) True shutdown_world")
  have a: "disk_admissible (sample_env 9) (first_view shutdown_world)"
    by (simp add: disk_admissible_def first_view_def shutdown_world_def fs_exists_def)
  have z: "disk_durable (first_view shutdown_world) = {#}" "disk_buffered (first_view shutdown_world) = {#JNull#}"
    by (simp_all add: disk_durable_def rows_where_def first_view_def shutdown_world_def disk_buffered_def)
  from shutdown_keeps_metrics [OF shutdown_world_I a shutdown_world_flush(3,1,2) c, of exact_disk 0 "sample_store 10" "[]" fmempty] z c
  show ?thesis by auto
qed

text \<open>Waiting for the collector ends: if a hundred milliseconds or more pass between two looks, the
  shipper looks at most 102 times for the marker in its grace period of ten seconds, and it reports the
  marker exactly if one of these looks saw it.  A marker left over from an earlier run is seen at the
  first look, whatever the collector is doing.\<close>

theorem wait_for_collector_ends:
  assumes "\<And>i. start + 100 * int i \<le> now i"
  shows "\<exists>b k. waitForCollectorShutdown seen now start ShutdownGracePeriod = Some (b, k) \<and> k \<le> 101 \<and>
    (b \<longleftrightarrow> (\<exists>j \<le> k. seen j)) \<and> (if seen 0 then b \<and> k = 0 else True)"
proof -
  obtain b k where w: "waitForCollectorShutdown seen now start ShutdownGracePeriod = Some (b, k)" "k \<le> 101"
    "b \<longrightarrow> seen k" "\<not> b \<longrightarrow> (\<forall>j \<le> k. \<not> seen j)"
    using poll_marker_ends [OF assms, where maxWait = ShutdownGracePeriod and i = 0 and seen = seen]
    by (auto simp: waitForCollectorShutdown_def ShutdownGracePeriod_def)
  moreover have "seen 0 \<Longrightarrow> b \<and> k = 0"
    using w(1) by (simp add: waitForCollectorShutdown_def poll_marker.simps [of _ _ _ 0])
  ultimately show ?thesis by (intro exI [of _ b] exI [of _ k]) auto
qed

theorem wait_for_collector_ends_witness:
  "\<exists>b k. waitForCollectorShutdown (\<lambda>i. i = 5) (\<lambda>i. 100 * int i) 0 ShutdownGracePeriod = Some (b, k) \<and> k \<le> 101"
  using wait_for_collector_ends [of 0 "\<lambda>i. 100 * int i" "\<lambda>i. i = 5"] by auto

end
