(* ===== verification/Error_Rate.thy ===== *)
theory Error_Rate
  imports Go_Float
begin

text \<open>
  The error-rate tracker (\<open>app/http/middleware/errorrate.go\<close>), which the health checks of the collector
  ask whether too many answers of late were server errors, and the middleware that feeds it.

  A call takes the time its clock returns.  Quotients are of float64, with the rounding of
  \<open>Go_Float\<close>.  The mutex makes each call one step; the tracker's calls are a sequence of them.
\<close>

section \<open>The tracker\<close>

record error_event =
  ev_at :: int
  ev_failure :: bool

text \<open>\<open>et_last_unhealthy\<close> is none for Go's zero time.\<close>

record error_tracker =
  et_window :: int
  et_events :: "error_event list"
  et_last_unhealthy :: "int option"

definition NewErrorRateTracker :: "int \<Rightarrow> error_tracker" where
  "NewErrorRateTracker window = \<lparr>et_window = window, et_events = [], et_last_unhealthy = None\<rparr>"

definition statusCodesEnd :: int where "statusCodesEnd = 600"

definition isFailureStatus :: "int \<Rightarrow> bool" where
  "isFailureStatus code = (500 \<le> code \<and> code < statusCodesEnd)"

definition prune :: "int \<Rightarrow> error_tracker \<Rightarrow> error_tracker" where
  "prune now t =
     (let cutoff = now - et_window t
      in t\<lparr>et_events := dropWhile (\<lambda>e. \<not> cutoff < ev_at e) (et_events t)\<rparr>)"

definition Record :: "int \<Rightarrow> int \<Rightarrow> error_tracker \<Rightarrow> error_tracker" where
  "Record now statusCode t =
     (let t' = prune now t
      in t'\<lparr>et_events := et_events t' @ [\<lparr>ev_at = now, ev_failure = isFailureStatus statusCode\<rparr>]\<rparr>)"

text \<open>Whether the events counted are taken for healthy.\<close>

definition rate_ok :: "float_lib \<Rightarrow> f64 \<Rightarrow> int \<Rightarrow> error_event list \<Rightarrow> bool" where
  "rate_ok L rateThreshold minFailures es =
     (let tot = length es; failures = length (filter ev_failure es)
      in if tot = 0 then True
         else if int failures < minFailures then True
         else f_le (f_div L (Fin (of_nat failures)) (Fin (of_nat tot))) rateThreshold)"

definition evaluateLocked ::
  "float_lib \<Rightarrow> int \<Rightarrow> f64 \<Rightarrow> int \<Rightarrow> error_tracker \<Rightarrow> bool \<times> error_tracker"
where
  "evaluateLocked L now rateThreshold minFailures t =
     (let t' = prune now t
      in if rate_ok L rateThreshold minFailures (et_events t') then (True, t')
         else (False, t'\<lparr>et_last_unhealthy := Some now\<rparr>))"

definition Healthy :: "float_lib \<Rightarrow> int \<Rightarrow> f64 \<Rightarrow> int \<Rightarrow> error_tracker \<Rightarrow> bool \<times> error_tracker" where
  "Healthy L now rateThreshold minFailures t = evaluateLocked L now rateThreshold minFailures t"

text \<open>\<open>now2\<close> is the second reading of the clock.\<close>

definition HealthyWithinCooldown ::
  "float_lib \<Rightarrow> int \<Rightarrow> int \<Rightarrow> f64 \<Rightarrow> int \<Rightarrow> int \<Rightarrow> error_tracker \<Rightarrow> bool \<times> error_tracker"
where
  "HealthyWithinCooldown L now now2 rateThreshold minFailures cooldown t =
     (let (ok, t') = evaluateLocked L now rateThreshold minFailures t
      in if \<not> ok then (False, t')
         else (case et_last_unhealthy t' of
                 None \<Rightarrow> (True, t')
               | Some u \<Rightarrow> (cooldown < now2 - u, t')))"

text \<open>The middleware around a handler, whose outcome is a status or a panic; a panic is recorded and
  goes on.\<close>

datatype handler_outcome = Served int | Handler_panic

definition ErrorRateMiddleware :: "int \<Rightarrow> handler_outcome \<Rightarrow> error_tracker \<Rightarrow> handler_outcome \<times> error_tracker" where
  "ErrorRateMiddleware now out t =
     (case out of
        Served status \<Rightarrow> (Served status, Record now status t)
      | Handler_panic \<Rightarrow> (Handler_panic, Record now 500 t))"

section \<open>Sequences of calls\<close>

datatype tracker_call =
    Call_record int int
  | Call_healthy int f64 int
  | Call_cooldown int int f64 int int

fun call_time :: "tracker_call \<Rightarrow> int" where
  "call_time (Call_record now code) = now"
| "call_time (Call_healthy now thr m) = now"
| "call_time (Call_cooldown now now2 thr m cd) = now"

fun tracker_step :: "float_lib \<Rightarrow> tracker_call \<Rightarrow> error_tracker \<Rightarrow> error_tracker" where
  "tracker_step L (Call_record now code) t = Record now code t"
| "tracker_step L (Call_healthy now thr m) t = snd (Healthy L now thr m t)"
| "tracker_step L (Call_cooldown now now2 thr m cd) t = snd (HealthyWithinCooldown L now now2 thr m cd t)"

text \<open>Everything that was recorded.\<close>

fun recorded :: "tracker_call list \<Rightarrow> error_event list" where
  "recorded [] = []"
| "recorded (Call_record now code # cs) = \<lparr>ev_at = now, ev_failure = isFailureStatus code\<rparr> # recorded cs"
| "recorded (_ # cs) = recorded cs"

definition in_window :: "int \<Rightarrow> int \<Rightarrow> error_event \<Rightarrow> bool" where
  "in_window window now e = (now - window < ev_at e)"

lemma recorded_append: "recorded (xs @ ys) = recorded xs @ recorded ys"
  by (induction xs rule: recorded.induct) simp_all

lemma prune_window [simp]: "et_window (prune now t) = et_window t"
  by (simp add: prune_def Let_def)

lemma dropWhile_sorted:
  "sorted (map ev_at es) \<Longrightarrow> dropWhile (\<lambda>e. \<not> in_window w now e) es = filter (in_window w now) es"
proof (induction es)
  case (Cons e es)
  show ?case
  proof (cases "in_window w now e")
    case True
    with Cons.prems have "filter (in_window w now) es = es" by (auto simp: in_window_def intro!: filter_True)
    with True show ?thesis by simp
  qed (use Cons in simp)
qed simp

lemma prune_sorted:
  "sorted (map ev_at (et_events t)) \<Longrightarrow> et_events (prune now t) = filter (in_window (et_window t) now) (et_events t)"
  using dropWhile_sorted [of "et_events t" "et_window t" now] by (simp add: prune_def Let_def in_window_def [abs_def])

lemma evaluate_events:
  "et_events (snd (evaluateLocked L now thr m t)) = et_events (prune now t)"
  "et_window (snd (evaluateLocked L now thr m t)) = et_window t"
  by (simp_all add: evaluateLocked_def Let_def)

lemma step_events:
  "et_window (tracker_step L c t) = et_window t \<and>
   et_events (tracker_step L c t) = et_events (prune (call_time c) t) @ recorded [c]"
  by (cases c) (auto simp: Record_def Healthy_def HealthyWithinCooldown_def evaluate_events Let_def
      case_prod_beta split: option.splits)

lemma recorded_in: "e \<in> set (recorded cs) \<Longrightarrow> \<exists>c \<in> set cs. ev_at e = call_time c"
  by (induction cs rule: recorded.induct) auto

lemma recorded_times: "sorted (map call_time cs) \<Longrightarrow> sorted (map ev_at (recorded cs))"
  by (induction cs rule: recorded.induct) (auto dest: recorded_in)

text \<open>What the tracker keeps, where the clock does not go back: the records that were within the
  window at some time before now.\<close>

lemma tracker_keeps:
  assumes "sorted (map call_time cs)" and "0 < window" and "\<forall>c \<in> set cs. call_time c \<le> now"
  shows "et_window (fold (tracker_step L) cs (NewErrorRateTracker window)) = window \<and>
    (\<exists>since \<le> now. et_events (fold (tracker_step L) cs (NewErrorRateTracker window)) =
       filter (in_window window since) (recorded cs))"
  using assms(1,3)
proof (induction cs arbitrary: now rule: rev_induct)
  case Nil
  then show ?case by (auto simp: NewErrorRateTracker_def)
next
  case (snoc c cs)
  let ?t = "fold (tracker_step L) cs (NewErrorRateTracker window)" and ?n = "call_time c"
  have so: "sorted (map call_time cs)" "\<forall>x \<in> set cs. call_time x \<le> ?n"
    using snoc.prems(1) by (auto simp: sorted_append)
  from snoc.IH [OF so] obtain since where ih: "et_window ?t = window" "since \<le> ?n"
    "et_events ?t = filter (in_window window since) (recorded cs)" by blast
  have "sorted (map ev_at (et_events ?t))"
    using recorded_times [OF so(1)] ih(3) by (simp add: sorted_filter)
  then have "et_events (prune ?n ?t) = filter (\<lambda>e. in_window window ?n e \<and> in_window window since e) (recorded cs)"
    using ih(1,3) by (simp add: prune_sorted conj_commute)
  also have "\<dots> = filter (in_window window ?n) (recorded cs)"
    using ih(2) by (intro filter_cong) (auto simp: in_window_def)
  finally have "et_events (prune ?n ?t) = filter (in_window window ?n) (recorded cs)" .
  moreover have "filter (in_window window ?n) (recorded [c]) = recorded [c]"
    using assms(2) by (cases c) (simp_all add: in_window_def)
  ultimately show ?case
    using step_events [of L c ?t] ih(1) snoc.prems(2) by (auto simp: recorded_append)
qed

section \<open>Properties\<close>

text \<open>C27: Pruning when asked is as good as keeping everything: with a clock that does not go back,
  whatever calls were made before, the tracker's verdict is that of the full history cut to the
  window, a server error being a status from 500 to 599.\<close>

theorem tracker_matches_full_history:
  assumes "sorted (map call_time cs)" and "0 < window" and "\<forall>c \<in> set cs. call_time c \<le> now"
  shows "fst (Healthy L now threshold minFailures (fold (tracker_step L) cs (NewErrorRateTracker window))) =
         rate_ok L threshold minFailures (filter (in_window window now) (recorded cs))"
proof -
  let ?t = "fold (tracker_step L) cs (NewErrorRateTracker window)"
  obtain since where k: "et_window ?t = window" "since \<le> now"
    "et_events ?t = filter (in_window window since) (recorded cs)"
    using tracker_keeps [OF assms] by blast
  have "sorted (map ev_at (et_events ?t))"
    using recorded_times [OF assms(1)] k(3) by (simp add: sorted_filter)
  then have "et_events (prune now ?t) = filter (\<lambda>e. in_window window now e \<and> in_window window since e) (recorded cs)"
    using k(1,3) by (simp add: prune_sorted conj_commute)
  also have "\<dots> = filter (in_window window now) (recorded cs)"
    using k(2) by (intro filter_cong) (auto simp: in_window_def)
  finally show ?thesis by (simp add: Healthy_def evaluateLocked_def Let_def)
qed

definition exact_floats :: float_lib where "exact_floats = \<lparr>fl_round = Fin, fl_parse = (\<lambda>_. None), fl_format = (\<lambda>_. [])\<rparr>"

definition sample_calls :: "tracker_call list" where
  "sample_calls = [Call_record 1 500, Call_record 2 200, Call_healthy 50 (Fin (1/2)) 1, Call_record 60 503, Call_record 61 502]"

theorem tracker_matches_full_history_witness:
  "\<not> fst (Healthy exact_floats 62 (Fin (1/2)) 2 (fold (tracker_step exact_floats) sample_calls (NewErrorRateTracker 30)))"
proof -
  have "fst (Healthy exact_floats 62 (Fin (1/2)) 2 (fold (tracker_step exact_floats) sample_calls (NewErrorRateTracker 30))) =
      rate_ok exact_floats (Fin (1/2)) 2 (filter (in_window 30 62) (recorded sample_calls))"
    by (rule tracker_matches_full_history) (simp_all add: sample_calls_def)
  then show ?thesis
    by (simp add: sample_calls_def in_window_def rate_ok_def isFailureStatus_def statusCodesEnd_def exact_floats_def Let_def)
qed

text \<open>The latch holds: once an evaluation at some time was unhealthy, the view with a cooldown is
  unhealthy until more than the cooldown has passed since, whatever is recorded or asked in
  between.\<close>

theorem cooldown_latch_holds:
  assumes "\<not> fst (evaluateLocked L u thr m t)" and "sorted (map call_time cs)"
    and "\<forall>c \<in> set cs. u \<le> call_time c" and "now2 - u \<le> cooldown"
  shows "\<not> fst (HealthyWithinCooldown L now now2 thr' m' cooldown
    (fold (tracker_step L) cs (snd (evaluateLocked L u thr m t))))"
proof -
  have l: "\<exists>w \<ge> u. et_last_unhealthy (fold (tracker_step L) ds s) = Some w"
    if "et_last_unhealthy s = Some w0" "u \<le> w0" "\<forall>c \<in> set ds. u \<le> call_time c" for ds s w0
    using that
  proof (induction ds arbitrary: s w0)
    case (Cons d ds)
    have "et_last_unhealthy (tracker_step L d s) \<in> {Some w0, Some (call_time d)}"
      using Cons.prems(1)
      by (cases d) (auto simp: Record_def Healthy_def HealthyWithinCooldown_def evaluateLocked_def prune_def Let_def
          case_prod_beta split: option.splits)
    then show ?case using Cons by auto
  qed auto
  have "et_last_unhealthy (snd (evaluateLocked L u thr m t)) = Some u"
    using assms(1) by (auto simp: evaluateLocked_def Let_def split: if_splits)
  from l [OF this _ assms(3)] obtain w where w: "u \<le> w"
    "et_last_unhealthy (fold (tracker_step L) cs (snd (evaluateLocked L u thr m t))) = Some w" by auto
  then show ?thesis using assms(4)
    by (auto simp: HealthyWithinCooldown_def evaluateLocked_def prune_def Let_def split: if_splits)
qed

theorem cooldown_latch_holds_witness:
  "\<not> fst (HealthyWithinCooldown exact_floats 70 70 (Fin (1/2)) 2 60
     (fold (tracker_step exact_floats) [Call_record 65 200]
       (snd (evaluateLocked exact_floats 62 (Fin (1/2)) 1
         \<lparr>et_window = 30, et_events = [\<lparr>ev_at = 61, ev_failure = True\<rparr>], et_last_unhealthy = None\<rparr>))))"
  by (rule cooldown_latch_holds)
     (simp_all add: evaluateLocked_def prune_def rate_ok_def exact_floats_def Let_def)

end
