(* ===== verification/Tls_Monitor.thy ===== *)
theory Tls_Monitor
  imports Go_Prelude
begin

text \<open>
  The certificate monitor (\<open>app/domain/monitor/tls_monitor.go\<close>): a TLS configuration that reloads its
  certificate and root certificates when asked to, with the options that build it.

  A reconciler is a record; a call of \<open>certificates\<close> is a function of it and of what the call meets:
  the signals that arrived, the clock, the result of the caller's reload function and what the
  provider returns.  A call that has to wait for a reload in progress is the result \<open>Waits\<close>: it
  returns only once another goroutine ends that reload.  Reading keys, decoding PEM and verifying a
  certificate are the standard library's and parameters.
\<close>

section \<open>The reconciler\<close>

datatype provider = Noop_provider | Custom_provider

datatype reload_source = Reload_never | Reload_func | Reload_sighup nat "int list" | Reload_duration int int

record ('cert, 'ca) reconciler =
  rc_reloading :: bool
  rc_roots_limit :: nat
  rc_once_done :: bool
  rc_pool :: "'ca list option"
  rc_cert :: "'cert option option"
  rc_provider :: provider
  rc_ll :: "'ca list"
  rc_reload :: reload_source
  rc_on_reload :: bool
  rc_notified :: nat
  rc_get_certificate :: bool
  rc_verify :: bool
  rc_client_auth :: nat

definition newReconciler :: "('cert, 'ca) reconciler" where
  "newReconciler =
     \<lparr>rc_reloading = False, rc_roots_limit = 2, rc_once_done = False, rc_pool = None, rc_cert = None,
      rc_provider = Noop_provider, rc_ll = [], rc_reload = Reload_never, rc_on_reload = False, rc_notified = 0,
      rc_get_certificate = False, rc_verify = False, rc_client_auth = 0\<rparr>"

section \<open>Options\<close>

datatype tls_option =
    WithVerifyConnection | WithProvider | WithRootsLimit nat | WithReloadFunc
  | WithSIGHUPReload nat | WithDurationReload int int | WithOnReload

text \<open>A SIGHUP option carries the capacity of the channel, a duration option the clock when it is
  applied.  \<open>WithCertificatesPaths\<close> is \<open>WithProvider\<close> on the file system.\<close>

fun apply_option :: "tls_option \<Rightarrow> ('cert, 'ca) reconciler \<Rightarrow> ('cert, 'ca) reconciler" where
  "apply_option WithVerifyConnection r = r\<lparr>rc_verify := True\<rparr>"
| "apply_option WithProvider r = r\<lparr>rc_provider := Custom_provider, rc_get_certificate := True\<rparr>"
| "apply_option (WithRootsLimit n) r = r\<lparr>rc_roots_limit := n\<rparr>"
| "apply_option WithReloadFunc r = r\<lparr>rc_reload := Reload_func\<rparr>"
| "apply_option (WithSIGHUPReload cap) r = r\<lparr>rc_reload := Reload_sighup cap []\<rparr>"
| "apply_option (WithDurationReload dur now) r = r\<lparr>rc_reload := Reload_duration dur (now + dur)\<rparr>"
| "apply_option WithOnReload r = r\<lparr>rc_on_reload := True\<rparr>"

text \<open>Without options the configuration is a new one, with no reconciler behind it.\<close>

definition TLSConfig :: "tls_option list \<Rightarrow> ('cert, 'ca) reconciler option" where
  "TLSConfig opts = (if opts = [] then None else Some (fold apply_option opts newReconciler))"

section \<open>Reloading\<close>

record ('cert, 'ca) call_env =
  ce_now :: int
  ce_func :: bool
  ce_signals :: "int list"
  ce_provided :: "(string, 'cert \<times> 'ca list) result"

definition SIGHUP :: int where "SIGHUP = 1"

text \<open>The reload function: the channel keeps what fits of the signals that arrived, and one of them is
  taken.\<close>

definition run_reload :: "('cert, 'ca) call_env \<Rightarrow> reload_source \<Rightarrow> bool \<times> reload_source" where
  "run_reload v src =
     (case src of
        Reload_never \<Rightarrow> (False, src)
      | Reload_func \<Rightarrow> (ce_func v, src)
      | Reload_sighup cap queue \<Rightarrow>
          (case take cap (queue @ ce_signals v) of
             [] \<Rightarrow> (False, Reload_sighup cap [])
           | sig # rest \<Rightarrow> (sig = SIGHUP, Reload_sighup cap rest))
      | Reload_duration dur nxt \<Rightarrow>
          if nxt < ce_now v then (True, Reload_duration dur (ce_now v + dur)) else (False, src))"

definition needReload :: "('cert, 'ca) call_env \<Rightarrow> ('cert, 'ca) reconciler \<Rightarrow> bool \<times> ('cert, 'ca) reconciler" where
  "needReload v r =
     (if \<not> rc_once_done r then (True, r\<lparr>rc_once_done := True\<rparr>)
      else (case run_reload v (rc_reload r) of (b, src) \<Rightarrow> (b, r\<lparr>rc_reload := src\<rparr>)))"

text \<open>Pushing the new roots to the front of the list, which drops its last element when it grows over
  the limit.\<close>

fun push_roots :: "nat \<Rightarrow> 'ca list \<Rightarrow> 'ca list \<Rightarrow> 'ca list" where
  "push_roots limit [] ll = ll"
| "push_roots limit (ca # cas) ll =
     (let ll' = ca # ll in push_roots limit cas (if limit < length ll' then butlast ll' else ll'))"

definition provided :: "('cert, 'ca) call_env \<Rightarrow> ('cert, 'ca) reconciler \<Rightarrow> (string, 'cert option \<times> 'ca list) result" where
  "provided v r =
     (case rc_provider r of
        Noop_provider \<Rightarrow> Inr (None, [])
      | Custom_provider \<Rightarrow> (case ce_provided v of Inl e \<Rightarrow> Inl e | Inr (cert, roots) \<Rightarrow> Inr (Some cert, roots)))"

datatype ('cert, 'ca) tls_result = Waits | Returns "'cert option" "'ca list option" "string option"

definition certificates ::
  "('cert, 'ca) call_env \<Rightarrow> ('cert, 'ca) reconciler \<Rightarrow> ('cert, 'ca) tls_result \<times> ('cert, 'ca) reconciler"
where
  "certificates v r =
     (if rc_reloading r then (Waits, r)
      else (let (need, r1) = needReload v r;
                (err, r2) =
                  (if need then
                     (let rl = r1\<lparr>rc_reloading := True\<rparr>
                      in (case provided v rl of
                            Inl e \<Rightarrow> (Some e, rl)
                          | Inr (cert, roots) \<Rightarrow>
                              (let rr = (if roots = [] then rl
                                         else (let ll = push_roots (rc_roots_limit rl) roots (rc_ll rl)
                                               in rl\<lparr>rc_ll := ll, rc_pool := Some ll\<rparr>))
                               in (None, rr\<lparr>rc_cert := Some cert,
                                            rc_notified := (if rc_on_reload rr then Suc (rc_notified rr) else rc_notified rr),
                                            rc_reloading := False\<rparr>))))
                   else (None, r1))
            in (Returns (case rc_cert r2 of None \<Rightarrow> None | Some c \<Rightarrow> c) (rc_pool r2) err, r2)))"

definition getCertificate ::
  "('cert, 'ca) call_env \<Rightarrow> ('cert, 'ca) reconciler \<Rightarrow> ('cert option \<times> string option) option \<times> ('cert, 'ca) reconciler"
where
  "getCertificate v r =
     (case certificates v r of
        (Waits, r') \<Rightarrow> (None, r')
      | (Returns cert pool err, r') \<Rightarrow> (Some (cert, err), r'))"

definition VerifyClientCertIfGiven :: nat where "VerifyClientCertIfGiven = 3"

datatype verify_result = Verify_waits | Verify_error string | Verify_ok | Verify_panic

text \<open>Verifying the peer's chain: \<open>verify\<close> takes the roots, the intermediates, whether the usage is
  client authentication, and the leaf.\<close>

definition verifyConnection ::
  "('ca list option \<Rightarrow> 'peer list \<Rightarrow> bool \<Rightarrow> 'peer \<Rightarrow> string option) \<Rightarrow> ('cert, 'ca) call_env \<Rightarrow> 'peer list \<Rightarrow>
   ('cert, 'ca) reconciler \<Rightarrow> verify_result \<times> ('cert, 'ca) reconciler"
where
  "verifyConnection verify v peers r =
     (case certificates v r of
        (Waits, r') \<Rightarrow> (Verify_waits, r')
      | (Returns cert pool (Some e), r') \<Rightarrow> (Verify_error e, r')
      | (Returns cert pool None, r') \<Rightarrow>
          (if rc_client_auth r < VerifyClientCertIfGiven \<and> peers = [] then (Verify_ok, r')
           else (case peers of
                   [] \<Rightarrow> (Verify_panic, r')
                 | leaf # inters \<Rightarrow>
                     (case verify pool inters (VerifyClientCertIfGiven \<le> rc_client_auth r) leaf of
                        None \<Rightarrow> (Verify_ok, r')
                      | Some e \<Rightarrow> (Verify_error e, r')))))"

section \<open>The file system provider\<close>

fun parse_roots :: "('block \<Rightarrow> (string, 'ca) result) \<Rightarrow> 'block list \<Rightarrow> (string, 'ca list) result" where
  "parse_roots parse [] = Inr []"
| "parse_roots parse (p # ps) =
     (case parse p of
        Inl e \<Rightarrow> Inl e
      | Inr ca \<Rightarrow> (case parse_roots parse ps of Inl e \<Rightarrow> Inl e | Inr cas \<Rightarrow> Inr (ca # cas)))"

text \<open>\<open>blocks\<close> is what repeated PEM decoding finds in a text.\<close>

definition fs_Certificates ::
  "(string \<Rightarrow> string \<Rightarrow> (string, 'cert) result) \<Rightarrow> (string \<Rightarrow> (string, string) result) \<Rightarrow> (string \<Rightarrow> 'block list) \<Rightarrow>
   ('block \<Rightarrow> (string, 'ca) result) \<Rightarrow> string list \<Rightarrow> (string, 'cert \<times> 'ca list) result"
where
  "fs_Certificates load read blocks parse fsp =
     (if length fsp \<noteq> 3 then Inl ''tlsreconciler: certificates path missing''
      else (let caFile = fsp ! 0; certFile = fsp ! 1; keyFile = fsp ! 2
            in (case load certFile keyFile of
                  Inl e \<Rightarrow> Inl e
                | Inr cert \<Rightarrow>
                    if caFile = [] then Inr (cert, [])
                    else (case read caFile of
                            Inl e \<Rightarrow> Inl e
                          | Inr pem \<Rightarrow> (case parse_roots parse (blocks pem) of
                                          Inl e \<Rightarrow> Inl e
                                        | Inr roots \<Rightarrow> Inr (cert, roots))))))"

section \<open>Sequences of calls\<close>

fun certificate_calls ::
  "('cert, 'ca) call_env list \<Rightarrow> ('cert, 'ca) reconciler \<Rightarrow> ('cert, 'ca) tls_result list \<times> ('cert, 'ca) reconciler"
where
  "certificate_calls [] r = ([], r)"
| "certificate_calls (v # vs) r =
     (let (a, r1) = certificates v r; (as, r2) = certificate_calls vs r1 in (a # as, r2))"

lemma push_roots_take: "length ll \<le> limit \<Longrightarrow> push_roots limit cas ll = take limit (rev cas @ ll)"
proof (induction cas arbitrary: ll)
  case (Cons ca cas)
  let ?l = "if limit < length (ca # ll) then butlast (ca # ll) else ca # ll"
  have l: "?l = take limit (ca # ll)"
    using Cons.prems by (cases "limit = length ll") (auto simp: butlast_conv_take)
  have "push_roots limit cas ?l = take limit (rev cas @ ?l)"
    by (rule Cons.IH) (use Cons.prems in auto)
  also have "\<dots> = take limit (rev cas @ ca # ll)"
    unfolding l by (simp add: min_def)
  finally show ?case by (simp only: push_roots.simps Let_def rev.simps append_assoc append.simps)
qed simp

lemma certificates_waiting: "rc_reloading r \<Longrightarrow> certificates v r = (Waits, r)"
  by (simp add: certificates_def)

lemma certificate_calls_waiting:
  "rc_reloading r \<Longrightarrow> certificate_calls vs r = (replicate (length vs) Waits, r)"
  by (induction vs) (simp_all add: certificates_waiting)

lemma needReload_keeps:
  "rc_reloading (snd (needReload v r)) = rc_reloading r \<and> rc_ll (snd (needReload v r)) = rc_ll r \<and>
   rc_pool (snd (needReload v r)) = rc_pool r \<and> rc_roots_limit (snd (needReload v r)) = rc_roots_limit r \<and>
   rc_cert (snd (needReload v r)) = rc_cert r \<and> rc_provider (snd (needReload v r)) = rc_provider r"
  by (simp add: needReload_def split: prod.splits)

lemma needReload_func:
  "rc_reload r = Reload_func \<Longrightarrow> ce_func v \<Longrightarrow> fst (needReload v r) \<and> rc_reload (snd (needReload v r)) = Reload_func"
  by (simp add: needReload_def run_reload_def)

text \<open>One reloading call: what it meets and what it leaves.\<close>

lemma certificates_reload:
  assumes "\<not> rc_reloading r" "fst (needReload v r)" "rc_provider r = Custom_provider" "ce_provided v = Inr (cert, roots)"
    and "length (rc_ll r) \<le> rc_roots_limit r"
  shows "rc_ll (snd (certificates v r)) = take (rc_roots_limit r) (rev roots @ rc_ll r)"
    and "rc_pool (snd (certificates v r)) =
           (if roots = [] then rc_pool r else Some (take (rc_roots_limit r) (rev roots @ rc_ll r)))"
    and "rc_cert (snd (certificates v r)) = Some (Some cert)"
    and "\<not> rc_reloading (snd (certificates v r))"
    and "rc_provider (snd (certificates v r)) = Custom_provider"
    and "rc_roots_limit (snd (certificates v r)) = rc_roots_limit r"
    and "rc_reload (snd (certificates v r)) = rc_reload (snd (needReload v r))"
    and "fst (certificates v r) = Returns (Some cert) (rc_pool (snd (certificates v r))) None"
  using assms needReload_keeps [of v r]
  by (cases "needReload v r"; simp add: certificates_def provided_def push_roots_take Let_def)+

lemma certificates_failed:
  assumes "\<not> rc_reloading r" "fst (needReload v r)" "rc_provider r = Custom_provider" "ce_provided v = Inl e"
  shows "rc_reloading (snd (certificates v r))"
    and "fst (certificates v r) = Returns (Option.bind (rc_cert r) id) (rc_pool r) (Some e)"
  using assms needReload_keeps [of v r]
  by (cases "needReload v r"; simp add: certificates_def provided_def Let_def split: option.splits)+

text \<open>The options a configuration is built with.\<close>

lemma apply_option_keeps:
  "\<not> rc_reloading r \<Longrightarrow> \<not> rc_reloading (apply_option a r)"
  "rc_provider r = Custom_provider \<Longrightarrow> rc_provider (apply_option a r) = Custom_provider"
  "\<not> rc_once_done r \<Longrightarrow> \<not> rc_once_done (apply_option a r)"
  "rc_ll (apply_option a r) = rc_ll r"
  "rc_pool (apply_option a r) = rc_pool r"
  by (cases a; simp)+

lemma fold_apply_option:
  "\<not> rc_reloading r \<Longrightarrow> \<not> rc_reloading (fold apply_option opts r)"
  "rc_provider r = Custom_provider \<Longrightarrow> rc_provider (fold apply_option opts r) = Custom_provider"
  "\<not> rc_once_done r \<Longrightarrow> \<not> rc_once_done (fold apply_option opts r)"
  "rc_ll (fold apply_option opts r) = rc_ll r"
  "rc_pool (fold apply_option opts r) = rc_pool r"
  by (induction opts arbitrary: r) (simp_all add: apply_option_keeps)

lemma fold_provider:
  "WithProvider \<in> set opts \<Longrightarrow> rc_provider (fold apply_option opts r) = Custom_provider"
  by (induction opts arbitrary: r) (auto intro: fold_apply_option(2))

text \<open>C34: A configuration whose provider fails on the first handshake never recovers, whatever its options
  and however good the files are afterwards: that handshake returns the provider's error with no certificate
  and no roots, and every later request for the certificate or verification of a peer waits for a reload
  that nobody is doing.\<close>

theorem failed_reload_blocks_all:
  fixes r :: "('cert, 'ca) reconciler" and vs :: "('cert, 'ca) call_env list"
  assumes "TLSConfig opts = Some r" "WithProvider \<in> set opts" "ce_provided v = Inl e"
  shows "fst (certificate_calls (v # vs) r) = Returns None None (Some e) # replicate (length vs) Waits \<and>
         (let r' = snd (certificate_calls (v # vs) r)
          in fst (getCertificate w r') = None \<and> fst (verifyConnection verify w peers r') = Verify_waits)"
proof -
  have r: "r = fold apply_option opts newReconciler"
    using assms(1) by (simp add: TLSConfig_def split: if_splits)
  have nr: "\<not> rc_reloading r" and p: "rc_provider r = Custom_provider"
    unfolding r by (auto intro!: fold_apply_option(1) fold_provider assms simp: newReconciler_def)
  have cert: "rc_cert r = None" "rc_pool r = None" "\<not> rc_once_done r"
  proof -
    have "rc_cert (fold apply_option opts (q :: ('cert, 'ca) reconciler)) = rc_cert q" for q
      by (induction opts arbitrary: q) (simp, case_tac a, simp_all)
    then show "rc_cert r = None" unfolding r by (simp add: newReconciler_def)
  qed (unfold r, auto simp: newReconciler_def fold_apply_option(3,5))
  have need: "fst (needReload v r)"
    using cert(3) by (simp add: needReload_def)
  note f = certificates_failed [OF nr need p assms(3)]
  show ?thesis
    using f cert(1,2) by (cases "certificates v r")
      (simp add: Let_def certificate_calls_waiting certificates_waiting getCertificate_def verifyConnection_def)
qed

theorem failed_reload_blocks_all_witness:
  "let r = fold apply_option [WithProvider, WithRootsLimit 1, WithReloadFunc] (newReconciler :: (nat, nat) reconciler);
       bad = \<lparr>ce_now = 0, ce_func = False, ce_signals = [], ce_provided = Inl ''no file''\<rparr>;
       good = \<lparr>ce_now = 5, ce_func = True, ce_signals = [], ce_provided = Inr (7, [8])\<rparr>
   in fst (certificate_calls [bad, good, good] r) = [Returns None None (Some ''no file''), Waits, Waits]"
  using failed_reload_blocks_all [of "[WithProvider, WithRootsLimit 1, WithReloadFunc]"
      "fold apply_option [WithProvider, WithRootsLimit 1, WithReloadFunc] (newReconciler :: (nat, nat) reconciler)"
      "\<lparr>ce_now = 0, ce_func = False, ce_signals = [], ce_provided = Inl ''no file''\<rparr>" "''no file''"
      "[\<lparr>ce_now = 5, ce_func = True, ce_signals = [], ce_provided = Inr (7, [8])\<rparr>,
        \<lparr>ce_now = 5, ce_func = True, ce_signals = [], ce_provided = Inr (7, [8])\<rparr>]", THEN conjunct1]
  by (simp add: TLSConfig_def Let_def del: certificate_calls.simps apply_option.simps)

text \<open>The state a run of reloading calls keeps.\<close>

definition reload_inv :: "('cert, 'ca) reconciler \<Rightarrow> bool" where
  "reload_inv r \<longleftrightarrow> \<not> rc_reloading r \<and> rc_provider r = Custom_provider \<and> rc_reload r = Reload_func \<and>
     length (rc_ll r) \<le> rc_roots_limit r \<and> elems (rc_pool r) = rc_ll r"

lemma reload_inv_step:
  assumes "reload_inv r" "ce_func v" "ce_provided v = Inr (cert, roots)"
  shows "reload_inv (snd (certificates v r))"
    and "rc_ll (snd (certificates v r)) = take (rc_roots_limit r) (rev roots @ rc_ll r)"
    and "rc_roots_limit (snd (certificates v r)) = rc_roots_limit r"
    and "fst (certificates v r) = Returns (Some cert) (rc_pool (snd (certificates v r))) None"
proof -
  have i: "\<not> rc_reloading r" "rc_provider r = Custom_provider" "rc_reload r = Reload_func"
      "length (rc_ll r) \<le> rc_roots_limit r" "elems (rc_pool r) = rc_ll r"
    using assms(1) by (auto simp: reload_inv_def)
  have need: "fst (needReload v r)" "rc_reload (snd (needReload v r)) = Reload_func"
    using needReload_func [OF i(3) assms(2)] by auto
  note c = certificates_reload [OF i(1) need(1) i(2) assms(3) i(4)]
  show "rc_ll (snd (certificates v r)) = take (rc_roots_limit r) (rev roots @ rc_ll r)" by (rule c(1))
  show "rc_roots_limit (snd (certificates v r)) = rc_roots_limit r" by (rule c(6))
  show "fst (certificates v r) = Returns (Some cert) (rc_pool (snd (certificates v r))) None" by (rule c(8))
  show "reload_inv (snd (certificates v r))"
    using c need(2) i(4,5) by (cases "roots = []") (simp_all add: reload_inv_def)
qed

lemma take_push: "take n (xs @ take n (ys @ zs)) = take n (xs @ ys @ zs)"
  by (simp add: min_def)

text \<open>When the reload function always asks for a reload and the provider always answers, no handshake
  waits or fails: the \<open>k\<close>-th returns the \<open>k\<close>-th certificate, and the pool holds exactly the newest roots
  handed out so far, newest first, as many as the limit allows.\<close>

theorem pool_keeps_newest_roots:
  fixes r :: "('cert, 'ca) reconciler"
  assumes "TLSConfig [WithProvider, WithRootsLimit limit, WithReloadFunc] = Some r"
    and "\<forall>v \<in> set vs. ce_func v \<and> ce_provided v = Inr (cert v, roots v)"
  shows "elems (rc_pool (snd (certificate_calls vs r))) = take limit (rev (concat (map roots vs))) \<and>
         length (fst (certificate_calls vs r)) = length vs \<and>
         (\<forall>k < length vs. \<exists>pool. fst (certificate_calls vs r) ! k = Returns (Some (cert (vs ! k))) pool None \<and>
            elems pool = take limit (rev (concat (map roots (take (Suc k) vs)))))"
proof -
  have gen: "elems (rc_pool (snd (certificate_calls vs q))) = take n (rev (concat (map roots vs)) @ rc_ll q) \<and>
         length (fst (certificate_calls vs q)) = length vs \<and>
         (\<forall>k < length vs. \<exists>pool. fst (certificate_calls vs q) ! k = Returns (Some (cert (vs ! k))) pool None \<and>
            elems pool = take n (rev (concat (map roots (take (Suc k) vs))) @ rc_ll q))"
    if "reload_inv q" "rc_roots_limit q = n" "\<forall>v \<in> set vs. ce_func v \<and> ce_provided v = Inr (cert v, roots v)"
    for q :: "('cert, 'ca) reconciler" and n vs
    using that
  proof (induction vs arbitrary: q)
    case Nil
    then show ?case by (simp add: reload_inv_def)
  next
    case (Cons v vs)
    let ?q = "snd (certificates v q)"
    have v: "ce_func v" "ce_provided v = Inr (cert v, roots v)" using Cons.prems(3) by auto
    note s = reload_inv_step [OF Cons.prems(1) v, unfolded Cons.prems(2)]
    have ih: "elems (rc_pool (snd (certificate_calls vs ?q))) = take n (rev (concat (map roots vs)) @ rc_ll ?q) \<and>
         length (fst (certificate_calls vs ?q)) = length vs \<and>
         (\<forall>k < length vs. \<exists>pool. fst (certificate_calls vs ?q) ! k = Returns (Some (cert (vs ! k))) pool None \<and>
            elems pool = take n (rev (concat (map roots (take (Suc k) vs))) @ rc_ll ?q))"
      by (rule Cons.IH) (use Cons.prems(3) s in auto)
    have pool: "elems (rc_pool ?q) = take n (rev (roots v) @ rc_ll q)"
      using s(1,2) by (simp add: reload_inv_def)
    have calls: "certificate_calls (v # vs) q =
        (Returns (Some (cert v)) (rc_pool ?q) None # fst (certificate_calls vs ?q), snd (certificate_calls vs ?q))"
      using s(4) by (cases "certificates v q") (simp add: Let_def split: prod.splits)
    show ?case
      unfolding calls using ih [unfolded s(2) take_push] pool
      by (auto simp: less_Suc_eq_0_disj simp del: take_append)
  qed
  have "reload_inv r" "rc_roots_limit r = limit" "rc_ll r = []"
    using assms(1) by (auto simp: TLSConfig_def newReconciler_def reload_inv_def)
  from gen [OF this(1,2) assms(2)] this(3) show ?thesis by simp
qed

theorem pool_keeps_newest_roots_witness:
  "let calls = [\<lparr>ce_now = 0, ce_func = True, ce_signals = [], ce_provided = Inr (1, [10, 11])\<rparr>,
                \<lparr>ce_now = 5, ce_func = True, ce_signals = [], ce_provided = Inr (2, [12])\<rparr>];
       r = fold apply_option [WithProvider, WithRootsLimit 2, WithReloadFunc] (newReconciler :: (nat, nat) reconciler)
   in elems (rc_pool (snd (certificate_calls calls r))) = [12, 11]"
proof -
  let ?calls = "[\<lparr>ce_now = 0, ce_func = True, ce_signals = [], ce_provided = Inr (1, [10, 11])\<rparr>,
                \<lparr>ce_now = 5, ce_func = True, ce_signals = [], ce_provided = Inr (2, [12])\<rparr>] :: (nat, nat) call_env list"
  let ?r = "fold apply_option [WithProvider, WithRootsLimit 2, WithReloadFunc] (newReconciler :: (nat, nat) reconciler)"
  let ?cert = "\<lambda>v :: (nat, nat) call_env. fst (projr (ce_provided v))"
  let ?roots = "\<lambda>v :: (nat, nat) call_env. snd (projr (ce_provided v))"
  have "elems (rc_pool (snd (certificate_calls ?calls ?r))) = take 2 (rev (concat (map ?roots ?calls)))"
    by (rule pool_keeps_newest_roots [where cert = ?cert, THEN conjunct1]) (auto simp: TLSConfig_def)
  then show ?thesis
    by (simp add: Let_def del: certificate_calls.simps apply_option.simps)
qed

end
