(* ===== verification/Validator_Settings.thy ===== *)
theory Validator_Settings
  imports Cloud_Scout
begin

text \<open>
  The settings of the agent validator (\<open>app/config/validator\<close>): loading, normalisation and
  validation of every part, and the names that a diagnostic check, its type and a lifecycle stage
  may have.

  A \<open>Validate\<close> method has a pointer receiver and normalises what it checks, also before it fails:
  it returns its error beside the changed part.  The file system, the YAML reader, the check of a
  URL and the outcome of the scout are an environment.
\<close>

section \<open>Names\<close>

definition DiagnosticAPIKey :: string where "DiagnosticAPIKey = ''api_key_valid''"
definition DiagnosticK8sVersion :: string where "DiagnosticK8sVersion = ''k8s_version''"
definition DiagnosticK8sNamespace :: string where "DiagnosticK8sNamespace = ''k8s_namespace''"
definition DiagnosticK8sProvider :: string where "DiagnosticK8sProvider = ''k8s_provider''"
definition DiagnosticKMS :: string where "DiagnosticKMS = ''kube_state_metrics_reachable''"
definition DiagnosticPrometheusVersion :: string where "DiagnosticPrometheusVersion = ''prometheus_version''"
definition DiagnosticScrapeConfig :: string where "DiagnosticScrapeConfig = ''scrape_cfg''"
definition DiagnosticInsightsIngress :: string where "DiagnosticInsightsIngress = ''webhook_server_reachable''"
definition DiagnosticAgentSettings :: string where "DiagnosticAgentSettings = ''agent_settings''"
definition DiagnosticIstioXClusterLB :: string where "DiagnosticIstioXClusterLB = ''istio_xcluster_lb''"

lemmas diagnostic_names = DiagnosticAPIKey_def DiagnosticK8sVersion_def DiagnosticK8sNamespace_def
  DiagnosticK8sProvider_def DiagnosticKMS_def DiagnosticPrometheusVersion_def DiagnosticScrapeConfig_def
  DiagnosticInsightsIngress_def DiagnosticAgentSettings_def DiagnosticIstioXClusterLB_def

definition CheckTypeRequired :: string where "CheckTypeRequired = ''required''"
definition CheckTypeOptional :: string where "CheckTypeOptional = ''optional''"
definition CheckTypeInformative :: string where "CheckTypeInformative = ''informative''"

lemmas check_types = CheckTypeRequired_def CheckTypeOptional_def CheckTypeInformative_def

definition ContextStageInit :: string where "ContextStageInit = ''pre-start''"
definition ContextStageStart :: string where "ContextStageStart = ''post-start''"
definition ContextStateConfigLoad :: string where "ContextStateConfigLoad = ''config-load''"
definition ContextStageStop :: string where "ContextStageStop = ''pre-stop''"

lemmas stage_names = ContextStageInit_def ContextStageStart_def ContextStateConfigLoad_def ContextStageStop_def

definition IsValidCheckType :: "string \<Rightarrow> bool" where
  "IsValidCheckType t \<longleftrightarrow> to_lower t \<in> {CheckTypeRequired, CheckTypeOptional, CheckTypeInformative}"

definition IsValidDiagnostic :: "string \<Rightarrow> bool" where
  "IsValidDiagnostic d \<longleftrightarrow>
     to_lower (trim_space d) \<in>
       {DiagnosticAPIKey, DiagnosticK8sVersion, DiagnosticK8sNamespace, DiagnosticK8sProvider, DiagnosticKMS,
        DiagnosticScrapeConfig, DiagnosticPrometheusVersion, DiagnosticInsightsIngress,
        DiagnosticAgentSettings, DiagnosticIstioXClusterLB}"

definition IsValidStage :: "string \<Rightarrow> bool" where
  "IsValidStage m \<longleftrightarrow>
     to_lower (trim_space m) \<in> {ContextStageInit, ContextStageStart, ContextStageStop, ContextStateConfigLoad}"

section \<open>Data\<close>

record val_logging =
  vl_level :: string
  vl_location :: string

record val_deployment =
  vd_account :: string
  vd_cluster :: string
  vd_region :: string

record val_versions =
  vv_chart :: string
  vv_agent :: string

record val_cloudzero =
  vc_host :: string
  vc_credential :: string
  vc_file :: string
  vc_quiet :: bool

record val_prometheus =
  vp_executable :: string
  vp_endpoint :: string
  vp_configurations :: "string list"
  vp_metrics :: "string list"

record check_config =
  cc_name :: string
  cc_type :: string

record stage_config =
  sg_name :: string
  sg_checks :: "check_config list"

record val_services =
  vs_namespace :: string
  vs_insights :: string
  vs_collector :: string

record validator_settings =
  va_logging :: val_logging
  va_deployment :: val_deployment
  va_versions :: val_versions
  va_cloudzero :: val_cloudzero
  va_prometheus :: val_prometheus
  va_stages :: "stage_config list"
  va_services :: val_services
  va_istio_cluster :: string

text \<open>
  \<open>ve_missing\<close>: \<open>stat\<close> says that the path does not exist; \<open>ve_read\<close>: the contents of a file;
  \<open>ve_wd\<close>: the working directory; \<open>ve_load\<close>: what the YAML reader makes of a file on top of the
  settings read before; \<open>ve_valid_url\<close>: \<open>url.ParseRequestURI\<close> accepts the text.
\<close>

record validator_env =
  ve_missing :: "string \<Rightarrow> bool"
  ve_read :: "string \<Rightarrow> string option"
  ve_wd :: "string option"
  ve_load :: "string \<Rightarrow> validator_settings \<Rightarrow> validator_settings option"
  ve_valid_url :: "string \<Rightarrow> bool"
  ve_scouted :: "environment_info found"

section \<open>Validation\<close>

definition validator_absFilePath :: "validator_env \<Rightarrow> string \<Rightarrow> string option" where
  "validator_absFilePath v location =
     (let dir = go_dir (go_clean location)
      in if dir = [] \<or> prefix ''.'' dir then
           map_option (\<lambda>wd. go_clean (go_path_join [wd, location])) (ve_wd v)
         else Some location)"

definition Logging_Validate :: "validator_env \<Rightarrow> val_logging \<Rightarrow> string option \<times> val_logging" where
  "Logging_Validate v l0 =
     (let l = l0\<lparr>vl_level := (if vl_level l0 = [] then ''info'' else vl_level l0),
                vl_location := (if vl_location l0 = [] then ''/prometheus/cloudzero-agent-validator.log''
                                else vl_location l0)\<rparr>
      in (case validator_absFilePath v (vl_location l) of
            None \<Rightarrow> (Some ''working directory'', l)
          | Some p \<Rightarrow>
              (let l = l\<lparr>vl_location := p\<rparr>
               in if ve_missing v (go_dir p) then (Some ''no such directory'', l) else (None, l))))"

text \<open>The scout fills in what is missing.  It gets pointers, so none of the values is absent.\<close>

definition Deployment_Validate :: "validator_env \<Rightarrow> val_deployment \<Rightarrow> string option \<times> val_deployment" where
  "Deployment_Validate v d0 =
     (let d = d0\<lparr>vd_account := trim_space (vd_account d0), vd_cluster := trim_space (vd_cluster d0),
                vd_region := trim_space (vd_region d0)\<rparr>
      in (case DetectConfiguration (ve_scouted v) (Some (vd_region d)) (Some (vd_account d)) (Some (vd_cluster d)) of
            (err, r, a, c) \<Rightarrow>
              (let d = d\<lparr>vd_region := case_option [] id r, vd_account := case_option [] id a,
                        vd_cluster := case_option [] id c\<rparr>
               in if err \<noteq> None then (Some ''failed to auto-detect cloud environment'', d)
                  else if vd_cluster d = [] then (Some ''missing Cluster Name'', d)
                  else (None, d))))"

definition Versions_Validate :: "val_versions \<Rightarrow> string option \<times> val_versions" where
  "Versions_Validate s = (None, s)"

definition Cloudzero_Validate :: "validator_env \<Rightarrow> val_cloudzero \<Rightarrow> string option \<times> val_cloudzero" where
  "Cloudzero_Validate v c0 =
     (if vc_host c0 = [] then (Some ''missing CloudZero Host'', c0)
      else if \<not> ve_valid_url v (vc_host c0) then (Some (''URL format invalid: '' @ vc_host c0), c0)
      else (case validator_absFilePath v (vc_file c0) of
              None \<Rightarrow> (Some ''working directory'', c0)
            | Some p \<Rightarrow>
                (let c = c0\<lparr>vc_file := p\<rparr>
                 in if ve_missing v p then (Some ''no key file'', c)
                    else (case ve_read v p of
                            None \<Rightarrow> (Some ''read key file'', c)
                          | Some text \<Rightarrow> (None, c\<lparr>vc_credential := text\<rparr>)))))"

text \<open>The locations, made absolute, without the empty ones and without repetition.\<close>

fun clean_locations :: "validator_env \<Rightarrow> string list \<Rightarrow> string list \<Rightarrow> string list option" where
  "clean_locations v cleaned [] = Some cleaned"
| "clean_locations v cleaned (l # ls) =
     (if l = [] then clean_locations v cleaned ls
      else (case validator_absFilePath v l of
              None \<Rightarrow> None
            | Some p \<Rightarrow>
                if p \<in> set cleaned then clean_locations v cleaned ls
                else clean_locations v (cleaned @ [p]) ls))"

definition default_locations :: "string list" where
  "default_locations = [''/etc/prometheus/prometheus.yml'', ''/etc/config/prometheus/configmaps/prometheus.yml'']"

definition Prometheus_Validate :: "validator_env \<Rightarrow> val_prometheus \<Rightarrow> string option \<times> val_prometheus" where
  "Prometheus_Validate v p0 =
     (if vp_endpoint p0 \<noteq> [] \<and> \<not> ve_valid_url v (vp_endpoint p0) then (Some (''invalid '' @ vp_endpoint p0), p0)
      else (case (if vp_configurations p0 = [] then Some default_locations
                  else clean_locations v [] (vp_configurations p0)) of
              None \<Rightarrow> (Some ''working directory'', p0)
            | Some ls \<Rightarrow>
                (let p = p0\<lparr>vp_configurations := ls\<rparr>
                 in if vp_metrics p = [] then (Some ''no KubeMetrics provided'', p) else (None, p))))"

definition CheckConfig_Validate :: "check_config \<Rightarrow> string option \<times> check_config" where
  "CheckConfig_Validate c0 =
     (let c = c0\<lparr>cc_name := to_lower (trim_space (cc_name c0))\<rparr>
      in if \<not> IsValidDiagnostic (cc_name c) then (Some (''unknown diagnostic check: '' @ cc_name c), c)
         else (let t = to_lower (trim_space (cc_type c));
                   c = c\<lparr>cc_type := (if t = [] then CheckTypeOptional else t)\<rparr>
               in if \<not> IsValidCheckType (cc_type c)
                  then (Some (''invalid check type for '' @ cc_name c @ '': '' @ cc_type c), c)
                  else (None, c)))"

fun validate_checks :: "check_config list \<Rightarrow> string option \<times> check_config list" where
  "validate_checks [] = (None, [])"
| "validate_checks (c # cs) =
     (case CheckConfig_Validate c of
        (Some e, c') \<Rightarrow> (Some e, c' # cs)
      | (None, c') \<Rightarrow> map_prod id (Cons c') (validate_checks cs))"

definition Stage_Validate :: "stage_config \<Rightarrow> string option \<times> stage_config" where
  "Stage_Validate s0 =
     (let s = s0\<lparr>sg_name := to_lower (trim_space (sg_name s0))\<rparr>
      in if \<not> IsValidStage (sg_name s) then (Some (''invalid stage: '' @ sg_name s), s)
         else (case validate_checks (sg_checks s) of (e, cs) \<Rightarrow> (e, s\<lparr>sg_checks := cs\<rparr>)))"

text \<open>
  The loop variable is a copy of the stage: its normalised name is lost, while the checks that it
  normalises in place are those of the settings, which share the array.
\<close>

fun Diagnostics_Validate :: "stage_config list \<Rightarrow> string option \<times> stage_config list" where
  "Diagnostics_Validate [] = (None, [])"
| "Diagnostics_Validate (s # ss) =
     (case Stage_Validate s of
        (Some e, s') \<Rightarrow> (Some e, s\<lparr>sg_checks := sg_checks s'\<rparr> # ss)
      | (None, s') \<Rightarrow> map_prod id (Cons (s\<lparr>sg_checks := sg_checks s'\<rparr>)) (Diagnostics_Validate ss))"

definition Settings_Validate :: "validator_env \<Rightarrow> validator_settings \<Rightarrow> string option \<times> validator_settings" where
  "Settings_Validate v s =
     (case Logging_Validate v (va_logging s) of
        (Some e, l) \<Rightarrow> (Some e, s\<lparr>va_logging := l\<rparr>)
      | (None, l) \<Rightarrow> (let s = s\<lparr>va_logging := l\<rparr> in
     (case Deployment_Validate v (va_deployment s) of
        (Some e, d) \<Rightarrow> (Some e, s\<lparr>va_deployment := d\<rparr>)
      | (None, d) \<Rightarrow> (let s = s\<lparr>va_deployment := d\<rparr> in
     (case Versions_Validate (va_versions s) of
        (Some e, x) \<Rightarrow> (Some e, s\<lparr>va_versions := x\<rparr>)
      | (None, x) \<Rightarrow> (let s = s\<lparr>va_versions := x\<rparr> in
     (case Cloudzero_Validate v (va_cloudzero s) of
        (Some e, c) \<Rightarrow> (Some e, s\<lparr>va_cloudzero := c\<rparr>)
      | (None, c) \<Rightarrow> (let s = s\<lparr>va_cloudzero := c\<rparr> in
     (case Prometheus_Validate v (va_prometheus s) of
        (Some e, p) \<Rightarrow> (Some e, s\<lparr>va_prometheus := p\<rparr>)
      | (None, p) \<Rightarrow> (let s = s\<lparr>va_prometheus := p\<rparr> in
     (case Diagnostics_Validate (va_stages s) of
        (e, ss) \<Rightarrow> (e, s\<lparr>va_stages := ss\<rparr>))))))))))))"

section \<open>Loading\<close>

fun validator_load :: "validator_env \<Rightarrow> string list \<Rightarrow> validator_settings \<Rightarrow> (string, validator_settings) result" where
  "validator_load v [] cfg = Inr cfg"
| "validator_load v (f # fs) cfg =
     (if f = [] then validator_load v fs cfg
      else if ve_missing v f then Inl (''no config file '' @ f)
      else (case ve_load v f cfg of
              None \<Rightarrow> Inl (''failed to read config from '' @ f)
            | Some cfg' \<Rightarrow> validator_load v fs cfg'))"

definition empty_settings :: validator_settings where
  "empty_settings =
     \<lparr>va_logging = \<lparr>vl_level = [], vl_location = []\<rparr>,
      va_deployment = \<lparr>vd_account = [], vd_cluster = [], vd_region = []\<rparr>,
      va_versions = \<lparr>vv_chart = [], vv_agent = []\<rparr>,
      va_cloudzero = \<lparr>vc_host = [], vc_credential = [], vc_file = [], vc_quiet = False\<rparr>,
      va_prometheus = \<lparr>vp_executable = [], vp_endpoint = [], vp_configurations = [], vp_metrics = []\<rparr>,
      va_stages = [],
      va_services = \<lparr>vs_namespace = [], vs_insights = [], vs_collector = []\<rparr>,
      va_istio_cluster = []\<rparr>"

text \<open>\<open>files\<close> is none for a nil slice.\<close>

definition validator_NewSettings :: "validator_env \<Rightarrow> string slice \<Rightarrow> (string, validator_settings) result" where
  "validator_NewSettings v files =
     (case files of
        None \<Rightarrow> Inl ''the config files slice cannot be nil''
      | Some fs \<Rightarrow> validator_load v fs empty_settings)"

section \<open>What validation establishes\<close>

definition valid_check :: "check_config \<Rightarrow> bool" where
  "valid_check c \<longleftrightarrow> IsValidDiagnostic (cc_name c) \<and> to_lower (trim_space (cc_name c)) = cc_name c \<and>
     cc_type c \<in> {CheckTypeRequired, CheckTypeOptional, CheckTypeInformative}"

lemma trim_lowered [simp]: "to_lower (trim_space (to_lower (trim_space s))) = to_lower (trim_space s)"
  by simp

lemma CheckConfig_Validate_valid: "CheckConfig_Validate c0 = (None, c) \<Longrightarrow> valid_check c"
  by (auto simp: CheckConfig_Validate_def valid_check_def IsValidCheckType_def Let_def split: if_splits)

lemma valid_type_trim: "t \<in> {CheckTypeRequired, CheckTypeOptional, CheckTypeInformative} \<Longrightarrow>
  to_lower (trim_space t) = t \<and> t \<noteq> []"
  by (auto simp: check_types trim_space_def go_space_def to_lower_def lower_char_def)

lemma CheckConfig_Validate_same: "valid_check c \<Longrightarrow> CheckConfig_Validate c = (None, c)"
  using valid_type_trim [of "cc_type c"]
  by (simp add: CheckConfig_Validate_def valid_check_def IsValidCheckType_def Let_def)
    (metis to_lower_idem)

lemma validate_checks_valid: "validate_checks cs0 = (None, cs) \<Longrightarrow> list_all valid_check cs \<and> length cs = length cs0"
proof (induction cs0 arbitrary: cs)
  case (Cons c cs0)
  obtain e c' where c: "CheckConfig_Validate c = (e, c')" by fastforce
  obtain e' cs' where cs: "validate_checks cs0 = (e', cs')" by fastforce
  from Cons.prems c cs have "e = None" "e' = None" "cs = c' # cs'" by (auto split: option.splits)
  then show ?case using Cons.IH cs CheckConfig_Validate_valid [of c c'] c by simp
qed simp

lemma validate_checks_same: "list_all valid_check cs \<Longrightarrow> validate_checks cs = (None, cs)"
  by (induction cs) (simp_all add: CheckConfig_Validate_same)

text \<open>The form in which a check is kept: name and type trimmed and in lower case, optional where it has
  no type.\<close>

definition normal_check :: "check_config \<Rightarrow> check_config" where
  "normal_check c =
     \<lparr>cc_name = to_lower (trim_space (cc_name c)),
      cc_type = (if to_lower (trim_space (cc_type c)) = [] then CheckTypeOptional else to_lower (trim_space (cc_type c)))\<rparr>"

lemma CheckConfig_Validate_None: "CheckConfig_Validate c0 = (None, c) \<Longrightarrow> c = normal_check c0"
  by (auto simp: CheckConfig_Validate_def normal_check_def Let_def split: if_splits)

lemma validate_checks_normal: "validate_checks cs0 = (None, cs) \<Longrightarrow> cs = map normal_check cs0"
proof (induction cs0 arbitrary: cs)
  case (Cons c cs0)
  obtain e c' where c: "CheckConfig_Validate c = (e, c')" by fastforce
  obtain e' cs' where cs: "validate_checks cs0 = (e', cs')" by fastforce
  from Cons.prems c cs have "e = None" "e' = None" "cs = c' # cs'" by (auto split: option.splits)
  then show ?case using Cons.IH cs CheckConfig_Validate_None [of c c'] c by simp
qed simp

definition valid_stage :: "stage_config \<Rightarrow> bool" where
  "valid_stage s \<longleftrightarrow> IsValidStage (sg_name s) \<and> list_all valid_check (sg_checks s)"

lemma Stage_Validate_None:
  "Stage_Validate s0 = (None, s) \<longleftrightarrow>
     IsValidStage (sg_name s0) \<and> (\<exists>cs. validate_checks (sg_checks s0) = (None, cs) \<and>
       s = s0\<lparr>sg_name := to_lower (trim_space (sg_name s0)), sg_checks := cs\<rparr>)"
  by (auto simp: Stage_Validate_def IsValidStage_def Let_def split: prod.splits)

lemma Diagnostics_Validate_Cons:
  "Diagnostics_Validate (s # ss) = (None, us) \<longleftrightarrow>
     (\<exists>s' ss'. Stage_Validate s = (None, s') \<and> Diagnostics_Validate ss = (None, ss') \<and>
       us = s\<lparr>sg_checks := sg_checks s'\<rparr> # ss')"
  by (cases "Stage_Validate s"; cases "Diagnostics_Validate ss") (auto split: option.splits)

lemma Diagnostics_Validate_valid:
  "Diagnostics_Validate ss0 = (None, ss) \<Longrightarrow> list_all valid_stage ss \<and> map sg_name ss = map sg_name ss0"
proof (induction ss0 arbitrary: ss)
  case (Cons s ss0)
  then obtain s' ss' where "Stage_Validate s = (None, s')" "Diagnostics_Validate ss0 = (None, ss')"
    "ss = s\<lparr>sg_checks := sg_checks s'\<rparr> # ss'" by (auto simp only: Diagnostics_Validate_Cons)
  then show ?case using Cons.IH [of ss'] validate_checks_valid
    by (auto simp: Stage_Validate_None valid_stage_def)
qed simp

lemma Diagnostics_Validate_same: "list_all valid_stage ss \<Longrightarrow> Diagnostics_Validate ss = (None, ss)"
proof (induction ss)
  case (Cons s ss)
  have "Stage_Validate s = (None, s\<lparr>sg_name := to_lower (trim_space (sg_name s))\<rparr>)"
    using Cons.prems by (simp add: Stage_Validate_None valid_stage_def validate_checks_same)
  then show ?case using Cons by (auto simp: Diagnostics_Validate_Cons)
qed simp

text \<open>Every stage keeps its name, and all its checks in their order.\<close>

definition normal_stage :: "stage_config \<Rightarrow> stage_config" where
  "normal_stage s = s\<lparr>sg_checks := map normal_check (sg_checks s)\<rparr>"

lemma Diagnostics_Validate_normal: "Diagnostics_Validate ss0 = (None, ss) \<Longrightarrow> ss = map normal_stage ss0"
proof (induction ss0 arbitrary: ss)
  case (Cons s ss0)
  then obtain s' ss' where "Stage_Validate s = (None, s')" "Diagnostics_Validate ss0 = (None, ss')"
    "ss = s\<lparr>sg_checks := sg_checks s'\<rparr> # ss'" by (auto simp only: Diagnostics_Validate_Cons)
  then show ?case using Cons.IH [of ss'] validate_checks_normal
    by (auto simp: Stage_Validate_None normal_stage_def)
qed simp

text \<open>Validation looks at the name of a stage only in its normal form, and keeps it as it is.\<close>

definition rename_stages :: "(string \<Rightarrow> string) \<Rightarrow> stage_config list \<Rightarrow> stage_config list" where
  "rename_stages f ss = map (\<lambda>s. s\<lparr>sg_name := f (sg_name s)\<rparr>) ss"

lemma Diagnostics_Validate_renamed:
  assumes "\<And>s. s \<in> set ss0 \<Longrightarrow> to_lower (trim_space (f (sg_name s))) = to_lower (trim_space (sg_name s))"
    and "Diagnostics_Validate ss0 = (None, ss)"
  shows "Diagnostics_Validate (rename_stages f ss0) = (None, rename_stages f ss)"
  using assms
proof (induction ss0 arbitrary: ss)
  case Nil
  then show ?case by (simp add: rename_stages_def)
next
  case (Cons s ss0)
  from Cons.prems(2) obtain s' ss' where s': "Stage_Validate s = (None, s')" "Diagnostics_Validate ss0 = (None, ss')"
    "ss = s\<lparr>sg_checks := sg_checks s'\<rparr> # ss'" by (auto simp only: Diagnostics_Validate_Cons)
  have "Stage_Validate (s\<lparr>sg_name := f (sg_name s)\<rparr>) = (None, s')"
    using s'(1) Cons.prems(1) [of s] by (simp add: Stage_Validate_def Let_def)
  moreover have "Diagnostics_Validate (rename_stages f ss0) = (None, rename_stages f ss')"
    using Cons.IH [OF _ s'(2)] Cons.prems(1) by simp
  ultimately have "Diagnostics_Validate ((s\<lparr>sg_name := f (sg_name s)\<rparr>) # rename_stages f ss0) =
      (None, s\<lparr>sg_name := f (sg_name s), sg_checks := sg_checks s'\<rparr> # rename_stages f ss')"
    by (auto simp only: Diagnostics_Validate_Cons)
  then show ?case by (simp add: rename_stages_def s'(3))
qed

lemma clean_locations_distinct:
  "clean_locations v acc ls = Some rs \<Longrightarrow> distinct acc \<Longrightarrow> distinct rs"
proof (induction v acc ls rule: clean_locations.induct)
  case (2 v acc l ls)
  then show ?case by (cases "l = []"; cases "validator_absFilePath v l") (auto split: if_splits)
qed simp

lemma clean_locations_member:
  "clean_locations v acc ls = Some rs \<Longrightarrow>
     set rs = set acc \<union> {p. \<exists>l \<in> set ls. l \<noteq> [] \<and> validator_absFilePath v l = Some p}"
proof (induction v acc ls rule: clean_locations.induct)
  case (2 v acc l ls)
  show ?case
  proof (cases "l = []")
    case False
    then obtain p where p: "validator_absFilePath v l = Some p" using "2.prems"
      by (cases "validator_absFilePath v l") auto
    show ?thesis using 2 False p by (cases "p \<in> set acc") auto
  qed (use 2 in auto)
qed simp

text \<open>An accepted validation in one step.\<close>

lemma Settings_Validate_parts:
  assumes "Settings_Validate v s0 = (None, s)"
  obtains l d c p ss where
    "Logging_Validate v (va_logging s0) = (None, l)" "Deployment_Validate v (va_deployment s0) = (None, d)"
    "Cloudzero_Validate v (va_cloudzero s0) = (None, c)" "Prometheus_Validate v (va_prometheus s0) = (None, p)"
    "Diagnostics_Validate (va_stages s0) = (None, ss)"
    "s = s0\<lparr>va_logging := l, va_deployment := d, va_cloudzero := c, va_prometheus := p, va_stages := ss\<rparr>"
proof -
  obtain e1 l where l: "Logging_Validate v (va_logging s0) = (e1, l)" by fastforce
  obtain e2 d where d: "Deployment_Validate v (va_deployment s0) = (e2, d)" by fastforce
  obtain e3 c where c: "Cloudzero_Validate v (va_cloudzero s0) = (e3, c)" by fastforce
  obtain e4 p where p: "Prometheus_Validate v (va_prometheus s0) = (e4, p)" by fastforce
  obtain e5 ss where ss: "Diagnostics_Validate (va_stages s0) = (e5, ss)" by fastforce
  note e = assms [unfolded Settings_Validate_def Let_def]
  have 1: "e1 = None" using e l by (cases e1) simp_all
  have 2: "e2 = None" using e l d 1 by (cases e2) simp_all
  have 3: "e3 = None" using e l d c 1 2 by (cases e3) (simp_all add: Versions_Validate_def)
  have 4: "e4 = None" using e l d c p 1 2 3 by (cases e4) (simp_all add: Versions_Validate_def)
  have 5: "e5 = None \<and> s = s0\<lparr>va_logging := l, va_deployment := d, va_cloudzero := c, va_prometheus := p,
      va_stages := ss\<rparr>"
    using e l d c p ss 1 2 3 4 by (simp add: Versions_Validate_def)
  show ?thesis using that l d c p ss 1 2 3 4 5 by blast
qed

lemma Settings_Validate_renamed:
  assumes "Settings_Validate v s0 = (None, s)"
    and "\<And>st. st \<in> set (va_stages s0) \<Longrightarrow> to_lower (trim_space (f (sg_name st))) = to_lower (trim_space (sg_name st))"
  shows "Settings_Validate v (s0\<lparr>va_stages := rename_stages f (va_stages s0)\<rparr>) =
    (None, s\<lparr>va_stages := rename_stages f (va_stages s)\<rparr>)"
proof -
  obtain l d c p ss where parts:
    "Logging_Validate v (va_logging s0) = (None, l)" "Deployment_Validate v (va_deployment s0) = (None, d)"
    "Cloudzero_Validate v (va_cloudzero s0) = (None, c)" "Prometheus_Validate v (va_prometheus s0) = (None, p)"
    "Diagnostics_Validate (va_stages s0) = (None, ss)"
    and s: "s = s0\<lparr>va_logging := l, va_deployment := d, va_cloudzero := c, va_prometheus := p, va_stages := ss\<rparr>"
    using Settings_Validate_parts [OF assms(1)] .
  note r = Diagnostics_Validate_renamed [OF assms(2) parts(5)]
  show ?thesis by (simp add: Settings_Validate_def Let_def Versions_Validate_def parts(1-4) r s)
qed

lemma Deployment_Validate_complete:
  assumes "Deployment_Validate v d0 = (None, d)"
  shows "vd_account d \<noteq> [] \<and> vd_region d \<noteq> [] \<and> vd_cluster d \<noteq> []"
proof -
  obtain e r a c where D: "DetectConfiguration (ve_scouted v) (Some (trim_space (vd_region d0)))
    (Some (trim_space (vd_account d0))) (Some (trim_space (vd_cluster d0))) = (e, r, a, c)"
    by (cases "DetectConfiguration (ve_scouted v) (Some (trim_space (vd_region d0)))
      (Some (trim_space (vd_account d0))) (Some (trim_space (vd_cluster d0)))")
  have d: "e = None" "d = d0\<lparr>vd_region := case_option [] id r, vd_account := case_option [] id a,
      vd_cluster := case_option [] id c\<rparr>" using assms D by (auto simp: Deployment_Validate_def Let_def split: if_splits)
  have "\<exists>r' a' c'. r = Some r' \<and> a = Some a' \<and> c = Some c' \<and> r' \<noteq> [] \<and> a' \<noteq> [] \<and> c' \<noteq> []"
    using D d(1) by (auto simp: DetectConfiguration_def settle_def needsDetection_def Let_def split: sum.splits if_splits)
  then show ?thesis using d(2) by auto
qed

lemma Logging_Validate_accepts:
  "Logging_Validate v l0 = (None, l) \<Longrightarrow> \<not> ve_missing v (go_dir (vl_location l))"
  by (auto simp: Logging_Validate_def Let_def split: option.splits if_splits)

lemma Cloudzero_Validate_accepts:
  "Cloudzero_Validate v c0 = (None, c) \<Longrightarrow>
     vc_host c \<noteq> [] \<and> ve_valid_url v (vc_host c) \<and> ve_read v (vc_file c) = Some (vc_credential c)"
  by (auto simp: Cloudzero_Validate_def Let_def split: option.splits if_splits)

lemma Prometheus_Validate_accepts:
  "Prometheus_Validate v p0 = (None, p) \<Longrightarrow>
     vp_metrics p \<noteq> [] \<and> distinct (vp_configurations p) \<and> (vp_endpoint p = [] \<or> ve_valid_url v (vp_endpoint p))"
  by (auto simp: Prometheus_Validate_def default_locations_def Let_def
      split: option.splits if_splits dest: clean_locations_distinct)

section \<open>Properties\<close>

definition sample_stage :: stage_config where
  "sample_stage = \<lparr>sg_name = '' Pre-Start'', sg_checks = [\<lparr>cc_name = ''K8s_Version '', cc_type = []\<rparr>]\<rparr>"

definition sample_validator :: validator_settings where
  "sample_validator = empty_settings
     \<lparr>va_deployment := \<lparr>vd_account = ''1'', vd_cluster = ''c'', vd_region = ''r''\<rparr>,
      va_cloudzero := \<lparr>vc_host = ''h'', vc_credential = [], vc_file = ''/k'', vc_quiet = False\<rparr>,
      va_prometheus := \<lparr>vp_executable = [], vp_endpoint = [], vp_configurations = [''/p'', '''', ''/p''],
                        vp_metrics = [''m'']\<rparr>,
      va_stages := [sample_stage]\<rparr>"

definition sample_venv :: validator_env where
  "sample_venv = \<lparr>ve_missing = (\<lambda>_. False), ve_read = (\<lambda>_. Some ''key''), ve_wd = None, ve_load = (\<lambda>_ s. Some s),
     ve_valid_url = (\<lambda>_. True), ve_scouted = Inl ErrNoCloudProviderDetected\<rparr>"

text \<open>C37: validation of the validator's settings.  Settings that are accepted name the account, the
  region and the cluster, have a host that is a URL, the credential that the key file holds, a log
  location whose directory exists, at least one metric to look for and scrape configurations without
  repetition.  The stages are those of the file, in their order, each with all of its checks in their order: of
  each check the name is trimmed and in lower case, and so is the type, which is optional where none is given,
  and then the name is one that exists and the type one of the three.  The names of the stages stay as they
  are in the file, not in their normal form.  Accepting the settings again changes no stage.\<close>

theorem validated_settings:
  assumes "Settings_Validate v s0 = (None, s)"
  shows "(vd_account (va_deployment s) \<noteq> [] \<and> vd_region (va_deployment s) \<noteq> [] \<and> vd_cluster (va_deployment s) \<noteq> []) \<and>
    (vc_host (va_cloudzero s) \<noteq> [] \<and> ve_valid_url v (vc_host (va_cloudzero s)) \<and>
     ve_read v (vc_file (va_cloudzero s)) = Some (vc_credential (va_cloudzero s))) \<and>
    \<not> ve_missing v (go_dir (vl_location (va_logging s))) \<and>
    (vp_metrics (va_prometheus s) \<noteq> [] \<and> distinct (vp_configurations (va_prometheus s))) \<and>
    (list_all valid_stage (va_stages s) \<and> map sg_name (va_stages s) = map sg_name (va_stages s0) \<and>
     map (\<lambda>st. map cc_name (sg_checks st)) (va_stages s) =
       map (\<lambda>st. map (\<lambda>c. to_lower (trim_space (cc_name c))) (sg_checks st)) (va_stages s0) \<and>
     map (\<lambda>st. map cc_type (sg_checks st)) (va_stages s) =
       map (\<lambda>st. map (\<lambda>c. let t = to_lower (trim_space (cc_type c)) in if t = [] then CheckTypeOptional else t)
         (sg_checks st)) (va_stages s0) \<and>
     Diagnostics_Validate (va_stages s) = (None, va_stages s))"
proof -
  obtain l d c p ss where parts:
    "Logging_Validate v (va_logging s0) = (None, l)" "Deployment_Validate v (va_deployment s0) = (None, d)"
    "Cloudzero_Validate v (va_cloudzero s0) = (None, c)" "Prometheus_Validate v (va_prometheus s0) = (None, p)"
    "Diagnostics_Validate (va_stages s0) = (None, ss)"
    and s: "s = s0\<lparr>va_logging := l, va_deployment := d, va_cloudzero := c, va_prometheus := p, va_stages := ss\<rparr>"
    using Settings_Validate_parts [OF assms] .
  show ?thesis
    using Logging_Validate_accepts [OF parts(1)] Deployment_Validate_complete [OF parts(2)]
      Cloudzero_Validate_accepts [OF parts(3)] Prometheus_Validate_accepts [OF parts(4)]
      Diagnostics_Validate_valid [OF parts(5)] Diagnostics_Validate_same [of ss]
      Diagnostics_Validate_normal [OF parts(5)]
    by (simp add: s normal_stage_def normal_check_def Let_def comp_def)
qed

lemma sample_validated: "fst (Settings_Validate sample_venv sample_validator) = None"
  by code_simp

theorem validated_settings_witness:
  "map sg_name (va_stages (snd (Settings_Validate sample_venv sample_validator))) = ['' Pre-Start'']"
  using validated_settings [of sample_venv sample_validator "snd (Settings_Validate sample_venv sample_validator)"]
    sample_validated
  by (simp add: prod_eq_iff sample_validator_def sample_stage_def)

end
