(* ===== verification/Diagnostic_Checks.thy ===== *)
theory Diagnostic_Checks
  imports Validator_Settings Gator_Settings
begin

text \<open>
  The checks of the agent validator (\<open>app/domain/diagnostic\<close>), the report they write
  (\<open>app/types/status/report.go\<close>) and the HTTP client of the API key check
  (\<open>app/http/client\<close>).

  A check never reads the report, so it is the list of its writes, each of which the report takes
  under its lock; \<open>Panicked\<close> ends a check that crashes the process after its writes.  The answers of
  servers, of the cluster's API, of the file system and of the executable are inputs: an answer is
  given for each attempt.  The waiting between attempts has no other effect and is left out.
\<close>

section \<open>The report\<close>

record status_check =
  ck_name :: string
  ck_passing :: bool
  ck_error :: string

datatype status_type =
    STATUS_TYPE_UNSPECIFIED | STATUS_TYPE_INIT_STARTED | STATUS_TYPE_INIT_OK | STATUS_TYPE_INIT_FAILED
  | STATUS_TYPE_POD_STARTED | STATUS_TYPE_POD_STOPPING

record cluster_status =
  cs_account :: string
  cs_region :: string
  cs_name :: string
  cs_state :: status_type
  cs_chart :: string
  cs_agent :: string
  cs_scrape :: string
  cs_validator :: string
  cs_k8s :: string
  cs_provider :: string
  cs_namespace :: string
  cs_checks :: "status_check list"

definition empty_status :: cluster_status where
  "empty_status = \<lparr>cs_account = [], cs_region = [], cs_name = [], cs_state = STATUS_TYPE_UNSPECIFIED, cs_chart = [],
     cs_agent = [], cs_scrape = [], cs_validator = [], cs_k8s = [], cs_provider = [], cs_namespace = [],
     cs_checks = []\<rparr>"

text \<open>\<open>builder\<close>: the report with the callbacks that follow every write and get the report to change.\<close>

record builder =
  ac_report :: cluster_status
  ac_onWrite :: "(cluster_status \<Rightarrow> cluster_status) list"

definition NewAccessor :: "cluster_status \<Rightarrow> (cluster_status \<Rightarrow> cluster_status) list \<Rightarrow> builder" where
  "NewAccessor s callbacks = \<lparr>ac_report = s, ac_onWrite = callbacks\<rparr>"

definition onWriteEvent :: "builder \<Rightarrow> builder" where
  "onWriteEvent b = b\<lparr>ac_report := fold (\<lambda>f. f) (ac_onWrite b) (ac_report b)\<rparr>"

definition WriteToReport :: "(cluster_status \<Rightarrow> cluster_status) \<Rightarrow> builder \<Rightarrow> builder" where
  "WriteToReport f b = onWriteEvent (b\<lparr>ac_report := f (ac_report b)\<rparr>)"

definition ReadFromReport :: "(cluster_status \<Rightarrow> 'a) \<Rightarrow> builder \<Rightarrow> 'a" where
  "ReadFromReport f b = f (ac_report b)"

definition AddCheck :: "status_check list \<Rightarrow> builder \<Rightarrow> builder" where
  "AddCheck cs b = onWriteEvent (b\<lparr>ac_report := (ac_report b)\<lparr>cs_checks := cs_checks (ac_report b) @ cs\<rparr>\<rparr>)"

text \<open>The writes of the checks: one that adds a check, and the closures given to \<open>WriteToReport\<close>.\<close>

datatype report_write =
    Add_check status_check
  | Scrape_found string
  | Version_found string
  | K8s_version_is string
  | Provider_is string
  | Namespace_is string
  | State_is status_type

definition passed :: "string \<Rightarrow> status_check" where
  "passed n = \<lparr>ck_name = n, ck_passing = True, ck_error = []\<rparr>"

definition failed :: "string \<Rightarrow> string \<Rightarrow> status_check" where
  "failed n e = \<lparr>ck_name = n, ck_passing = False, ck_error = e\<rparr>"

fun perform :: "report_write \<Rightarrow> builder \<Rightarrow> builder" where
  "perform (Add_check c) b = AddCheck [c] b"
| "perform (Scrape_found t) b =
     WriteToReport (\<lambda>s. s\<lparr>cs_scrape := (if cs_scrape s \<noteq> [] then cs_scrape s @ [CHR 0x0A] @ t else t),
                          cs_checks := cs_checks s @ [passed DiagnosticScrapeConfig]\<rparr>) b"
| "perform (Version_found t) b =
     WriteToReport (\<lambda>s. s\<lparr>cs_agent := t, cs_checks := cs_checks s @ [passed DiagnosticPrometheusVersion]\<rparr>) b"
| "perform (K8s_version_is t) b = WriteToReport (\<lambda>s. s\<lparr>cs_k8s := t\<rparr>) b"
| "perform (Provider_is t) b = WriteToReport (\<lambda>s. s\<lparr>cs_provider := t\<rparr>) b"
| "perform (Namespace_is t) b = WriteToReport (\<lambda>s. s\<lparr>cs_namespace := t\<rparr>) b"
| "perform (State_is t) b = WriteToReport (\<lambda>s. s\<lparr>cs_state := t\<rparr>) b"

datatype check_end = Ended "string option" | Panicked

type_synonym check_run = "report_write list \<times> check_end"

section \<open>The HTTP client\<close>

definition status_errors :: "(nat \<times> string) list" where
  "status_errors =
    [(400, ''badrequest error''), (401, ''unauthorized error''), (402, ''paymentrequired error''),
     (403, ''forbidden error''), (404, ''not found error''), (405, ''method not allowed error''),
     (406, ''not acceptable error''), (407, ''proxy authrequired error''), (408, ''request timeout error''),
     (409, ''conflict error''), (410, ''gone error''), (411, ''length required error''),
     (412, ''precondition failed error''), (413, ''requestentity too large error''),
     (414, ''request uri too long error''), (415, ''unsupported media type error''),
     (416, ''requested range not satisfiable error''), (417, ''expectation failed error''),
     (418, ''teapot error''), (421, ''misdirected request error''), (422, ''unprocessable entity error''),
     (423, ''locked error''), (424, ''failed dependency error''), (425, ''too early error''),
     (426, ''upgrade required error''), (428, ''precondition required error''),
     (429, ''too many requests error''), (431, ''request header fields too large error''),
     (500, ''internal server error''), (501, ''not implemented error''), (502, ''bad gateway error''),
     (503, ''service unavailable error''), (504, ''gateway timeout error''),
     (505, ''http version not supported error''), (506, ''variant also negotiates error''),
     (507, ''insufficient storage error''), (508, ''loop detected error''), (510, ''not extended error''),
     (511, ''network authentication required error'')]"

definition ToError :: "nat \<Rightarrow> string option" where
  "ToError code = map_of status_errors code"

text \<open>
  An error as the client sees it: what its methods say.  A wrapper and, since Go 1.23, a resolver
  error have an \<open>Unwrap\<close> method, which may give nothing; a system error knows whether it is a timeout
  by its number.
\<close>

datatype net_error =
    Wrapped string "net_error option"
  | Dns_error string string "net_error option"
  | Errno nat string
  | Net_error bool string
  | Plain_error string

fun error_text :: "net_error \<Rightarrow> string" where
  "error_text (Wrapped t _) = t"
| "error_text (Dns_error _ t _) = t"
| "error_text (Errno _ t) = t"
| "error_text (Net_error _ t) = t"
| "error_text (Plain_error t) = t"

text \<open>The loop of \<open>classifyNetworkError\<close>: none where the last \<open>Unwrap\<close> gave nothing.\<close>

fun root_cause :: "net_error \<Rightarrow> net_error option" where
  "root_cause (Wrapped _ None) = None"
| "root_cause (Wrapped _ (Some e)) = root_cause e"
| "root_cause (Dns_error _ _ None) = None"
| "root_cause (Dns_error _ _ (Some e)) = root_cause e"
| "root_cause e = Some e"

text \<open>\<open>Errno.Timeout\<close> on Linux: \<open>EAGAIN\<close> (also \<open>EWOULDBLOCK\<close>) and \<open>ETIMEDOUT\<close>; \<open>ECONNREFUSED\<close> is 111.\<close>

definition classifyNetworkError :: "net_error \<Rightarrow> string" where
  "classifyNetworkError err =
     (case root_cause err of
        Some (Dns_error e _ _) \<Rightarrow> if e = ''no such host'' then ''name not found'' else []
      | Some (Errno n _) \<Rightarrow>
          if n = 10061 \<or> n = 111 then ''connection refused'' else if n = 11 \<or> n = 110 then ''timeout'' else []
      | Some (Net_error timeout _) \<Rightarrow> if timeout then ''timeout'' else []
      | _ \<Rightarrow> [])"

text \<open>\<open>url.Query\<close> drops the pairs it cannot read; a pair without \<open>=\<close> has an empty value.\<close>

definition query_pair :: "string \<Rightarrow> (string \<times> string) option" where
  "query_pair p =
     (if p = [] \<or> CHR '';'' \<in> set p then None
      else (case (case cut ''='' p of None \<Rightarrow> (p, []) | Some kv \<Rightarrow> kv) of
              (k, v) \<Rightarrow> (case (query_unescape k, query_unescape v) of
                           (Some k', Some v') \<Rightarrow> Some (k', v')
                         | _ \<Rightarrow> None)))"

definition url_query :: "string \<Rightarrow> (string \<times> string) list" where
  "url_query q = List.map_filter query_pair (split_char (CHR ''&'') q)"

text \<open>
  \<open>Do\<close>.  The headers are copied into the request before the user agent joins the map, and the map
  is the caller's: the request has no user agent of its own.  \<open>send\<close> answers a request with a status
  or fails; the status of a request that was not answered is 500.
\<close>

definition http_Do ::
  "(string \<Rightarrow> url option) \<Rightarrow> (url \<Rightarrow> string) \<Rightarrow> (http_req \<Rightarrow> net_error + nat) \<Rightarrow>
   string \<Rightarrow> (string \<times> string) list \<Rightarrow> (string \<times> string) list \<Rightarrow> string \<Rightarrow> nat \<times> string option"
where
  "http_Do parse render send method headers params uri =
     (case parse uri of
        None \<Rightarrow> (500, Some ''create request'')
      | Some u \<Rightarrow>
          (let u = u\<lparr>u_query := values_encode (sort_key fst (url_query (u_query u) @ params))\<rparr>
           in (case send \<lparr>rq_method = method, rq_url = render u, rq_headers = headers\<rparr> of
                 Inl err \<Rightarrow>
                   if classifyNetworkError err \<noteq> [] then
                     (500, Some (''network error: '' @ render u @ '': '' @ error_text err))
                   else (500, Some (error_text err))
               | Inr code \<Rightarrow> (code, ToError code))))"

section \<open>The API key\<close>

definition cz_Check ::
  "(string \<Rightarrow> url option) \<Rightarrow> (url \<Rightarrow> string) \<Rightarrow> (http_req \<Rightarrow> net_error + nat) \<Rightarrow> validator_settings \<Rightarrow> check_run"
where
  "cz_Check parse render send cfg =
     (case http_Do parse render send ''GET''
             [(''Authorization'', trim_space (vc_credential (va_cloudzero cfg))),
              (''Accept-Encoding'', ''application/json'')] []
             (vc_host (va_cloudzero cfg) @ ''/v2/insights'') of
        (_, None) \<Rightarrow> ([Add_check (passed DiagnosticAPIKey)], Ended None)
      | (_, Some e) \<Rightarrow> ([Add_check (failed DiagnosticAPIKey e)], Ended None))"

section \<open>The cluster\<close>

text \<open>\<open>env\<close> gives the value of an environment variable, none where it is not set.\<close>

definition env_value :: "string \<Rightarrow> (string \<Rightarrow> string option) \<Rightarrow> (string, string) result" where
  "env_value name env =
     (case env name of
        None \<Rightarrow> Inl (''the env variable `'' @ name @ ''` was not set'')
      | Some val \<Rightarrow> if val = [] then Inl (''the environment variable `'' @ name @ ''` was empty'') else Inr val)"

definition GetNamespace :: "(string \<Rightarrow> string option) \<Rightarrow> (string, string) result" where
  "GetNamespace = env_value ''K8S_NAMESPACE''"

definition GetPodName :: "(string \<Rightarrow> string option) \<Rightarrow> (string, string) result" where
  "GetPodName = env_value ''K8S_POD_NAME''"

definition namespace_Check :: "(string \<Rightarrow> string option) \<Rightarrow> check_run" where
  "namespace_Check env =
     (case GetNamespace env of
        Inl e \<Rightarrow> ([Add_check (failed DiagnosticK8sNamespace e)], Ended None)
      | Inr ns \<Rightarrow> ([Namespace_is ns, Add_check (passed DiagnosticK8sNamespace)], Ended None))"

text \<open>
  The cluster's API: whether a configuration and a client can be had, the version of the server, the
  node of a pod in a namespace and the provider of a node; a text on the left is the error.
\<close>

record cluster_api =
  ka_config :: "(string, unit) result"
  ka_client :: "(string, unit) result"
  ka_discovery :: "(string, unit) result"
  ka_version :: "(string, string \<times> string) result"
  ka_pod_node :: "string \<Rightarrow> string \<Rightarrow> (string, string) result"
  ka_node_provider :: "string \<Rightarrow> (string, string) result"

definition getProviderID :: "(string \<Rightarrow> string option) \<Rightarrow> cluster_api \<Rightarrow> (string, string) result" where
  "getProviderID env api =
     (case GetNamespace env of Inl e \<Rightarrow> Inl e | Inr ns \<Rightarrow>
     (case GetPodName env of Inl e \<Rightarrow> Inl e | Inr name \<Rightarrow>
     (case ka_config api of Inl e \<Rightarrow> Inl (''failed to get the k8s client config: '' @ e) | Inr _ \<Rightarrow>
     (case ka_client api of Inl e \<Rightarrow> Inl (''failed to create a k8s client: '' @ e) | Inr _ \<Rightarrow>
     (case ka_pod_node api ns name of Inl e \<Rightarrow> Inl (''failed to query the pod: '' @ e) | Inr node \<Rightarrow>
     (case ka_node_provider api node of
        Inl e \<Rightarrow> Inl (''failed to get the node: '' @ e)
      | Inr pid \<Rightarrow> Inr pid))))))"

definition provider_Check :: "(string \<Rightarrow> string option) \<Rightarrow> cluster_api \<Rightarrow> check_run" where
  "provider_Check env api =
     (case getProviderID env api of
        Inl e \<Rightarrow> ([Add_check (failed DiagnosticK8sProvider e)], Ended None)
      | Inr pid \<Rightarrow> ([Provider_is pid, Add_check (passed DiagnosticK8sProvider)], Ended None))"

definition getK8sVersion :: "cluster_api \<Rightarrow> (string, string) result" where
  "getK8sVersion api =
     (case ka_config api of Inl e \<Rightarrow> Inl (''read config: '' @ e) | Inr _ \<Rightarrow>
     (case ka_discovery api of Inl e \<Rightarrow> Inl (''discovery client: '' @ e) | Inr _ \<Rightarrow>
     (case ka_version api of
        Inl e \<Rightarrow> Inl (''server version: '' @ e)
      | Inr (major, minor) \<Rightarrow> Inr (major @ ''.'' @ minor))))"

definition version_Check :: "cluster_api \<Rightarrow> check_run" where
  "version_Check api =
     (case getK8sVersion api of
        Inl e \<Rightarrow> ([Add_check (failed DiagnosticK8sVersion e)], Ended None)
      | Inr t \<Rightarrow> ([K8s_version_is t, Add_check (passed DiagnosticK8sVersion)], Ended None))"

definition stage_Check :: "status_type \<Rightarrow> check_run" where
  "stage_Check t = ([State_is t], Ended None)"

section \<open>Prometheus\<close>

text \<open>\<open>stat\<close> of a path: it does not exist, it fails otherwise, or the permissions of the file.\<close>

datatype file_stat = Not_exist | Stat_failed | File_mode nat

text \<open>\<open>ex_output\<close>: the version that the executable writes to the temporary file; each step of
  \<open>GetVersion\<close> may fail.\<close>

record executable_env =
  ex_stat :: "string \<Rightarrow> file_stat"
  ex_tmp_ok :: bool
  ex_run_ok :: "string \<Rightarrow> bool"
  ex_sync_ok :: bool
  ex_seek_ok :: bool
  ex_output :: "string \<Rightarrow> string option"

text \<open>None: the mode of the file is read although \<open>stat\<close> failed and returned nothing.\<close>

definition prom_GetVersion :: "executable_env \<Rightarrow> string \<Rightarrow> (string, string) result option" where
  "prom_GetVersion x executable =
     (if executable = [] then Some (Inl ''no prometheus binary available at configured location'')
      else (case ex_stat x executable of
              Not_exist \<Rightarrow> Some (Inl ''prometheus executable not found'')
            | Stat_failed \<Rightarrow> None
            | File_mode mode \<Rightarrow>
                Some (if and mode 73 = 0 then Inl (''prometheus executable is not executable: '' @ executable)
                      else if \<not> ex_tmp_ok x then Inl ''failed to create raw prometheus version output file''
                      else if \<not> ex_run_ok x executable then Inl ''failed to run prometheus''
                      else if \<not> ex_sync_ok x then Inl ''failed to sync raw prometheus output file''
                      else if \<not> ex_seek_ok x then Inl ''failed to seek to the beginning of the raw prometheus output file''
                      else (case ex_output x executable of
                              None \<Rightarrow> Inl ''failed to read the output''
                            | Some t \<Rightarrow> Inr t))))"

definition promver_Check :: "executable_env \<Rightarrow> validator_settings \<Rightarrow> check_run" where
  "promver_Check x cfg =
     (if vp_executable (va_prometheus cfg) = [] then
        ([Add_check (failed DiagnosticPrometheusVersion ''no prometheus binary available at configured location'')],
         Ended None)
      else (case prom_GetVersion x (vp_executable (va_prometheus cfg)) of
              None \<Rightarrow> ([], Panicked)
            | Some (Inl e) \<Rightarrow> ([Add_check (failed DiagnosticPrometheusVersion e)], Ended None)
            | Some (Inr t) \<Rightarrow> ([Version_found t], Ended None)))"

definition promcfg_Check :: "validator_env \<Rightarrow> validator_settings \<Rightarrow> check_run" where
  "promcfg_Check v cfg =
     (let ls = vp_configurations (va_prometheus cfg)
      in if ls = [] then
           ([Add_check (failed DiagnosticScrapeConfig
               ''no prometheus scrape config locations specified in configuration file'')], Ended None)
         else (map (\<lambda>l. if ve_missing v l then
                           Add_check (failed DiagnosticScrapeConfig (''find scrape configuration failed: '' @ l))
                         else (case ve_read v l of
                                 None \<Rightarrow> Add_check (failed DiagnosticScrapeConfig (''failed to read: '' @ l))
                               | Some text \<Rightarrow> Scrape_found text)) ls,
               Ended None))"

section \<open>The kube-state-metrics\<close>

definition kms_MaxRetry :: nat where "kms_MaxRetry = 12"

text \<open>\<open>answer k\<close> is what the \<open>k\<close>-th attempt gets, counted from 1.\<close>

fun kms_attempts :: "(nat \<Rightarrow> http_res option) \<Rightarrow> string list \<Rightarrow> nat \<Rightarrow> nat \<Rightarrow> report_write list" where
  "kms_attempts answer metrics 0 attempt =
     [Add_check (failed DiagnosticKMS (''Failed to fetch metrics after '' @ dec_nat kms_MaxRetry @ '' retries''))]"
| "kms_attempts answer metrics (Suc r) attempt =
     (case answer attempt of
        None \<Rightarrow> kms_attempts answer metrics r (attempt + 1)
      | Some res \<Rightarrow>
          if rs_status res \<noteq> 200 then kms_attempts answer metrics r (attempt + 1)
          else (case rs_body res of
                  None \<Rightarrow> [Add_check (failed DiagnosticKMS ''Failed to read metrics'')]
                | Some body \<Rightarrow>
                    (let missing = filter (\<lambda>m. \<not> go_contains body m) metrics
                     in map (\<lambda>m. Add_check (failed DiagnosticKMS (''Required metric '' @ m @ '' not found''))) missing @
                        (if missing = [] then [Add_check (passed DiagnosticKMS)]
                         else kms_attempts answer metrics r (attempt + 1)))))"

text \<open>The client of the check: from the configuration in the cluster, or else from the file in the home
  directory; \<open>Inl\<close> where \<open>NewProvider\<close> panics.\<close>

definition kms_NewProvider ::
  "(string, 'k) result \<Rightarrow> (string, 'k) result \<Rightarrow> ('k \<Rightarrow> (string, unit) result) \<Rightarrow> (string, unit) result"
where
  "kms_NewProvider in_cluster home new_client =
     (case (case in_cluster of Inr k \<Rightarrow> Inr k | Inl _ \<Rightarrow> home) of
        Inl e \<Rightarrow> Inl e
      | Inr k \<Rightarrow> new_client k)"

definition kms_Check :: "(string \<Rightarrow> nat \<Rightarrow> http_res option) \<Rightarrow> validator_settings \<Rightarrow> check_run" where
  "kms_Check get cfg =
     (kms_attempts (get (vp_endpoint (va_prometheus cfg) @ ''/metrics'')) (vp_metrics (va_prometheus cfg))
        kms_MaxRetry 1, Ended None)"

section \<open>Istio\<close>

datatype istio_mode = IstioModeNone | IstioModeSidecar | IstioModeAmbient

definition istio_MaxRetry :: nat where "istio_MaxRetry = 3"

text \<open>
  The checker and what surrounds it: \<open>is_env\<close> is the environment, \<open>is_info k\<close> and \<open>is_clusters k\<close> the
  answer to the \<open>k\<close>-th request to each admin endpoint, counted from 0, and \<open>is_decode\<close> reads the cluster
  ID from the JSON of the server info: none where it is malformed, the empty text where the metadata
  have no such text.
\<close>

record istio_checker =
  is_configured :: string
  is_clusterName :: string
  is_topology :: string
  is_service :: string
  is_namespace :: string
  is_env :: "string \<Rightarrow> string option"
  is_info :: "nat \<Rightarrow> http_res option"
  is_clusters :: "nat \<Rightarrow> http_res option"
  is_decode :: "string \<Rightarrow> string option"

definition getenv :: "(string \<Rightarrow> string option) \<Rightarrow> string \<Rightarrow> string" where
  "getenv env name = (case env name of None \<Rightarrow> [] | Some t \<Rightarrow> t)"

definition istio_NewProvider ::
  "validator_settings \<Rightarrow> (string \<Rightarrow> string option) \<Rightarrow> (nat \<Rightarrow> http_res option) \<Rightarrow> (nat \<Rightarrow> http_res option) \<Rightarrow>
   (string \<Rightarrow> string option) \<Rightarrow> istio_checker"
where
  "istio_NewProvider cfg env info clusters decode =
     \<lparr>is_configured = va_istio_cluster cfg, is_clusterName = vd_cluster (va_deployment cfg),
      is_topology = getenv env ''ISTIO_TOPOLOGY_CLUSTER'', is_service = vs_collector (va_services cfg),
      is_namespace = vs_namespace (va_services cfg), is_env = env, is_info = info, is_clusters = clusters,
      is_decode = decode\<rparr>"

definition effectiveClusterID :: "istio_checker \<Rightarrow> string" where
  "effectiveClusterID c = (if is_configured c \<noteq> [] then is_configured c else is_clusterName c)"

text \<open>The cluster ID or the last error, with the number of requests made so far.\<close>

fun info_attempts :: "istio_checker \<Rightarrow> nat \<Rightarrow> string \<Rightarrow> nat \<Rightarrow> (string, string) result \<times> nat" where
  "info_attempts c 0 lastErr k = (Inl lastErr, k)"
| "info_attempts c (Suc r) lastErr k =
     (case is_info c k of
        None \<Rightarrow> info_attempts c r ''failed to query Envoy server_info'' (k + 1)
      | Some res \<Rightarrow>
          if rs_status res \<noteq> 200 then
            info_attempts c r (''envoy server_info returned status '' @ dec_nat (rs_status res)) (k + 1)
          else (case rs_body res of
                  None \<Rightarrow> info_attempts c r ''failed to read Envoy server_info response'' (k + 1)
                | Some body \<Rightarrow>
                    (case is_decode c body of
                       None \<Rightarrow> info_attempts c r ''failed to parse Envoy server_info JSON'' (k + 1)
                     | Some i \<Rightarrow> (Inr i, k + 1))))"

definition getIstioClusterID :: "istio_checker \<Rightarrow> nat \<Rightarrow> (string, string) result \<times> nat" where
  "getIstioClusterID c k = info_attempts c istio_MaxRetry [] k"

definition detectIstioMode :: "istio_checker \<Rightarrow> nat \<Rightarrow> istio_mode \<times> nat" where
  "detectIstioMode c k =
     (case getIstioClusterID c k of
        (Inr _, k') \<Rightarrow> (IstioModeSidecar, k')
      | (Inl _, k') \<Rightarrow>
          (if getenv (is_env c) ''ISTIO_AMBIENT_REDIRECTION'' = ''enabled'' then IstioModeAmbient else IstioModeNone,
           k'))"

text \<open>The lines a scanner yields before one that does not fit its buffer of 64 KiB.\<close>

definition envoy_lines :: "string \<Rightarrow> string list" where
  "envoy_lines body =
     (let ls = split_char (CHR 0x0A) body
      in map drop_cr (takeWhile (\<lambda>l. length l < 65536) (if last ls = [] then butlast ls else ls)))"

definition region_of :: "string \<Rightarrow> string list" where
  "region_of line =
     (if go_contains line ''::region::'' then
        (let r = trim_space (hd (go_split ''::'' (go_split ''::region::'' line ! 1)))
         in if r = [] then [] else [r])
      else [])"

definition parseEnvoyResponse :: "istio_checker \<Rightarrow> string \<Rightarrow> bool" where
  "parseEnvoyResponse c body =
     (let pat = is_service c @ ''.'' @ is_namespace c @ ''.svc.cluster.local'';
          regions = concat (map region_of (filter (\<lambda>l. go_contains l pat) (envoy_lines body)))
      in 1 < length (remdups regions))"

fun clusters_attempts :: "istio_checker \<Rightarrow> nat \<Rightarrow> string \<Rightarrow> nat \<Rightarrow> (string, bool) result" where
  "clusters_attempts c 0 lastErr k = Inl lastErr"
| "clusters_attempts c (Suc r) lastErr k =
     (case is_clusters c k of
        None \<Rightarrow> clusters_attempts c r ''failed to query Envoy admin API'' (k + 1)
      | Some res \<Rightarrow>
          if rs_status res \<noteq> 200 then
            clusters_attempts c r (''envoy admin API returned status '' @ dec_nat (rs_status res)) (k + 1)
          else (case rs_body res of
                  None \<Rightarrow> clusters_attempts c r ''failed to read Envoy response'' (k + 1)
                | Some body \<Rightarrow> Inr (parseEnvoyResponse c body)))"

definition detectCrossClusterLB :: "istio_checker \<Rightarrow> (string, bool) result" where
  "detectCrossClusterLB c = clusters_attempts c istio_MaxRetry [] 0"

definition checkAmbientMode :: "istio_checker \<Rightarrow> report_write list" where
  "checkAmbientMode c =
     (if is_configured c = [] then
        [Add_check (failed DiagnosticIstioXClusterLB ''Istio Ambient mode detected but integrations.istio.clusterID not configured'')]
      else if is_topology c \<noteq> [] \<and> is_topology c \<noteq> is_configured c then
        [Add_check (failed DiagnosticIstioXClusterLB ''Configured cluster ID does not match pod topology label'')]
      else [Add_check (passed DiagnosticIstioXClusterLB)])"

definition checkSidecarMode :: "istio_checker \<Rightarrow> nat \<Rightarrow> report_write list" where
  "checkSidecarMode c k =
     (case getIstioClusterID c k of
        (Inl _, _) \<Rightarrow> [Add_check (passed DiagnosticIstioXClusterLB)]
      | (Inr i, _) \<Rightarrow>
          (let effective = effectiveClusterID c
           in if i \<noteq> [] \<and> effective \<noteq> i then
                [Add_check (failed DiagnosticIstioXClusterLB ''Effective cluster ID does not match Istio cluster ID'')]
              else if is_topology c \<noteq> [] \<and> is_topology c \<noteq> effective then
                [Add_check (failed DiagnosticIstioXClusterLB ''Effective cluster ID does not match pod topology label'')]
              else (case detectCrossClusterLB c of
                      Inl _ \<Rightarrow> [Add_check (passed DiagnosticIstioXClusterLB)]
                    | Inr _ \<Rightarrow> [Add_check (passed DiagnosticIstioXClusterLB)])))"

definition istio_Check :: "istio_checker \<Rightarrow> check_run" where
  "istio_Check c =
     (case detectIstioMode c 0 of
        (IstioModeNone, _) \<Rightarrow> ([Add_check (passed DiagnosticIstioXClusterLB)], Ended None)
      | (IstioModeAmbient, _) \<Rightarrow> (checkAmbientMode c, Ended None)
      | (IstioModeSidecar, k) \<Rightarrow> (checkSidecarMode c k, Ended None))"

section \<open>The webhook\<close>

definition webhook_MaxAttempts :: nat where "webhook_MaxAttempts = 6"

text \<open>
  A response of the webhook with the name of its encoding; the decoders, none where they fail, and
  the reading of the review's JSON: none where it is malformed, else whether it holds a response.
\<close>

record webhook_answer =
  wa_status :: nat
  wa_encoding :: string
  wa_body :: "string option"

record webhook_codec =
  wc_encode_ok :: bool
  wc_request_ok :: "string \<Rightarrow> bool"
  wc_base64 :: "string \<Rightarrow> string option"
  wc_gunzip :: "string \<Rightarrow> string option"
  wc_inflate :: "string \<Rightarrow> string option"
  wc_review :: "string \<Rightarrow> bool option"

text \<open>\<open>getResponseReader\<close> followed by reading all of it: \<open>readResponseBody\<close> ignores a failed read.\<close>

definition response_data :: "webhook_codec \<Rightarrow> webhook_answer \<Rightarrow> (string, string) result" where
  "response_data d a =
     (let reading = (\<lambda>t. case t of None \<Rightarrow> Inl ''failed to read webhook response'' | Some s \<Rightarrow> Inr s)
      in if wa_encoding a = ''base64'' then
           (case wc_base64 d (case wa_body a of None \<Rightarrow> [] | Some b \<Rightarrow> b) of
              None \<Rightarrow> Inl ''failed to decode base64 response''
            | Some t \<Rightarrow> Inr t)
         else if wa_encoding a = ''gzip'' then reading (Option.bind (wa_body a) (wc_gunzip d))
         else if wa_encoding a = ''deflate'' then reading (Option.bind (wa_body a) (wc_inflate d))
         else if wa_encoding a = [] then reading (wa_body a)
         else Inl (''unsupported Content-Encoding: '' @ wa_encoding a))"

definition parseWebhookResponse :: "webhook_codec \<Rightarrow> webhook_answer \<Rightarrow> (string, unit) result" where
  "parseWebhookResponse d a =
     (case response_data d a of
        Inl e \<Rightarrow> Inl e
      | Inr t \<Rightarrow>
          (case wc_review d t of
             None \<Rightarrow> Inl ''failed to unmarshal AdmissionReview''
           | Some False \<Rightarrow> Inl ''no AdmissionResponse in webhook reply''
           | Some True \<Rightarrow> Inr ()))"

text \<open>\<open>answer\<close> is none where the request fails or its time is over.  Building the review cannot fail.\<close>

definition SendPodToValidatingWebhook ::
  "webhook_codec \<Rightarrow> string \<Rightarrow> webhook_answer option \<Rightarrow> (string, unit) result"
where
  "SendPodToValidatingWebhook d url answer =
     (if \<not> wc_encode_ok d then Inl ''webhook request failed: failed to encode AdmissionReview''
      else if \<not> wc_request_ok d url then Inl ''webhook request failed: failed to create HTTP request''
      else (case answer of
              None \<Rightarrow> Inl ''webhook request failed''
            | Some a \<Rightarrow>
                if wa_status a \<noteq> 200 then
                  Inl (''webhook returned '' @ dec_nat (wa_status a) @ '': '' @ (case wa_body a of None \<Rightarrow> [] | Some b \<Rightarrow> b))
                else parseWebhookResponse d a))"

fun webhook_attempts ::
  "webhook_codec \<Rightarrow> string \<Rightarrow> (nat \<Rightarrow> webhook_answer option) \<Rightarrow> nat \<Rightarrow> nat \<Rightarrow> string \<Rightarrow> report_write list"
where
  "webhook_attempts d url answer 0 k err =
     [Add_check (failed DiagnosticInsightsIngress
        (''received non-2xx response from '' @ url @ '' after '' @ dec_nat webhook_MaxAttempts @ '' retries: '' @ err))]"
| "webhook_attempts d url answer (Suc r) k err =
     (case SendPodToValidatingWebhook d url (answer k) of
        Inr _ \<Rightarrow> [Add_check (passed DiagnosticInsightsIngress)]
      | Inl e \<Rightarrow> webhook_attempts d url answer r (k + 1) e)"

definition webhook_url :: "validator_settings \<Rightarrow> string" where
  "webhook_url cfg = ''https://'' @ vs_insights (va_services cfg) @ ''.'' @ vs_namespace (va_services cfg) @
     ''.svc.cluster.local'' @ ''/validate''"

definition webhook_Check :: "webhook_codec \<Rightarrow> (nat \<Rightarrow> webhook_answer option) \<Rightarrow> validator_settings \<Rightarrow> check_run" where
  "webhook_Check d answer cfg =
     (webhook_attempts d (webhook_url cfg) answer webhook_MaxAttempts 0 [], Ended None)"

section \<open>What a write does\<close>

text \<open>The checks that a write adds to the report.\<close>

fun checks_of :: "report_write \<Rightarrow> status_check list" where
  "checks_of (Add_check c) = [c]"
| "checks_of (Scrape_found _) = [passed DiagnosticScrapeConfig]"
| "checks_of (Version_found _) = [passed DiagnosticPrometheusVersion]"
| "checks_of _ = []"

fun sets_state :: "report_write \<Rightarrow> bool" where
  "sets_state (State_is _) = True"
| "sets_state _ = False"

lemmas report_defs = WriteToReport_def AddCheck_def onWriteEvent_def ReadFromReport_def NewAccessor_def

lemma perform_onWrite [simp]: "ac_onWrite (perform w b) = ac_onWrite b"
  by (cases w) (simp_all add: report_defs)

lemma perform_checks:
  "ac_onWrite b = [] \<Longrightarrow> cs_checks (ac_report (perform w b)) = cs_checks (ac_report b) @ checks_of w"
  by (cases w) (simp_all add: report_defs)

lemma perform_state:
  "ac_onWrite b = [] \<Longrightarrow> \<not> sets_state w \<Longrightarrow> cs_state (ac_report (perform w b)) = cs_state (ac_report b)"
  by (cases w) (simp_all add: report_defs)

text \<open>The contract of a check: it reports under its own name, leaves the state of the report to the
  stages and never returns an error.\<close>

locale diagnostic_check =
  fixes n :: string and p :: check_run
  assumes own: "w \<in> set (fst p) \<Longrightarrow> c \<in> set (checks_of w) \<Longrightarrow> ck_name c = n"
    and stateless: "w \<in> set (fst p) \<Longrightarrow> \<not> sets_state w"
    and no_error: "snd p = Ended None \<or> snd p = Panicked"
begin

lemma keeps_state: "ac_onWrite b = [] \<Longrightarrow> cs_state (ac_report (fold perform (fst p) b)) = cs_state (ac_report b)"
proof -
  have "ac_onWrite b = [] \<Longrightarrow> \<forall>w \<in> set ws. \<not> sets_state w \<Longrightarrow>
    cs_state (ac_report (fold perform ws b)) = cs_state (ac_report b)" for ws
    by (induction ws arbitrary: b) (simp_all add: perform_state)
  then show "ac_onWrite b = [] \<Longrightarrow> cs_state (ac_report (fold perform (fst p) b)) = cs_state (ac_report b)"
    using stateless by blast
qed

lemma error_free: "snd p \<noteq> Ended (Some e)"
  using no_error by auto

end

lemma passed_name [simp]: "ck_name (passed n) = n" and passed_passing [simp]: "ck_passing (passed n)"
  and failed_name [simp]: "ck_name (failed n e) = n" and failed_passing [simp]: "\<not> ck_passing (failed n e)"
  by (simp_all add: passed_def failed_def)

text \<open>The writes of a check that only adds checks of one name.\<close>

definition only_checks :: "string \<Rightarrow> report_write list \<Rightarrow> bool" where
  "only_checks n ws \<longleftrightarrow> list_all (\<lambda>w. \<exists>c. w = Add_check c \<and> ck_name c = n) ws"

lemma only_checks_simps [simp]:
  "only_checks n []" "only_checks n (Add_check c # ws) \<longleftrightarrow> ck_name c = n \<and> only_checks n ws"
  "only_checks n (ws @ us) \<longleftrightarrow> only_checks n ws \<and> only_checks n us"
  by (auto simp: only_checks_def)

lemma only_checks_provider: "only_checks n ws \<Longrightarrow> diagnostic_check n (ws, Ended None)"
  by unfold_locales (auto simp: only_checks_def list_all_iff)

lemma only_checks_fails: "only_checks n (map (\<lambda>m. Add_check (failed n (f m))) ms)"
  by (simp add: only_checks_def list_all_iff)

lemma only_checks_kms: "only_checks DiagnosticKMS (kms_attempts answer metrics r k)"
proof (induction r arbitrary: k)
  case (Suc r)
  then show ?case by (simp add: Let_def only_checks_fails split: option.split)
qed simp

lemma only_checks_webhook: "only_checks DiagnosticInsightsIngress (webhook_attempts d url answer r k e)"
proof (induction r arbitrary: k e)
  case (Suc r)
  then show ?case by (simp split: sum.split)
qed simp

lemma only_checks_ambient: "only_checks DiagnosticIstioXClusterLB (checkAmbientMode c)"
  by (simp add: checkAmbientMode_def)

lemma only_checks_sidecar: "only_checks DiagnosticIstioXClusterLB (checkSidecarMode c k)"
  by (simp add: checkSidecarMode_def Let_def split: prod.split sum.split)

lemma only_checks_istio: "only_checks DiagnosticIstioXClusterLB (fst (istio_Check c)) \<and> snd (istio_Check c) = Ended None"
  by (simp add: istio_Check_def only_checks_ambient only_checks_sidecar split: prod.split istio_mode.split)

interpretation api_key: diagnostic_check DiagnosticAPIKey "cz_Check parse render send cfg" for parse render send cfg
  unfolding cz_Check_def by (auto split: prod.splits option.splits intro!: only_checks_provider)

interpretation k8s_namespace: diagnostic_check DiagnosticK8sNamespace "namespace_Check env" for env
  by unfold_locales (auto simp: namespace_Check_def split: sum.splits)

interpretation k8s_provider: diagnostic_check DiagnosticK8sProvider "provider_Check env api" for env api
  by unfold_locales (auto simp: provider_Check_def split: sum.splits)

interpretation k8s_version: diagnostic_check DiagnosticK8sVersion "version_Check api" for api
  by unfold_locales (auto simp: version_Check_def split: sum.splits)

interpretation prom_version: diagnostic_check DiagnosticPrometheusVersion "promver_Check x cfg" for x cfg
  by unfold_locales (auto simp: promver_Check_def split: option.splits sum.splits if_splits)

interpretation scrape_config: diagnostic_check DiagnosticScrapeConfig "promcfg_Check v cfg" for v cfg
  by unfold_locales (auto simp: promcfg_Check_def Let_def split: option.splits if_splits)

interpretation kube_metrics: diagnostic_check DiagnosticKMS "kms_Check get cfg" for get cfg
  unfolding kms_Check_def by (rule only_checks_provider) (rule only_checks_kms)

interpretation ingress: diagnostic_check DiagnosticInsightsIngress "webhook_Check d answer cfg" for d answer cfg
  unfolding webhook_Check_def by (rule only_checks_provider) (rule only_checks_webhook)

interpretation istio_lb: diagnostic_check DiagnosticIstioXClusterLB "istio_Check c" for c
  using only_checks_provider [of DiagnosticIstioXClusterLB "fst (istio_Check c)"] only_checks_istio [of c]
  by (metis prod.collapse)

section \<open>Verdicts\<close>

text \<open>The checks that a provider adds, and whether one of them fails.\<close>

definition added_checks :: "check_run \<Rightarrow> status_check list" where
  "added_checks p = concat (map checks_of (fst p))"

definition fails :: "check_run \<Rightarrow> bool" where
  "fails p \<longleftrightarrow> list_ex (\<lambda>c. \<not> ck_passing c) (added_checks p)"

lemma added_simps [simp]:
  "added_checks ([], e) = []" "added_checks (Add_check c # ws, e) = c # added_checks (ws, e)"
  "added_checks (ws @ us, e) = added_checks (ws, e) @ added_checks (us, e)"
  by (simp_all add: added_checks_def)

lemma fails_simps [simp]:
  "\<not> fails ([], e)" "fails (Add_check c # ws, e) \<longleftrightarrow> \<not> ck_passing c \<or> fails (ws, e)"
  "fails (ws @ us, e) \<longleftrightarrow> fails (ws, e) \<or> fails (us, e)"
  by (simp_all add: fails_def)

lemma fails_each [simp]: "fails (map (\<lambda>m. Add_check (failed n (f m))) ms, e) \<longleftrightarrow> ms \<noteq> []"
  by (cases ms) simp_all

text \<open>The first success of a bounded number of attempts.\<close>

lemma first_within:
  "(\<exists>j. k \<le> j \<and> j < k + Suc r \<and> C j \<and> (\<forall>i. k \<le> i \<and> i < j \<longrightarrow> U i)) \<longleftrightarrow>
     C k \<or> U k \<and> (\<exists>j. Suc k \<le> j \<and> j < Suc k + r \<and> C j \<and> (\<forall>i. Suc k \<le> i \<and> i < j \<longrightarrow> U i))"
  (is "?all \<longleftrightarrow> C k \<or> U k \<and> ?rest")
proof
  assume ?all
  then obtain j where j: "k \<le> j" "j < k + Suc r" "C j" "\<And>i. k \<le> i \<Longrightarrow> i < j \<Longrightarrow> U i" by blast
  show "C k \<or> U k \<and> ?rest"
  proof (cases "j = k")
    case False
    with j(1) have "Suc k \<le> j" by simp
    with j show ?thesis by (metis Suc_leD Suc_le_lessD add_Suc_shift le_refl)
  qed (use j in simp)
next
  assume "C k \<or> U k \<and> ?rest"
  then consider "C k" | j where "U k" "Suc k \<le> j" "j < Suc k + r" "C j" "\<And>i. Suc k \<le> i \<Longrightarrow> i < j \<Longrightarrow> U i" by blast
  then show ?all
  proof cases
    case 1
    then show ?thesis by (intro exI [of _ k]) auto
  next
    case 2
    have "U i" if "k \<le> i" "i < j" for i using 2(1,5) that by (cases "i = k") auto
    then show ?thesis using 2 by (intro exI [of _ j]) auto
  qed
qed

text \<open>How an attempt at the kube-state-metrics can go.\<close>

definition unanswered :: "http_res option \<Rightarrow> bool" where
  "unanswered a \<longleftrightarrow> a = None \<or> rs_status (the a) \<noteq> 200"

definition complete_answer :: "string list \<Rightarrow> http_res option \<Rightarrow> bool" where
  "complete_answer metrics a \<longleftrightarrow>
     \<not> unanswered a \<and> (\<exists>body. rs_body (the a) = Some body \<and> list_all (go_contains body) metrics)"

lemma kms_attempts_verdict:
  "\<not> fails (kms_attempts answer metrics r k, e) \<longleftrightarrow>
     (\<exists>j. k \<le> j \<and> j < k + r \<and> complete_answer metrics (answer j) \<and> (\<forall>i. k \<le> i \<and> i < j \<longrightarrow> unanswered (answer i)))"
proof (induction r arbitrary: k)
  case (Suc r)
  show ?case
  proof (cases "unanswered (answer k)")
    case True
    then have "kms_attempts answer metrics (Suc r) k = kms_attempts answer metrics r (Suc k)"
      by (cases "answer k") (auto simp: unanswered_def)
    then show ?thesis unfolding first_within using Suc.IH [of "Suc k"] True by (simp add: complete_answer_def)
  next
    case False
    then obtain res where res: "answer k = Some res" "rs_status res = 200" by (auto simp: unanswered_def)
    then show ?thesis unfolding first_within using False
      by (cases "rs_body res")
        (auto simp: complete_answer_def Let_def filter_empty_conv list_all_iff)
  qed
qed simp

text \<open>The check of the kube-state-metrics reports a failure unless, within its twelve
  attempts, the first that is answered with status 200 has every required metric.  A metric that is
  missing from one answer and present in a later one leaves a failing check in the report: the
  failures of the attempts are added as they happen and none is taken back.\<close>

theorem kms_verdict:
  "fails (kms_Check get cfg) \<longleftrightarrow>
     \<not> (\<exists>j. 1 \<le> j \<and> j \<le> 12 \<and>
          complete_answer (vp_metrics (va_prometheus cfg)) (get (vp_endpoint (va_prometheus cfg) @ ''/metrics'') j) \<and>
          (\<forall>i. 1 \<le> i \<and> i < j \<longrightarrow> unanswered (get (vp_endpoint (va_prometheus cfg) @ ''/metrics'') i)))"
proof -
  have "j < Suc kms_MaxRetry \<longleftrightarrow> j \<le> 12" for j :: nat by (auto simp: kms_MaxRetry_def)
  with kms_attempts_verdict [of "get (vp_endpoint (va_prometheus cfg) @ ''/metrics'')"
      "vp_metrics (va_prometheus cfg)" kms_MaxRetry "Suc 0" "Ended None"]
  show ?thesis unfolding kms_Check_def One_nat_def plus_1_eq_Suc add_Suc add_0 by blast
qed

lemma same_branches [simp]: "(case x of Inl _ \<Rightarrow> a | Inr _ \<Rightarrow> a) = a"
  by (cases x) simp_all

lemma istio_single: "length (added_checks (istio_Check c)) = 1"
proof -
  obtain a k where g: "getIstioClusterID c 0 = (a, k)" by fastforce
  obtain a' k' where g': "getIstioClusterID c k = (a', k')" by fastforce
  show ?thesis using g g'
    by (cases a; cases a') (simp_all add: istio_Check_def detectIstioMode_def checkAmbientMode_def checkSidecarMode_def Let_def)
qed

lemma istio_fails_iff:
  "fails (istio_Check c) \<longleftrightarrow>
      (case getIstioClusterID c 0 of
         (Inl _, _) \<Rightarrow> getenv (is_env c) ''ISTIO_AMBIENT_REDIRECTION'' = ''enabled'' \<and>
           (is_configured c = [] \<or> is_topology c \<notin> {[], is_configured c})
       | (Inr _, k) \<Rightarrow>
           (case fst (getIstioClusterID c k) of
              Inl _ \<Rightarrow> False
            | Inr i \<Rightarrow> i \<notin> {[], effectiveClusterID c} \<or> is_topology c \<notin> {[], effectiveClusterID c}))"
proof -
  obtain a k where g: "getIstioClusterID c 0 = (a, k)" by fastforce
  obtain a' k' where g': "getIstioClusterID c k = (a', k')" by fastforce
  show ?thesis
  proof (cases a)
    case (Inl e)
    then show ?thesis using g by (simp add: istio_Check_def detectIstioMode_def checkAmbientMode_def)
  next
    case (Inr i)
    then have "istio_Check c = (checkSidecarMode c k, Ended None)"
      using g by (simp add: istio_Check_def detectIstioMode_def)
    then show ?thesis using Inr g g'
      by (cases a') (auto simp: checkSidecarMode_def Let_def)
  qed
qed

text \<open>The check of Istio reports exactly one result.  It fails in ambient mode when no
  cluster ID is configured or the pod's label differs from it, and with a sidecar when the second
  reading of the sidecar's cluster ID succeeds and that ID, or else the pod's label, is known and
  differs from the effective cluster ID.  What the sidecar says about the aggregator's regions is read
  and never decides.\<close>

theorem istio_verdict:
  "length (added_checks (istio_Check c)) = 1 \<and>
   (fails (istio_Check c) \<longleftrightarrow>
      (case getIstioClusterID c 0 of
         (Inl _, _) \<Rightarrow> getenv (is_env c) ''ISTIO_AMBIENT_REDIRECTION'' = ''enabled'' \<and>
           (is_configured c = [] \<or> is_topology c \<notin> {[], is_configured c})
       | (Inr _, k) \<Rightarrow>
           (case fst (getIstioClusterID c k) of
              Inl _ \<Rightarrow> False
            | Inr i \<Rightarrow> i \<notin> {[], effectiveClusterID c} \<or> is_topology c \<notin> {[], effectiveClusterID c}))) \<and>
   istio_Check (c\<lparr>is_clusters := answers\<rparr>) = istio_Check c"
proof -
  have info: "info_attempts (c\<lparr>is_clusters := answers\<rparr>) r e k = info_attempts c r e k" for r e k
    by (induction r arbitrary: e k) (simp_all split: option.split)
  have get: "getIstioClusterID (c\<lparr>is_clusters := answers\<rparr>) k = getIstioClusterID c k" for k
    by (simp add: getIstioClusterID_def info)
  have ambient: "checkAmbientMode (c\<lparr>is_clusters := answers\<rparr>) = checkAmbientMode c"
    by (simp add: checkAmbientMode_def)
  have sidecar: "checkSidecarMode (c\<lparr>is_clusters := answers\<rparr>) k = checkSidecarMode c k" for k
  proof -
    obtain a k' where "getIstioClusterID c k = (a, k')" by fastforce
    then show ?thesis by (cases a) (simp_all add: checkSidecarMode_def get effectiveClusterID_def Let_def)
  qed
  have same: "istio_Check (c\<lparr>is_clusters := answers\<rparr>) = istio_Check c"
    by (simp add: istio_Check_def detectIstioMode_def get ambient sidecar split: prod.split sum.split)
  show ?thesis by (intro conjI istio_single istio_fails_iff same)
qed

text \<open>The regions of the aggregator's endpoints: more than one of them is a crossing of clusters.\<close>

lemma more_than_one: "1 < length (remdups xs) \<longleftrightarrow> (\<exists>x \<in> set xs. \<exists>y \<in> set xs. x \<noteq> y)"
proof -
  have "1 < card (set xs) \<longleftrightarrow> (\<exists>x \<in> set xs. \<exists>y \<in> set xs. x \<noteq> y)"
    by (metis One_nat_def card_le_Suc0_iff_eq List.finite_set not_le)
  then show ?thesis by (simp add: length_remdups_card_conv)
qed

lemma cross_cluster_iff:
  "parseEnvoyResponse c body \<longleftrightarrow>
     (\<exists>l \<in> set (envoy_lines body). \<exists>l' \<in> set (envoy_lines body).
        go_contains l (is_service c @ ''.'' @ is_namespace c @ ''.svc.cluster.local'') \<and>
        go_contains l' (is_service c @ ''.'' @ is_namespace c @ ''.svc.cluster.local'') \<and>
        (\<exists>r \<in> set (region_of l). \<exists>r' \<in> set (region_of l'). r \<noteq> r'))"
  unfolding parseEnvoyResponse_def Let_def more_than_one by auto

text \<open>An error of the resolver unwraps to what it wraps or to nothing, so its own message is never seen.\<close>

lemma root_cause_not_dns: "root_cause e \<noteq> Some (Dns_error m t u)"
  by (induction e rule: root_cause.induct) auto

lemma resolver_errors_unclassified: "classifyNetworkError e \<noteq> ''name not found''"
  using root_cause_not_dns [of e]
  by (auto simp: classifyNetworkError_def split: option.split net_error.split)

text \<open>The check of the API key.  It passes exactly when the request could be made and was
  answered with a status that has no error of its own: not only a success or a redirection, but also
  every status of an error that the table does not list.\<close>

theorem api_key_verdict:
  "\<not> fails (cz_Check parse render send cfg) \<longleftrightarrow>
     (\<exists>u code. parse (vc_host (va_cloudzero cfg) @ ''/v2/insights'') = Some u \<and>
        send \<lparr>rq_method = ''GET'', rq_url = render (u\<lparr>u_query := values_encode (sort_key fst (url_query (u_query u)))\<rparr>),
               rq_headers = [(''Authorization'', trim_space (vc_credential (va_cloudzero cfg))),
                             (''Accept-Encoding'', ''application/json'')]\<rparr> = Inr code \<and>
        code \<notin> fst ` set status_errors)"
  by (cases "parse (vc_host (va_cloudzero cfg) @ ''/v2/insights'')")
    (auto simp: cz_Check_def http_Do_def ToError_def Let_def map_of_eq_None_iff split: sum.split option.split
      dest!: map_of_SomeD intro: rev_image_eqI)

end
