(* ===== verification/Diagnostic_Runner.thy ===== *)
theory Diagnostic_Runner
  imports Diagnostic_Checks
begin

text \<open>
  The catalog of the checks (\<open>app/domain/diagnostic/catalog\<close>), the engine that runs the checks of a
  lifecycle stage (\<open>app/domain/diagnostic/runner\<close>), the report to the service
  (\<open>app/utils/telemetry\<close>) and the command (\<open>app/functions/agent-validator/diagnose\<close>).

  The goroutines of a stage are interleaved at their writes: a schedule is the list of the goroutines
  whose turn it is, and a run waits until every goroutine is through.
\<close>

section \<open>The catalog\<close>

definition DiagnosticInternalInitStart :: string where "DiagnosticInternalInitStart = ''init_start''"
definition DiagnosticInternalInitStop :: string where "DiagnosticInternalInitStop = ''init_ok''"
definition DiagnosticInternalInitFailed :: string where "DiagnosticInternalInitFailed = ''init_failed''"
definition DiagnosticInternalPodStart :: string where "DiagnosticInternalPodStart = ''pod_start''"
definition DiagnosticInternalPodStop :: string where "DiagnosticInternalPodStop = ''pod_stop''"

lemmas internal_names = DiagnosticInternalInitStart_def DiagnosticInternalInitStop_def
  DiagnosticInternalInitFailed_def DiagnosticInternalPodStart_def DiagnosticInternalPodStop_def

text \<open>The entries of the map: whether the check is private, and its provider.\<close>

type_synonym registry = "(string \<times> bool \<times> check_run) list"

definition reg_Has :: "registry \<Rightarrow> string \<Rightarrow> bool" where
  "reg_Has r i \<longleftrightarrow> i \<in> fst ` set r"

text \<open>None where \<open>add\<close> panics: a name is taken.\<close>

definition reg_add :: "string \<Rightarrow> bool \<Rightarrow> check_run \<Rightarrow> registry \<Rightarrow> registry option" where
  "reg_add name private p r = (if reg_Has r name then None else Some (r @ [(name, private, p)]))"

fun reg_adds :: "(string \<times> bool \<times> check_run) list \<Rightarrow> registry \<Rightarrow> registry option" where
  "reg_adds [] r = Some r"
| "reg_adds ((n, private, p) # es) r =
     (case reg_add n private p r of None \<Rightarrow> None | Some r' \<Rightarrow> reg_adds es r')"

definition reg_Get :: "registry \<Rightarrow> string list \<Rightarrow> check_run list" where
  "reg_Get r ids =
     (let needed = filter (reg_Has r) ids
      in map (\<lambda>i. case map_of r i of Some (_, p) \<Rightarrow> p | None \<Rightarrow> ([], Ended None)) needed)"

definition reg_List :: "registry \<Rightarrow> string list" where
  "reg_List r = map fst (filter (\<lambda>e. \<not> fst (snd e)) r)"

text \<open>What the checks meet outside of the program.\<close>

record validator_world =
  vw_parse :: "string \<Rightarrow> url option"
  vw_render :: "url \<Rightarrow> string"
  vw_send :: "http_req \<Rightarrow> net_error + nat"
  vw_env :: "string \<Rightarrow> string option"
  vw_api :: cluster_api
  vw_in_cluster :: "(string, string) result"
  vw_kubeconfig :: "(string, string) result"
  vw_new_client :: "string \<Rightarrow> (string, unit) result"
  vw_files :: validator_env
  vw_exec :: executable_env
  vw_metrics :: "string \<Rightarrow> nat \<Rightarrow> http_res option"
  vw_info :: "nat \<Rightarrow> http_res option"
  vw_clusters :: "nat \<Rightarrow> http_res option"
  vw_cluster_id :: "string \<Rightarrow> string option"
  vw_codec :: webhook_codec
  vw_webhook :: "nat \<Rightarrow> webhook_answer option"

definition public_checks :: "validator_world \<Rightarrow> validator_settings \<Rightarrow> (string \<times> bool \<times> check_run) list" where
  "public_checks w c =
     [(DiagnosticAPIKey, False, cz_Check (vw_parse w) (vw_render w) (vw_send w) c),
      (DiagnosticK8sVersion, False, version_Check (vw_api w)),
      (DiagnosticK8sNamespace, False, namespace_Check (vw_env w)),
      (DiagnosticK8sProvider, False, provider_Check (vw_env w) (vw_api w)),
      (DiagnosticKMS, False, kms_Check (vw_metrics w) c),
      (DiagnosticScrapeConfig, False, promcfg_Check (vw_files w) c),
      (DiagnosticPrometheusVersion, False, promver_Check (vw_exec w) c),
      (DiagnosticInsightsIngress, False, webhook_Check (vw_codec w) (vw_webhook w) c),
      (DiagnosticIstioXClusterLB, False,
       istio_Check (istio_NewProvider c (vw_env w) (vw_info w) (vw_clusters w) (vw_cluster_id w)))]"

definition private_checks :: "(string \<times> bool \<times> check_run) list" where
  "private_checks =
     [(DiagnosticInternalInitStart, True, stage_Check STATUS_TYPE_INIT_STARTED),
      (DiagnosticInternalInitStop, True, stage_Check STATUS_TYPE_INIT_OK),
      (DiagnosticInternalInitFailed, True, stage_Check STATUS_TYPE_INIT_FAILED),
      (DiagnosticInternalPodStart, True, stage_Check STATUS_TYPE_POD_STARTED),
      (DiagnosticInternalPodStop, True, stage_Check STATUS_TYPE_POD_STOPPING)]"

text \<open>The client that the check of kube-state-metrics makes when it is created.\<close>

definition kms_client :: "validator_world \<Rightarrow> (string, unit) result" where
  "kms_client w = kms_NewProvider (vw_in_cluster w) (vw_kubeconfig w) (vw_new_client w)"

text \<open>None where creating or adding a provider panics.\<close>

definition createRegistry :: "validator_world \<Rightarrow> validator_settings \<Rightarrow> registry option" where
  "createRegistry w c =
     (case kms_client w of
        Inl e \<Rightarrow> None
      | Inr _ \<Rightarrow> reg_adds (public_checks w c @ private_checks) [])"

section \<open>The engine\<close>

text \<open>\<open>checkTypes\<close> is a map whose missing keys read as the empty type.\<close>

record runner =
  rn_stage :: string
  rn_cfg :: validator_settings
  rn_reg :: registry
  rn_pre :: "check_run list"
  rn_plan :: "check_run list"
  rn_post :: "check_run list"
  rn_types :: "(string \<times> string) list"
  rn_required :: bool

definition AddPreStep :: "check_run list \<Rightarrow> runner \<Rightarrow> runner" where
  "AddPreStep ps r = r\<lparr>rn_pre := rn_pre r @ ps\<rparr>"

definition AddStep :: "check_run list \<Rightarrow> runner \<Rightarrow> runner" where
  "AddStep ps r = r\<lparr>rn_plan := rn_plan r @ ps\<rparr>"

definition AddPostStep :: "check_run list \<Rightarrow> runner \<Rightarrow> runner" where
  "AddPostStep ps r = r\<lparr>rn_post := rn_post r @ ps\<rparr>"

definition set_type :: "check_config \<Rightarrow> runner \<Rightarrow> runner" where
  "set_type c r = r\<lparr>rn_types := (cc_name c, cc_type c) # rn_types r\<rparr>"

fun add_stages :: "stage_config list \<Rightarrow> runner \<Rightarrow> runner" where
  "add_stages [] r = r"
| "add_stages (s # ss) r =
     (if sg_name s \<noteq> rn_stage r then add_stages ss r
      else add_stages ss (AddStep (reg_Get (rn_reg r) (map cc_name (sg_checks s))) (fold set_type (sg_checks s) r)))"

definition NewRunner :: "validator_settings \<Rightarrow> registry \<Rightarrow> string \<Rightarrow> runner" where
  "NewRunner c reg stage =
     (let r = \<lparr>rn_stage = stage, rn_cfg = c, rn_reg = reg, rn_pre = [], rn_plan = [], rn_post = [], rn_types = [],
               rn_required = False\<rparr>;
          r = (if stage = ContextStageInit then AddPreStep (reg_Get reg [DiagnosticInternalInitStart]) r else r);
          r = add_stages (va_stages c) r
      in if stage = ContextStageInit then AddPostStep (reg_Get reg [DiagnosticInternalInitStop]) r
         else if stage = ContextStageStart then AddPostStep (reg_Get reg [DiagnosticInternalPodStart]) r
         else if stage = ContextStageStop then AddPostStep (reg_Get reg [DiagnosticInternalPodStop]) r
         else r)"

definition ShouldFail :: "runner \<Rightarrow> bool" where
  "ShouldFail r = rn_required r"

text \<open>The steps before and after the plan: one after the other, up to the first that does not end well.\<close>

fun run_steps :: "check_run list \<Rightarrow> builder \<Rightarrow> builder \<times> check_end" where
  "run_steps [] b = (b, Ended None)"
| "run_steps ((ws, e) # ps) b =
     (if e = Ended None then run_steps ps (fold perform ws b) else (fold perform ws b, e))"

text \<open>A turn of a goroutine: its next write.\<close>

definition plan_step :: "nat \<Rightarrow> report_write list list \<times> builder \<Rightarrow> report_write list list \<times> builder" where
  "plan_step i s =
     (if i < length (fst s) \<and> fst s ! i \<noteq> []
      then ((fst s)[i := tl (fst s ! i)], perform (hd (fst s ! i)) (snd s)) else s)"

definition plan_run :: "nat list \<Rightarrow> report_write list list \<times> builder \<Rightarrow> report_write list list \<times> builder" where
  "plan_run sched s = fold plan_step sched s"

definition joined_errors :: "check_run list \<Rightarrow> string option" where
  "joined_errors ps =
     (let es = List.map_filter (\<lambda>p. case snd p of Ended e \<Rightarrow> e | Panicked \<Rightarrow> None) ps
      in if es = [] then None else Some (go_join [CHR 0x0A] es))"

definition processFailures :: "builder \<Rightarrow> runner \<Rightarrow> builder" where
  "processFailures b r =
     (if rn_stage r \<noteq> ContextStageInit then b
      else if ReadFromReport (\<lambda>s. list_all ck_passing (cs_checks s)) b then b
      else (case reg_Get (rn_reg r) [DiagnosticInternalInitFailed] of
              [] \<Rightarrow> b
            | p # _ \<Rightarrow> fold perform (fst p) b))"

definition type_of :: "runner \<Rightarrow> string \<Rightarrow> string" where
  "type_of r n = (case map_of (rn_types r) n of None \<Rightarrow> [] | Some t \<Rightarrow> t)"

datatype run_result = Waiting | Crashed | Returned builder "string option" runner

definition report_header :: "string \<Rightarrow> validator_settings \<Rightarrow> cluster_status \<Rightarrow> cluster_status" where
  "report_header version c s =
     s\<lparr>cs_account := vd_account (va_deployment c), cs_region := vd_region (va_deployment c),
       cs_name := vd_cluster (va_deployment c), cs_validator := version, cs_chart := vv_chart (va_versions c)\<rparr>"

definition engine_Run :: "string \<Rightarrow> nat list \<Rightarrow> runner \<Rightarrow> run_result" where
  "engine_Run version sched r =
     (let b = WriteToReport (report_header version (rn_cfg r)) (NewAccessor empty_status [])
      in (case run_steps (rn_pre r) b of
            (b, Panicked) \<Rightarrow> Crashed
          | (b, Ended (Some e)) \<Rightarrow> Returned b (Some e) r
          | (b, Ended None) \<Rightarrow>
              (case plan_run sched (map fst (rn_plan r), b) of
                 (rest, b) \<Rightarrow>
                   if list_ex (\<lambda>ws. ws \<noteq> []) rest then Waiting
                   else if list_ex (\<lambda>p. snd p = Panicked) (rn_plan r) then Crashed
                   else if joined_errors (rn_plan r) \<noteq> None then Returned b (joined_errors (rn_plan r)) r
                   else (case run_steps (rn_post r) b of
                           (b, Panicked) \<Rightarrow> Crashed
                         | (b, Ended (Some e)) \<Rightarrow> Returned b (Some e) r
                         | (b, Ended None) \<Rightarrow>
                             (let b = processFailures b r;
                                  bad = ReadFromReport (\<lambda>s. list_ex (\<lambda>c. \<not> ck_passing c \<and>
                                          type_of r (ck_name c) = CheckTypeRequired) (cs_checks s)) b
                              in Returned b None (r\<lparr>rn_required := rn_required r \<or> bad\<rparr>))))))"

section \<open>The command\<close>

text \<open>\<open>marshal\<close> is the encoding of the report, none where it fails; compression is disabled.\<close>

definition telemetry_Post ::
  "validator_world \<Rightarrow> (cluster_status \<Rightarrow> string option) \<Rightarrow> validator_settings \<Rightarrow> builder \<Rightarrow> string option"
where
  "telemetry_Post w marshal cfg b =
     (if vc_host (va_cloudzero cfg) = [] then Some ''missing cloudzero host''
      else if vc_credential (va_cloudzero cfg) = [] then Some ''missing cloudzero api key''
      else if vc_quiet (va_cloudzero cfg) then None
      else (case ReadFromReport marshal b of
              None \<Rightarrow> Some ''marshal''
            | Some text \<Rightarrow>
                if text = [] then Some ''no data to post''
                else snd (http_Do (vw_parse w) (vw_render w) (vw_send w) ''POST''
                       [(''Authorization'', ''Bearer '' @ vc_credential (va_cloudzero cfg)),
                        (''Content-Type'', ''application/x-protobuf'')]
                       [(''cloud_account_id'', vd_account (va_deployment cfg)), (''region'', vd_region (va_deployment cfg)),
                        (''cluster_name'', vd_cluster (va_deployment cfg))]
                       (vc_host (va_cloudzero cfg) @ ''/v1/container-metrics/status''))))"

text \<open>\<open>Died\<close>: the process ends with status 1 or crashes; \<open>Ends\<close>: the error of the command, the report
  and what posting it gave, none where it is not posted.\<close>

datatype command_result = Died string | Pending | Ends "string option" cluster_status "string option option"

definition runDiagnostics ::
  "validator_world \<Rightarrow> string \<Rightarrow> (cluster_status \<Rightarrow> string option) \<Rightarrow> string list \<Rightarrow> string \<Rightarrow> nat list \<Rightarrow> command_result"
where
  "runDiagnostics w version marshal configs stage sched =
     (if configs = [] then Ends (Some ''no configuration files specified'') empty_status None
      else (case validator_NewSettings (vw_files w) (Some configs) of
              Inl e \<Rightarrow> Died ''Failed to load configuration''
            | Inr cfg \<Rightarrow>
                (case Settings_Validate (vw_files w) cfg of
                   (Some e, _) \<Rightarrow> Died ''Invalid configuration''
                 | (None, cfg) \<Rightarrow>
                     (case createRegistry w cfg of
                        None \<Rightarrow> Died ''panic''
                      | Some reg \<Rightarrow>
                          (case engine_Run version sched (NewRunner cfg reg stage) of
                             Waiting \<Rightarrow> Pending
                           | Crashed \<Rightarrow> Died ''panic''
                           | Returned b _ r \<Rightarrow>
                               Ends (if ShouldFail r
                                     then Some (''one or more required diagnostic checks failed for stage '' @ stage)
                                     else None)
                                 (ac_report b)
                                 (if vc_quiet (va_cloudzero cfg) then None
                                  else Some (telemetry_Post w marshal cfg b)))))))"

text \<open>The subcommand that runs the requested checks: its outcome does not depend on them.\<close>

definition run_requested ::
  "validator_world \<Rightarrow> string \<Rightarrow> (cluster_status \<Rightarrow> string option) \<Rightarrow> string list \<Rightarrow> string list \<Rightarrow> bool \<Rightarrow> nat list \<Rightarrow>
   command_result"
where
  "run_requested w version marshal names configs post sched =
     (if names = [] then Ends None empty_status None
      else if configs = [] then Ends (Some ''no configuration files specified'') empty_status None
      else (case validator_NewSettings (vw_files w) (Some configs) of
              Inl e \<Rightarrow> Died ''Failed to load configuration''
            | Inr cfg \<Rightarrow>
                (case Settings_Validate (vw_files w) cfg of
                   (Some e, _) \<Rightarrow> Died ''Invalid configuration''
                 | (None, cfg) \<Rightarrow>
                     (let checks = map (\<lambda>n. \<lparr>cc_name = n, cc_type = CheckTypeRequired\<rparr>) names;
                          cfg = cfg\<lparr>va_stages := [\<lparr>sg_name = ContextStageInit, sg_checks = checks\<rparr>]\<rparr>
                      in (case createRegistry w cfg of
                            None \<Rightarrow> Died ''panic''
                          | Some reg \<Rightarrow>
                              (case engine_Run version sched (NewRunner cfg reg ContextStageInit) of
                                 Waiting \<Rightarrow> Pending
                               | Crashed \<Rightarrow> Died ''panic''
                               | Returned b _ r \<Rightarrow>
                                   Ends None (ac_report b)
                                     (if post then Some (telemetry_Post w marshal cfg b) else None)))))))"

section \<open>What the engine is made of\<close>

text \<open>The checks configured for a stage, over all entries of exactly its name.\<close>

definition stage_checks :: "validator_settings \<Rightarrow> string \<Rightarrow> check_config list" where
  "stage_checks c stage = concat (map sg_checks (filter (\<lambda>s. sg_name s = stage) (va_stages c)))"

definition catalog_of :: "validator_world \<Rightarrow> validator_settings \<Rightarrow> registry" where
  "catalog_of w c = public_checks w c @ private_checks"

lemma createRegistry_result: "createRegistry w c = (if is_ok (kms_client w) then Some (catalog_of w c) else None)"
  by (simp add: createRegistry_def is_ok_def split: sum.split)
    (simp add: catalog_of_def public_checks_def private_checks_def reg_add_def reg_Has_def
      diagnostic_names internal_names)

lemma reg_Get_append [simp]: "reg_Get r (xs @ ys) = reg_Get r xs @ reg_Get r ys"
  by (simp add: reg_Get_def Let_def)

lemma reg_Get_Nil [simp]: "reg_Get r [] = []"
  by (simp add: reg_Get_def)

lemma reg_Get_concat: "concat (map (\<lambda>s. reg_Get r (f s)) ss) = reg_Get r (concat (map f ss))"
  by (induction ss) simp_all

lemma fold_set_type: "fold set_type cs r = r\<lparr>rn_types := rev (map (\<lambda>c. (cc_name c, cc_type c)) cs) @ rn_types r\<rparr>"
  by (induction cs arbitrary: r) (simp_all add: set_type_def)

lemma add_stages_runner:
  "add_stages ss r =
     (let cs = concat (map sg_checks (filter (\<lambda>s. sg_name s = rn_stage r) ss))
      in r\<lparr>rn_plan := rn_plan r @ reg_Get (rn_reg r) (map cc_name cs),
           rn_types := rev (map (\<lambda>c. (cc_name c, cc_type c)) cs) @ rn_types r\<rparr>)"
  by (induction ss arbitrary: r) (simp_all add: AddStep_def fold_set_type Let_def)

lemma NewRunner_fields:
  "rn_stage (NewRunner c reg stage) = stage" "rn_cfg (NewRunner c reg stage) = c" "rn_reg (NewRunner c reg stage) = reg"
  "rn_plan (NewRunner c reg stage) = reg_Get reg (map cc_name (stage_checks c stage))"
  "rn_types (NewRunner c reg stage) = rev (map (\<lambda>k. (cc_name k, cc_type k)) (stage_checks c stage))"
  "rn_required (NewRunner c reg stage) = False"
  "rn_pre (NewRunner c reg stage) = (if stage = ContextStageInit then reg_Get reg [DiagnosticInternalInitStart] else [])"
  "rn_post (NewRunner c reg stage) =
     (if stage = ContextStageInit then reg_Get reg [DiagnosticInternalInitStop]
      else if stage = ContextStageStart then reg_Get reg [DiagnosticInternalPodStart]
      else if stage = ContextStageStop then reg_Get reg [DiagnosticInternalPodStop] else [])"
  by (simp_all add: NewRunner_def add_stages_runner AddPreStep_def AddPostStep_def stage_checks_def Let_def)

lemma catalog_internal:
  "reg_Get (catalog_of w c) [DiagnosticInternalInitStart] = [stage_Check STATUS_TYPE_INIT_STARTED]"
  "reg_Get (catalog_of w c) [DiagnosticInternalInitStop] = [stage_Check STATUS_TYPE_INIT_OK]"
  "reg_Get (catalog_of w c) [DiagnosticInternalInitFailed] = [stage_Check STATUS_TYPE_INIT_FAILED]"
  "reg_Get (catalog_of w c) [DiagnosticInternalPodStart] = [stage_Check STATUS_TYPE_POD_STARTED]"
  "reg_Get (catalog_of w c) [DiagnosticInternalPodStop] = [stage_Check STATUS_TYPE_POD_STOPPING]"
  by (simp_all add: reg_Get_def reg_Has_def catalog_of_def public_checks_def private_checks_def diagnostic_names
      internal_names)

text \<open>The public entries of the catalog keep the contract of a check, and the private ones add none.\<close>

lemma public_contract: "(n, private, p) \<in> set (public_checks w c) \<Longrightarrow> diagnostic_check n p"
  unfolding public_checks_def set_simps insert_iff empty_iff prod.inject
  using api_key.diagnostic_check_axioms k8s_version.diagnostic_check_axioms k8s_namespace.diagnostic_check_axioms
    k8s_provider.diagnostic_check_axioms kube_metrics.diagnostic_check_axioms scrape_config.diagnostic_check_axioms
    prom_version.diagnostic_check_axioms ingress.diagnostic_check_axioms istio_lb.diagnostic_check_axioms
  by blast

section \<open>The plan\<close>

lemma onWrite_fold [simp]: "ac_onWrite (fold perform ws b) = ac_onWrite b"
  by (induction ws arbitrary: b) simp_all

lemma checks_fold:
  "ac_onWrite b = [] \<Longrightarrow>
     cs_checks (ac_report (fold perform ws b)) = cs_checks (ac_report b) @ concat (map checks_of ws)"
  by (induction ws arbitrary: b) (simp_all add: perform_checks)

text \<open>The checks that the goroutines still have to add.\<close>

definition to_add :: "report_write list list \<Rightarrow> status_check multiset" where
  "to_add rest = mset (concat (map checks_of (concat rest)))"

lemma to_add_turn:
  assumes "i < length rest" and "rest ! i = w # ws"
  shows "to_add rest = mset (checks_of w) + to_add (rest[i := ws])"
proof -
  have r: "rest = take i rest @ (w # ws) # drop (Suc i) rest" using assms by (metis id_take_nth_drop)
  have u: "rest[i := ws] = take i rest @ ws # drop (Suc i) rest" using assms(1) by (simp add: upd_conv_take_nth_drop)
  show ?thesis unfolding to_add_def by (subst r, subst u) (simp add: ac_simps)
qed

lemma plan_step_accounts:
  assumes "ac_onWrite b = []" and "plan_step i (rest, b) = (rest', b')"
  shows "ac_onWrite b' = [] \<and> mset (cs_checks (ac_report b')) + to_add rest' = mset (cs_checks (ac_report b)) + to_add rest"
proof (cases "i < length rest \<and> rest ! i \<noteq> []")
  case True
  then obtain w ws where w: "rest ! i = w # ws" by (cases "rest ! i") auto
  with True assms(2) have "rest' = rest[i := ws]" "b' = perform w b" by (simp_all add: plan_step_def)
  then show ?thesis using assms(1) True w by (simp add: perform_checks to_add_turn [of i rest w ws])
next
  case False
  then have "rest' = rest" "b' = b" using assms(2) by (auto simp: plan_step_def split: if_splits)
  then show ?thesis using assms(1) by simp
qed

lemma plan_run_accounts:
  "ac_onWrite b = [] \<Longrightarrow> plan_run sched (rest, b) = (rest', b') \<Longrightarrow>
     ac_onWrite b' = [] \<and> mset (cs_checks (ac_report b')) + to_add rest' = mset (cs_checks (ac_report b)) + to_add rest"
proof (induction sched arbitrary: rest b)
  case (Cons i sched)
  obtain rest1 b1 where s: "plan_step i (rest, b) = (rest1, b1)" by fastforce
  from Cons.prems(2) s have "plan_run sched (rest1, b1) = (rest', b')" by (simp add: plan_run_def)
  with Cons.IH plan_step_accounts [OF Cons.prems(1) s] show ?case by metis
qed (simp add: plan_run_def)

text \<open>A state that no goroutine sets is kept.\<close>

lemma plan_step_state:
  assumes "ac_onWrite b = []" and "plan_step i (rest, b) = (rest', b')"
    and "\<forall>ws \<in> set rest. \<forall>w \<in> set ws. \<not> sets_state w"
  shows "cs_state (ac_report b') = cs_state (ac_report b) \<and> (\<forall>ws \<in> set rest'. \<forall>w \<in> set ws. \<not> sets_state w)"
proof (cases "i < length rest \<and> rest ! i \<noteq> []")
  case True
  then obtain w ws where w: "rest ! i = w # ws" by (cases "rest ! i") auto
  with True have "w # ws \<in> set rest" by (metis nth_mem)
  then have n: "\<not> sets_state w" "\<forall>u \<in> set ws. \<not> sets_state u" using assms(3) by auto
  have "rest' = rest[i := ws]" "b' = perform w b" using assms(2) True w by (simp_all add: plan_step_def)
  moreover have "set (rest[i := ws]) \<subseteq> insert ws (set rest)" by (rule set_update_subset_insert)
  ultimately show ?thesis using n assms(1,3) perform_state [OF assms(1) n(1)] by auto
next
  case False
  then have "rest' = rest" "b' = b" using assms(2) by (auto simp: plan_step_def split: if_splits)
  then show ?thesis using assms(3) by simp
qed

lemma plan_run_state:
  "ac_onWrite b = [] \<Longrightarrow> plan_run sched (rest, b) = (rest', b') \<Longrightarrow>
     \<forall>ws \<in> set rest. \<forall>w \<in> set ws. \<not> sets_state w \<Longrightarrow> cs_state (ac_report b') = cs_state (ac_report b)"
proof (induction sched arbitrary: rest b)
  case (Cons i sched)
  obtain rest1 b1 where s: "plan_step i (rest, b) = (rest1, b1)" by fastforce
  from Cons.prems(2) s have "plan_run sched (rest1, b1) = (rest', b')" by (simp add: plan_run_def)
  with Cons.IH plan_step_accounts [OF Cons.prems(1) s] plan_step_state [OF Cons.prems(1) s Cons.prems(3)]
  show ?case by metis
qed (simp add: plan_run_def)

text \<open>A goroutine is through when it has had as many turns as it has writes.\<close>

lemma plan_step_lengths:
  "fst (plan_step i (rest, b)) = (if i < length rest then rest[i := tl (rest ! i)] else rest)"
  by (auto simp: plan_step_def) (metis list_update_id)

lemma plan_step_fst: "plan_run (i # sched) (rest, b) =
  plan_run sched (if i < length rest then rest[i := tl (rest ! i)] else rest, snd (plan_step i (rest, b)))"
  using plan_step_lengths [of i rest b] by (simp add: plan_run_def) (metis prod.collapse)

lemma plan_run_length [simp]: "length (fst (plan_run sched (rest, b))) = length rest"
proof (induction sched arbitrary: rest b)
  case (Cons i sched)
  then show ?case unfolding plan_step_fst by simp
qed (simp add: plan_run_def)

lemma plan_run_left:
  "j < length rest \<Longrightarrow> length (fst (plan_run sched (rest, b)) ! j) = length (rest ! j) - count_list sched j"
proof (induction sched arbitrary: rest b)
  case (Cons i sched)
  then show ?case unfolding plan_step_fst by (cases "i = j") simp_all
qed (simp add: plan_run_def)

section \<open>The outcome of a run\<close>

lemma lookup_public:
  assumes "valid_check k" and "reg_Has (catalog_of w c) (cc_name k)"
  obtains p where "(cc_name k, False, p) \<in> set (public_checks w c)"
    and "map_of (catalog_of w c) (cc_name k) = Some (False, p)"
proof -
  have pub: "n \<in> fst ` set (public_checks w c) \<Longrightarrow> \<exists>p. (n, False, p) \<in> set (public_checks w c) \<and>
    map_of (catalog_of w c) n = Some (False, p)" for n
  proof -
    assume "n \<in> fst ` set (public_checks w c)"
    then obtain e where e: "map_of (public_checks w c) n = Some e" by (metis map_of_eq_None_iff option.exhaust)
    from map_of_SomeD [OF this] have "e = (False, snd e)" by (auto simp: public_checks_def)
    then show ?thesis using e map_of_SomeD [OF e]
      by (intro exI [of _ "snd e"]) (metis catalog_of_def map_add_find_right map_of_append)
  qed
  have eq: "to_lower (trim_space (cc_name k)) = cc_name k" and valid: "IsValidDiagnostic (cc_name k)"
    using assms(1) by (simp_all add: valid_check_def)
  have names: "cc_name k \<in> insert DiagnosticAgentSettings (fst ` set (public_checks w c))"
    using valid unfolding IsValidDiagnostic_def eq public_checks_def by auto
  have "\<not> reg_Has (catalog_of w c) DiagnosticAgentSettings"
    by (simp add: reg_Has_def catalog_of_def public_checks_def private_checks_def diagnostic_names internal_names)
  with names assms(2) have "cc_name k \<in> fst ` set (public_checks w c)" by (metis insert_iff)
  with pub that show thesis by blast
qed

text \<open>The checks that a stage runs, each under the name it is configured with.\<close>

definition running :: "validator_world \<Rightarrow> validator_settings \<Rightarrow> string \<Rightarrow> (string \<times> check_run) list" where
  "running w c stage =
     List.map_filter (\<lambda>k. map_option (\<lambda>e. (cc_name k, snd e)) (map_of (catalog_of w c) (cc_name k)))
       (stage_checks c stage)"

lemma reg_Get_running:
  "reg_Get (catalog_of w c) (map cc_name ks) =
     map snd (List.map_filter (\<lambda>k. map_option (\<lambda>e. (cc_name k, snd e)) (map_of (catalog_of w c) (cc_name k))) ks)"
proof (induction ks)
  case (Cons k ks)
  have g: "reg_Get (catalog_of w c) (map cc_name (k # ks)) =
    reg_Get (catalog_of w c) [cc_name k] @ reg_Get (catalog_of w c) (map cc_name ks)"
    using reg_Get_append [of _ "[cc_name k]" "map cc_name ks"] by simp
  show ?case
  proof (cases "map_of (catalog_of w c) (cc_name k)")
    case None
    then have "\<not> reg_Has (catalog_of w c) (cc_name k)" by (auto simp: reg_Has_def map_of_eq_None_iff)
    then show ?thesis unfolding g using None Cons by (simp add: reg_Get_def map_filter_simps)
  next
    case (Some e)
    then have "reg_Has (catalog_of w c) (cc_name k)" by (force simp: reg_Has_def dest: map_of_SomeD)
    then show ?thesis unfolding g using Some Cons
      by (cases e) (simp add: reg_Get_def map_filter_simps)
  qed
qed (simp add: map_filter_simps)

lemma running_contract:
  assumes "list_all valid_stage (va_stages c)" and "(n, p) \<in> set (running w c stage)"
  shows "diagnostic_check n p"
proof -
  from assms(2) obtain k e where k: "k \<in> set (stage_checks c stage)" "n = cc_name k" "p = snd e"
    and e: "map_of (catalog_of w c) (cc_name k) = Some e"
    by (auto simp: running_def List.map_filter_def)
  from k(1) assms(1) have "valid_check k" by (fastforce simp: stage_checks_def valid_stage_def list_all_iff)
  moreover from e have "reg_Has (catalog_of w c) (cc_name k)" by (force simp: reg_Has_def dest: map_of_SomeD)
  ultimately obtain q where "(cc_name k, False, q) \<in> set (public_checks w c)"
    "map_of (catalog_of w c) (cc_name k) = Some (False, q)" by (rule lookup_public)
  then show ?thesis using public_contract e k by auto
qed

definition stage_states :: "string \<Rightarrow> bool \<Rightarrow> status_type" where
  "stage_states stage ok =
     (if stage = ContextStageInit then (if ok then STATUS_TYPE_INIT_OK else STATUS_TYPE_INIT_FAILED)
      else if stage = ContextStageStart then STATUS_TYPE_POD_STARTED
      else if stage = ContextStageStop then STATUS_TYPE_POD_STOPPING
      else STATUS_TYPE_UNSPECIFIED)"

lemma run_stage_step: "run_steps [stage_Check t] b = (perform (State_is t) b, Ended None)"
  by (simp add: stage_Check_def)

lemma state_write:
  "ac_onWrite b = [] \<Longrightarrow> cs_state (ac_report (perform (State_is t) b)) = t"
  "ac_onWrite b = [] \<Longrightarrow> cs_checks (ac_report (perform (State_is t) b)) = cs_checks (ac_report b)"
  by (simp_all add: report_defs)

lemma before_plan:
  assumes "ac_onWrite b = []"
  obtains b1 where "run_steps (rn_pre (NewRunner c (catalog_of w c) stage)) b = (b1, Ended None)"
    and "ac_onWrite b1 = []" and "cs_checks (ac_report b1) = cs_checks (ac_report b)"
    and "stage \<noteq> ContextStageInit \<Longrightarrow> cs_state (ac_report b1) = cs_state (ac_report b)"
proof (cases "stage = ContextStageInit")
  case True
  with assms that [of "perform (State_is STATUS_TYPE_INIT_STARTED) b"] show ?thesis
    by (simp add: NewRunner_fields catalog_internal run_stage_step state_write del: perform.simps)
next
  case False
  with assms that [of b] show ?thesis by (simp add: NewRunner_fields)
qed

lemma after_plan:
  assumes "ac_onWrite b = []"
    and "stage \<notin> {ContextStageInit, ContextStageStart, ContextStageStop} \<Longrightarrow> cs_state (ac_report b) = STATUS_TYPE_UNSPECIFIED"
  shows "\<exists>b1. run_steps (rn_post (NewRunner c (catalog_of w c) stage)) b = (b1, Ended None) \<and>
    ac_onWrite b1 = [] \<and> cs_checks (ac_report b1) = cs_checks (ac_report b) \<and>
    cs_state (ac_report b1) = stage_states stage True"
proof -
  have step: ?thesis if "rn_post (NewRunner c (catalog_of w c) stage) = [stage_Check t]" "t = stage_states stage True" for t
    using that assms(1) by (simp add: run_stage_step state_write del: perform.simps)
  consider "stage = ContextStageInit" | "stage \<noteq> ContextStageInit" "stage = ContextStageStart"
    | "stage \<noteq> ContextStageInit" "stage \<noteq> ContextStageStart" "stage = ContextStageStop"
    | "stage \<notin> {ContextStageInit, ContextStageStart, ContextStageStop}" by blast
  then show ?thesis
  proof cases
    case 1
    then show ?thesis by (intro step [of STATUS_TYPE_INIT_OK]) (simp_all add: NewRunner_fields catalog_internal stage_states_def)
  next
    case 2
    then show ?thesis by (intro step [of STATUS_TYPE_POD_STARTED]) (simp_all add: NewRunner_fields catalog_internal stage_states_def)
  next
    case 3
    then show ?thesis by (intro step [of STATUS_TYPE_POD_STOPPING]) (simp_all add: NewRunner_fields catalog_internal stage_states_def)
  next
    case 4
    then have "rn_post (NewRunner c (catalog_of w c) stage) = []" "stage_states stage True = STATUS_TYPE_UNSPECIFIED"
      by (simp_all add: NewRunner_fields stage_states_def)
    then show ?thesis using assms 4 by simp
  qed
qed

lemma plan_of_stage: "rn_plan (NewRunner c (catalog_of w c) stage) = map snd (running w c stage)"
  by (simp add: NewRunner_fields reg_Get_running running_def)

lemma running_quiet:
  assumes "list_all valid_stage (va_stages c)"
  shows "\<forall>ws \<in> set (map fst (map snd (running w c stage))). \<forall>u \<in> set ws. \<not> sets_state u"
    and "joined_errors (map snd (running w c stage)) = None"
proof -
  have c: "diagnostic_check n p" if "(n, p) \<in> set (running w c stage)" for n p
    using running_contract [OF assms that] .
  show "\<forall>ws \<in> set (map fst (map snd (running w c stage))). \<forall>u \<in> set ws. \<not> sets_state u"
    using c diagnostic_check.stateless by fastforce
  have "(case snd p of Ended e \<Rightarrow> e | Panicked \<Rightarrow> None) = None" if "p \<in> set (map snd (running w c stage))" for p
    using that c diagnostic_check.no_error by (fastforce split: check_end.split)
  then show "joined_errors (map snd (running w c stage)) = None"
    by (auto simp: joined_errors_def List.map_filter_def Let_def filter_empty_conv)
qed

lemma to_add_providers: "to_add (map fst ps) = mset (concat (map added_checks ps))"
  by (induction ps) (simp_all add: to_add_def added_checks_def)

lemma to_add_done: "\<not> list_ex (\<lambda>ws. ws \<noteq> []) rest \<Longrightarrow> to_add rest = {#}"
  by (induction rest) (simp_all add: to_add_def)

lemma processFailures_outcome:
  assumes "ac_onWrite b = []" and "cs_state (ac_report b) = stage_states stage True"
  shows "cs_checks (ac_report (processFailures b (NewRunner c (catalog_of w c) stage))) = cs_checks (ac_report b)"
    and "cs_state (ac_report (processFailures b (NewRunner c (catalog_of w c) stage))) =
      stage_states stage (list_all ck_passing (cs_checks (ac_report b)))"
  using assms
  by (simp_all add: processFailures_def NewRunner_fields catalog_internal ReadFromReport_def stage_Check_def state_write
      stage_states_def del: perform.simps)

text \<open>What a run that returns has done: it ran every check, however their writes were interleaved.\<close>

lemma run_outcome:
  assumes valid: "list_all valid_stage (va_stages c)"
    and run: "engine_Run version sched (NewRunner c (catalog_of w c) stage) = Returned b err r"
  shows "err = None"
    and "mset (cs_checks (ac_report b)) = mset (concat (map (\<lambda>e. added_checks (snd e)) (running w c stage)))"
    and "rn_required r \<longleftrightarrow> (\<exists>k \<in> set (cs_checks (ac_report b)). \<not> ck_passing k \<and>
           type_of (NewRunner c (catalog_of w c) stage) (ck_name k) = CheckTypeRequired)"
    and "cs_state (ac_report b) = stage_states stage (list_all ck_passing (cs_checks (ac_report b)))"
proof -
  let ?R = "NewRunner c (catalog_of w c) stage"
  let ?b0 = "WriteToReport (report_header version (rn_cfg ?R)) (NewAccessor empty_status [])"
  have b0: "ac_onWrite ?b0 = []" "cs_checks (ac_report ?b0) = []" "cs_state (ac_report ?b0) = STATUS_TYPE_UNSPECIFIED"
    by (simp_all add: report_defs empty_status_def report_header_def)
  obtain b1 where b1: "run_steps (rn_pre ?R) ?b0 = (b1, Ended None)" "ac_onWrite b1 = []" "cs_checks (ac_report b1) = []"
    "stage \<noteq> ContextStageInit \<Longrightarrow> cs_state (ac_report b1) = STATUS_TYPE_UNSPECIFIED"
    using before_plan [OF b0(1), of c w stage] b0(2,3) by metis
  obtain rest b2 where p: "plan_run sched (map fst (rn_plan ?R), b1) = (rest, b2)" by fastforce
  note acc = plan_run_accounts [OF b1(2) p]
  have j: "joined_errors (rn_plan ?R) = None" using running_quiet(2) [OF valid] by (simp add: plan_of_stage)
  have st: "cs_state (ac_report b2) = cs_state (ac_report b1)"
    using plan_run_state [OF b1(2) p] running_quiet(1) [OF valid, of w stage]
    unfolding plan_of_stage by blast
  from after_plan [of b2 stage c w] acc st b1(4) obtain b3 where b3: "run_steps (rn_post ?R) b2 = (b3, Ended None)"
    "ac_onWrite b3 = []" "cs_checks (ac_report b3) = cs_checks (ac_report b2)"
    "cs_state (ac_report b3) = stage_states stage True" by auto
  let ?bad = "ReadFromReport (\<lambda>s. list_ex (\<lambda>k. \<not> ck_passing k \<and> type_of ?R (ck_name k) = CheckTypeRequired)
      (cs_checks s)) (processFailures b3 ?R)"
  have e: "engine_Run version sched ?R =
    (if list_ex (\<lambda>ws. ws \<noteq> []) rest then Waiting
     else if list_ex (\<lambda>q. snd q = Panicked) (rn_plan ?R) then Crashed
     else Returned (processFailures b3 ?R) None (?R\<lparr>rn_required := rn_required ?R \<or> ?bad\<rparr>))"
    unfolding engine_Run_def Let_def b1(1) prod.case check_end.case option.case p j b3(1) by simp
  have res: "\<not> list_ex (\<lambda>ws. ws \<noteq> []) rest" "err = None" "b = processFailures b3 ?R"
    "r = ?R\<lparr>rn_required := rn_required ?R \<or> ?bad\<rparr>" using run unfolding e by (auto split: if_splits)
  have checks: "cs_checks (ac_report b) = cs_checks (ac_report b2)"
    using processFailures_outcome(1) [OF b3(2,4)] b3(3) res(3) by simp
  show "err = None" by (rule res(2))
  show "mset (cs_checks (ac_report b)) = mset (concat (map (\<lambda>e. added_checks (snd e)) (running w c stage)))"
    using acc to_add_done [OF res(1)] b1(3) checks to_add_providers [of "map snd (running w c stage)"]
    by (simp add: plan_of_stage comp_def)
  show "rn_required r \<longleftrightarrow> (\<exists>k \<in> set (cs_checks (ac_report b)). \<not> ck_passing k \<and>
      type_of ?R (ck_name k) = CheckTypeRequired)"
    using res(3,4) by (simp add: NewRunner_fields ReadFromReport_def list_ex_iff)
  show "cs_state (ac_report b) = stage_states stage (list_all ck_passing (cs_checks (ac_report b)))"
    using processFailures_outcome [OF b3(2,4)] b3(3) res(3) by simp
qed

section \<open>Properties\<close>

text \<open>The type that a check has in a stage: its last one, the empty type where it is not configured.\<close>

definition configured_type :: "validator_settings \<Rightarrow> string \<Rightarrow> string \<Rightarrow> string" where
  "configured_type c stage n =
     (case map_of (rev (map (\<lambda>k. (cc_name k, cc_type k)) (stage_checks c stage))) n of None \<Rightarrow> [] | Some t \<Rightarrow> t)"

lemma type_of_NewRunner: "type_of (NewRunner c reg stage) n = configured_type c stage n"
  by (simp add: type_of_def configured_type_def NewRunner_fields)

lemma verdict_of_checks:
  assumes valid: "list_all valid_stage (va_stages c)"
    and m: "mset checks = mset (concat (map (\<lambda>e. added_checks (snd e)) (running w c stage)))"
  shows "(\<exists>k \<in> set checks. \<not> ck_passing k \<and> configured_type c stage (ck_name k) = CheckTypeRequired) \<longleftrightarrow>
    (\<exists>(n, p) \<in> set (running w c stage). configured_type c stage n = CheckTypeRequired \<and> fails p)"
proof -
  have "set checks = (\<Union>e \<in> set (running w c stage). set (added_checks (snd e)))"
    using mset_eq_setD [OF m] by simp
  moreover have "ck_name k = n" if "(n, p) \<in> set (running w c stage)" "k \<in> set (added_checks p)" for n p k
    using diagnostic_check.own [OF running_contract [OF valid that(1)]] that(2) by (auto simp: added_checks_def)
  ultimately show ?thesis by (fastforce simp: fails_def list_ex_iff)
qed

lemma accepted_stages: "Settings_Validate v c0 = (None, c) \<Longrightarrow> list_all valid_stage (va_stages c)"
  using Settings_Validate_parts Diagnostics_Validate_valid
  by (metis (no_types, lifting) validator_settings.select_convs(6) validator_settings.surjective
      validator_settings.update_convs(6))

text \<open>A cluster that does not tell its version, with a required check of it.\<close>

definition sample_api :: cluster_api where
  "sample_api = \<lparr>ka_config = Inr (), ka_client = Inr (), ka_discovery = Inr (), ka_version = Inl ''none'',
     ka_pod_node = (\<lambda>_ _. Inl ''none''), ka_node_provider = (\<lambda>_. Inl ''none'')\<rparr>"

definition sample_surroundings :: "string \<Rightarrow> validator_world" where
  "sample_surroundings stage_name =
     \<lparr>vw_parse = (\<lambda>_. None), vw_render = (\<lambda>_. []), vw_send = (\<lambda>_. Inr 200), vw_env = (\<lambda>_. None), vw_api = sample_api,
      vw_in_cluster = Inl ''not in a cluster'', vw_kubeconfig = Inr ''config'', vw_new_client = (\<lambda>_. Inr ()),
      vw_files = sample_venv\<lparr>ve_load := (\<lambda>_ s. Some (sample_validator\<lparr>va_stages :=
        [\<lparr>sg_name = stage_name, sg_checks = [\<lparr>cc_name = ''k8s_version'', cc_type = ''Required''\<rparr>]\<rparr>]\<rparr>))\<rparr>,
      vw_exec = \<lparr>ex_stat = (\<lambda>_. Not_exist), ex_tmp_ok = True, ex_run_ok = (\<lambda>_. True), ex_sync_ok = True,
        ex_seek_ok = True, ex_output = (\<lambda>_. None)\<rparr>,
      vw_metrics = (\<lambda>_ _. None), vw_info = (\<lambda>_. None), vw_clusters = (\<lambda>_. None), vw_cluster_id = (\<lambda>_. None),
      vw_codec = \<lparr>wc_encode_ok = True, wc_request_ok = (\<lambda>_. True), wc_base64 = (\<lambda>_. None), wc_gunzip = (\<lambda>_. None),
        wc_inflate = (\<lambda>_. None), wc_review = (\<lambda>_. None)\<rparr>,
      vw_webhook = (\<lambda>_. None)\<rparr>"

definition sample_diagnosis :: "string \<Rightarrow> command_result" where
  "sample_diagnosis stage_name =
     runDiagnostics (sample_surroundings stage_name) ''1'' (\<lambda>_. Some ''x'') [''f''] ContextStageInit [0]"

definition command_failed :: "command_result \<Rightarrow> bool" where
  "command_failed r = (case r of Ends e _ _ \<Rightarrow> e \<noteq> None | _ \<Rightarrow> False)"

lemma sample_diagnosis_fails: "command_failed (sample_diagnosis ContextStageInit)"
  by code_simp

text \<open>Without a client of the cluster every stage dies before its first check, also one that needs none.\<close>

lemma no_cluster_no_checks:
  assumes "validator_NewSettings (vw_files w) (Some configs) = Inr c0" "Settings_Validate (vw_files w) c0 = (None, c)"
    and "kms_client w = Inl e" "configs \<noteq> []"
  shows "runDiagnostics w version marshal configs stage sched = Died ''panic''"
  using assms by (simp add: runDiagnostics_def createRegistry_result is_ok_def)



text \<open>A stage whose checks each get their turns ends: once every goroutine has had as many turns
  as it has writes to make, the engine does not wait any more, whatever the order was.\<close>

theorem diagnostics_end:
  assumes "\<And>j. j < length (rn_plan r) \<Longrightarrow> length (fst (rn_plan r ! j)) \<le> count_list sched j"
  shows "engine_Run version sched r \<noteq> Waiting"
proof -
  obtain b1 e1 where b1:
    "run_steps (rn_pre r) (WriteToReport (report_header version (rn_cfg r)) (NewAccessor empty_status [])) = (b1, e1)"
    by fastforce
  obtain rest b2 where p: "plan_run sched (map fst (rn_plan r), b1) = (rest, b2)" by fastforce
  obtain b3 e3 where b3: "run_steps (rn_post r) b2 = (b3, e3)" by fastforce
  have "\<not> list_ex (\<lambda>ws. ws \<noteq> []) (fst (plan_run sched (map fst (rn_plan r), b1)))"
    using plan_run_left [of _ "map fst (rn_plan r)" sched b1] assms
    by (auto simp: list_ex_iff in_set_conv_nth)
  then have "\<not> list_ex (\<lambda>ws. ws \<noteq> []) rest" using p by simp
  with b1 p b3 show ?thesis
    by (simp add: engine_Run_def Let_def split: check_end.split option.split)
qed

theorem diagnostics_end_witness:
  "engine_Run ''1'' [1, 0, 1, 0]
     (AddStep [version_Check sample_api, stage_Check STATUS_TYPE_INIT_OK] (NewRunner empty_settings [] ContextStageInit))
     \<noteq> Waiting"
proof (rule diagnostics_end)
  fix j assume "j < length (rn_plan (AddStep [version_Check sample_api, stage_Check STATUS_TYPE_INIT_OK]
    (NewRunner empty_settings [] ContextStageInit)))"
  then have "j = 0 \<or> j = 1" by (auto simp: AddStep_def NewRunner_fields stage_checks_def empty_settings_def)
  then show "length (fst (rn_plan (AddStep [version_Check sample_api, stage_Check STATUS_TYPE_INIT_OK]
    (NewRunner empty_settings [] ContextStageInit)) ! j)) \<le> count_list [1, 0, 1, 0] j"
    by (auto simp: AddStep_def NewRunner_fields stage_checks_def empty_settings_def version_Check_def
        getK8sVersion_def sample_api_def stage_Check_def)
qed

text \<open>A run with an empty plan returns, under every schedule and with an empty report.\<close>

lemma empty_plan_returns:
  assumes "running w c stage = []"
  shows "\<exists>b r. engine_Run version sched (NewRunner c (catalog_of w c) stage) = Returned b None r"
proof -
  let ?R = "NewRunner c (catalog_of w c) stage"
  let ?b0 = "WriteToReport (report_header version (rn_cfg ?R)) (NewAccessor empty_status [])"
  have b0: "ac_onWrite ?b0 = []" "cs_state (ac_report ?b0) = STATUS_TYPE_UNSPECIFIED"
    by (simp_all add: report_defs empty_status_def report_header_def)
  have plan: "rn_plan ?R = []" using plan_of_stage [of c w stage] assms by simp
  obtain b1 where b1: "run_steps (rn_pre ?R) ?b0 = (b1, Ended None)" "ac_onWrite b1 = []"
    "stage \<noteq> ContextStageInit \<Longrightarrow> cs_state (ac_report b1) = STATUS_TYPE_UNSPECIFIED"
    using before_plan [OF b0(1), of c w stage] b0(2) by metis
  obtain rest b2 where p: "plan_run sched ([], b1) = (rest, b2)" by fastforce
  with plan_run_length [of sched "[]" b1] have rest: "rest = []" by simp
  have b2: "ac_onWrite b2 = []" using plan_run_accounts [OF b1(2) p] by blast
  have "cs_state (ac_report b2) = cs_state (ac_report b1)" by (rule plan_run_state [OF b1(2) p]) simp
  with after_plan [OF b2, of stage c w] b1(3) obtain b3 where b3: "run_steps (rn_post ?R) b2 = (b3, Ended None)" by auto
  show ?thesis
    unfolding engine_Run_def Let_def b1(1) plan prod.case check_end.case option.case list.map p rest b3
    by (simp add: joined_errors_def List.map_filter_def)
qed

text \<open>C40: a stage of the file whose name is written in another case or with spaces around it, so that it is
  not exactly the name of the lifecycle but has the same normal form, is accepted just as the plain name is, with
  the same checks and under the name as it is written, and then it is never run: the run of that stage returns
  under every schedule, without having made any check, and does not fail.\<close>

theorem padded_stage_skipped:
  assumes "Settings_Validate v c0 = (None, c)"
    and "\<And>s. s \<in> set (va_stages c0) \<Longrightarrow>
      to_lower (trim_space (f (sg_name s))) = to_lower (trim_space (sg_name s)) \<and> f (sg_name s) \<noteq> stage"
  shows "\<exists>c'. Settings_Validate v (c0\<lparr>va_stages := rename_stages f (va_stages c0)\<rparr>) = (None, c') \<and>
    map sg_checks (va_stages c') = map sg_checks (va_stages c) \<and>
    map sg_name (va_stages c') = map (\<lambda>s. f (sg_name s)) (va_stages c0) \<and>
    (\<exists>b r. engine_Run version sched (NewRunner c' (catalog_of w c') stage) = Returned b None r \<and>
       \<not> ShouldFail r \<and> cs_checks (ac_report b) = [])"
proof -
  let ?c = "c\<lparr>va_stages := rename_stages f (va_stages c)\<rparr>"
  have v: "Settings_Validate v (c0\<lparr>va_stages := rename_stages f (va_stages c0)\<rparr>) = (None, ?c)"
    using Settings_Validate_renamed [OF assms(1)] assms(2) by blast
  have names: "map sg_name (va_stages c) = map sg_name (va_stages c0)"
    using Settings_Validate_parts [OF assms(1)] Diagnostics_Validate_valid by (metis (no_types, lifting)
      validator_settings.select_convs(6) validator_settings.surjective validator_settings.update_convs(6))
  then have kept: "map sg_name (va_stages ?c) = map (\<lambda>s. f (sg_name s)) (va_stages c0)"
    by (simp add: rename_stages_def comp_def) (metis (no_types, lifting) list.map_comp comp_def map_eq_conv)
  have "sg_name s \<noteq> stage" if "s \<in> set (va_stages ?c)" for s
  proof -
    have "sg_name s \<in> set (map (\<lambda>s. f (sg_name s)) (va_stages c0))" using that unfolding kept [symmetric] by simp
    then obtain s0 where "s0 \<in> set (va_stages c0)" "sg_name s = f (sg_name s0)" unfolding set_map by blast
    then show ?thesis using assms(2) [of s0] by simp
  qed
  then have "stage_checks ?c stage = []" by (auto simp: stage_checks_def filter_empty_conv)
  then have none: "running w ?c stage = []" by (simp add: running_def List.map_filter_def)
  from empty_plan_returns [OF none] obtain b r
    where run: "engine_Run version sched (NewRunner ?c (catalog_of w ?c) stage) = Returned b None r" by blast
  note out = run_outcome [OF accepted_stages [OF v] run]
  have "\<not> ShouldFail r" "cs_checks (ac_report b) = []" using out none by (simp_all add: ShouldFail_def)
  moreover have "map sg_checks (va_stages ?c) = map sg_checks (va_stages c)" by (simp add: rename_stages_def)
  ultimately show ?thesis using v kept run by blast
qed

definition plain_validator :: validator_settings where
  "plain_validator = sample_validator\<lparr>va_stages := [sample_stage\<lparr>sg_name := ContextStageInit\<rparr>]\<rparr>"

lemma plain_accepted: "fst (Settings_Validate sample_venv plain_validator) = None"
  by code_simp

lemma pre_start_padded: "to_lower (trim_space '' Pre-Start'') = to_lower (trim_space ContextStageInit)"
  by code_simp

theorem padded_stage_skipped_witness:
  "\<exists>c'. Settings_Validate sample_venv (plain_validator\<lparr>va_stages := [sample_stage]\<rparr>) = (None, c') \<and>
     map sg_name (va_stages c') = ['' Pre-Start''] \<and>
     (\<exists>b r. engine_Run ''1'' [] (NewRunner c' (catalog_of (sample_surroundings []) c') ContextStageInit) = Returned b None r \<and>
        \<not> ShouldFail r \<and> cs_checks (ac_report b) = [])"
proof -
  have v: "Settings_Validate sample_venv plain_validator = (None, snd (Settings_Validate sample_venv plain_validator))"
    using plain_accepted by (simp add: prod_eq_iff)
  have f: "to_lower (trim_space ((\<lambda>_. '' Pre-Start'') (sg_name s))) = to_lower (trim_space (sg_name s)) \<and>
      (\<lambda>_. '' Pre-Start'') (sg_name s) \<noteq> ContextStageInit" if "s \<in> set (va_stages plain_validator)" for s
    using that pre_start_padded by (auto simp: plain_validator_def ContextStageInit_def)
  have "rename_stages (\<lambda>_. '' Pre-Start'') (va_stages plain_validator) = [sample_stage]"
    "map (\<lambda>s. '' Pre-Start'') (va_stages plain_validator) = ['' Pre-Start'']"
    by (simp_all add: rename_stages_def plain_validator_def sample_stage_def)
  with padded_stage_skipped [where f = "\<lambda>_. '' Pre-Start''", OF v f] show ?thesis by metis
qed

text \<open>The name of a check that validation accepts and the catalog does not know: it never runs.\<close>

lemma agent_settings_never_runs:
  "IsValidDiagnostic DiagnosticAgentSettings \<and> \<not> reg_Has (catalog_of w c) DiagnosticAgentSettings"
  by (simp add: IsValidDiagnostic_def reg_Has_def catalog_of_def public_checks_def private_checks_def diagnostic_names
      internal_names to_lower_def lower_char_def trim_space_def go_space_def)

end
