(* ===== verification/Cluster_Config.thy ===== *)
theory Cluster_Config
  imports Diagnostic_Checks Webhook_Handlers
begin

text \<open>
  The command that loads the configuration of a cluster and posts it
  (\<open>app/functions/cluster-config/loader/command.go\<close>), with the loading of the webhook settings
  (\<open>app/config/webhook/settings.go\<close>).  It collects the answers of the components that other theories
  model; what fails is noted in the message instead of ending the command.

  The encoders of YAML, base64 and protobuf and the server are parameters.
\<close>

section \<open>The webhook settings\<close>

record webhook_settings =
  ws_account :: string
  ws_region :: string
  ws_cluster :: string
  ws_destination :: string
  ws_filters :: settings
  ws_remote_host :: string

record webhook_files =
  wf_missing :: "string \<Rightarrow> bool"
  wf_load :: "string \<Rightarrow> webhook_settings \<Rightarrow> webhook_settings option"
  wf_scouted :: "environment_info found"
  wf_compile :: "string \<Rightarrow> (string \<Rightarrow> bool) option"
  wf_valid_uri :: "string \<Rightarrow> bool"

text \<open>An invalid pattern or destination ends the process.\<close>

datatype 'a loading = Loaded 'a | Load_error string | Load_exits

fun webhook_load :: "webhook_files \<Rightarrow> string list \<Rightarrow> webhook_settings \<Rightarrow> (string, webhook_settings) result" where
  "webhook_load v [] cfg = Inr cfg"
| "webhook_load v (f # fs) cfg =
     (if f = [] then webhook_load v fs cfg
      else if wf_missing v f then Inl (''no config '' @ f)
      else (case wf_load v f cfg of
              None \<Rightarrow> Inl (''config read '' @ f)
            | Some cfg' \<Rightarrow> webhook_load v fs cfg'))"

definition webhook_NewSettings ::
  "webhook_files \<Rightarrow> webhook_settings \<Rightarrow> string slice \<Rightarrow> webhook_settings loading"
where
  "webhook_NewSettings v zero files =
     (case files of
        None \<Rightarrow> Load_error ''the config files slice cannot be nil''
      | Some fs \<Rightarrow>
          (case webhook_load v fs zero of
             Inl e \<Rightarrow> Load_error e
           | Inr cfg0 \<Rightarrow>
               (let cfg = cfg0\<lparr>ws_account := cleanString (ws_account cfg0), ws_region := trim_space (ws_region cfg0)\<rparr>
                in (case DetectConfiguration (wf_scouted v) (Some (ws_region cfg)) (Some (ws_account cfg))
                           (Some (ws_cluster cfg)) of
                      (Some e, _) \<Rightarrow> Load_error (''failed to auto-detect cloud environment: '' @ e)
                    | (None, r, a, c) \<Rightarrow>
                        (case setCompiledFilters (wf_compile v) (ws_filters cfg) of
                           None \<Rightarrow> Load_exits
                         | Some filters \<Rightarrow>
                             if \<not> wf_valid_uri v (ws_destination cfg) then Load_exits
                             else Loaded (cfg\<lparr>ws_region := settled r, ws_account := settled a, ws_cluster := settled c,
                                              ws_filters := filters, ws_remote_host := ws_destination cfg\<rparr>))))))"

section \<open>The message\<close>

record load_flags =
  fg_account :: string
  fg_region :: string
  fg_cluster :: string
  fg_release :: string
  fg_chart :: string
  fg_agent :: string
  fg_values :: string
  fg_validator :: "string list"
  fg_webhook :: "string list"
  fg_aggregator :: "string list"

record cluster_config =
  ccf_account :: string
  ccf_region :: string
  ccf_namespace :: string
  ccf_provider_id :: string
  ccf_cluster :: string
  ccf_k8s_version :: string
  ccf_release :: string
  ccf_chart :: string
  ccf_agent :: string
  ccf_provider :: string
  ccf_values :: string
  ccf_validator :: string
  ccf_webhook :: string
  ccf_aggregator :: string
  ccf_errors :: "string list"

record config_request =
  crq_url :: url
  crq_headers :: "(string \<times> string) list"
  crq_body :: string

text \<open>
  \<open>le_read\<close>: a file, or the error of reading it; the functions \<open>..._bytes\<close> encode settings;
  \<open>le_marshal\<close> encodes the message; \<open>le_pairs\<close>: the query of a URL as pairs; \<open>le_answer\<close>: the
  status that the server answers, none where there is no answer after the retries.
\<close>

record load_env =
  le_env :: "string \<Rightarrow> string option"
  le_api :: cluster_api
  le_detected :: "environment_info found"
  le_read :: "string \<Rightarrow> (string, string) result"
  le_base64 :: "string \<Rightarrow> string"
  le_validator :: validator_env
  le_validator_bytes :: "validator_settings \<Rightarrow> (string, string) result"
  le_webhook :: webhook_files
  le_webhook_zero :: webhook_settings
  le_webhook_bytes :: "webhook_settings \<Rightarrow> (string, string) result"
  le_gator :: gator_env
  le_gator_bytes :: "gator_settings \<Rightarrow> (string, string) result"
  le_marshal :: "cluster_config \<Rightarrow> (string, string) result"
  le_pairs :: "string \<Rightarrow> (string \<times> string) list"
  le_answer :: "config_request \<Rightarrow> nat option"

fun cloud_provider_text :: "cloud_provider \<Rightarrow> string" where
  "cloud_provider_text CloudProviderAWS = ''aws''"
| "cloud_provider_text CloudProviderGoogle = ''google''"
| "cloud_provider_text CloudProviderAzure = ''azure''"
| "cloud_provider_text CloudProviderOCI = ''oracle''"
| "cloud_provider_text CloudProviderUnknown = ''unknown''"
| "cloud_provider_text CloudProviderMock = ''mock''"

text \<open>The value of a step, empty where it failed, and the errors it adds.\<close>

fun noted :: "(string, string) result \<Rightarrow> string \<times> string list" where
  "noted (Inl e) = ([], [e])"
| "noted (Inr x) = (x, [])"

definition encoded :: "load_env \<Rightarrow> ('s \<Rightarrow> (string, string) result) \<Rightarrow> (string, 's) result \<Rightarrow> string \<times> string list" where
  "encoded v to_bytes s =
     (case s of
        Inl e \<Rightarrow> ([], [e])
      | Inr c \<Rightarrow> (case to_bytes c of
                   Inl e \<Rightarrow> ([], [''failed to encode the settings: '' @ e])
                 | Inr enc \<Rightarrow> (le_base64 v enc, [])))"

fun shown_error :: "scout_error \<Rightarrow> string" where
  "shown_error ErrIMDSv2Unavailable = ''IMDSv2 unavailable''"
| "shown_error ErrNoCloudProviderDetected = ''no cloud provider detected''"
| "shown_error (Scout_error e) = e"

text \<open>What the flags say comes before what was detected.\<close>

definition identity_of ::
  "load_flags \<Rightarrow> environment_info found \<Rightarrow> (string \<times> string \<times> string \<times> string) \<times> string list"
where
  "identity_of fg info =
     (let a = trim_space (fg_account fg); r = trim_space (fg_region fg); c = trim_space (fg_cluster fg)
      in (case info of
            Inl e \<Rightarrow> ((a, r, c, []), [''failed to auto-detect cloud environment: '' @ shown_error e])
          | Inr ei \<Rightarrow> ((if a = [] then ei_account ei else a, if r = [] then ei_region ei else r,
                       if c = [] then ei_cluster ei else c, cloud_provider_text (ei_provider ei)), [])))"

text \<open>The message; none where the webhook settings end the process.\<close>

definition cluster_message :: "load_env \<Rightarrow> load_flags \<Rightarrow> cluster_config option" where
  "cluster_message v fg =
     (case webhook_NewSettings (le_webhook v) (le_webhook_zero v) (Some (fg_webhook fg)) of
        Load_exits \<Rightarrow> None
      | web \<Rightarrow>
          (let (ns, e1) = noted (GetNamespace (le_env v));
               ((account, region, cluster, provider), e2) = identity_of fg (le_detected v);
               (pid, e3) = noted (getProviderID (le_env v) (le_api v));
               (version, e4) = noted (getK8sVersion (le_api v));
               (vals, e5) = (case le_read v (fg_values fg) of Inl e \<Rightarrow> ([], [e]) | Inr raw \<Rightarrow> (le_base64 v raw, []));
               (validator, e6) = encoded v (le_validator_bytes v) (validator_NewSettings (le_validator v) (Some (fg_validator fg)));
               (webhook, e7) = encoded v (le_webhook_bytes v)
                  (case web of Loaded s \<Rightarrow> Inr s | Load_error e \<Rightarrow> Inl e | Load_exits \<Rightarrow> Inl []);
               (aggregator, e8) = encoded v (le_gator_bytes v) (NewSettings (le_gator v) (Some (fg_aggregator fg)))
           in Some \<lparr>ccf_account = account, ccf_region = region, ccf_namespace = ns, ccf_provider_id = pid,
                ccf_cluster = cluster, ccf_k8s_version = version, ccf_release = fg_release fg, ccf_chart = fg_chart fg,
                ccf_agent = fg_agent fg, ccf_provider = provider, ccf_values = vals, ccf_validator = validator,
                ccf_webhook = webhook, ccf_aggregator = aggregator,
                ccf_errors = e1 @ e2 @ e3 @ e4 @ e5 @ e6 @ e7 @ e8\<rparr>))"

section \<open>The post\<close>

definition URLPath :: string where "URLPath = ''/v1/container-metrics/status''"

text \<open>The request for a message; the settings are those of the aggregator.\<close>

definition config_request_for :: "load_env \<Rightarrow> gator_settings \<Rightarrow> cluster_config \<Rightarrow> (string, config_request) result" where
  "config_request_for v s cc =
     (if Host (st_cloudzero s) = [] then Inl ''missing cloudzero host''
      else if GetAPIKey s = [] then Inl ''missing cloudzero api key''
      else (case le_marshal v cc of
              Inl e \<Rightarrow> Inl e
            | Inr data \<Rightarrow>
                if data = [] then Inl ''no data to post''
                else (case fst (GetRemoteAPIBase (le_gator v) s) of
                        None \<Rightarrow> Inl ''failed to get the remote base''
                      | Some endpoint \<Rightarrow>
                          Inr \<lparr>crq_url = endpoint\<lparr>u_path := URLPath,
                                 u_query := values_encode (sort_key fst (le_pairs v (u_query endpoint) @
                                   [(''cloud_account_id'', CloudAccountID s), (''region'', Region s),
                                    (''cluster_name'', ClusterName s), (''type'', ''configLoad'')]))\<rparr>,
                               crq_headers = [(''Authorization'', GetAPIKey s), (''Content-Type'', ''application/x-protobuf''),
                                 (''X-Cloudzero-Config-Status'', ''configLoad'')], crq_body = data\<rparr>)))"

definition config_post :: "load_env \<Rightarrow> gator_settings \<Rightarrow> cluster_config \<Rightarrow> string option" where
  "config_post v s cc =
     (case config_request_for v s cc of
        Inl e \<Rightarrow> Some e
      | Inr rq \<Rightarrow>
          (case le_answer v rq of
             None \<Rightarrow> Some ''failed to send the request''
           | Some status \<Rightarrow> if 300 \<le> status then Some ''invalid status code'' else None))"

text \<open>The command succeeds also when the post failed.  Without settings of the aggregator the post
  dereferences nil.\<close>

datatype load_end = Load_ran cluster_config "string option" | Load_crashed cluster_config | Load_exited

definition load_run :: "load_env \<Rightarrow> load_flags \<Rightarrow> load_end" where
  "load_run v fg =
     (case cluster_message v fg of
        None \<Rightarrow> Load_exited
      | Some cc \<Rightarrow>
          (case NewSettings (le_gator v) (Some (fg_aggregator fg)) of
             Inl _ \<Rightarrow> Load_crashed cc
           | Inr s \<Rightarrow> Load_ran cc (config_post v s cc)))"

section \<open>What the message says\<close>

lemma noted_empty: "snd (noted r) = [] \<longleftrightarrow> is_ok r"
  by (cases r) (auto simp: is_ok_iff)

lemma encoded_empty:
  "snd (encoded v b s) = [] \<longleftrightarrow> (case s of Inl e \<Rightarrow> False | Inr c \<Rightarrow> is_ok (b c))"
  by (auto simp: encoded_def is_ok_iff split: sum.splits)

lemma identity_empty: "snd (identity_of fg d) = [] \<longleftrightarrow> is_ok d"
  by (auto simp: identity_of_def is_ok_iff Let_def split: sum.splits)

text \<open>The eight things that can fail.\<close>

definition steps_ok :: "load_env \<Rightarrow> load_flags \<Rightarrow> bool list" where
  "steps_ok v fg =
     [is_ok (GetNamespace (le_env v)), is_ok (le_detected v), is_ok (getProviderID (le_env v) (le_api v)),
      is_ok (getK8sVersion (le_api v)), is_ok (le_read v (fg_values fg)),
      (case validator_NewSettings (le_validator v) (Some (fg_validator fg)) of
         Inl e \<Rightarrow> False | Inr s \<Rightarrow> is_ok (le_validator_bytes v s)),
      (case webhook_NewSettings (le_webhook v) (le_webhook_zero v) (Some (fg_webhook fg)) of
         Loaded s \<Rightarrow> is_ok (le_webhook_bytes v s) | _ \<Rightarrow> False),
      (case NewSettings (le_gator v) (Some (fg_aggregator fg)) of Inl e \<Rightarrow> False | Inr s \<Rightarrow> is_ok (le_gator_bytes v s))]"

text \<open>The message holds one error for each step that failed and none else, and its identity is what the
  flags say, or else what was detected.\<close>

lemma one_error:
  "length (snd (noted r)) = (if is_ok r then 0 else 1)"
  "length (snd (identity_of fg d)) = (if is_ok d then 0 else 1)"
  "length (snd (encoded v b s)) = (if (case s of Inl e \<Rightarrow> False | Inr c \<Rightarrow> is_ok (b c)) then 0 else 1)"
  by (cases r; simp add: is_ok_iff)
     (auto simp: identity_of_def encoded_def Let_def is_ok_iff split: sum.splits)

section \<open>Properties\<close>

text \<open>A message that is made holds exactly one error for each of the eight steps that failed, so it has none
  if and only if everything could be read and encoded; and the account, the region and the cluster are those of
  the flags where they are given and otherwise those that were detected, if the detection succeeded.\<close>

theorem message_notes_every_failure:
  assumes "cluster_message v fg = Some cc"
  shows "length (ccf_errors cc) = length (filter Not (steps_ok v fg)) \<and>
    (ccf_errors cc = [] \<longleftrightarrow> list_all id (steps_ok v fg)) \<and>
    ccf_account cc = (if trim_space (fg_account fg) \<noteq> [] then trim_space (fg_account fg)
      else case le_detected v of Inl e \<Rightarrow> [] | Inr ei \<Rightarrow> ei_account ei) \<and>
    ccf_region cc = (if trim_space (fg_region fg) \<noteq> [] then trim_space (fg_region fg)
      else case le_detected v of Inl e \<Rightarrow> [] | Inr ei \<Rightarrow> ei_region ei) \<and>
    ccf_cluster cc = (if trim_space (fg_cluster fg) \<noteq> [] then trim_space (fg_cluster fg)
      else case le_detected v of Inl e \<Rightarrow> [] | Inr ei \<Rightarrow> ei_cluster ei)"
proof -
  let ?web = "webhook_NewSettings (le_webhook v) (le_webhook_zero v) (Some (fg_webhook fg))"
  let ?read = "case le_read v (fg_values fg) of Inl e \<Rightarrow> ([], [e]) | Inr raw \<Rightarrow> (le_base64 v raw, [])"
  let ?w = "case ?web of Loaded s \<Rightarrow> Inr s | Load_error e \<Rightarrow> Inl e | Load_exits \<Rightarrow> Inl []"
  have web: "?web \<noteq> Load_exits" using assms by (auto simp: cluster_message_def)
  have errors: "ccf_errors cc = snd (noted (GetNamespace (le_env v))) @ snd (identity_of fg (le_detected v)) @
      snd (noted (getProviderID (le_env v) (le_api v))) @ snd (noted (getK8sVersion (le_api v))) @ snd ?read @
      snd (encoded v (le_validator_bytes v) (validator_NewSettings (le_validator v) (Some (fg_validator fg)))) @
      snd (encoded v (le_webhook_bytes v) ?w) @
      snd (encoded v (le_gator_bytes v) (NewSettings (le_gator v) (Some (fg_aggregator fg))))"
    and who: "(ccf_account cc, ccf_region cc, ccf_cluster cc, ccf_provider cc) = fst (identity_of fg (le_detected v))"
    using assms web by (auto simp: cluster_message_def Let_def case_prod_beta split: loading.splits)
  have "length (snd ?read) = (if is_ok (le_read v (fg_values fg)) then 0 else 1)"
    by (simp add: is_ok_def split: sum.split)
  moreover have "(case ?w of Inl e \<Rightarrow> False | Inr c \<Rightarrow> is_ok (le_webhook_bytes v c)) =
      (case ?web of Loaded s \<Rightarrow> is_ok (le_webhook_bytes v s) | _ \<Rightarrow> False)"
    by (simp split: loading.split)
  ultimately have n: "length (ccf_errors cc) = length (filter Not (steps_ok v fg))"
    unfolding errors by (simp add: one_error steps_ok_def)
  then have "ccf_errors cc = [] \<longleftrightarrow> filter Not (steps_ok v fg) = []" by (metis length_0_conv)
  also have "\<dots> \<longleftrightarrow> list_all id (steps_ok v fg)" by (auto simp: filter_empty_conv list_all_iff)
  finally show ?thesis using n who by (auto simp: identity_of_def Let_def split: sum.splits if_splits)
qed

text \<open>Settings of the aggregator that are refused are never reported: the message notes the error, and then
  the process dies of it before anything is sent.\<close>

theorem bad_settings_never_reported:
  assumes "NewSettings (le_gator v) (Some (fg_aggregator fg)) = Inl e" and "cluster_message v fg = Some cc"
  shows "load_run v fg = Load_crashed cc \<and> e \<in> set (ccf_errors cc) \<and> ccf_aggregator cc = []"
  using assms
  by (auto simp: load_run_def cluster_message_def Let_def case_prod_beta encoded_def split: loading.splits)

lemma label_order:
  "''cloud_account_id'' \<le> ''cluster_name''" "''cloud_account_id'' \<le> ''region''" "''cloud_account_id'' \<le> ''type''"
  "''cluster_name'' \<le> ''region''" "''cluster_name'' \<le> ''type''" "''region'' \<le> ''type''"
  "\<not> ''region'' \<le> ''cluster_name''" "\<not> ''type'' \<le> ''region''" "\<not> ''type'' \<le> ''cluster_name''"
  by code_simp+

text \<open>What is posted: to the status path of the configured host, with the key, and with a query from which
  the server reads the identity of the settings.\<close>

theorem config_request_identifies:
  assumes "config_request_for v s cc = Inr rq" and "le_pairs v (u_query (the (fst (GetRemoteAPIBase (le_gator v) s)))) = []"
  shows "u_path (crq_url rq) = URLPath \<and> map_of (crq_headers rq) ''Authorization'' = Some (GetAPIKey s) \<and> GetAPIKey s \<noteq> [] \<and> crq_body rq \<noteq> [] \<and>
    parse_query (u_query (crq_url rq)) = Some [(''cloud_account_id'', CloudAccountID s), (''cluster_name'', ClusterName s),
      (''region'', Region s), (''type'', ''configLoad'')]"
proof -
  have q: "sort_key fst [(''cloud_account_id'', CloudAccountID s), (''region'', Region s), (''cluster_name'', ClusterName s),
      (''type'', ''configLoad'')] =
    [(''cloud_account_id'', CloudAccountID s), (''cluster_name'', ClusterName s), (''region'', Region s), (''type'', ''configLoad'')]"
    using label_order by simp
  show ?thesis using assms
    by (auto simp: config_request_for_def q parse_values_encode split: if_splits sum.splits option.splits)
qed

end
