(* ===== verification/Certificates.thy ===== *)
theory Certificates
  imports Go_Prelude
begin

text \<open>
  The certificate of the webhook server (\<open>app/domain/certificate/certificate.go\<close>): its generation, the two
  updates that publish it, and the check of an existing one; and the command that does so
  (\<open>app/functions/certifik8s/main.go\<close>).

  Keys, certificates and encodings belong to Go's libraries: a key is what is known of it, and creating
  and encoding are parameters.
\<close>

section \<open>Generating\<close>

datatype curve = P256 | P384 | P521

datatype private_key = Rsa_key int string | Ecdsa_key curve string | Ed25519_key string

record certificate_template =
  ct_serial :: nat
  ct_common_name :: string
  ct_organization :: "string list"
  ct_not_before :: int
  ct_not_after :: int
  ct_usage :: "string list"
  ct_server_auth :: bool
  ct_dns_names :: "string list"
  ct_is_ca :: bool

record certificate_data =
  CABundle :: string
  TLSCrt :: string
  TLSKey :: string

text \<open>
  \<open>cy_rsa\<close>, \<open>cy_ecdsa\<close> and \<open>cy_ed25519\<close>: the secret of a new key; \<open>cy_create\<close>: a certificate from its
  template, that of its parent and the keys of subject and issuer, which are one key here; \<open>cy_pem\<close>:
  a block, none where it cannot be encoded; \<open>cy_key\<close>: the type of the block of a key and its bytes.
\<close>

record crypto_lib =
  cy_rsa :: "int \<Rightarrow> string option"
  cy_ecdsa :: "curve \<Rightarrow> string option"
  cy_ed25519 :: "string option"
  cy_serial :: "nat option"
  cy_now :: int
  cy_create :: "certificate_template \<Rightarrow> certificate_template \<Rightarrow> private_key \<Rightarrow> string option"
  cy_pem :: "string \<Rightarrow> string \<Rightarrow> string option"
  cy_pkcs1 :: "private_key \<Rightarrow> string"
  cy_ec_bytes :: "private_key \<Rightarrow> string option"
  cy_raw :: "private_key \<Rightarrow> string"
  cy_base64 :: "string \<Rightarrow> string"

definition generate_key :: "crypto_lib \<Rightarrow> string \<Rightarrow> int \<Rightarrow> (string, private_key) result" where
  "generate_key C algorithm keySize =
     (if algorithm = ''RSA'' then
        (if keySize < 2048 then Inl ''RSA key size must be at least 2048 bits''
         else (case cy_rsa C keySize of None \<Rightarrow> Inl ''failed to generate RSA key'' | Some k \<Rightarrow> Inr (Rsa_key keySize k)))
      else if algorithm = ''ECDSA'' then
        (if keySize < 256 then Inl ''ECDSA key size must be at least 256 bits''
         else (let generate = (\<lambda>curve. case cy_ecdsa C curve of
                     None \<Rightarrow> Inl ''failed to generate ECDSA key'' | Some k \<Rightarrow> Inr (Ecdsa_key curve k))
               in if keySize = 256 then generate P256
                  else if keySize = 384 then generate P384
                  else if keySize = 521 then generate P521
                  else Inl ''unsupported ECDSA key size''))
      else if algorithm = ''Ed25519'' then
        (if keySize \<noteq> 0 then Inl ''Ed25519 key size is fixed at 256 bits, cannot be specified''
         else (case cy_ed25519 C of None \<Rightarrow> Inl ''failed to generate Ed25519 key'' | Some k \<Rightarrow> Inr (Ed25519_key k)))
      else Inl (''unsupported algorithm: '' @ algorithm))"

definition server_template :: "string \<Rightarrow> string \<Rightarrow> nat \<Rightarrow> int \<Rightarrow> int \<Rightarrow> certificate_template" where
  "server_template service namespace serial now validity =
     \<lparr>ct_serial = serial, ct_common_name = service, ct_organization = [''CloudZero''],
      ct_not_before = now, ct_not_after = now + validity,
      ct_usage = [''DigitalSignature'', ''KeyEncipherment''], ct_server_auth = True,
      ct_dns_names = [service, service @ ''.'' @ namespace, service @ ''.'' @ namespace @ ''.svc''], ct_is_ca = False\<rparr>"

definition ca_template :: "string \<Rightarrow> nat \<Rightarrow> int \<Rightarrow> int \<Rightarrow> certificate_template" where
  "ca_template service serial now validity =
     \<lparr>ct_serial = serial, ct_common_name = service @ ''-ca'', ct_organization = [''CloudZero''],
      ct_not_before = now, ct_not_after = now + validity,
      ct_usage = [''DigitalSignature'', ''CertSign''], ct_server_auth = False, ct_dns_names = [], ct_is_ca = True\<rparr>"

definition encode_key :: "crypto_lib \<Rightarrow> private_key \<Rightarrow> (string, string) result" where
  "encode_key C k =
     (case k of
        Rsa_key _ _ \<Rightarrow>
          (case cy_pem C ''RSA PRIVATE KEY'' (cy_pkcs1 C k) of
             None \<Rightarrow> Inl ''failed to encode RSA private key to PEM'' | Some p \<Rightarrow> Inr p)
      | Ecdsa_key _ _ \<Rightarrow>
          (case cy_ec_bytes C k of
             None \<Rightarrow> Inl ''failed to marshal ECDSA private key''
           | Some bytes \<Rightarrow>
               (case cy_pem C ''EC PRIVATE KEY'' bytes of
                  None \<Rightarrow> Inl ''failed to encode ECDSA private key to PEM'' | Some p \<Rightarrow> Inr p))
      | Ed25519_key _ \<Rightarrow>
          (case cy_pem C ''PRIVATE KEY'' (cy_raw C k) of
             None \<Rightarrow> Inl ''failed to encode Ed25519 private key to PEM'' | Some p \<Rightarrow> Inr p))"

definition GenerateCertificate ::
  "crypto_lib \<Rightarrow> string \<Rightarrow> string \<Rightarrow> int \<Rightarrow> int \<Rightarrow> string \<Rightarrow> (string, certificate_data) result"
where
  "GenerateCertificate C service namespace keySize validity algorithm =
     (if service = [] then Inl ''service name cannot be empty''
      else if namespace = [] then Inl ''namespace cannot be empty''
      else if validity \<le> 0 then Inl ''validity duration must be positive''
      else (case generate_key C algorithm keySize of Inl e \<Rightarrow> Inl e | Inr key \<Rightarrow>
           (case cy_serial C of None \<Rightarrow> Inl ''failed to generate serial number'' | Some serial \<Rightarrow>
           (let server = server_template service namespace serial (cy_now C) validity;
                ca = ca_template service serial (cy_now C) validity
            in (case cy_create C ca ca key of None \<Rightarrow> Inl ''failed to create CA certificate'' | Some caBytes \<Rightarrow>
               (case cy_create C server ca key of None \<Rightarrow> Inl ''failed to create server certificate'' | Some certBytes \<Rightarrow>
               (case cy_pem C ''CERTIFICATE'' caBytes of None \<Rightarrow> Inl ''failed to encode CA certificate to PEM'' | Some caPEM \<Rightarrow>
               (case cy_pem C ''CERTIFICATE'' certBytes of None \<Rightarrow> Inl ''failed to encode server certificate to PEM'' | Some certPEM \<Rightarrow>
               (case encode_key C key of Inl e \<Rightarrow> Inl e | Inr keyPEM \<Rightarrow>
                  Inr \<lparr>CABundle = cy_base64 C caPEM, TLSCrt = cy_base64 C certPEM, TLSKey = cy_base64 C keyPEM\<rparr>)))))))))"

section \<open>Publishing\<close>

text \<open>The client of the API server, over the objects \<open>'o\<close> of the cluster: a patch succeeds or not, and a
  secret is the data it holds, none where it cannot be read or its data is no map.\<close>

record 'o cert_client =
  kc_patch_secret :: "string \<Rightarrow> string \<Rightarrow> (string \<times> string) list \<Rightarrow> 'o \<Rightarrow> bool \<times> 'o"
  kc_patch_webhook :: "string \<Rightarrow> (string \<times> string \<times> string) list \<Rightarrow> 'o \<Rightarrow> bool \<times> 'o"
  kc_secret :: "string \<Rightarrow> string \<Rightarrow> 'o \<Rightarrow> (string \<rightharpoonup> string) option"

definition secret_patch :: "certificate_data \<Rightarrow> (string \<times> string) list" where
  "secret_patch cert = [(''ca.crt'', CABundle cert), (''tls.crt'', TLSCrt cert), (''tls.key'', TLSKey cert)]"

text \<open>The operation, the path and the value of each patch.\<close>

definition webhook_patches :: "certificate_data \<Rightarrow> (string \<times> string \<times> string) list" where
  "webhook_patches cert = [(''replace'', ''/webhooks/0/clientConfig/caBundle'', CABundle cert)]"

definition UpdateResources ::
  "'o cert_client \<Rightarrow> string \<Rightarrow> string \<Rightarrow> string \<Rightarrow> certificate_data \<Rightarrow> 'o \<Rightarrow> string option \<times> 'o"
where
  "UpdateResources K namespace secretName webhookName cert o0 =
     (case kc_patch_secret K namespace secretName (secret_patch cert) o0 of
        (False, o1) \<Rightarrow> (Some ''failed to patch secret'', o1)
      | (True, o1) \<Rightarrow>
          (case kc_patch_webhook K webhookName (webhook_patches cert) o1 of
             (False, o2) \<Rightarrow> (Some ''failed to patch webhook configuration'', o2)
           | (True, o2) \<Rightarrow> (None, o2)))"

text \<open>None where the secret cannot be read.\<close>

definition ValidateExistingCertificate :: "'o cert_client \<Rightarrow> string \<Rightarrow> string \<Rightarrow> 'o \<Rightarrow> bool option" where
  "ValidateExistingCertificate K namespace secretName o0 =
     map_option (\<lambda>data. list_all (\<lambda>f. data f \<noteq> None) [''ca.crt'', ''tls.crt'', ''tls.key'']) (kc_secret K namespace secretName o0)"

text \<open>The command; \<open>validity\<close> is none where the duration cannot be parsed, and the client where there is none.\<close>

record certificate_flags =
  cf_service :: string
  cf_namespace :: string
  cf_secret :: string
  cf_webhook :: string
  cf_keySize :: int
  cf_validity :: "int option"
  cf_algorithm :: string

definition certifik8s_generate ::
  "crypto_lib \<Rightarrow> 'o cert_client option \<Rightarrow> certificate_flags \<Rightarrow> 'o \<Rightarrow> string option \<times> 'o"
where
  "certifik8s_generate C client f o0 =
     (case (cf_validity f, client) of
        (None, _) \<Rightarrow> (Some ''invalid validity duration'', o0)
      | (_, None) \<Rightarrow> (Some ''failed to create Kubernetes client'', o0)
      | (Some validity, Some K) \<Rightarrow>
          (case GenerateCertificate C (cf_service f) (cf_namespace f) (cf_keySize f) validity (cf_algorithm f) of
             Inl e \<Rightarrow> (Some (''failed to generate certificate: '' @ e), o0)
           | Inr cert \<Rightarrow>
               (case UpdateResources K (cf_namespace f) (cf_secret f) (cf_webhook f) cert o0 of
                  (Some e, o1) \<Rightarrow> (Some (''failed to update resources: '' @ e), o1)
                | (None, o1) \<Rightarrow> (None, o1))))"

section \<open>What the API server promises\<close>

text \<open>The data of the secrets and the CA bundles of the webhooks of each configuration, as the documentation
  of the two kinds of patch has it: a merge adds and replaces fields of a secret that exists, a replace changes the
  first webhook of a configuration that has one, and a refused patch changes nothing.\<close>

definition patches_documented ::
  "'o cert_client \<Rightarrow> ('o \<Rightarrow> string \<times> string \<Rightarrow> (string \<rightharpoonup> string) option) \<Rightarrow> ('o \<Rightarrow> string \<Rightarrow> string list option) \<Rightarrow> bool"
where
  "patches_documented K secrets bundles \<longleftrightarrow>
     (\<forall>ns n data o0 ok o1. kc_patch_secret K ns n data o0 = (ok, o1) \<longrightarrow>
        bundles o1 = bundles o0 \<and>
        (if ok then \<exists>held. secrets o0 (ns, n) = Some held \<and> secrets o1 = (secrets o0)((ns, n) \<mapsto> held ++ map_of data)
         else secrets o1 = secrets o0)) \<and>
     (\<forall>n v o0 ok o1. kc_patch_webhook K n [(''replace'', ''/webhooks/0/clientConfig/caBundle'', v)] o0 = (ok, o1) \<longrightarrow>
        secrets o1 = secrets o0 \<and>
        (if ok then \<exists>old rest. bundles o0 n = Some (old # rest) \<and> bundles o1 = (bundles o0)(n \<mapsto> v # rest)
         else bundles o1 = bundles o0))"

lemma secret_fields:
  "held ++ map_of (secret_patch cert) =
     held(''ca.crt'' \<mapsto> CABundle cert, ''tls.crt'' \<mapsto> TLSCrt cert, ''tls.key'' \<mapsto> TLSKey cert)"
  by (rule ext) (simp add: map_add_def secret_patch_def)

lemma secret_patched:
  assumes "patches_documented K secrets bundles" and "kc_patch_secret K ns n (secret_patch cert) o0 = (True, o1)"
  obtains held where "secrets o0 (ns, n) = Some held" "bundles o1 = bundles o0"
    "secrets o1 = (secrets o0)((ns, n) \<mapsto> held(''ca.crt'' \<mapsto> CABundle cert, ''tls.crt'' \<mapsto> TLSCrt cert, ''tls.key'' \<mapsto> TLSKey cert))"
  using assms unfolding patches_documented_def secret_fields [symmetric] by metis

lemma webhook_patched:
  assumes "patches_documented K secrets bundles" and "kc_patch_webhook K n (webhook_patches cert) o0 = (ok, o1)"
  shows "secrets o1 = secrets o0"
    and "ok \<Longrightarrow> \<exists>old rest. bundles o0 n = Some (old # rest) \<and> bundles o1 = (bundles o0)(n \<mapsto> CABundle cert # rest)"
    and "\<not> ok \<Longrightarrow> bundles o1 = bundles o0"
  using assms unfolding patches_documented_def webhook_patches_def by metis+

text \<open>A server of that kind, which refuses what it is told to refuse.\<close>

record kube_objects =
  ko_secrets :: "string \<times> string \<Rightarrow> (string \<rightharpoonup> string) option"
  ko_webhooks :: "string \<Rightarrow> string list option"

definition object_client :: "bool \<Rightarrow> kube_objects cert_client" where
  "object_client refuse_webhook =
     \<lparr>kc_patch_secret = (\<lambda>ns n data o0.
        case ko_secrets o0 (ns, n) of
          None \<Rightarrow> (False, o0)
        | Some held \<Rightarrow> (True, o0\<lparr>ko_secrets := (ko_secrets o0)((ns, n) \<mapsto> held ++ map_of data)\<rparr>)),
      kc_patch_webhook = (\<lambda>n ps o0.
        case (refuse_webhook, ps, ko_webhooks o0 n) of
          (False, [(op, path, v)], Some (old # rest)) \<Rightarrow> (True, o0\<lparr>ko_webhooks := (ko_webhooks o0)(n \<mapsto> v # rest)\<rparr>)
        | _ \<Rightarrow> (False, o0)),
      kc_secret = (\<lambda>ns n o0. ko_secrets o0 (ns, n))\<rparr>"

lemma object_client_documented: "patches_documented (object_client b) ko_secrets ko_webhooks"
  by (auto simp: patches_documented_def object_client_def split: option.splits list.splits bool.splits if_splits)

section \<open>Properties\<close>


definition sample_crypto :: crypto_lib where
  "sample_crypto =
     \<lparr>cy_rsa = (\<lambda>n. Some ''r''), cy_ecdsa = (\<lambda>c. Some ''e''), cy_ed25519 = Some ''d'', cy_serial = Some 5, cy_now = 100,
      cy_create = (\<lambda>t p k. Some (ct_common_name t @ '' by '' @ ct_common_name p)), cy_pem = (\<lambda>t b. Some b),
      cy_pkcs1 = (\<lambda>k. ''p''), cy_ec_bytes = (\<lambda>k. Some ''q''), cy_raw = (\<lambda>k. ''s''), cy_base64 = (\<lambda>s. s)\<rparr>"

definition sample_objects :: kube_objects where
  "sample_objects = \<lparr>ko_secrets = [(''ns'', ''tls'') \<mapsto> [''note'' \<mapsto> ''x'']], ko_webhooks = [''hook'' \<mapsto> [''old'']]\<rparr>"

definition sample_flags :: certificate_flags where
  "sample_flags = \<lparr>cf_service = ''web'', cf_namespace = ''ns'', cf_secret = ''tls'', cf_webhook = ''hook'',
     cf_keySize = 2048, cf_validity = Some 9, cf_algorithm = ''RSA''\<rparr>"


text \<open>The two updates are not one: when the configuration of the webhook cannot be patched, the secret already holds
  the new certificate, and the API server still trusts only the old authority.\<close>

theorem failed_update_leaves_mismatch:
  assumes "patches_documented K secrets bundles"
    and "UpdateResources K ns n hook cert o0 = (Some ''failed to patch webhook configuration'', o1)"
  shows "\<exists>held. secrets o1 (ns, n) = Some held \<and> held ''tls.crt'' = Some (TLSCrt cert) \<and>
    held ''ca.crt'' = Some (CABundle cert) \<and> bundles o1 = bundles o0"
proof -
  from assms(2) obtain om where om: "kc_patch_secret K ns n (secret_patch cert) o0 = (True, om)"
    "kc_patch_webhook K hook (webhook_patches cert) om = (False, o1)"
    by (auto simp: UpdateResources_def split: prod.splits bool.splits)
  obtain held where "bundles om = bundles o0" "secrets om = (secrets o0)((ns, n) \<mapsto> held(''ca.crt'' \<mapsto> CABundle cert,
      ''tls.crt'' \<mapsto> TLSCrt cert, ''tls.key'' \<mapsto> TLSKey cert))" by (rule secret_patched [OF assms(1) om(1)])
  with webhook_patched [OF assms(1) om(2)] show ?thesis by simp
qed

text \<open>An Ed25519 key cannot be had with the default size of the command, which is not zero.\<close>

lemma ed25519_needs_zero_size: "keySize \<noteq> 0 \<Longrightarrow> \<not> is_ok (generate_key C ''Ed25519'' keySize)"
  by (simp add: generate_key_def)

end
