(* ===== verification/Spec2Isabelle.thy ===== *)
theory Spec2Isabelle
  imports Service_Loops Helm_Overrides Regurgitator File_Lock Parallel_Tasks Shipper_Service Secret_Monitor Webhook_Pipeline
    Error_Rate Tls_Monitor Diagnostic_Runner Cluster_Config Certificates
begin

text \<open>
  A model of the CloudZero agent (Go, \<open>app/\<close>) with the theorems that make it correct.  All paths below are
  relative to \<open>app/\<close>.

  \<^bold>\<open>The program.\<close>  The agent runs in a Kubernetes cluster and reports to CloudZero what its resources cost.

  \<^item> The \<^emph>\<open>collector\<close> receives Prometheus remote-write requests, decodes, transforms and filters the
    metrics and puts them into two disk stores, one for cost and one for observability metrics.
  \<^item> The \<^emph>\<open>shipper\<close> shares the directory with it: under a lock file it asks for presigned URLs, uploads the
    finished files, marks them as uploaded and deletes old ones when the disk fills up.  At the end of a
    pod it waits for a marker file that the collector writes.
  \<^item> The \<^emph>\<open>webhook server\<close> sees every admission request of the API server, keeps the labels and annotations
    of the resources in a database, pushes what is new as time series and deletes what is old.  Its
    \<^emph>\<open>backfill\<close> job lists the whole cluster once and streams the same records.
  \<^item> The \<^emph>\<open>validator\<close> checks the surroundings at the start and the end of a pod and posts a report.
  \<^item> \<^emph>\<open>Tools\<close>: a transcoder of metrics between formats, an extractor of Helm overrides, a reporter of the
    configuration and a generator of the webhook's certificate.

  \<^bold>\<open>The theories.\<close>  A record has the fields of the struct it models, a datatype its alternatives, and a
  definition has the name of the function it translates, prefixed where two packages use the same name.

  \<^item> \<open>Go_Prelude\<close>, \<open>Go_Text\<close>, \<open>Go_Float\<close>: what the code uses of \<open>strings\<close>, \<open>strconv\<close>, \<open>net/url\<close>,
    \<open>path/filepath\<close> and \<open>float64\<close>, results with errors, and the lemmas that the components share.
    Floats are NaN, the infinities and rationals; the rounding of IEEE 754 is a function with named laws.
  \<^item> \<open>Metric_Model\<close> (\<open>types/metric.go\<close>): the metric, its JSON document and its Parquet row.
    \<open>Metric_Filters\<close> (\<open>domain/filter\<close>, \<open>domain/metric_filter.go\<close>) and \<open>Dcgm_Transform\<close>
    (\<open>domain/transform\<close>): classification and GPU metrics.
  \<^item> \<open>Store_Interface\<close>, \<open>File_System\<close>, \<open>Disk_Store\<close> (\<open>types/store.go\<close>, \<open>storage/disk\<close>): the contract of a
    store, files with their directory, and the store that writes them.
    \<open>Metric_Collector\<close> (\<open>domain/metric_collector.go\<close>, \<open>handlers/remote_write.go\<close>) is its client.
  \<^item> \<open>File_Lock\<close> (\<open>utils/lock\<close>), \<open>Parallel_Tasks\<close> (\<open>utils/parallel\<close>), \<open>Metric_Shipper\<close>,
    \<open>Disk_Manager\<close> and \<open>Shipper_Service\<close> (\<open>domain/shipper\<close>, \<open>functions/shipper\<close>, \<open>functions/collector\<close>).
  \<^item> \<open>Gator_Settings\<close> (\<open>config/gator\<close>), \<open>Cloud_Scout\<close> (\<open>utils/scout\<close>) and \<open>Secret_Monitor\<close>
    (\<open>domain/monitor/secret_monitor.go\<close>): the settings that collector and shipper share.
  \<^item> \<open>Resource_Repo\<close> (\<open>storage/repo\<close>, \<open>domain/webhook/handler/generic.go\<close>), \<open>Metrics_Pusher\<close> and
    \<open>Service_Loops\<close> (\<open>domain/pusher\<close>, \<open>domain/housekeeper\<close>), \<open>Webhook_Handlers\<close>, \<open>Webhook_Review\<close>
    (\<open>domain/webhook\<close>, \<open>handlers/webhook.go\<close>), \<open>Streaming_Store\<close> (\<open>storage/streaming\<close>) and \<open>Backfiller\<close>
    (\<open>domain/webhook/backfiller\<close>); \<open>Webhook_Pipeline\<close> composes the server.
  \<^item> \<open>Error_Rate\<close> (\<open>http/middleware/errorrate.go\<close>), \<open>Tls_Monitor\<close> (\<open>domain/monitor/tls_monitor.go\<close>).
  \<^item> \<open>Validator_Settings\<close> (\<open>config/validator\<close>), \<open>Diagnostic_Checks\<close> (\<open>domain/diagnostic\<close>, \<open>http/client\<close>) and
    \<open>Diagnostic_Runner\<close> (\<open>domain/diagnostic/runner\<close>, \<open>functions/agent-validator\<close>).
  \<^item> \<open>Cluster_Config\<close> (\<open>functions/cluster-config\<close>, \<open>config/webhook/settings.go\<close>) and \<open>Certificates\<close>
    (\<open>domain/certificate\<close>, \<open>functions/certifik8s\<close>): the report of the configuration and the certificate of the webhook.
  \<^item> \<open>Metric_Transcode\<close> (\<open>domain/metricio\<close>), \<open>Regurgitator\<close> (\<open>functions/regurgitator\<close>) and
    \<open>Helm_Overrides\<close> (\<open>functions/helmless\<close>).
\<close>

text \<open>
  \<^bold>\<open>How the code is modelled.\<close>

  \<^item> \<^emph>\<open>State\<close> is passed explicitly.  An operation that can fail returns a sum or an option, with a branch
    for every error and early return of the source; a panic and an exit are outcomes of their own.
  \<^item> \<^emph>\<open>Libraries and services\<close> (regular expressions, protobuf, snappy, brotli, YAML, X.509, SQL as far as
    it is not a query that the code builds, HTTP servers, the clock, random identifiers) are arguments,
    most of them fields of an environment record of the call.  What a theorem needs of them is a named
    hypothesis, and its witness instantiates it.
  \<^item> \<^emph>\<open>Concurrency\<close> is a step relation, or a list of actions of which each must be possible, wherever
    goroutines share state: the lock file, the pool of workers, the scouts, the secret monitor, the loops of
    the webhook server, the checks of a stage, the channels of the transcoder.  Where an operation reads and
    later writes a store, its environment holds what others do in between.
  \<^item> \<^emph>\<open>Machine integers\<close> are words where wrap-around could matter (sizes of a disk) and integers elsewhere.

  \<^bold>\<open>Interfaces.\<close>  The locales state what a client relies on and are interpreted on the definitions of the
  components: \<open>writable_store\<close> and \<open>store_pair\<close> (the disk store; the client is the collector),
  \<open>metric_transformer\<close> (the DCGM transformer and the chain of transformers), \<open>resource_store\<close> and
  \<open>content_store\<close> (the repository and the streaming store; the clients are the webhook's handlers),
  \<open>cloud_scout\<close> (four providers), \<open>diagnostic_check\<close> (nine checks), \<open>batch_reader\<close> and \<open>metric_writer\<close>
  (CSV, JSON and Parquet).

  \<^bold>\<open>What the theorems show.\<close>

  \<^item> \<^emph>\<open>No metric is lost\<close>: an acknowledged request is in the stores exactly as the filters route it; Put and
    Flush refine a store that is a multiset; what was flushed can be read back; no file leaves the disk before
    its upload succeeded, and with a granting service all files are shipped; the service keeps this over all
    its cycles, and the shutdown of the collector leaves every metric on disk.
  \<^item> \<^emph>\<open>Resources\<close>: the webhook allows every request; writing refines an update of a finite map; rows stay
    unique; a flush sends the unsent rows once, in batches that fit, and marks them; the housekeeper deletes
    only old rows that were sent; what leaves the cluster passed the filters; the backfill exports every
    resource that the cluster lists.
  \<^item> \<^emph>\<open>Decisions\<close>: accepted settings are complete and stable; detection names a provider that recognised
    the host and ends; the verdict of the diagnostics is that of its checks under every schedule; the error
    rate is that of the full history; overrides reproduce the configuration; a published certificate is one
    that the API server trusts.
  \<^item> \<^emph>\<open>Concurrency\<close>: mutual exclusion of the lock file as long as no lock is stale; the pool returns with
    all errors; channels neither lose, duplicate nor reorder, and they drain.
  \<^item> \<^emph>\<open>Defects\<close>: several theorems prove that the code does something that it does not mean to, such as
    \<open>failed_reload_blocks_all\<close>, \<open>failed_mark_silences_pusher\<close>, \<open>too_many_errors_block_forever\<close>,
    \<open>stale_removal_breaks_exclusion\<close>, \<open>flush_overwrites_concurrent_write\<close>, \<open>padded_stage_skipped\<close>.

  \<^bold>\<open>Bounds and loops.\<close>  The listings of the backfill and the wait for the marker may run for ever and are
  partial functions; that they end is proved under the hypotheses that make them end (finitely many pages; the
  deadline, after at most 102 looks).  All other loops recurse structurally or on a number the source gives:
  the attempts of the HTTP clients and checks (twelve for kube-state-metrics, three for the remote writer, ten
  for its adapter, so at most thirty requests for each batch), the batches of 500 records of the streaming store and
  of 10000 metrics of the readers.  A scout takes at most three steps.  The drain of the transcoder is bounded
  by a measure of its channels, and the error channel of the pool holds 100 errors.

  \<^bold>\<open>Not modelled.\<close>  Logging, Prometheus counters and tracing; the wiring of the commands (flags, HTTP
  servers, routes); the drivers of the database; the watcher of files; profiling and health endpoints; the
  inspector of HTTP answers; the client of Kubernetes.  They hold no state that the modelled components read, or only call libraries.
  The bytes of JSON, Parquet, CSV, brotli and protobuf are not modelled either: files and messages are the
  trees and rows that the decoders of these formats return.
\<close>

end
